(* ===== verification/Prelude.thy ===== *)
theory Prelude
  imports Main "HOL-Library.Char_ord" "HOL-Library.List_Lexorder" "HOL-Library.Sublist"
begin

text \<open>
  The vocabulary every component of the development shares: the Rust standard library
  as far as the sources use it. A \<open>String\<close>, a \<open>&str\<close> and a \<open>Vec<u8>\<close> are all
  lists of bytes, one \<open>char\<close> per byte of the UTF-8 text, so \<open>len\<close>, \<open>bytes\<close>,
  slicing and comparison are the list operations. \<open>Result<T, E>\<close> is the sum
  \<open>'e + 'a\<close> with \<open>Inl\<close> for the error; \<open>?\<close> is \<open>rbind\<close>. The unsigned 64-bit
  integers are natural numbers: saturating and wrapping sums are written out, and
  parsing refuses what does not fit.
\<close>

type_synonym bytes = string

named_theorems result_simps \<open>rewriting Results: bind, map, collect\<close>
named_theorems string_simps \<open>facts on the Rust string operations\<close>

section \<open>Results\<close>

fun rbind :: "'e + 'a \<Rightarrow> ('a \<Rightarrow> 'e + 'b) \<Rightarrow> 'e + 'b" where
  "rbind (Inl e) f = Inl e"
| "rbind (Inr a) f = f a"

fun rmap :: "('a \<Rightarrow> 'b) \<Rightarrow> 'e + 'a \<Rightarrow> 'e + 'b" where
  "rmap f (Inl e) = Inl e"
| "rmap f (Inr a) = Inr (f a)"

fun rmap_err :: "('e \<Rightarrow> 'f) \<Rightarrow> 'e + 'a \<Rightarrow> 'f + 'a" where
  "rmap_err f (Inl e) = Inl (f e)"
| "rmap_err f (Inr a) = Inr a"

fun ok_or :: "'e \<Rightarrow> 'a option \<Rightarrow> 'e + 'a" where
  "ok_or e None = Inl e"
| "ok_or e (Some a) = Inr a"

fun is_ok :: "'e + 'a \<Rightarrow> bool" where
  "is_ok (Inl e) = False"
| "is_ok (Inr a) = True"

text \<open>\<open>iter.map(f).collect::<Result<Vec<_>, _>>()\<close> stops at the first error.\<close>

fun collect_map :: "('a \<Rightarrow> 'e + 'b) \<Rightarrow> 'a list \<Rightarrow> 'e + 'b list" where
  "collect_map f [] = Inr []"
| "collect_map f (x # xs) =
     (case f x of
        Inl e \<Rightarrow> Inl e
      | Inr y \<Rightarrow> (case collect_map f xs of Inl e \<Rightarrow> Inl e | Inr ys \<Rightarrow> Inr (y # ys)))"

lemma rbind_Inr_iff [result_simps]: "rbind r f = Inr y \<longleftrightarrow> (\<exists>x. r = Inr x \<and> f x = Inr y)"
  by (cases r) auto

lemma rbind_Inl_iff [result_simps]:
  "rbind r f = Inl e \<longleftrightarrow> r = Inl e \<or> (\<exists>x. r = Inr x \<and> f x = Inl e)"
  by (cases r) auto

lemma rmap_Inr_iff [result_simps]: "rmap f r = Inr y \<longleftrightarrow> (\<exists>x. r = Inr x \<and> y = f x)"
  by (cases r) auto

lemma rmap_err_Inr_iff [result_simps]: "rmap_err f r = Inr y \<longleftrightarrow> r = Inr y"
  by (cases r) auto

lemma rmap_err_Inl_iff [result_simps]: "rmap_err f r = Inl e \<longleftrightarrow> (\<exists>d. r = Inl d \<and> e = f d)"
  by (cases r) auto

lemma ok_or_Inr_iff [result_simps]: "ok_or e x = Inr y \<longleftrightarrow> x = Some y"
  by (cases x) auto

lemma ok_or_Inl_iff [result_simps]: "ok_or e x = Inl d \<longleftrightarrow> x = None \<and> d = e"
  by (cases x) auto

lemma is_ok_iff: "is_ok r \<longleftrightarrow> (\<exists>y. r = Inr y)"
  by (cases r) auto

lemma collect_map_Inr_iff [result_simps]:
  "collect_map f xs = Inr ys \<longleftrightarrow> list_all2 (\<lambda>x y. f x = Inr y) xs ys"
proof (induction xs arbitrary: ys)
  case Nil
  then show ?case by auto
next
  case (Cons x xs)
  show ?case
  proof (cases "collect_map f xs")
    case (Inl e)
    then have "\<nexists>zs. list_all2 (\<lambda>x y. f x = Inr y) xs zs"
      using Cons.IH by auto
    with Inl show ?thesis
      by (auto simp: list_all2_Cons1 split: sum.splits)
  next
    case (Inr zs)
    then have "list_all2 (\<lambda>x y. f x = Inr y) xs ws \<longleftrightarrow> ws = zs" for ws
      using Cons.IH [of ws] by auto
    with Inr show ?thesis
      by (auto simp: list_all2_Cons1 split: sum.splits)
  qed
qed

lemma collect_map_Inl:
  "collect_map f xs = Inl e \<Longrightarrow> \<exists>x \<in> set xs. f x = Inl e"
  by (induction xs) (auto split: sum.splits)

lemma collect_map_each: "collect_map f xs = Inr ys \<Longrightarrow> x \<in> set xs \<Longrightarrow> \<exists>y. f x = Inr y"
  by (auto simp: collect_map_Inr_iff list_all2_conv_all_nth in_set_conv_nth)

lemma collect_map_each_result:
  "collect_map f xs = Inr ys \<Longrightarrow> y \<in> set ys \<Longrightarrow> \<exists>x \<in> set xs. f x = Inr y"
  by (auto simp: collect_map_Inr_iff list_all2_conv_all_nth in_set_conv_nth) (metis nth_mem)

lemma collect_map_cong [fundef_cong]:
  "xs = ys \<Longrightarrow> (\<And>x. x \<in> set ys \<Longrightarrow> f x = g x) \<Longrightarrow> collect_map f xs = collect_map g ys"
  by (induction xs arbitrary: ys) (auto split: sum.split)

section \<open>Unsigned 64-bit integers\<close>

definition u64_max :: nat where
  "u64_max = 18446744073709551615"

definition i64_max :: int where
  "i64_max = 9223372036854775807"

definition saturating_add :: "nat \<Rightarrow> nat \<Rightarrow> nat" where
  "saturating_add a b = min (a + b) u64_max"

definition wrapping_add :: "nat \<Rightarrow> nat \<Rightarrow> nat" where
  \<comment> \<open>a plain \<open>+\<close> on \<open>u64\<close> in a release build\<close>
  "wrapping_add a b = (a + b) mod (u64_max + 1)"

text \<open>A plain \<open>+\<close> on \<open>i64\<close> in a release build.\<close>

definition i64_wrap :: "int \<Rightarrow> int" where
  "i64_wrap i = (i + (i64_max + 1)) mod (2 * (i64_max + 1)) - (i64_max + 1)"

definition i64_range :: "int \<Rightarrow> bool" where
  "i64_range i \<longleftrightarrow> - i64_max - 1 \<le> i \<and> i \<le> i64_max"

lemma i64_wrap_range [simp]: "i64_range (i64_wrap i)"
  using pos_mod_sign [of "2 * (i64_max + 1)" "i + (i64_max + 1)"]
    pos_mod_bound [of "2 * (i64_max + 1)" "i + (i64_max + 1)"]
  by (simp add: i64_range_def i64_wrap_def i64_max_def)

lemma i64_wrap_id: "i64_range i \<Longrightarrow> i64_wrap i = i"
  by (simp add: i64_range_def i64_wrap_def i64_max_def)

lemma saturating_add_bound [simp]: "saturating_add a b \<le> u64_max"
  by (simp add: saturating_add_def)

lemma saturating_add_less: "a < u64_max \<Longrightarrow> saturating_add a 1 = a + 1"
  by (simp add: saturating_add_def)

lemma saturating_add_mono: "a \<le> u64_max \<Longrightarrow> a \<le> saturating_add a b"
  by (simp add: saturating_add_def)

lemma wrapping_add_bound [simp]: "wrapping_add a b \<le> u64_max"
  using mod_less_divisor [of "u64_max + 1" "a + b"] by (simp add: wrapping_add_def)

lemma wrapping_add_less: "a < u64_max \<Longrightarrow> wrapping_add a 1 = a + 1"
  by (simp add: wrapping_add_def u64_max_def)

section \<open>ASCII classes\<close>

definition code :: "char \<Rightarrow> nat" where
  "code c = of_char c"

definition is_ascii_digit :: "char \<Rightarrow> bool" where
  "is_ascii_digit c \<longleftrightarrow> 48 \<le> code c \<and> code c \<le> 57"

definition is_ascii_upper :: "char \<Rightarrow> bool" where
  "is_ascii_upper c \<longleftrightarrow> 65 \<le> code c \<and> code c \<le> 90"

definition is_ascii_lower :: "char \<Rightarrow> bool" where
  "is_ascii_lower c \<longleftrightarrow> 97 \<le> code c \<and> code c \<le> 122"

definition is_ascii_alphabetic :: "char \<Rightarrow> bool" where
  "is_ascii_alphabetic c \<longleftrightarrow> is_ascii_upper c \<or> is_ascii_lower c"

definition is_ascii_alphanumeric :: "char \<Rightarrow> bool" where
  "is_ascii_alphanumeric c \<longleftrightarrow> is_ascii_alphabetic c \<or> is_ascii_digit c"

definition is_ascii_hexdigit :: "char \<Rightarrow> bool" where
  "is_ascii_hexdigit c \<longleftrightarrow> is_ascii_digit c \<or> 65 \<le> code c \<and> code c \<le> 70
     \<or> 97 \<le> code c \<and> code c \<le> 102"

definition ascii_lower_char :: "char \<Rightarrow> char" where
  "ascii_lower_char c = (if is_ascii_upper c then char_of (code c + 32) else c)"

definition ascii_upper_char :: "char \<Rightarrow> char" where
  "ascii_upper_char c = (if is_ascii_lower c then char_of (code c - 32) else c)"

definition to_ascii_lowercase :: "string \<Rightarrow> string" where
  "to_ascii_lowercase s = map ascii_lower_char s"

definition to_ascii_uppercase :: "string \<Rightarrow> string" where
  "to_ascii_uppercase s = map ascii_upper_char s"

lemmas ascii_defs = code_def is_ascii_digit_def is_ascii_upper_def is_ascii_lower_def
  is_ascii_alphabetic_def is_ascii_alphanumeric_def

lemma code_bound [simp]: "code c < 256"
  by (simp add: code_def)

lemma code_inject [simp]: "code c = code d \<longleftrightarrow> c = d"
  by (simp add: code_def)

lemma code_char_of [simp]: "n < 256 \<Longrightarrow> code (char_of n) = n"
  by (simp add: code_def)

lemma char_less_code: "c < d \<longleftrightarrow> code c < code d"
  by (simp add: less_char_def code_def)

section \<open>String operations\<close>

definition starts_with :: "string \<Rightarrow> string \<Rightarrow> bool" where
  "starts_with s p \<longleftrightarrow> prefix p s"

definition ends_with :: "string \<Rightarrow> string \<Rightarrow> bool" where
  "ends_with s p \<longleftrightarrow> suffix p s"

definition strip_prefix :: "string \<Rightarrow> string \<Rightarrow> string option" where
  "strip_prefix s p = (if prefix p s then Some (drop (length p) s) else None)"

definition strip_suffix :: "string \<Rightarrow> string \<Rightarrow> string option" where
  "strip_suffix s p = (if suffix p s then Some (take (length s - length p) s) else None)"

text \<open>\<open>s.split(c)\<close>: always at least one piece.\<close>

fun split_on :: "char \<Rightarrow> string \<Rightarrow> string list" where
  "split_on c [] = [[]]"
| "split_on c (x # xs) =
     (if x = c then [] # split_on c xs
      else (case split_on c xs of [] \<Rightarrow> [[x]] | p # ps \<Rightarrow> (x # p) # ps))"

text \<open>\<open>s.splitn(n, c)\<close>: at most \<open>n\<close> pieces, the last one unsplit.\<close>

fun splitn_on :: "nat \<Rightarrow> char \<Rightarrow> string \<Rightarrow> string list" where
  "splitn_on 0 c s = []"
| "splitn_on (Suc 0) c s = [s]"
| "splitn_on (Suc (Suc n)) c s =
     (if c \<in> set s
      then takeWhile (\<lambda>x. x \<noteq> c) s # splitn_on (Suc n) c (drop 1 (dropWhile (\<lambda>x. x \<noteq> c) s))
      else [s])"

text \<open>\<open>s.find(c)\<close> with the two slices \<open>&s[..i]\<close> and \<open>&s[i + 1..]\<close> around it.\<close>

definition split_once :: "char \<Rightarrow> string \<Rightarrow> (string \<times> string) option" where
  "split_once c s =
     (if c \<in> set s
      then Some (takeWhile (\<lambda>x. x \<noteq> c) s, drop 1 (dropWhile (\<lambda>x. x \<noteq> c) s))
      else None)"

fun join :: "string \<Rightarrow> string list \<Rightarrow> string" where
  "join sep [] = []"
| "join sep [x] = x"
| "join sep (x # y # ys) = x @ sep @ join sep (y # ys)"

fun contains_str :: "string \<Rightarrow> string \<Rightarrow> bool" where
  "contains_str [] p = (p = [])"
| "contains_str (x # xs) p = (prefix p (x # xs) \<or> contains_str xs p)"

definition trim_start_char :: "char \<Rightarrow> string \<Rightarrow> string" where
  "trim_start_char c s = dropWhile (\<lambda>x. x = c) s"

definition trim_end_char :: "char \<Rightarrow> string \<Rightarrow> string" where
  "trim_end_char c s = rev (dropWhile (\<lambda>x. x = c) (rev s))"

text \<open>
  \<open>str::trim\<close> drops the characters with the Unicode property White\_Space; these are
  their UTF-8 encodings.
\<close>

definition unicode_whitespace :: "string list" where
  "unicode_whitespace =
     map (\<lambda>n. [char_of n]) [9, 10, 11, 12, 13, 32 :: nat]
     @ map (map char_of) [[194, 133], [194, 160], [225, 154, 128 :: nat]]
     @ map (\<lambda>n. map char_of [226, 128, n]) [128, 129, 130, 131, 132, 133, 134, 135, 136, 137, 138,
                                            168, 169, 175 :: nat]
     @ map (map char_of) [[226, 129, 159], [227, 128, 128 :: nat]]"

text \<open>\<open>s.trim_start_matches(p)\<close> for a string pattern: every leading copy of it.\<close>

function trim_start_matches :: "string list \<Rightarrow> string \<Rightarrow> string" where
  "trim_start_matches ps s =
     (case find (\<lambda>p. p \<noteq> [] \<and> prefix p s) ps of
        None \<Rightarrow> s
      | Some p \<Rightarrow> trim_start_matches ps (drop (length p) s))"
  by pat_completeness auto
termination
proof (relation "measure (\<lambda>(ps, s). length s)", goal_cases)
  case (2 ps s p)
  then have "p \<noteq> []" and "prefix p s"
    by (auto simp: find_Some_iff)
  then show ?case
    by (auto simp: prefix_def)
qed simp

declare trim_start_matches.simps [simp del]

definition trim_start :: "string \<Rightarrow> string" where
  "trim_start s = trim_start_matches unicode_whitespace s"

definition trim_end :: "string \<Rightarrow> string" where
  "trim_end s = rev (trim_start_matches (map rev unicode_whitespace) (rev s))"

definition trim :: "string \<Rightarrow> string" where
  "trim s = trim_end (trim_start s)"

section \<open>Facts about splitting and trimming\<close>

lemma split_on_nonempty [simp]: "split_on c s \<noteq> []"
  by (induction s) (auto split: list.splits)

lemma split_on_no_sep [string_simps]: "c \<notin> set s \<Longrightarrow> split_on c s = [s]"
  by (induction s) auto

lemma split_on_append [string_simps]:
  "c \<notin> set p \<Longrightarrow> split_on c (p @ c # s) = p # split_on c s"
  by (induction p) (auto split: list.splits)

lemma join_split_on: "join [c] (split_on c s) = s"
proof (induction s)
  case (Cons x xs)
  show ?case
  proof (cases "split_on c xs")
    case (Cons p ps)
    with Cons.IH show ?thesis by (cases ps) auto
  qed simp
qed simp

lemma split_on_join:
  "xs \<noteq> [] \<Longrightarrow> (\<And>x. x \<in> set xs \<Longrightarrow> c \<notin> set x) \<Longrightarrow> split_on c (join [c] xs) = xs"
proof (induction xs)
  case (Cons x xs)
  then show ?case by (cases xs) (simp_all add: split_on_no_sep split_on_append)
qed simp

lemma split_on_inject: "split_on c s = split_on c t \<Longrightarrow> s = t"
  using join_split_on by metis

lemma split_on_pieces: "p \<in> set (split_on c s) \<Longrightarrow> c \<notin> set p"
proof (induction s arbitrary: p)
  case (Cons x xs)
  show ?case
  proof (cases "split_on c xs")
    case (Cons q qs)
    with Cons.prems Cons.IH show ?thesis
      by (cases "x = c") auto
  qed simp
qed simp

lemma last_split_on_append [string_simps]:
  "c \<notin> set s \<Longrightarrow> last (split_on c (p @ c # s)) = s"
proof (induction p)
  case (Cons x p)
  have "split_on c (p @ c # s) \<noteq> [q]" for q
  proof
    assume *: "split_on c (p @ c # s) = [q]"
    then have "p @ c # s = q" using join_split_on [of c "p @ c # s"] by simp
    then show False using split_on_pieces [of q c "p @ c # s"] * by auto
  qed
  with Cons show ?case
    by (cases "split_on c (p @ c # s)") (auto split: list.splits)
qed (simp add: split_on_no_sep)

lemma split_once_append: "c \<notin> set p \<Longrightarrow> split_once c (p @ c # s) = Some (p, s)"
  by (induction p) (auto simp: split_once_def)

lemma split_once_None [simp]: "split_once c s = None \<longleftrightarrow> c \<notin> set s"
  by (simp add: split_once_def)

lemma split_once_Some: "split_once c s = Some (p, r) \<longleftrightarrow> s = p @ c # r \<and> c \<notin> set p"
proof
  assume *: "split_once c s = Some (p, r)"
  then have c: "c \<in> set s" and p: "p = takeWhile (\<lambda>x. x \<noteq> c) s"
    and r: "r = drop 1 (dropWhile (\<lambda>x. x \<noteq> c) s)"
    by (auto simp: split_once_def split: if_splits)
  from c have ne: "dropWhile (\<lambda>x. x \<noteq> c) s \<noteq> []" by simp
  from hd_dropWhile [OF ne] have "dropWhile (\<lambda>x. x \<noteq> c) s = c # r"
    using ne r by (cases "dropWhile (\<lambda>x. x \<noteq> c) s") auto
  then have "s = p @ c # r"
    using takeWhile_dropWhile_id [of "\<lambda>x. x \<noteq> c" s] p by simp
  moreover have "c \<notin> set p"
    using p set_takeWhileD by fastforce
  ultimately show "s = p @ c # r \<and> c \<notin> set p" ..
qed (auto simp: split_once_append)

lemma strip_prefix_append [simp]: "strip_prefix (p @ s) p = Some s"
  by (simp add: strip_prefix_def)

lemma strip_prefix_Some: "strip_prefix s p = Some r \<longleftrightarrow> s = p @ r"
  by (auto simp: strip_prefix_def prefix_def)

lemma strip_suffix_append [simp]: "strip_suffix (s @ p) p = Some s"
  by (simp add: strip_suffix_def suffix_def)

lemma trim_start_matches_id:
  "\<forall>p \<in> set ps. p \<noteq> [] \<longrightarrow> \<not> prefix p s \<Longrightarrow> trim_start_matches ps s = s"
proof -
  assume "\<forall>p \<in> set ps. p \<noteq> [] \<longrightarrow> \<not> prefix p s"
  then have "find (\<lambda>p. p \<noteq> [] \<and> prefix p s) ps = None"
    by (auto simp: find_None_iff)
  then show ?thesis
    by (subst trim_start_matches.simps) simp
qed

lemma whitespace_ends:
  "list_all (\<lambda>p. p \<noteq> [] \<and> \<not> is_ascii_alphanumeric (hd p) \<and> \<not> is_ascii_alphanumeric (hd (rev p)))
     unicode_whitespace"
  by (simp add: unicode_whitespace_def ascii_defs)

lemma whitespace_heads:
  assumes "p \<in> set unicode_whitespace"
  shows "\<exists>c r. p = c # r \<and> \<not> is_ascii_alphanumeric c"
    and "\<exists>c r. rev p = c # r \<and> \<not> is_ascii_alphanumeric c"
proof -
  have *: "p \<noteq> []" "\<not> is_ascii_alphanumeric (hd p)" "\<not> is_ascii_alphanumeric (hd (rev p))"
    using whitespace_ends assms by (auto simp: list_all_iff)
  then show "\<exists>c r. p = c # r \<and> \<not> is_ascii_alphanumeric c" by (cases p) auto
  from * show "\<exists>c r. rev p = c # r \<and> \<not> is_ascii_alphanumeric c" by (cases "rev p") auto
qed

lemma trim_start_alnum: "is_ascii_alphanumeric c \<Longrightarrow> trim_start (c # s) = c # s"
  unfolding trim_start_def
  by (rule trim_start_matches_id) (use whitespace_heads(1) in \<open>fastforce simp: prefix_Cons\<close>)

lemma trim_end_alnum: "is_ascii_alphanumeric c \<Longrightarrow> trim_end (s @ [c]) = s @ [c]"
proof -
  assume c: "is_ascii_alphanumeric c"
  have "trim_start_matches (map rev unicode_whitespace) (c # rev s) = c # rev s"
    by (rule trim_start_matches_id) (use whitespace_heads(2) c in \<open>fastforce simp: prefix_Cons\<close>)
  then show ?thesis
    by (simp add: trim_end_def)
qed

lemma trim_alnum_ends:
  assumes "s \<noteq> []" and "is_ascii_alphanumeric (hd s)" and "is_ascii_alphanumeric (last s)"
  shows "trim s = s"
proof -
  have "trim_start s = s"
    using assms trim_start_alnum by (cases s) auto
  moreover have "trim_end s = s"
    using assms trim_end_alnum [of "last s" "butlast s"] by simp
  ultimately show ?thesis by (simp add: trim_def)
qed

lemma is_ascii_alphanumericI:
  "is_ascii_digit c \<Longrightarrow> is_ascii_alphanumeric c"
  "is_ascii_alphabetic c \<Longrightarrow> is_ascii_alphanumeric c"
  by (simp_all add: is_ascii_alphanumeric_def)

end
