(* ===== verification/BTree_Map.thy ===== *)
theory BTree_Map
  imports Prelude
begin

text \<open>
  The ordered maps of the program (\<open>std::collections::BTreeMap\<close>, and
  \<open>serde_json::Map\<close>, which is one): association lists with strictly increasing keys, so
  iteration is by key and equality of maps is equality of lists. The locale
  \<open>ordered_map\<close> is the interface its clients use (the JSON objects, the control-plane
  catalog, the object bucket); it is interpreted here on the model.
\<close>

fun bt_insert :: "'k :: linorder \<Rightarrow> 'v \<Rightarrow> ('k \<times> 'v) list \<Rightarrow> ('k \<times> 'v) list" where
  "bt_insert k v [] = [(k, v)]"
| "bt_insert k v ((k', v') # m) =
     (if k < k' then (k, v) # (k', v') # m
      else if k = k' then (k, v) # m
      else (k', v') # bt_insert k v m)"

definition bt_get :: "('k \<times> 'v) list \<Rightarrow> 'k \<Rightarrow> 'v option" where
  "bt_get m k = map_of m k"

definition bt_remove :: "'k \<Rightarrow> ('k \<times> 'v) list \<Rightarrow> ('k \<times> 'v) list" where
  "bt_remove k m = filter (\<lambda>(k', _). k' \<noteq> k) m"

definition bt_keys :: "('k \<times> 'v) list \<Rightarrow> 'k list" where
  "bt_keys m = map fst m"

definition bt_wf :: "('k :: linorder \<times> 'v) list \<Rightarrow> bool" where
  "bt_wf m \<longleftrightarrow> sorted_wrt (<) (map fst m)"

locale ordered_map =
  fixes get :: "'m \<Rightarrow> 'k :: linorder \<Rightarrow> 'v option"
    and insert :: "'k \<Rightarrow> 'v \<Rightarrow> 'm \<Rightarrow> 'm"
    and remove :: "'k \<Rightarrow> 'm \<Rightarrow> 'm"
    and keys :: "'m \<Rightarrow> 'k list"
    and empty :: 'm
    and wf :: "'m \<Rightarrow> bool"
  assumes get_empty: "get empty k = None"
    and get_insert: "get (insert k v m) l = (if l = k then Some v else get m l)"
    and get_remove: "get (remove k m) l = (if l = k then None else get m l)"
    and set_keys: "set (keys m) = {k. get m k \<noteq> None}"
    and wf_empty: "wf empty"
    and wf_insert: "wf m \<Longrightarrow> wf (insert k v m)"
    and wf_remove: "wf m \<Longrightarrow> wf (remove k m)"
    and wf_keys: "wf m \<Longrightarrow> sorted_wrt (<) (keys m)"
begin

lemmas map_laws = get_empty get_insert get_remove

lemma get_fold_insert:
  "get (fold (\<lambda>(k, v). insert k v) kvs m) l =
     (case map_of (rev kvs) l of None \<Rightarrow> get m l | Some v \<Rightarrow> Some v)"
  by (induction kvs arbitrary: m) (auto simp: get_insert map_add_def split: option.splits)

lemma wf_fold_insert: "wf m \<Longrightarrow> wf (fold (\<lambda>(k, v). insert k v) kvs m)"
  by (induction kvs arbitrary: m) (auto simp: wf_insert)

lemma keys_insert: "set (keys (insert k v m)) = Set.insert k (set (keys m))"
  by (auto simp: set_keys get_insert)

lemma distinct_keys: "wf m \<Longrightarrow> distinct (keys m)"
  using wf_keys [of m] by (simp add: strict_sorted_iff)

text \<open>Two maps with the same entries list the same keys.\<close>

lemma keys_unique: "wf m \<Longrightarrow> wf n \<Longrightarrow> get m = get n \<Longrightarrow> keys m = keys n"
  using wf_keys [of m] wf_keys [of n]
  by (intro sorted_distinct_set_unique) (simp_all add: strict_sorted_iff set_keys)

end

lemma bt_get_empty: "bt_get [] k = None"
  by (simp add: bt_get_def)

lemma bt_get_insert: "bt_get (bt_insert k v m) l = (if l = k then Some v else bt_get m l)"
  by (induction m) (auto simp: bt_get_def)

lemma bt_get_remove: "bt_get (bt_remove k m) l = (if l = k then None else bt_get m l)"
  by (induction m) (auto simp: bt_get_def bt_remove_def)

lemma set_bt_insert_keys: "set (map fst (bt_insert k v m)) = insert k (set (map fst m))"
proof (induction m)
  case (Cons kv m)
  then show ?case by (cases kv) (simp add: insert_commute)
qed simp

lemma bt_wf_insert: "bt_wf m \<Longrightarrow> bt_wf (bt_insert k v m)"
proof (induction m)
  case (Cons kv m)
  obtain a b where kv: "kv = (a, b)" by (cases kv)
  have "sorted_wrt (<) (a # map fst (bt_insert k v m))" if "a < k"
    using Cons that set_bt_insert_keys [of k v m]
    by (simp add: bt_wf_def kv del: set_map)
  with Cons.prems show ?case
    by (auto simp: bt_wf_def kv)
qed (simp add: bt_wf_def)

lemma bt_wf_remove: "bt_wf m \<Longrightarrow> bt_wf (bt_remove k m)"
  by (induction m) (auto simp: bt_wf_def bt_remove_def)

interpretation bt: ordered_map bt_get bt_insert bt_remove bt_keys "[]" bt_wf
proof unfold_locales
  show "set (bt_keys m) = {k. bt_get m k \<noteq> None}" for m :: "('a \<times> 'b) list"
    by (auto simp: bt_keys_def bt_get_def map_of_eq_None_iff)
qed (simp_all add: bt_get_empty bt_get_insert bt_get_remove bt_wf_insert bt_wf_remove,
    simp_all add: bt_wf_def bt_keys_def)

lemma bt_get_in_set: "bt_get m k = Some v \<Longrightarrow> (k, v) \<in> set m"
  by (simp add: bt_get_def map_of_SomeD)

lemma bt_get_eq_set: "bt_wf m \<Longrightarrow> bt_get m k = Some v \<longleftrightarrow> (k, v) \<in> set m"
  using bt.distinct_keys [of m] by (simp add: bt_get_def bt_keys_def map_of_eq_Some_iff)

text \<open>Collecting the entries of a map in order gives the map.\<close>

lemma bt_insert_last:
  "\<forall>x \<in> fst ` set m. x < k \<Longrightarrow> bt_insert k v m = m @ [(k, v)]"
  by (induction m) auto

lemma fold_insert_append:
  "bt_wf (m @ n) \<Longrightarrow> fold (\<lambda>(k, v). bt_insert k v) n m = m @ n"
proof (induction n arbitrary: m)
  case (Cons kv n)
  obtain k v where kv: "kv = (k, v)" by (cases kv)
  have "\<forall>x \<in> fst ` set m. x < k"
    using Cons.prems by (auto simp: bt_wf_def kv sorted_wrt_append)
  then have "bt_insert k v m = m @ [(k, v)]" by (rule bt_insert_last)
  with Cons show ?case by (simp add: kv)
qed simp

lemma fold_insert_id: "bt_wf m \<Longrightarrow> fold (\<lambda>(k, v). bt_insert k v) m [] = m"
  using fold_insert_append [of "[]" m] by simp

end
