(* ===== verification/Text_Codec.thy ===== *)
theory Text_Codec
  imports Prelude "HOL-Library.Multiset"
begin

text \<open>
  Decimal and hexadecimal text: \<open>format!("{n}")\<close>, \<open>format!("{n:0w}")\<close>,
  \<open>format!("{b:02x}")\<close> and \<open>str::parse::<u64>\<close>, with the two facts the object keys and
  bookmarks rest on: parsing inverts printing, and on texts of one width the
  lexicographic order is the order of the numbers. The locale \<open>seq_codec\<close> states that
  contract for any text form of a sequence number.
\<close>

section \<open>Decimal text\<close>

definition digit_char :: "nat \<Rightarrow> char" where
  "digit_char d = char_of (48 + d)"

fun show_nat :: "nat \<Rightarrow> string" where
  "show_nat n = (if n < 10 then [digit_char n] else show_nat (n div 10) @ [digit_char (n mod 10)])"

declare show_nat.simps [simp del]

definition show_int :: "int \<Rightarrow> string" where
  "show_int i = (if i < 0 then CHR ''-'' # show_nat (nat (- i)) else show_nat (nat i))"

definition zero_pad :: "nat \<Rightarrow> string \<Rightarrow> string" where
  "zero_pad w s = replicate (w - length s) (CHR ''0'') @ s"

definition show_padded :: "nat \<Rightarrow> nat \<Rightarrow> string" where
  "show_padded w n = zero_pad w (show_nat n)"

fun digits_val :: "nat \<Rightarrow> string \<Rightarrow> nat" where
  "digits_val acc [] = acc"
| "digits_val acc (c # cs) = digits_val (acc * 10 + (code c - 48)) cs"

definition parse_u64 :: "string \<Rightarrow> nat option" where
  "parse_u64 s =
     (let ds = (case s of [] \<Rightarrow> [] | c # cs \<Rightarrow> if c = CHR ''+'' then cs else s)
      in if ds = [] \<or> \<not> list_all is_ascii_digit ds then None
         else if digits_val 0 ds \<le> u64_max then Some (digits_val 0 ds) else None)"

lemma is_digit_digit_char [simp]: "d < 10 \<Longrightarrow> is_ascii_digit (digit_char d)"
  by (simp add: digit_char_def is_ascii_digit_def)

lemma code_digit_char [simp]: "d < 10 \<Longrightarrow> code (digit_char d) = 48 + d"
  by (simp add: digit_char_def)

lemma show_nat_digits: "list_all is_ascii_digit (show_nat n)"
proof (induction n rule: show_nat.induct)
  case (1 n)
  then show ?case
    by (cases "n < 10") (simp_all add: show_nat.simps [of n])
qed

lemma show_nat_nonempty [simp]: "show_nat n \<noteq> []"
  by (subst show_nat.simps) simp

lemma digits_val_append: "digits_val a (xs @ ys) = digits_val (digits_val a xs) ys"
  by (induction xs arbitrary: a) auto

lemma digits_val_acc: "digits_val a xs = a * 10 ^ length xs + digits_val 0 xs"
proof (induction xs arbitrary: a)
  case (Cons c cs)
  show ?case
    using Cons [of "a * 10 + (code c - 48)"] Cons [of "code c - 48"]
    by (simp add: algebra_simps)
qed simp

lemma digits_val_show_nat [simp]: "digits_val 0 (show_nat n) = n"
proof (induction n rule: show_nat.induct)
  case (1 n)
  then show ?case
    by (cases "n < 10") (simp_all add: show_nat.simps [of n] digits_val_append)
qed

lemma digits_val_zeros: "digits_val 0 (replicate k (CHR ''0'') @ s) = digits_val 0 s"
  by (induction k) (simp_all add: code_def)

lemma digits_val_padded [simp]: "digits_val 0 (show_padded w n) = n"
  by (simp add: show_padded_def zero_pad_def digits_val_zeros)

lemma padded_digits: "list_all is_ascii_digit (show_padded w n)"
  by (simp add: show_padded_def zero_pad_def show_nat_digits list_all_iff)
    (use show_nat_digits in \<open>auto simp: list_all_iff is_ascii_digit_def code_def\<close>)

lemma padded_nonempty [simp]: "show_padded w n \<noteq> []"
  by (simp add: show_padded_def zero_pad_def)

lemma not_digit_plus: "\<not> is_ascii_digit (CHR ''+'')"
  by (simp add: is_ascii_digit_def code_def)

lemma parse_u64_digits:
  assumes "list_all is_ascii_digit s" and "s \<noteq> []" and "digits_val 0 s \<le> u64_max"
  shows "parse_u64 s = Some (digits_val 0 s)"
proof -
  obtain c cs where s: "s = c # cs" using assms(2) by (cases s) auto
  with assms(1) have "c \<noteq> CHR ''+''"
    using not_digit_plus by auto
  with s assms show ?thesis
    by (simp add: parse_u64_def)
qed

lemma parse_u64_padded: "n \<le> u64_max \<Longrightarrow> parse_u64 (show_padded w n) = Some n"
  using parse_u64_digits [OF padded_digits, of w n] by simp

lemma parse_u64_show_nat: "n \<le> u64_max \<Longrightarrow> parse_u64 (show_nat n) = Some n"
  using parse_u64_digits [OF show_nat_digits, of n] by simp

lemma parse_u64_bound: "parse_u64 s = Some n \<Longrightarrow> n \<le> u64_max"
  by (auto simp: parse_u64_def Let_def split: if_splits list.splits)

section \<open>Width and order\<close>

lemma length_show_nat: "n < 10 ^ w \<Longrightarrow> 0 < w \<Longrightarrow> length (show_nat n) \<le> w"
proof (induction n arbitrary: w rule: show_nat.induct)
  case (1 n)
  show ?case
  proof (cases "n < 10")
    case True
    with "1.prems" show ?thesis by (simp add: show_nat.simps)
  next
    case False
    with "1.prems" obtain v where w: "w = Suc v" and "0 < v"
      by (cases w; cases "w - 1") auto
    with "1.prems" have "n div 10 < 10 ^ v"
      by (simp add: less_mult_imp_div_less mult.commute)
    with "1.IH" False \<open>0 < v\<close> w show ?thesis
      by (simp add: show_nat.simps [of n])
  qed
qed

lemma length_padded: "n < 10 ^ w \<Longrightarrow> 0 < w \<Longrightarrow> length (show_padded w n) = w"
  using length_show_nat [of n w] by (simp add: show_padded_def zero_pad_def)

lemma digits_val_less: "list_all is_ascii_digit xs \<Longrightarrow> digits_val 0 xs < 10 ^ length xs"
proof (induction xs)
  case (Cons c cs)
  have "code c - 48 \<le> 9" using Cons.prems by (auto simp: is_ascii_digit_def)
  then have "(code c - 48) * 10 ^ length cs \<le> 9 * 10 ^ length cs"
    by (rule mult_right_mono) simp
  moreover have "digits_val 0 cs < 10 ^ length cs"
    using Cons by simp
  ultimately have "(code c - 48) * 10 ^ length cs + digits_val 0 cs < 10 * 10 ^ length cs"
    by linarith
  then show ?case
    by (simp add: digits_val_acc [of "code c - 48"])
qed simp

lemma digits_less_iff:
  "length xs = length ys \<Longrightarrow> list_all is_ascii_digit xs \<Longrightarrow> list_all is_ascii_digit ys \<Longrightarrow>
    xs < ys \<longleftrightarrow> digits_val 0 xs < digits_val 0 ys"
proof (induction xs ys rule: list_induct2)
  case (Cons x xs y ys)
  let ?p = "10 ^ length xs :: nat" and ?dx = "code x - 48" and ?dy = "code y - 48"
  have lt: "digits_val 0 xs < ?p" "digits_val 0 ys < ?p"
    using Cons.prems Cons.hyps digits_val_less [of xs] digits_val_less [of ys] by simp_all
  have val: "digits_val 0 (x # xs) = ?dx * ?p + digits_val 0 xs"
    "digits_val 0 (y # ys) = ?dy * ?p + digits_val 0 ys"
    using Cons.hyps digits_val_acc [of ?dx xs] digits_val_acc [of ?dy ys] by simp_all
  have ge: "48 \<le> code x" "48 \<le> code y"
    using Cons.prems by (auto simp: is_ascii_digit_def)
  consider "x = y" | "code x < code y" | "code y < code x"
    using code_inject less_linear by blast
  then show ?case
  proof cases
    case 1
    with Cons val show ?thesis by (simp del: digits_val.simps)
  next
    case 2
    with ge have "Suc ?dx \<le> ?dy" by arith
    then have "Suc ?dx * ?p \<le> ?dy * ?p" by (rule mult_right_mono) simp
    with lt have "?dx * ?p + digits_val 0 xs < ?dy * ?p + digits_val 0 ys" by simp
    with 2 show ?thesis by (simp only: val) (simp add: char_less_code)
  next
    case 3
    with ge have "Suc ?dy \<le> ?dx" by arith
    then have "Suc ?dy * ?p \<le> ?dx * ?p" by (rule mult_right_mono) simp
    with lt have "\<not> ?dx * ?p + digits_val 0 xs < ?dy * ?p + digits_val 0 ys" by simp
    with 3 show ?thesis by (simp only: val) (auto simp: char_less_code)
  qed
qed simp

lemma padded_less_iff:
  assumes "m < 10 ^ w" and "n < 10 ^ w" and "0 < w"
  shows "show_padded w m < show_padded w n \<longleftrightarrow> m < n"
  using digits_less_iff [of "show_padded w m" "show_padded w n"] assms
  by (simp add: length_padded padded_digits)

lemma append_less_iff: "(p @ xs < p @ ys) \<longleftrightarrow> xs < (ys :: 'a :: linorder list)"
  by (induction p) auto

lemma append_less_same_length:
  "length xs = length ys \<Longrightarrow> xs < ys \<Longrightarrow> xs @ r < ys @ (r :: 'a :: linorder list)"
  by (induction xs ys rule: list_induct2) auto

lemma u64_20_digits: "n \<le> u64_max \<Longrightarrow> n < 10 ^ 20"
  by (simp add: u64_max_def)

section \<open>Text forms of sequence numbers\<close>

text \<open>
  The contract of a text form of sequence numbers up to \<open>bound\<close>: it can be read back, and
  the byte order of the texts (the order of an object listing) is the order of the
  numbers.
\<close>

locale seq_codec =
  fixes enc :: "nat \<Rightarrow> string"
    and dec :: "string \<Rightarrow> nat option"
    and bound :: nat
  assumes dec_enc: "n \<le> bound \<Longrightarrow> dec (enc n) = Some n"
    and enc_less: "m < n \<Longrightarrow> n \<le> bound \<Longrightarrow> enc m < enc n"
begin

lemma enc_inject: "m \<le> bound \<Longrightarrow> n \<le> bound \<Longrightarrow> enc m = enc n \<longleftrightarrow> m = n"
  by (metis dec_enc option.inject)

lemma enc_less_iff: "m \<le> bound \<Longrightarrow> n \<le> bound \<Longrightarrow> enc m < enc n \<longleftrightarrow> m < n"
  by (cases m n rule: linorder_cases) (auto dest: enc_less simp: less_not_sym)

lemma enc_le_iff: "m \<le> bound \<Longrightarrow> n \<le> bound \<Longrightarrow> enc m \<le> enc n \<longleftrightarrow> m \<le> n"
  using enc_less_iff [of n m] by (auto simp: not_less [symmetric])

lemma sorted_enc: "\<forall>n \<in> set ns. n \<le> bound \<Longrightarrow> sorted (map enc ns) \<longleftrightarrow> sorted ns"
  by (auto simp: sorted_wrt_map sorted_wrt_iff_nth_less enc_le_iff)

lemma decode_all: "\<forall>n \<in> set ns. n \<le> bound \<Longrightarrow> map dec (map enc ns) = map Some ns"
  by (auto simp: dec_enc)

lemma sort_enc:
  assumes "\<forall>n \<in> set ns. n \<le> bound"
  shows "sort (map enc ns) = map enc (sort ns)"
  by (rule properties_for_sort) (use assms in \<open>simp_all add: sorted_enc\<close>)

end

section \<open>Hexadecimal text\<close>

definition hex_digit :: "nat \<Rightarrow> char" where
  "hex_digit d = (if d < 10 then char_of (48 + d) else char_of (87 + d))"

definition hex_digit_upper :: "nat \<Rightarrow> char" where
  "hex_digit_upper d = (if d < 10 then char_of (48 + d) else char_of (55 + d))"

text \<open>\<open>format!("{b:02x}")\<close> and \<open>format!("{b:02X}")\<close> of one byte.\<close>

definition hex_byte :: "char \<Rightarrow> string" where
  "hex_byte c = [hex_digit (code c div 16), hex_digit (code c mod 16)]"

definition hex_byte_upper :: "char \<Rightarrow> string" where
  "hex_byte_upper c = [hex_digit_upper (code c div 16), hex_digit_upper (code c mod 16)]"

definition hex_lower :: "bytes \<Rightarrow> string" where
  "hex_lower bs = concat (map hex_byte bs)"

lemma length_hex_lower [simp]: "length (hex_lower bs) = 2 * length bs"
  by (induction bs) (simp_all add: hex_lower_def hex_byte_def)

lemma is_hexdigit_hex_digit: "d < 16 \<Longrightarrow> is_ascii_hexdigit (hex_digit d)"
  by (auto simp: hex_digit_def is_ascii_hexdigit_def is_ascii_digit_def)

lemma hex_lower_hexdigits: "list_all is_ascii_hexdigit (hex_lower bs)"
proof -
  have "code c div 16 < 16" for c using code_bound [of c] by linarith
  then show ?thesis
    by (induction bs) (auto simp: hex_lower_def hex_byte_def is_hexdigit_hex_digit)
qed

end
