(* ===== verification/Json.thy ===== *)
theory Json
  imports BTree_Map Text_Codec "HOL-Library.Word"
begin

text \<open>
  \<open>serde_json::Value\<close> as the sources use it: the tagged union, its numbers (\<open>u64\<close>,
  negative \<open>i64\<close>, finite \<open>f64\<close>), its accessors and its equality, and
  \<open>rusqlite::types::Value\<close>. A double is its 64 bits. Printing and parsing JSON text is
  the package's; the functions that print or parse take the two functions as an
  argument of type \<open>serde\<close>.
\<close>

unbundle bit_operations_syntax

type_synonym f64 = "64 word"

datatype json_number = PosInt nat | NegInt int | Float f64

datatype json =
  JNull
| JBool bool
| JNumber json_number
| JString string
| JArray "json list"
| JObject "(string \<times> json) list"

type_synonym json_map = "(string \<times> json) list"

record serde =
  to_json_text :: "json \<Rightarrow> string"
  to_json_text_pretty :: "json \<Rightarrow> string"
  from_json_text :: "string \<Rightarrow> json option"

section \<open>Numbers\<close>

fun bit_length :: "nat \<Rightarrow> nat" where
  "bit_length n = (if n = 0 then 0 else Suc (bit_length (n div 2)))"

declare bit_length.simps [simp del]

text \<open>\<open>n as f64\<close>: round to nearest, ties to even.\<close>

definition nat_to_f64 :: "nat \<Rightarrow> f64" where
  "nat_to_f64 n =
     (if n = 0 then 0
      else let e = bit_length n - 1;
               m = (if e \<le> 52 then n * 2 ^ (52 - e)
                    else let d = 2 ^ (e - 52); q = n div d; r = 2 * (n mod d)
                         in if d < r \<or> (r = d \<and> odd q) then q + 1 else q)
           in of_nat ((e + 1023) * 2 ^ 52 + (m - 2 ^ 52)))"

definition f64_is_finite :: "f64 \<Rightarrow> bool" where
  "f64_is_finite w \<longleftrightarrow> drop_bit 52 w AND 2047 \<noteq> 2047"

text \<open>Equality of finite doubles: the two zeros are equal.\<close>

definition f64_eq :: "f64 \<Rightarrow> f64 \<Rightarrow> bool" where
  "f64_eq a b \<longleftrightarrow> a = b \<or> (push_bit 1 a = 0 \<and> push_bit 1 b = 0)"

fun number_eq :: "json_number \<Rightarrow> json_number \<Rightarrow> bool" where
  "number_eq (PosInt a) (PosInt b) = (a = b)"
| "number_eq (NegInt a) (NegInt b) = (a = b)"
| "number_eq (Float a) (Float b) = f64_eq a b"
| "number_eq _ _ = False"

fun number_as_i64 :: "json_number \<Rightarrow> int option" where
  "number_as_i64 (PosInt n) = (if int n \<le> i64_max then Some (int n) else None)"
| "number_as_i64 (NegInt i) = Some i"
| "number_as_i64 (Float f) = None"

fun number_as_u64 :: "json_number \<Rightarrow> nat option" where
  "number_as_u64 (PosInt n) = Some n"
| "number_as_u64 _ = None"

fun number_as_f64 :: "json_number \<Rightarrow> f64 option" where
  "number_as_f64 (PosInt n) = Some (nat_to_f64 n)"
| "number_as_f64 (NegInt i) = Some (nat_to_f64 (nat (- i)) OR push_bit 63 1)"
| "number_as_f64 (Float f) = Some f"

text \<open>\<open>json!(i)\<close> of an \<open>i64\<close>, and of an \<open>f64\<close> (not a number becomes \<open>null\<close>).\<close>

definition json_of_int :: "int \<Rightarrow> json" where
  "json_of_int i = JNumber (if i < 0 then NegInt i else PosInt (nat i))"

definition json_of_nat :: "nat \<Rightarrow> json" where
  "json_of_nat n = JNumber (PosInt n)"

definition json_of_f64 :: "f64 \<Rightarrow> json" where
  "json_of_f64 f = (if f64_is_finite f then JNumber (Float f) else JNull)"

section \<open>Accessors\<close>

fun as_str :: "json \<Rightarrow> string option" where
  "as_str (JString s) = Some s"
| "as_str _ = None"

fun as_bool :: "json \<Rightarrow> bool option" where
  "as_bool (JBool b) = Some b"
| "as_bool _ = None"

fun as_array :: "json \<Rightarrow> json list option" where
  "as_array (JArray xs) = Some xs"
| "as_array _ = None"

fun as_object :: "json \<Rightarrow> json_map option" where
  "as_object (JObject m) = Some m"
| "as_object _ = None"

fun as_i64 :: "json \<Rightarrow> int option" where
  "as_i64 (JNumber n) = number_as_i64 n"
| "as_i64 _ = None"

fun as_u64 :: "json \<Rightarrow> nat option" where
  "as_u64 (JNumber n) = number_as_u64 n"
| "as_u64 _ = None"

fun is_object :: "json \<Rightarrow> bool" where
  "is_object (JObject m) = True"
| "is_object _ = False"

text \<open>\<open>value.get("key")\<close> and \<open>value.get("key").and_then(f)\<close>.\<close>

fun jget :: "json \<Rightarrow> string \<Rightarrow> json option" where
  "jget (JObject m) k = bt_get m k"
| "jget _ k = None"

definition jget_with :: "(json \<Rightarrow> 'a option) \<Rightarrow> json \<Rightarrow> string \<Rightarrow> 'a option" where
  "jget_with f v k = Option.bind (jget v k) f"

text \<open>\<open>value["key"] = x\<close>: inserts into an object, turns \<open>null\<close> into one; the package
  panics on anything else, which no caller reaches.\<close>

fun jset :: "json \<Rightarrow> string \<Rightarrow> json \<Rightarrow> json" where
  "jset (JObject m) k x = JObject (bt_insert k x m)"
| "jset v k x = JObject [(k, x)]"

text \<open>\<open>json!({ ... })\<close>: the fields inserted in order.\<close>

definition jobj :: "(string \<times> json) list \<Rightarrow> json" where
  "jobj kvs = JObject (fold (\<lambda>(k, v). bt_insert k v) kvs [])"

definition jopt :: "string option \<Rightarrow> json" where
  "jopt x = (case x of None \<Rightarrow> JNull | Some s \<Rightarrow> JString s)"

text \<open>\<open>Value == Value\<close>.\<close>

fun json_eq :: "json \<Rightarrow> json \<Rightarrow> bool" where
  "json_eq JNull JNull = True"
| "json_eq (JBool a) (JBool b) = (a = b)"
| "json_eq (JNumber a) (JNumber b) = number_eq a b"
| "json_eq (JString a) (JString b) = (a = b)"
| "json_eq (JArray xs) (JArray ys) = list_all2 json_eq xs ys"
| "json_eq (JObject m) (JObject n) =
     list_all2 (\<lambda>(k, v) (k', v'). k = k' \<and> json_eq v v') m n"
| "json_eq _ _ = False"

lemma f64_eq_refl [simp]: "f64_eq a a"
  by (simp add: f64_eq_def)

lemma number_eq_refl [simp]: "number_eq a a"
  by (cases a) simp_all

lemma json_eq_refl [simp]: "json_eq v v"
proof (induction v)
  case (JArray xs)
  then show ?case by (simp add: list_all2_same)
next
  case (JObject m)
  then show ?case by (force simp: list_all2_same)
qed simp_all

lemma json_eq_JNull [simp]: "json_eq JNull v \<longleftrightarrow> v = JNull" "json_eq v JNull \<longleftrightarrow> v = JNull"
  by (cases v; simp)+

lemma json_eq_JString [simp]:
  "json_eq (JString s) v \<longleftrightarrow> v = JString s" "json_eq v (JString s) \<longleftrightarrow> v = JString s"
  by (cases v; auto)+

lemma jget_jobj:
  "jget (jobj kvs) k = map_of (rev kvs) k"
  using bt.get_fold_insert [of kvs "[]" k]
  by (simp add: jobj_def bt.get_empty split: option.splits)

lemma jget_jset_object:
  "jget (jset (JObject m) k x) l = (if l = k then Some x else jget (JObject m) l)"
  by (simp add: bt_get_insert)

section \<open>Values the text form carries exactly\<close>

text \<open>
  Well-formed values (sorted objects, integers in range) without doubles: the JSON text
  of such a value parses back to it. Doubles are left out, since the package's default
  parser may round them.
\<close>

fun number_exact :: "json_number \<Rightarrow> bool" where
  "number_exact (PosInt n) = (n \<le> u64_max)"
| "number_exact (NegInt i) = (i < 0 \<and> - i64_max - 1 \<le> i)"
| "number_exact (Float f) = False"

fun json_exact :: "json \<Rightarrow> bool" where
  "json_exact JNull = True"
| "json_exact (JBool b) = True"
| "json_exact (JNumber n) = number_exact n"
| "json_exact (JString s) = True"
| "json_exact (JArray xs) = list_all json_exact xs"
| "json_exact (JObject m) = (bt_wf m \<and> list_all (\<lambda>(k, v). json_exact v) m)"

text \<open>
  A derived \<open>Serialize\<close> prints the fields of a struct in the order of their declaration;
  parsing collects them into a sorted map. \<open>json_canon\<close> is the value read back.
\<close>

fun json_printable :: "json \<Rightarrow> bool" where
  "json_printable (JNumber n) = number_exact n"
| "json_printable (JArray xs) = list_all json_printable xs"
| "json_printable (JObject m) = list_all (\<lambda>(k, v). json_printable v) m"
| "json_printable v = True"

fun json_canon :: "json \<Rightarrow> json" where
  "json_canon (JArray xs) = JArray (map json_canon xs)"
| "json_canon (JObject m) = jobj (map (\<lambda>(k, v). (k, json_canon v)) m)"
| "json_canon v = v"

definition serde_roundtrip :: "serde \<Rightarrow> bool" where
  "serde_roundtrip sd \<longleftrightarrow>
     (\<forall>v. json_printable v \<longrightarrow> from_json_text sd (to_json_text sd v) = Some (json_canon v)
        \<and> from_json_text sd (to_json_text_pretty sd v) = Some (json_canon v))"

lemma exact_printable: "json_exact v \<Longrightarrow> json_printable v"
proof (induction v)
  case (JObject m)
  then show ?case by (force simp: list_all_iff)
qed (auto simp: list_all_iff)

lemma exact_canon: "json_exact v \<Longrightarrow> json_canon v = v"
proof (induction v)
  case (JArray xs)
  then show ?case by (auto simp: list_all_iff intro: map_idI)
next
  case (JObject m)
  then have "map (\<lambda>(k, v). (k, json_canon v)) m = m"
    by (force simp: list_all_iff intro!: map_idI)
  with JObject.prems show ?case by (simp add: jobj_def fold_insert_id)
qed auto

lemma serde_roundtripD:
  "serde_roundtrip sd \<Longrightarrow> json_exact v \<Longrightarrow> from_json_text sd (to_json_text sd v) = Some v"
  by (simp add: serde_roundtrip_def exact_printable exact_canon)

lemma serde_canonD:
  assumes "serde_roundtrip sd" and "json_printable v"
  shows "from_json_text sd (to_json_text sd v) = Some (json_canon v)"
    and "from_json_text sd (to_json_text_pretty sd v) = Some (json_canon v)"
  using assms by (simp_all add: serde_roundtrip_def)

lemma exact_bt_insert:
  "list_all (\<lambda>(k, v). json_exact v) m \<Longrightarrow> json_exact x \<Longrightarrow>
    list_all (\<lambda>(k, v). json_exact v) (bt_insert k x m)"
  by (induction m) auto

lemma json_exact_insert:
  "json_exact (JObject m) \<Longrightarrow> json_exact x \<Longrightarrow> json_exact (JObject (bt_insert k x m))"
  by (simp add: bt_wf_insert exact_bt_insert)

lemma json_exact_jobj:
  assumes "list_all (\<lambda>(k, v). json_exact v) kvs"
  shows "json_exact (jobj kvs)"
proof -
  have "json_exact (JObject m) \<Longrightarrow> json_exact (JObject (fold (\<lambda>(k, v). bt_insert k v) kvs m))" for m
    using assms
  proof (induction kvs arbitrary: m)
    case (Cons kv kvs)
    then show ?case
      by (cases kv) (auto simp: bt_wf_insert exact_bt_insert)
  qed simp
  from this [of "[]"] show ?thesis
    by (simp add: jobj_def bt_wf_def)
qed

section \<open>SQL values\<close>

datatype sql_value = SqlNull | SqlInteger int | SqlReal f64 | SqlText string | SqlBlob bytes

end
