(* ===== verification/Ident.thy ===== *)
theory Ident
  imports Json
begin

text \<open>
  Errors of the data plane (\<open>ApiError\<close> of \<open>runtime.rs\<close>, \<open>PolicyError\<close> of \<open>policy.rs\<close>)
  and SQL identifiers (\<open>valid_ident\<close>, \<open>quote_ident\<close> of \<open>policy.rs\<close>,
  \<open>assert_user_ident\<close> of \<open>runtime_utils.rs\<close>): which names reach a statement as text. The
  named collection \<open>ident_simps\<close> carries the facts the SQL builders use.
\<close>

named_theorems ident_simps \<open>facts on identifiers\<close>

record api_error =
  err_status :: nat
  err_message :: string

definition api_err :: "nat \<Rightarrow> string \<Rightarrow> api_error" where
  "api_err st msg = \<lparr>err_status = st, err_message = msg\<rparr>"

type_synonym 'a api = "api_error + 'a"

lemma api_err_simps [simp]:
  "err_status (api_err st msg) = st" "err_message (api_err st msg) = msg"
  "api_err st msg = api_err st' msg' \<longleftrightarrow> st = st' \<and> msg = msg'"
  by (auto simp: api_err_def)

text \<open>The two \<open>From\<close> conversions a failed library call goes through.\<close>

definition sqlite_api_error :: "string \<Rightarrow> api_error" where
  "sqlite_api_error e = api_err 500 (''sqlite error: '' @ e)"

definition anyhow_api_error :: "string \<Rightarrow> api_error" where
  "anyhow_api_error e = api_err 500 e"

definition json_api_error :: "string \<Rightarrow> api_error" where
  "json_api_error e = api_err 500 (''json error: '' @ e)"

datatype policy_error = PolicyError string

fun policy_message :: "policy_error \<Rightarrow> string" where
  "policy_message (PolicyError m) = m"

definition policy_api_error :: "policy_error \<Rightarrow> api_error" where
  "policy_api_error e = api_err 400 (policy_message e)"

section \<open>Identifiers\<close>

definition ident_start :: "char \<Rightarrow> bool" where
  "ident_start c \<longleftrightarrow> c = CHR ''_'' \<or> is_ascii_alphabetic c"

definition ident_char :: "char \<Rightarrow> bool" where
  "ident_char c \<longleftrightarrow> c = CHR ''_'' \<or> is_ascii_alphanumeric c"

fun valid_ident :: "string \<Rightarrow> bool" where
  "valid_ident [] = False"
| "valid_ident (c # cs) = (ident_start c \<and> list_all ident_char cs)"

definition quote_ident :: "string \<Rightarrow> policy_error + string" where
  "quote_ident name =
     (if valid_ident name then Inr ([CHR 34] @ name @ [CHR 34])
      else Inl (PolicyError (''invalid identifier: '' @ name)))"

definition assert_user_ident :: "string \<Rightarrow> string api" where
  "assert_user_ident name =
     (if \<not> valid_ident name \<or> starts_with name ''_sdb_'' \<or> starts_with name ''sqlite_''
      then Inl (api_err 400 (''invalid user identifier: '' @ name))
      else Inr name)"

lemma ident_start_char: "ident_start c \<Longrightarrow> ident_char c"
  by (auto simp: ident_start_def ident_char_def is_ascii_alphanumeric_def)

lemma valid_ident_chars: "valid_ident s \<Longrightarrow> list_all ident_char s"
  by (cases s) (auto intro: ident_start_char)

lemma valid_ident_nonempty: "valid_ident s \<Longrightarrow> s \<noteq> []"
  by (cases s) auto

lemma quote_ident_Inr [ident_simps]:
  "quote_ident name = Inr q \<longleftrightarrow> valid_ident name \<and> q = [CHR 34] @ name @ [CHR 34]"
  by (auto simp: quote_ident_def)

lemma assert_user_ident_Inr [ident_simps]:
  "assert_user_ident name = Inr n \<longleftrightarrow>
     n = name \<and> valid_ident name \<and> \<not> prefix ''_sdb_'' name \<and> \<not> prefix ''sqlite_'' name"
  by (auto simp: assert_user_ident_def starts_with_def)

lemma assert_user_ident_status: "assert_user_ident name = Inl e \<Longrightarrow> err_status e = 400"
  by (auto simp: assert_user_ident_def split: if_splits)

lemma ident_char_excludes [simp]:
  "\<not> ident_char (CHR ''/'')" "\<not> ident_char (CHR ''?'')" "\<not> ident_char (CHR 34)"
  "\<not> ident_char (CHR ''.'')" "\<not> ident_char (CHR '' '')" "\<not> ident_char (CHR '','')"
  "\<not> ident_char (CHR ''('')" "\<not> ident_char (CHR '')'')" "\<not> ident_char (CHR ''='')"
  by (simp_all add: ident_char_def ascii_defs)

lemma valid_ident_notin: "valid_ident s \<Longrightarrow> \<not> ident_char c \<Longrightarrow> c \<notin> set s"
  using valid_ident_chars [of s] by (auto simp: list_all_iff)

lemma valid_ident_no_slash [simp]: "valid_ident s \<Longrightarrow> CHR ''/'' \<notin> set s"
  by (simp add: valid_ident_notin)

end
