(* ===== verification/Concrete_Packages.thy ===== *)
theory Concrete_Packages
  imports Json
begin

text \<open>
  Concrete functions in the place of the packages, for the theorems that apply a property at
  a concrete input: a text form of JSON values that is read back, Base64 replaced by
  hexadecimal. They show that the hypotheses on the packages can hold
  together; no definition of the program uses them.
\<close>

section \<open>A text form of JSON values\<close>

definition enc_num :: "nat \<Rightarrow> string" where
  "enc_num n = show_nat n @ '';''"

definition dec_num :: "string \<Rightarrow> (nat \<times> string) option" where
  "dec_num s = (case dropWhile is_ascii_digit s of
       [] \<Rightarrow> None
     | c # r \<Rightarrow> Some (digits_val 0 (takeWhile is_ascii_digit s), r))"

definition enc_string :: "string \<Rightarrow> string" where
  "enc_string s = enc_num (length s) @ s"

definition dec_string :: "string \<Rightarrow> (string \<times> string) option" where
  "dec_string t = map_option (\<lambda>(n, r). (take n r, drop n r)) (dec_num t)"

fun enc_json :: "json \<Rightarrow> string" where
  "enc_json JNull = ''n''"
| "enc_json (JBool b) = (if b then ''t'' else ''f'')"
| "enc_json (JNumber (PosInt n)) = ''p'' @ enc_num n"
| "enc_json (JNumber (NegInt i)) = ''m'' @ enc_num (nat (- i))"
| "enc_json (JNumber (Float w)) = ''d'' @ enc_num (unat w)"
| "enc_json (JString s) = ''s'' @ enc_string s"
| "enc_json (JArray xs) = ''a'' @ enc_num (length xs) @ concat (map enc_json xs)"
| "enc_json (JObject m) = ''o'' @ enc_num (length m)
     @ concat (map (\<lambda>(k, v). enc_string k @ enc_json v) m)"

fun dec_many :: "(string \<Rightarrow> ('a \<times> string) option) \<Rightarrow> nat \<Rightarrow> string \<Rightarrow> ('a list \<times> string) option" where
  "dec_many p 0 s = Some ([], s)"
| "dec_many p (Suc n) s =
     Option.bind (p s) (\<lambda>(x, r). map_option (\<lambda>(xs, q). (x # xs, q)) (dec_many p n r))"

primrec dec_json :: "nat \<Rightarrow> string \<Rightarrow> (json \<times> string) option" where
  "dec_json 0 s = None"
| "dec_json (Suc k) s =
     (case s of
        [] \<Rightarrow> None
      | c # r \<Rightarrow>
          if c = CHR ''n'' then Some (JNull, r)
          else if c = CHR ''t'' then Some (JBool True, r)
          else if c = CHR ''f'' then Some (JBool False, r)
          else if c = CHR ''p'' then map_option (apfst (\<lambda>n. JNumber (PosInt n))) (dec_num r)
          else if c = CHR ''m'' then map_option (apfst (\<lambda>n. JNumber (NegInt (- int n)))) (dec_num r)
          else if c = CHR ''d'' then map_option (apfst (\<lambda>n. JNumber (Float (of_nat n)))) (dec_num r)
          else if c = CHR ''s'' then map_option (apfst JString) (dec_string r)
          else if c = CHR ''a'' then
            Option.bind (dec_num r) (\<lambda>(n, q). map_option (apfst JArray) (dec_many (dec_json k) n q))
          else Option.bind (dec_num r) (\<lambda>(n, q). map_option (apfst JObject)
                 (dec_many (\<lambda>t. Option.bind (dec_string t)
                     (\<lambda>(key, u). map_option (apfst (\<lambda>v. (key, v))) (dec_json k u))) n q)))"

lemma dec_enc_num [simp]: "dec_num (enc_num n @ r) = Some (n, r)"
proof -
  have "\<not> is_ascii_digit (CHR '';'')" by (simp add: is_ascii_digit_def code_def)
  moreover have "\<forall>c \<in> set (show_nat n). is_ascii_digit c"
    using show_nat_digits [of n] by (simp add: list_all_iff)
  ultimately show ?thesis
    by (simp add: dec_num_def enc_num_def dropWhile_append2 takeWhile_append2)
qed

lemma dec_enc_string [simp]: "dec_string (enc_string s @ r) = Some (s, r)"
  using dec_enc_num [of "length s" "s @ r"] by (simp add: dec_string_def enc_string_def)

lemma dec_many_concat:
  "(\<And>x r. x \<in> set xs \<Longrightarrow> p (e x @ r) = Some (x, r)) \<Longrightarrow>
    dec_many p (length xs) (concat (map e xs) @ r) = Some (xs, r)"
  by (induction xs arbitrary: r) auto

lemma length_concat_member: "x \<in> set xs \<Longrightarrow> length (e x) \<le> length (concat (map e xs))"
  by (induction xs) auto

lemma dec_enc_json: "json_printable v \<Longrightarrow> length (enc_json v) \<le> k \<Longrightarrow> dec_json k (enc_json v @ r) = Some (v, r)"
proof (induction v arbitrary: k r)
  case (JNumber n)
  then show ?case by (cases k; cases n) auto
next
  case (JArray xs)
  then obtain j where k: "k = Suc j" and j: "length (concat (map enc_json xs)) \<le> j"
    by (cases k) auto
  have "dec_json j (enc_json x @ q) = Some (x, q)" if "x \<in> set xs" for x q
    using JArray.IH [OF that] JArray.prems(1) that j length_concat_member [OF that, of enc_json]
    by (auto simp: list_all_iff)
  from dec_many_concat [of xs "dec_json j" enc_json, OF this] show ?case
    by (simp add: k)
next
  case (JObject m)
  let ?e = "\<lambda>(k, v). enc_string k @ enc_json v"
  from JObject obtain j where k: "k = Suc j" and j: "length (concat (map ?e m)) \<le> j"
    by (cases k) auto
  let ?p = "\<lambda>t. Option.bind (dec_string t)
      (\<lambda>(key, u). map_option (apfst (\<lambda>v. (key, v))) (dec_json j u))"
  have "?p (?e x @ q) = Some (x, q)" if "x \<in> set m" for x q
  proof -
    obtain key v where x: "x = (key, v)" by (cases x)
    have "length (enc_json v) \<le> j"
      using length_concat_member [OF that, of ?e] j by (simp add: x)
    with JObject.IH [OF that, of v] JObject.prems(1) that show ?thesis
      by (auto simp: list_all_iff x)
  qed
  from dec_many_concat [of m ?p ?e, OF this] show ?case
    by (simp add: k)
next
  case JNull
  then show ?case by (cases k) auto
next
  case (JBool b)
  then show ?case by (cases k; cases b) auto
next
  case (JString s)
  then show ?case by (cases k) auto
qed

definition sample_serde :: serde where
  "sample_serde = \<lparr>to_json_text = enc_json, to_json_text_pretty = (\<lambda>v. enc_json v),
     from_json_text = (\<lambda>s. case dec_json (length s) s of
        Some (v, []) \<Rightarrow> Some (json_canon v) | _ \<Rightarrow> None)\<rparr>"

lemma sample_serde_roundtrip: "serde_roundtrip sample_serde"
  using dec_enc_json [where r = "[]"] by (simp add: serde_roundtrip_def sample_serde_def)

section \<open>A text form of binary data\<close>

definition hex_value :: "char \<Rightarrow> nat" where
  "hex_value c = (if code c < 58 then code c - 48 else code c - 87)"

fun unhex :: "string \<Rightarrow> bytes option" where
  "unhex [] = Some []"
| "unhex [c] = None"
| "unhex (c # d # cs) = map_option ((#) (char_of (hex_value c * 16 + hex_value d))) (unhex cs)"

lemma hex_value_digit: "d < 16 \<Longrightarrow> hex_value (hex_digit d) = d"
  by (auto simp: hex_value_def hex_digit_def)

lemma unhex_hex_lower: "unhex (hex_lower bs) = Some bs"
proof (induction bs)
  case (Cons b bs)
  have "code b div 16 < 16" using code_bound [of b] by linarith
  then have "char_of (hex_value (hex_digit (code b div 16)) * 16 + hex_value (hex_digit (code b mod 16))) = b"
    by (simp add: hex_value_digit) (simp add: code_def)
  with Cons show ?case by (simp add: hex_lower_def hex_byte_def)
qed (simp add: hex_lower_def)

end
