(* ===== verification/Runtime_Utils.thy ===== *)
theory Runtime_Utils
  imports Ident Concrete_Packages
begin

text \<open>
  \<open>runtime_utils.rs\<close>: the object keys of a project, bookmarks, the calendar, the
  checks on project ids and object keys, and the conversions between JSON and SQL
  values. SHA-256 and Base64 are packages: the functions that use them take them as
  arguments.
\<close>

section \<open>Object keys\<close>

definition snapshot_key :: "string \<Rightarrow> string" where
  "snapshot_key pid = ''projects/'' @ pid @ ''/database.sqlite''"

definition snapshot_generation_key :: "string \<Rightarrow> nat \<Rightarrow> string" where
  "snapshot_generation_key pid generation =
     ''projects/'' @ pid @ ''/snapshots/'' @ show_padded 20 generation @ ''.sqlite''"

definition manifest_key :: "string \<Rightarrow> string" where
  "manifest_key pid = ''projects/'' @ pid @ ''/manifest.json''"

definition writer_lease_key :: "string \<Rightarrow> string" where
  "writer_lease_key pid = ''projects/'' @ pid @ ''/writer-lease.json''"

definition writer_lease_claim_key :: "string \<Rightarrow> nat \<Rightarrow> string" where
  "writer_lease_claim_key pid fencing_token =
     ''projects/'' @ pid @ ''/writer-lease-claims/'' @ show_padded 20 fencing_token @ ''.json''"

definition wal_prefix :: "string \<Rightarrow> string" where
  "wal_prefix pid = ''projects/'' @ pid @ ''/wal''"

definition wal_segment_key :: "string \<Rightarrow> nat \<Rightarrow> string" where
  "wal_segment_key pid segment_id = wal_prefix pid @ ''/'' @ show_padded 20 segment_id @ ''.wal''"

definition wal_segment_id :: "string \<Rightarrow> nat option" where
  "wal_segment_id key =
     Option.bind (strip_suffix (last (split_on (CHR ''/'') key)) ''.wal'') parse_u64"

definition storage_key :: "string \<Rightarrow> string \<Rightarrow> string \<Rightarrow> string" where
  "storage_key pid bucket key = ''projects/'' @ pid @ ''/storage/'' @ bucket @ ''/'' @ key"

text \<open>The reason is mapped per character: the continuation bytes of a character beyond ASCII
  vanish with it.\<close>

definition change_log_key :: "nat \<Rightarrow> string \<Rightarrow> nat \<Rightarrow> string \<Rightarrow> string" where
  "change_log_key now pid ops_since_snapshot reason =
     ''projects/'' @ pid @ ''/change-log/'' @ show_nat now @ ''-''
     @ show_padded 20 ops_since_snapshot @ ''-''
     @ map (\<lambda>c. if is_ascii_alphanumeric c then c else CHR ''-'')
         (filter (\<lambda>c. \<not> (128 \<le> code c \<and> code c < 192)) reason)
     @ ''.json''"

section \<open>Bookmarks\<close>

definition bookmark_for_seq :: "nat \<Rightarrow> string" where
  "bookmark_for_seq seq = ''sdb1-'' @ show_padded 20 seq"

definition bookmark_to_seq :: "string \<Rightarrow> nat api" where
  "bookmark_to_seq bookmark =
     rbind (ok_or (api_err 400 (''invalid bookmark: '' @ bookmark))
              (strip_prefix (trim bookmark) ''sdb1-''))
       (\<lambda>seq. ok_or (api_err 400 (''invalid bookmark: '' @ bookmark)) (parse_u64 seq))"

definition with_bookmark :: "json \<Rightarrow> string \<Rightarrow> json" where
  "with_bookmark value bookmark =
     (case value of
        JObject m \<Rightarrow> JObject (bt_insert ''bookmark'' (JString bookmark) m)
      | _ \<Rightarrow> jobj [(''value'', value), (''bookmark'', JString bookmark)])"

section \<open>Files and digests\<close>

definition read_file_range :: "bytes \<Rightarrow> nat \<Rightarrow> bytes" where
  "read_file_range file offset = drop offset file"

definition hex_sha256 :: "(bytes \<Rightarrow> bytes) \<Rightarrow> bytes \<Rightarrow> string" where
  "hex_sha256 sha data = hex_lower (sha data)"

section \<open>The calendar\<close>

definition leap_year :: "int \<Rightarrow> bool" where
  "leap_year y \<longleftrightarrow> (y mod 4 = 0 \<and> y mod 100 \<noteq> 0) \<or> y mod 400 = 0"

definition year_days :: "int \<Rightarrow> int" where
  "year_days y = (if leap_year y then 366 else 365)"

definition month_table :: "int \<Rightarrow> int list" where
  "month_table y =
     (if leap_year y then [31, 29, 31, 30, 31, 30, 31, 31, 30, 31, 30, 31]
      else [31, 28, 31, 30, 31, 30, 31, 31, 30, 31, 30, 31])"

function year_loop :: "int \<Rightarrow> int \<Rightarrow> int \<times> int" where
  "year_loop y remaining =
     (if remaining < year_days y then (y, remaining)
      else year_loop (y + 1) (remaining - year_days y))"
  by pat_completeness auto
termination
  by (relation "measure (\<lambda>(y, remaining). nat remaining)") (auto simp: year_days_def split: if_splits)

declare year_loop.simps [simp del]

fun month_loop :: "nat \<Rightarrow> int \<Rightarrow> int list \<Rightarrow> nat \<times> int" where
  "month_loop i remaining [] = (0, remaining)"
| "month_loop i remaining (dm # dms) =
     (if remaining < dm then (i + 1, remaining) else month_loop (i + 1) (remaining - dm) dms)"

text \<open>The date and time of day the two loops compute, before formatting.\<close>

definition civil_from_unix :: "int \<Rightarrow> int \<times> nat \<times> int \<times> int \<times> int \<times> int" where
  "civil_from_unix secs =
     (let days = secs div 86400; rem = secs mod 86400;
          h = rem div 3600; mi = (rem mod 3600) div 60; s = rem mod 60;
          (y, remaining) = year_loop 1970 days;
          (mo, remaining) = month_loop 0 remaining (month_table y)
      in (y, mo, remaining + 1, h, mi, s))"

text \<open>\<open>{i:0w}\<close> of a signed number: the sign counts towards the width.\<close>

definition show_int_padded :: "nat \<Rightarrow> int \<Rightarrow> string" where
  "show_int_padded w i =
     (if i < 0 then CHR ''-'' # zero_pad (w - 1) (show_nat (nat (- i))) else show_padded w (nat i))"

definition iso_from_unix :: "int \<Rightarrow> string" where
  "iso_from_unix secs =
     (let (y, mo, d, h, mi, s) = civil_from_unix secs
      in show_int_padded 4 y @ ''-'' @ show_padded 2 mo @ ''-'' @ show_int_padded 2 d @ ''T''
         @ show_int_padded 2 h @ '':'' @ show_int_padded 2 mi @ '':'' @ show_int_padded 2 s @ ''Z'')"

section \<open>Project ids and object keys\<close>

definition project_id_error :: api_error where
  "project_id_error = api_err 400 ''project id must match [A-Za-z0-9][A-Za-z0-9_-]{0,63}''"

fun safe_project_id :: "string \<Rightarrow> string api" where
  "safe_project_id [] = Inl project_id_error"
| "safe_project_id (c # cs) =
     (if \<not> is_ascii_alphanumeric c \<or> 64 < length (c # cs)
         \<or> \<not> list_all (\<lambda>ch. is_ascii_alphanumeric ch \<or> ch = CHR ''_'' \<or> ch = CHR ''-'') cs
      then Inl project_id_error
      else Inr (c # cs))"

definition safe_object_key :: "string \<Rightarrow> string api" where
  "safe_object_key key =
     (if key = [] \<or> starts_with key ''/'' \<or> char_of (0 :: nat) \<in> set key
      then Inl (api_err 400 ''invalid object key'')
      else if list_ex (\<lambda>part. part = ''.'' \<or> part = ''..'') (split_on (CHR ''/'') key)
      then Inl (api_err 400 ''object key may not contain . or .. path segments'')
      else Inr key)"

section \<open>JSON and SQL values\<close>

fun sql_to_json :: "(bytes \<Rightarrow> string) \<Rightarrow> sql_value \<Rightarrow> json" where
  "sql_to_json base64 SqlNull = JNull"
| "sql_to_json base64 (SqlInteger i) = json_of_int i"
| "sql_to_json base64 (SqlReal f) = json_of_f64 f"
| "sql_to_json base64 (SqlText s) = JString s"
| "sql_to_json base64 (SqlBlob b) = JString (base64 b)"

text \<open>A row is its column names with their values, in column order.\<close>

type_synonym sql_row = "(string \<times> sql_value) list"

definition row_to_json_map :: "(bytes \<Rightarrow> string) \<Rightarrow> sql_row \<Rightarrow> json_map" where
  "row_to_json_map base64 row =
     fold (\<lambda>(name, value). bt_insert name (sql_to_json base64 value)) row []"

definition number_to_sql :: "json_number \<Rightarrow> sql_value option" where
  "number_to_sql n =
     (case number_as_i64 n of Some i \<Rightarrow> Some (SqlInteger i)
      | None \<Rightarrow> map_option SqlReal (number_as_f64 n))"

fun json_to_sql_value :: "serde \<Rightarrow> json \<Rightarrow> sql_value" where
  "json_to_sql_value sd JNull = SqlNull"
| "json_to_sql_value sd (JBool b) = SqlInteger (if b then 1 else 0)"
| "json_to_sql_value sd (JNumber n) =
     (case number_to_sql n of Some v \<Rightarrow> v | None \<Rightarrow> SqlNull)"
| "json_to_sql_value sd (JString s) = SqlText s"
| "json_to_sql_value sd v = SqlText (to_json_text sd v)"

fun normalize_value :: "serde \<Rightarrow> json \<Rightarrow> json" where
  "normalize_value sd (JBool b) = json_of_int (if b then 1 else 0)"
| "normalize_value sd (JArray xs) = JString (to_json_text sd (JArray xs))"
| "normalize_value sd (JObject m) = JString (to_json_text sd (JObject m))"
| "normalize_value sd v = v"

fun normalize_fields :: "serde \<Rightarrow> json_map \<Rightarrow> json_map \<Rightarrow> json_map api" where
  "normalize_fields sd [] out = Inr out"
| "normalize_fields sd ((key, value) # obj) out =
     (case assert_user_ident key of
        Inl e \<Rightarrow> Inl e
      | Inr column \<Rightarrow> normalize_fields sd obj (bt_insert column (normalize_value sd value) out))"

definition normalize_row_payload :: "serde \<Rightarrow> json \<Rightarrow> json_map api" where
  "normalize_row_payload sd data =
     (case as_object data of
        None \<Rightarrow> Inl (api_err 400 ''row body must be an object'')
      | Some obj \<Rightarrow>
          if obj = [] then Inl (api_err 400 ''row body must be a non-empty object'')
          else normalize_fields sd obj [])"

section \<open>Bookmarks and segment keys are sequence codecs\<close>

definition bookmark_seq :: "string \<Rightarrow> nat option" where
  "bookmark_seq b = (case bookmark_to_seq b of Inl e \<Rightarrow> None | Inr n \<Rightarrow> Some n)"

lemma trim_bookmark: "trim (bookmark_for_seq n) = bookmark_for_seq n"
proof (rule trim_alnum_ends)
  have "last (show_padded 20 n) \<in> set (show_padded 20 n)" by simp
  then have "is_ascii_digit (last (show_padded 20 n))"
    using padded_digits [of 20 n] by (auto simp: list_all_iff)
  then show "is_ascii_alphanumeric (last (bookmark_for_seq n))"
    by (simp add: bookmark_for_seq_def is_ascii_alphanumericI)
qed (simp_all add: bookmark_for_seq_def ascii_defs)

lemma bookmark_roundtrip: "n \<le> u64_max \<Longrightarrow> bookmark_to_seq (bookmark_for_seq n) = Inr n"
  using strip_prefix_append [of "''sdb1-''" "show_padded 20 n"]
  by (simp add: bookmark_to_seq_def trim_bookmark)
    (simp add: bookmark_for_seq_def parse_u64_padded)

lemma bookmark_to_seq_bound: "bookmark_to_seq b = Inr n \<Longrightarrow> n \<le> u64_max"
  by (auto simp: bookmark_to_seq_def result_simps parse_u64_bound)

lemma bookmark_to_seq_status: "bookmark_to_seq b = Inl e \<Longrightarrow> err_status e = 400"
  by (auto simp: bookmark_to_seq_def result_simps elim!: ok_or.elims)

lemma padded20_less: "m < n \<Longrightarrow> n \<le> u64_max \<Longrightarrow> show_padded 20 m < show_padded 20 n"
  by (subst padded_less_iff) (simp_all add: u64_max_def)

lemma bookmark_less: "m < n \<Longrightarrow> n \<le> u64_max \<Longrightarrow> bookmark_for_seq m < bookmark_for_seq n"
  by (simp add: bookmark_for_seq_def padded20_less)

interpretation bookmark: seq_codec bookmark_for_seq bookmark_seq u64_max
  by unfold_locales (simp_all add: bookmark_seq_def bookmark_roundtrip bookmark_less)

lemma digit_not_slash: "list_all is_ascii_digit s \<Longrightarrow> CHR ''/'' \<notin> set s"
  by (auto simp: list_all_iff is_ascii_digit_def code_def)

lemma padded_no_slash [simp]: "CHR ''/'' \<notin> set (show_padded w n)"
  by (rule digit_not_slash) (rule padded_digits)

lemma wal_segment_key_slash:
  "wal_segment_key pid n = wal_prefix pid @ CHR ''/'' # (show_padded 20 n @ ''.wal'')"
  by (simp add: wal_segment_key_def)

lemma wal_segment_id_key: "n \<le> u64_max \<Longrightarrow> wal_segment_id (wal_segment_key pid n) = Some n"
  unfolding wal_segment_id_def wal_segment_key_slash
  by (subst last_split_on_append) (simp_all add: parse_u64_padded)

lemma wal_segment_key_less:
  "m < n \<Longrightarrow> n \<le> u64_max \<Longrightarrow> wal_segment_key pid m < wal_segment_key pid n"
proof -
  assume "m < n" and "n \<le> u64_max"
  then have "length (show_padded 20 m) = length (show_padded 20 n)"
    by (simp add: length_padded u64_max_def)
  with \<open>m < n\<close> \<open>n \<le> u64_max\<close> show ?thesis
    by (simp add: wal_segment_key_def append_less_iff append_less_same_length padded20_less)
qed

interpretation wal_key: seq_codec "wal_segment_key pid" wal_segment_id u64_max for pid
  by unfold_locales (simp_all add: wal_segment_id_key wal_segment_key_less)

section \<open>Namespaces of a project\<close>

text \<open>
  Splitting a key at its slashes shows the namespace: \<open>projects\<close>, the project, then
  \<open>storage\<close> for the objects users upload and another word for everything the runtime
  keeps.
\<close>

lemma safe_project_id_Inr [ident_simps]:
  "safe_project_id p = Inr q \<longleftrightarrow>
     q = p \<and> p \<noteq> [] \<and> length p \<le> 64 \<and> is_ascii_alphanumeric (hd p)
     \<and> list_all (\<lambda>ch. is_ascii_alphanumeric ch \<or> ch = CHR ''_'' \<or> ch = CHR ''-'') (tl p)"
  by (cases p) auto

lemma safe_project_id_no_slash:
  assumes "safe_project_id p = Inr q"
  shows "CHR ''/'' \<notin> set p"
proof -
  have no: "\<not> is_ascii_alphanumeric (CHR ''/'')" by (simp add: ascii_defs)
  from assms obtain c cs where "p = c # cs" and "is_ascii_alphanumeric c"
    and "\<forall>ch \<in> set cs. is_ascii_alphanumeric ch \<or> ch = CHR ''_'' \<or> ch = CHR ''-''"
    by (cases p) (auto simp: list_all_iff split: if_splits)
  with no show ?thesis by auto
qed

lemma split_projects:
  "CHR ''/'' \<notin> set pid \<Longrightarrow>
    split_on (CHR ''/'') (''projects/'' @ pid @ CHR ''/'' # rest)
      = ''projects'' # pid # split_on (CHR ''/'') rest"
  by (simp add: split_on_append)

lemma split_storage_key:
  assumes "CHR ''/'' \<notin> set pid" and "CHR ''/'' \<notin> set bucket"
  shows "split_on (CHR ''/'') (storage_key pid bucket key)
    = ''projects'' # pid # ''storage'' # bucket # split_on (CHR ''/'') key"
  using split_projects [OF assms(1), of "''storage/'' @ bucket @ CHR ''/'' # key"] assms(2)
  by (simp add: storage_key_def split_on_append)

lemma split_control_keys:
  assumes "CHR ''/'' \<notin> set pid"
  shows "split_on (CHR ''/'') (manifest_key pid) = [''projects'', pid, ''manifest.json'']"
    and "split_on (CHR ''/'') (writer_lease_key pid) = [''projects'', pid, ''writer-lease.json'']"
    and "split_on (CHR ''/'') (snapshot_key pid) = [''projects'', pid, ''database.sqlite'']"
    and "split_on (CHR ''/'') (writer_lease_claim_key pid n)
      = [''projects'', pid, ''writer-lease-claims'', show_padded 20 n @ ''.json'']"
    and "split_on (CHR ''/'') (snapshot_generation_key pid n)
      = [''projects'', pid, ''snapshots'', show_padded 20 n @ ''.sqlite'']"
    and "split_on (CHR ''/'') (wal_segment_key pid n)
      = [''projects'', pid, ''wal'', show_padded 20 n @ ''.wal'']"
  using split_projects [OF assms]
  by (simp_all add: manifest_key_def writer_lease_key_def snapshot_key_def split_on_no_sep
      writer_lease_claim_key_def snapshot_generation_key_def wal_segment_key_def wal_prefix_def)

lemma storage_key_inject:
  assumes "CHR ''/'' \<notin> set p" "CHR ''/'' \<notin> set p'" "CHR ''/'' \<notin> set b" "CHR ''/'' \<notin> set b'"
  shows "storage_key p b k = storage_key p' b' k' \<longleftrightarrow> p = p' \<and> b = b' \<and> k = k'"
proof
  assume "storage_key p b k = storage_key p' b' k'"
  then have "split_on (CHR ''/'') (storage_key p b k) = split_on (CHR ''/'') (storage_key p' b' k')"
    by simp
  then have "p = p'" "b = b'" "split_on (CHR ''/'') k = split_on (CHR ''/'') k'"
    using assms by (simp_all add: split_storage_key)
  then show "p = p' \<and> b = b' \<and> k = k'"
    using split_on_inject by blast
qed simp

section \<open>Calendar lemmas\<close>

text \<open>Days from 1970-01-01 to the first of January of a year, in closed form.\<close>

definition days_to_year :: "int \<Rightarrow> int" where
  "days_to_year y = 365 * (y - 1970) + ((y - 1) div 4 - (y - 1) div 100 + (y - 1) div 400 - 477)"

lemma div_pred: "0 < n \<Longrightarrow> y div n = (y - 1) div n + (if y mod n = 0 then 1 else 0)" for y n :: int
proof -
  assume n: "0 < n"
  have y: "y = n * (y div n) + y mod n" by simp
  show ?thesis
  proof (cases "y mod n = 0")
    case True
    have "y - 1 = n * (y div n - 1) + (n - 1)" using True y by (simp add: algebra_simps)
    then have "(y - 1) div n = y div n - 1" by (rule int_div_pos_eq) (use n in auto)
    with True show ?thesis by simp
  next
    case False
    have "y - 1 = n * (y div n) + (y mod n - 1)" using y by simp
    moreover have "0 \<le> y mod n - 1"
      using False pos_mod_sign [OF n, of y] by linarith
    moreover have "y mod n - 1 < n" using pos_mod_bound [OF n, of y] by linarith
    ultimately have "(y - 1) div n = y div n" by (rule int_div_pos_eq)
    with False show ?thesis by simp
  qed
qed

lemma days_to_year_Suc: "days_to_year (y + 1) = days_to_year y + year_days y"
proof -
  have arith: "365 * ((y + 1) - 1970) + (a' - b' + c' - 477)
      = 365 * (y - 1970) + (a - b + c - 477) + (if (P \<and> \<not> Q) \<or> R then 366 else 365)"
    if "a' = a + (if P then 1 else 0)" "b' = b + (if Q then 1 else 0)"
      "c' = c + (if R then 1 else 0)" "R \<Longrightarrow> Q" "Q \<Longrightarrow> P" for a a' b b' c c' :: int and P Q R
    using that by auto
  have "y mod 400 = 0 \<Longrightarrow> y mod 100 = 0" "y mod 100 = 0 \<Longrightarrow> y mod 4 = 0"
    by (auto simp: mod_eq_0_iff_dvd elim: dvd_trans [rotated])
  from arith [OF div_pred div_pred div_pred this] show ?thesis
    by (simp only: days_to_year_def year_days_def leap_year_def) simp
qed

lemma year_loop_spec:
  "0 \<le> r \<Longrightarrow> year_loop y r = (y', r') \<Longrightarrow>
    y \<le> y' \<and> 0 \<le> r' \<and> r' < year_days y' \<and> r = days_to_year y' - days_to_year y + r'"
proof (induction y r rule: year_loop.induct)
  case (1 y r)
  show ?case
  proof (cases "r < year_days y")
    case True
    with "1.prems" show ?thesis by (simp add: year_loop.simps [of y r])
  next
    case False
    with "1.prems" have "year_loop (y + 1) (r - year_days y) = (y', r')"
      by (simp add: year_loop.simps [of y r])
    with False "1.IH" show ?thesis
      by (auto simp: days_to_year_Suc)
  qed
qed

lemma month_loop_spec:
  "0 \<le> r \<Longrightarrow> r < sum_list ms \<Longrightarrow> month_loop i r ms = (mo, r') \<Longrightarrow>
    i < mo \<and> mo \<le> i + length ms \<and> 0 \<le> r' \<and> r' < ms ! (mo - i - 1)
    \<and> r = sum_list (take (mo - i - 1) ms) + r'"
proof (induction ms arbitrary: i r)
  case (Cons m ms)
  show ?case
  proof (cases "r < m")
    case False
    with Cons.prems have "Suc i < mo \<and> mo \<le> Suc i + length ms \<and> 0 \<le> r' \<and> r' < ms ! (mo - Suc i - 1)
        \<and> r - m = sum_list (take (mo - Suc i - 1) ms) + r'"
      by (intro Cons.IH) auto
    moreover from this obtain k where "mo - i - 1 = Suc k" and "k = mo - Suc i - 1"
      by (cases "mo - i - 1") auto
    ultimately show ?thesis by auto
  qed (use Cons.prems in auto)
qed simp

lemma month_table_sum: "sum_list (month_table y) = year_days y"
  by (simp add: month_table_def year_days_def)

lemma month_table_length [simp]: "length (month_table y) = 12"
  by (simp add: month_table_def)

lemma civil_spec:
  assumes "0 \<le> secs" and "civil_from_unix secs = (y, mo, d, h, mi, s)"
  shows "1970 \<le> y" "1 \<le> mo" "mo \<le> 12" "1 \<le> d" "d \<le> month_table y ! (mo - 1)"
    and "0 \<le> h" "h < 24" "0 \<le> mi" "mi < 60" "0 \<le> s" "s < 60"
    and "secs = 86400 * (days_to_year y + sum_list (take (mo - 1) (month_table y)) + (d - 1))
                + 3600 * h + 60 * mi + s"
proof -
  obtain r where yl: "year_loop 1970 (secs div 86400) = (y, r)"
    and ml: "month_loop 0 r (month_table y) = (mo, d - 1)"
    and hms: "h = secs mod 86400 div 3600" "mi = secs mod 86400 mod 3600 div 60" "s = secs mod 86400 mod 60"
    using assms(2) by (auto simp: civil_from_unix_def Let_def split: prod.splits)
  have ys: "1970 \<le> y" "0 \<le> r" "r < year_days y"
    "secs div 86400 = days_to_year y - days_to_year 1970 + r"
    using year_loop_spec [OF _ yl] assms(1) by auto
  have ms: "0 < mo" "mo \<le> 12" "0 \<le> d - 1" "d - 1 < month_table y ! (mo - 1)"
    "r = sum_list (take (mo - 1) (month_table y)) + (d - 1)"
    using month_loop_spec [OF _ _ ml] ys by (auto simp: month_table_sum)
  show "1970 \<le> y" "1 \<le> mo" "mo \<le> 12" "1 \<le> d" "d \<le> month_table y ! (mo - 1)"
    using ys ms by auto
  show "0 \<le> h" "h < 24" "0 \<le> mi" "mi < 60" "0 \<le> s" "s < 60"
    using pos_mod_sign [of 86400 secs] pos_mod_bound [of 86400 secs]
      pos_mod_sign [of 3600 "secs mod 86400"] pos_mod_bound [of 3600 "secs mod 86400"]
    unfolding hms by linarith+
  have "secs = 86400 * (secs div 86400) + secs mod 86400" by simp
  moreover have "x = 3600 * (x div 3600) + 60 * (x mod 3600 div 60) + x mod 60" for x :: int
  proof -
    have "x mod 3600 mod 60 = x mod 60" by (simp add: mod_mod_cancel)
    moreover have "x mod 3600 = 60 * (x mod 3600 div 60) + x mod 3600 mod 60" by simp
    moreover have "x = 3600 * (x div 3600) + x mod 3600" by simp
    ultimately show ?thesis by linarith
  qed
  then have "secs mod 86400 = 3600 * h + 60 * mi + s"
    using hms by (metis mod_mod_trivial)
  moreover have "days_to_year 1970 = 0" by (simp add: days_to_year_def)
  ultimately show "secs = 86400 * (days_to_year y + sum_list (take (mo - 1) (month_table y)) + (d - 1))
                + 3600 * h + 60 * mi + s"
    using ys(4) ms(5) by simp
qed

lemma sum_year_days: "1970 \<le> y \<Longrightarrow> (\<Sum>x = 1970..<y. year_days x) = days_to_year y"
proof (induction y rule: int_ge_induct)
  case base
  then show ?case by (simp add: days_to_year_def)
next
  case (step y)
  then have "{1970..<y + 1} = insert y {1970..<y}" by auto
  with step show ?case by (simp add: days_to_year_Suc)
qed

section \<open>Row bodies\<close>

text \<open>A value a column can hold after normalisation: no booleans and no nesting.\<close>

fun column_value :: "json \<Rightarrow> bool" where
  "column_value (JBool b) = False"
| "column_value (JArray xs) = False"
| "column_value (JObject m) = False"
| "column_value v = True"

lemma column_value_normalize: "column_value (normalize_value sd v)"
  by (cases v) (simp_all add: json_of_int_def)

lemma normalize_value_column: "column_value v \<Longrightarrow> normalize_value sd v = v"
  by (cases v) auto

lemma normalize_fields_Inr:
  "normalize_fields sd obj out = Inr m \<longleftrightarrow>
     (\<forall>(k, v) \<in> set obj. assert_user_ident k = Inr k)
     \<and> m = fold (\<lambda>(k, v). bt_insert k v) (map (\<lambda>(k, v). (k, normalize_value sd v)) obj) out"
proof (induction obj arbitrary: out)
  case (Cons kv obj)
  obtain k v where kv: "kv = (k, v)" by (cases kv)
  have "assert_user_ident k = Inr c \<Longrightarrow> c = k" for c by (simp add: ident_simps)
  with Cons show ?case by (cases "assert_user_ident k") (auto simp: kv)
qed auto

lemma map_of_normalized:
  "map_of (map (\<lambda>(k, v). (k, f v)) m) c = map_option f (map_of m c)"
  by (induction m) auto

lemma normalize_row_payload_Inr:
  assumes "bt_wf obj"
  shows "normalize_row_payload sd (JObject obj) = Inr m \<Longrightarrow>
    obj \<noteq> [] \<and> (\<forall>k. bt_get m k = map_option (normalize_value sd) (bt_get obj k))
    \<and> (\<forall>(k, v) \<in> set obj. assert_user_ident k = Inr k) \<and> bt_wf m"
proof -
  assume "normalize_row_payload sd (JObject obj) = Inr m"
  then have ne: "obj \<noteq> []" and ids: "\<forall>(k, v) \<in> set obj. assert_user_ident k = Inr k"
    and m: "m = fold (\<lambda>(k, v). bt_insert k v) (map (\<lambda>(k, v). (k, normalize_value sd v)) obj) []"
    by (auto simp: normalize_row_payload_def normalize_fields_Inr split: if_splits)
  have "distinct (map fst obj)"
    using bt.distinct_keys [OF assms] by (simp add: bt_keys_def)
  then have rev: "map_of (rev obj) k = map_of obj k" for k
    by (metis distinct_rev map_of_eqI map_of_SomeD map_of_eq_Some_iff map_of_eq_None_iff
        not_None_eq rev_map set_rev)
  have "bt_get m k = map_option (normalize_value sd) (bt_get obj k)" for k
    unfolding m bt.get_fold_insert
    by (simp add: bt.get_empty rev_map map_of_normalized rev bt_get_def split: option.split)
  then show ?thesis
    using ne ids m bt.wf_fold_insert [OF bt.wf_empty] by auto
qed

section \<open>Properties\<close>

text \<open>
  A bookmark reads back to its sequence number, and the order of bookmarks as texts is
  the order of the sequence numbers, for every number a \<open>u64\<close> holds.
\<close>

theorem bookmarks_ordered:
  assumes "m \<le> u64_max" and "n \<le> u64_max"
  shows "bookmark_to_seq (bookmark_for_seq m) = Inr m
    \<and> (bookmark_for_seq m < bookmark_for_seq n \<longleftrightarrow> m < n)
    \<and> (bookmark_for_seq m = bookmark_for_seq n \<longleftrightarrow> m = n)"
  using assms bookmark_roundtrip bookmark.enc_less_iff bookmark.enc_inject by blast

lemma bookmarks_ordered_witness:
  "bookmark_to_seq (bookmark_for_seq 9) = Inr 9
    \<and> (bookmark_for_seq 9 < bookmark_for_seq 10 \<longleftrightarrow> (9 :: nat) < 10)
    \<and> (bookmark_for_seq 9 = bookmark_for_seq 10 \<longleftrightarrow> (9 :: nat) = 10)"
  by (rule bookmarks_ordered) (simp_all add: u64_max_def)

text \<open>
  Sorting the object keys of WAL segments sorts the segments by number, and the numbers
  read back from the sorted keys; recovery from a listing replays segments in order.
\<close>

theorem wal_listing_ordered:
  assumes "\<forall>n \<in> set ns. n \<le> u64_max"
  shows "sort (map (wal_segment_key pid) ns) = map (wal_segment_key pid) (sort ns)
    \<and> map wal_segment_id (sort (map (wal_segment_key pid) ns)) = map Some (sort ns)"
  using wal_key.sort_enc [OF assms, of pid] wal_key.decode_all [of "sort ns" pid] assms by simp

lemma wal_listing_ordered_witness:
  "sort (map (wal_segment_key ''p'') [10, 9]) = map (wal_segment_key ''p'') (sort [10, 9])
    \<and> map wal_segment_id (sort (map (wal_segment_key ''p'') [10, 9])) = map Some (sort [10, 9])"
  by (rule wal_listing_ordered) (simp add: u64_max_def)

text \<open>
  The object a user uploads never overwrites what the runtime keeps (manifest, lease,
  claims, snapshots, WAL segments) of any project, nor an object of another project or
  bucket, whatever the object key.
\<close>

theorem storage_namespace_isolated:
  assumes "safe_project_id p = Inr p" and "safe_project_id q = Inr q"
    and "valid_ident b" and "valid_ident c"
  shows "storage_key p b k \<notin> {manifest_key q, writer_lease_key q, snapshot_key q,
      writer_lease_claim_key q n, snapshot_generation_key q n, wal_segment_key q n}
    \<and> (storage_key p b k = storage_key q c l \<longleftrightarrow> p = q \<and> b = c \<and> k = l)"
proof
  note sl = assms(1,2) [THEN safe_project_id_no_slash]
  have "split_on (CHR ''/'') (storage_key p b k) \<noteq> split_on (CHR ''/'') x"
    if "x \<in> {manifest_key q, writer_lease_key q, snapshot_key q,
      writer_lease_claim_key q n, snapshot_generation_key q n, wal_segment_key q n}" for x
    using that split_control_keys [OF sl(2)] split_storage_key [OF sl(1)] assms(3) by auto
  then show "storage_key p b k \<notin> {manifest_key q, writer_lease_key q, snapshot_key q,
      writer_lease_claim_key q n, snapshot_generation_key q n, wal_segment_key q n}" by blast
  show "storage_key p b k = storage_key q c l \<longleftrightarrow> p = q \<and> b = c \<and> k = l"
    using storage_key_inject [OF sl] assms(3,4) by simp
qed

lemma storage_namespace_isolated_witness:
  "storage_key ''p'' ''b'' ''../manifest.json'' \<notin> {manifest_key ''p'', writer_lease_key ''p'',
      snapshot_key ''p'', writer_lease_claim_key ''p'' 1, snapshot_generation_key ''p'' 1,
      wal_segment_key ''p'' 1}
    \<and> (storage_key ''p'' ''b'' ''../manifest.json'' = storage_key ''p'' ''b'' ''x''
         \<longleftrightarrow> ''p'' = ''p'' \<and> ''b'' = ''b'' \<and> ''../manifest.json'' = ''x'')"
  by (rule storage_namespace_isolated) (simp_all add: ascii_defs ident_start_def)

text \<open>
  The two calendar loops compute the Gregorian date and the time of day of a Unix time
  after 1970: the fields are in range and count back to the seconds they came from.
\<close>

theorem civil_from_unix_correct:
  assumes "0 \<le> secs"
  shows "case civil_from_unix secs of (y, mo, d, h, mi, s) \<Rightarrow>
    1970 \<le> y \<and> 1 \<le> mo \<and> mo \<le> 12 \<and> 1 \<le> d \<and> d \<le> month_table y ! (mo - 1)
    \<and> 0 \<le> h \<and> h < 24 \<and> 0 \<le> mi \<and> mi < 60 \<and> 0 \<le> s \<and> s < 60
    \<and> secs = 86400 * ((\<Sum>x = 1970..<y. year_days x)
                      + sum_list (take (mo - 1) (month_table y)) + (d - 1))
             + 3600 * h + 60 * mi + s"
proof -
  obtain y mo d h mi s where c: "civil_from_unix secs = (y, mo, d, h, mi, s)"
    by (metis prod.exhaust)
  note sp = civil_spec [OF assms c]
  show ?thesis
    unfolding c prod.case sum_year_days [OF sp(1)] using sp by blast
qed

lemma civil_from_unix_correct_witness:
  "case civil_from_unix 951782400 of (y, mo, d, h, mi, s) \<Rightarrow>
    1970 \<le> y \<and> 1 \<le> mo \<and> mo \<le> 12 \<and> 1 \<le> d \<and> d \<le> month_table y ! (mo - 1)
    \<and> 0 \<le> h \<and> h < 24 \<and> 0 \<le> mi \<and> mi < 60 \<and> 0 \<le> s \<and> s < 60
    \<and> 951782400 = 86400 * ((\<Sum>x = 1970..<y. year_days x)
                      + sum_list (take (mo - 1) (month_table y)) + (d - 1))
             + 3600 * h + 60 * mi + s"
  by (rule civil_from_unix_correct) simp

text \<open>
  A row body that is accepted is a non-empty object whose keys are all user columns (never
  the runtime's own tables' names); the stored row has exactly those columns, each holding a
  scalar, and normalising it again changes nothing.
\<close>

theorem normalize_row_payload_sound:
  assumes "bt_wf obj" and "normalize_row_payload sd (JObject obj) = Inr row"
  shows "obj \<noteq> [] \<and> bt_wf row
    \<and> (\<forall>k. bt_get row k = map_option (normalize_value sd) (bt_get obj k))
    \<and> list_all (\<lambda>(k, v). assert_user_ident k = Inr k \<and> column_value v) row
    \<and> normalize_row_payload sd (JObject row) = Inr row"
proof -
  note sp = normalize_row_payload_Inr [OF assms]
  have wf: "bt_wf row" and get: "bt_get row k = map_option (normalize_value sd) (bt_get obj k)" for k
    using sp by auto
  have row: "assert_user_ident k = Inr k \<and> column_value v" if "(k, v) \<in> set row" for k v
  proof -
    from that wf get obtain u where "(k, u) \<in> set obj" and "v = normalize_value sd u"
      using bt_get_eq_set [of row k v] bt_get_eq_set [of obj k] assms(1) by auto
    then show ?thesis using sp column_value_normalize by auto
  qed
  have "row \<noteq> []"
  proof
    assume "row = []"
    then have "bt_get obj (fst (hd obj)) = None" using get by (simp add: bt_get_def)
    with sp show False by (cases obj) (auto simp: bt_get_def)
  qed
  moreover have "map (\<lambda>(k, v). (k, normalize_value sd v)) row = row"
    using row normalize_value_column by (auto intro!: map_idI)
  ultimately have "normalize_row_payload sd (JObject row) = Inr row"
    using row fold_insert_id [OF wf] by (auto simp: normalize_row_payload_def normalize_fields_Inr)
  with sp row show ?thesis by (auto simp: list_all_iff)
qed

lemma normalize_row_payload_sound_witness:
  "[(''done'', JBool True)] \<noteq> [] \<and> bt_wf [(''done'', json_of_int 1)]
    \<and> (\<forall>k. bt_get [(''done'', json_of_int 1)] k
          = map_option (normalize_value sample_serde) (bt_get [(''done'', JBool True)] k))
    \<and> list_all (\<lambda>(k, v). assert_user_ident k = Inr k \<and> column_value v) [(''done'', json_of_int 1)]
    \<and> normalize_row_payload sample_serde (JObject [(''done'', json_of_int 1)]) = Inr [(''done'', json_of_int 1)]"
  by (rule normalize_row_payload_sound)
    (simp_all add: bt_wf_def normalize_row_payload_def assert_user_ident_def ident_start_def
      ident_char_def ascii_defs starts_with_def)

end
