(* ===== verification/Auth.thy ===== *)
theory Auth
  imports Runtime_Utils Concrete_Packages
begin

text \<open>
  \<open>auth.rs\<close>: the actor of a request and the HS256 tokens that carry it. The process
  environment, the clock, HMAC, Base64 and JSON text are arguments: \<open>env\<close> is
  \<open>std::env::var\<close>, the record \<open>crypto\<close> holds the packages' functions and \<open>now\<close> is
  the clock reading of the call.
\<close>

record actor =
  actor_sub :: "string option"
  actor_role :: string
  actor_claims :: json_map

datatype auth_error = AuthError string

fun auth_message :: "auth_error \<Rightarrow> string" where
  "auth_message (AuthError m) = m"

type_synonym env = "string \<Rightarrow> string option"

record crypto =
  hmac_sha256 :: "bytes \<Rightarrow> bytes \<Rightarrow> bytes option"
  b64url_encode :: "bytes \<Rightarrow> string"
  b64url_decode :: "string \<Rightarrow> bytes option"
  token_serde :: serde

section \<open>Actors\<close>

definition is_service_role :: "actor \<Rightarrow> bool" where
  "is_service_role a \<longleftrightarrow> actor_role a = ''service_role''"

definition is_admin :: "actor \<Rightarrow> bool" where
  "is_admin a \<longleftrightarrow> actor_role a = ''service_role'' \<or> actor_role a = ''admin''"

definition is_anon :: "actor \<Rightarrow> bool" where
  "is_anon a \<longleftrightarrow> actor_role a = ''anon''"

definition is_authenticated :: "actor \<Rightarrow> bool" where
  "is_authenticated a \<longleftrightarrow> actor_role a \<noteq> ''anon''"

definition anon_actor :: actor where
  "anon_actor = \<lparr>actor_sub = None, actor_role = ''anon'', actor_claims = []\<rparr>"

definition actor_claim :: "actor \<Rightarrow> string \<Rightarrow> json" where
  "actor_claim a name =
     (if name = ''sub'' then jopt (actor_sub a)
      else if name = ''role'' then JString (actor_role a)
      else (case bt_get (actor_claims a) name of None \<Rightarrow> JNull | Some v \<Rightarrow> v))"

section \<open>Signing\<close>

definition is_production :: "env \<Rightarrow> bool" where
  "is_production env \<longleftrightarrow> env ''SDB_ENV'' = Some ''production''"

definition jwt_secret :: "env \<Rightarrow> auth_error + string" where
  "jwt_secret env =
     (case env ''SDB_JWT_SECRET'' of
        Some secret \<Rightarrow>
          if secret \<noteq> [] then Inr secret
          else if is_production env
          then Inl (AuthError ''SDB_JWT_SECRET is required in production mode (SDB_ENV=production)'')
          else Inr ''dev-secret-change-me''
      | None \<Rightarrow>
          if is_production env
          then Inl (AuthError ''SDB_JWT_SECRET is required in production mode (SDB_ENV=production)'')
          else Inr ''dev-secret-change-me'')"

definition sign :: "crypto \<Rightarrow> env \<Rightarrow> string \<Rightarrow> auth_error + string" where
  "sign cr env input =
     rbind (jwt_secret env) (\<lambda>secret.
       case hmac_sha256 cr secret input of
         None \<Rightarrow> Inl (AuthError ''invalid secret'')
       | Some mac \<Rightarrow> Inr (b64url_encode cr mac))"

definition b64_json :: "crypto \<Rightarrow> json \<Rightarrow> auth_error + string" where
  "b64_json cr value = Inr (b64url_encode cr (to_json_text (token_serde cr) value))"

definition decode_json :: "crypto \<Rightarrow> string \<Rightarrow> auth_error + json" where
  "decode_json cr input =
     rbind (ok_or (AuthError ''invalid token payload'') (b64url_decode cr input))
       (\<lambda>bs. ok_or (AuthError ''invalid token payload'') (from_json_text (token_serde cr) bs))"

section \<open>Tokens\<close>

definition token_payload :: "int \<Rightarrow> string \<Rightarrow> string \<Rightarrow> json_map \<Rightarrow> int option \<Rightarrow> json" where
  "token_payload now sub role claims expires_in =
     (let payload = jobj [(''sub'', JString sub), (''role'', JString role),
                          (''claims'', JObject claims), (''iat'', json_of_int now)]
      in case expires_in of
           None \<Rightarrow> payload
         | Some t \<Rightarrow> jset payload ''exp'' (json_of_int (i64_wrap (now + t))))"

definition mint_token ::
    "crypto \<Rightarrow> env \<Rightarrow> int \<Rightarrow> string \<Rightarrow> string \<Rightarrow> json_map \<Rightarrow> int option \<Rightarrow> auth_error + string" where
  "mint_token cr env now sub role claims expires_in =
     (let payload = token_payload now sub role claims expires_in;
          header = jobj [(''alg'', JString ''HS256''), (''typ'', JString ''JWT'')]
      in rbind (b64_json cr header) (\<lambda>h.
         rbind (b64_json cr payload) (\<lambda>p.
           let signing_input = h @ ''.'' @ p
           in rbind (sign cr env signing_input) (\<lambda>sig.
                Inr (signing_input @ ''.'' @ sig)))))"

definition verify_token :: "crypto \<Rightarrow> env \<Rightarrow> int \<Rightarrow> string \<Rightarrow> auth_error + actor" where
  "verify_token cr env now token =
     (case split_on (CHR ''.'') token of
        [p0, p1, p2] \<Rightarrow>
          rbind (sign cr env (p0 @ ''.'' @ p1)) (\<lambda>expected.
            if expected \<noteq> p2 then Inl (AuthError ''invalid token signature'')
            else rbind (decode_json cr p0) (\<lambda>header.
              if jget_with as_str header ''alg'' \<noteq> Some ''HS256''
              then Inl (AuthError ''unsupported token algorithm'')
              else rbind (decode_json cr p1) (\<lambda>payload.
                if (case jget_with as_i64 payload ''exp'' of None \<Rightarrow> False | Some e \<Rightarrow> e < now)
                then Inl (AuthError ''token expired'')
                else Inr \<lparr>actor_sub = jget_with as_str payload ''sub'',
                          actor_role = (case jget_with as_str payload ''role'' of
                                          None \<Rightarrow> ''authenticated'' | Some r \<Rightarrow> r),
                          actor_claims = (case jget_with as_object payload ''claims'' of
                                            None \<Rightarrow> [] | Some m \<Rightarrow> m)\<rparr>)))
      | _ \<Rightarrow> Inl (AuthError ''invalid token format''))"

definition actor_from_authorization ::
    "crypto \<Rightarrow> env \<Rightarrow> int \<Rightarrow> string option \<Rightarrow> auth_error + actor" where
  "actor_from_authorization cr env now header =
     (case header of
        None \<Rightarrow> Inr anon_actor
      | Some value \<Rightarrow>
          if starts_with value ''Bearer ''
          then verify_token cr env now (trim (trim_start_matches [''Bearer ''] value))
          else Inl (AuthError ''authorization header must use Bearer token''))"

section \<open>What the packages promise\<close>

text \<open>
  Base64url without padding decodes what it encodes and never prints a dot; the JSON text
  of an exact value parses back; HMAC takes keys of any length.
\<close>

definition crypto_ok :: "crypto \<Rightarrow> bool" where
  "crypto_ok cr \<longleftrightarrow>
     (\<forall>x. b64url_decode cr (b64url_encode cr x) = Some x)
     \<and> (\<forall>x. CHR ''.'' \<notin> set (b64url_encode cr x))
     \<and> serde_roundtrip (token_serde cr)
     \<and> (\<forall>k m. hmac_sha256 cr k m \<noteq> None)"

lemma crypto_okD:
  assumes "crypto_ok cr"
  shows "b64url_decode cr (b64url_encode cr x) = Some x"
    and "CHR ''.'' \<notin> set (b64url_encode cr x)"
    and "json_exact v \<Longrightarrow> from_json_text (token_serde cr) (to_json_text (token_serde cr) v) = Some v"
  using assms by (auto simp: crypto_ok_def serde_roundtripD)

lemma decode_b64_json:
  assumes "crypto_ok cr" and "json_exact v"
  shows "decode_json cr (b64url_encode cr (to_json_text (token_serde cr) v)) = Inr v"
  using crypto_okD [OF assms(1)] assms(2) by (simp add: decode_json_def)

lemma exact_json_of_int: "i64_range i \<Longrightarrow> json_exact (json_of_int i)"
  by (auto simp: json_of_int_def i64_range_def i64_max_def u64_max_def)

lemma as_i64_json_of_int [simp]: "i64_range i \<Longrightarrow> as_i64 (json_of_int i) = Some i"
  by (auto simp: json_of_int_def i64_range_def)

lemma token_payload_get:
  assumes "i64_range now"
  shows "jget_with as_str (token_payload now sub role claims t) ''sub'' = Some sub"
    and "jget_with as_str (token_payload now sub role claims t) ''role'' = Some role"
    and "jget_with as_object (token_payload now sub role claims t) ''claims'' = Some claims"
    and "jget_with as_i64 (token_payload now sub role claims t) ''exp''
      = map_option (\<lambda>d. i64_wrap (now + d)) t"
  by (cases t; simp add: token_payload_def jget_with_def jobj_def bt_get_def)+

lemma token_payload_exact:
  assumes "json_exact (JObject claims)" and "i64_range now"
  shows "json_exact (token_payload now sub role claims t)"
proof -
  have fields: "list_all (\<lambda>(k, v). json_exact v)
      [(''sub'', JString sub), (''role'', JString role),
       (''claims'', JObject claims), (''iat'', json_of_int now)]"
    using assms exact_json_of_int by simp
  from json_exact_jobj [OF fields] obtain m where
    m: "jobj [(''sub'', JString sub), (''role'', JString role),
         (''claims'', JObject claims), (''iat'', json_of_int now)] = JObject m"
    and ex: "json_exact (JObject m)"
    by (metis jobj_def)
  have "json_exact (JObject (bt_insert ''exp'' (json_of_int (i64_wrap (now + d))) m))" for d
    using json_exact_insert [OF ex] exact_json_of_int by simp
  with ex show ?thesis
    unfolding token_payload_def Let_def m by (cases t) simp_all
qed

lemma sign_no_dot: "crypto_ok cr \<Longrightarrow> sign cr env s = Inr sig \<Longrightarrow> CHR ''.'' \<notin> set sig"
  by (auto simp: sign_def result_simps crypto_okD split: option.splits)

text \<open>What an accepted token shows.\<close>

lemma jget_with_as_str: "jget_with as_str v k = Some s \<longleftrightarrow> jget v k = Some (JString s)"
proof -
  have "as_str x = Some s \<longleftrightarrow> x = JString s" for x by (cases x) auto
  then show ?thesis by (cases "jget v k") (auto simp: jget_with_def)
qed

lemma verify_token_Inr:
  assumes "verify_token cr env now token = Inr a"
  shows "\<exists>h p sig hv pv. token = h @ ''.'' @ p @ ''.'' @ sig
    \<and> sign cr env (h @ ''.'' @ p) = Inr sig
    \<and> decode_json cr h = Inr hv \<and> jget hv ''alg'' = Some (JString ''HS256'')
    \<and> decode_json cr p = Inr pv
    \<and> (\<forall>e. jget_with as_i64 pv ''exp'' = Some e \<longrightarrow> now \<le> e)
    \<and> actor_sub a = jget_with as_str pv ''sub''"
proof -
  from assms obtain h p sig where sp: "split_on (CHR ''.'') token = [h, p, sig]"
    by (auto simp: verify_token_def split: list.splits)
  then have "token = h @ ''.'' @ p @ ''.'' @ sig"
    using join_split_on [of "CHR ''.''" token] by simp
  moreover from assms obtain hv pv where "sign cr env (h @ ''.'' @ p) = Inr sig"
    "decode_json cr h = Inr hv" "jget_with as_str hv ''alg'' = Some ''HS256''"
    "decode_json cr p = Inr pv" "\<forall>e. jget_with as_i64 pv ''exp'' = Some e \<longrightarrow> now \<le> e"
    "actor_sub a = jget_with as_str pv ''sub''"
    by (auto simp: verify_token_def sp result_simps split: if_splits option.splits)
  ultimately show ?thesis
    by (intro exI [of _ h] exI [of _ p] exI [of _ sig] exI [of _ hv] exI [of _ pv])
      (simp add: jget_with_as_str)
qed

section \<open>Token properties\<close>

lemma mint_then_verify:
  assumes "crypto_ok cr" and "mint_token cr env now sub role claims expires_in = Inr token"
    and "json_exact (JObject claims)" and "i64_range now"
    and "\<forall>d. expires_in = Some d \<longrightarrow> later \<le> i64_wrap (now + d)"
  shows "verify_token cr env later token
    = Inr \<lparr>actor_sub = Some sub, actor_role = role, actor_claims = claims\<rparr>"
proof -
  let ?b = "\<lambda>v. b64url_encode cr (to_json_text (token_serde cr) v)"
  define h where "h = jobj [(''alg'', JString ''HS256''), (''typ'', JString ''JWT'')]"
  define p where "p = token_payload now sub role claims expires_in"
  obtain sig where sig: "sign cr env (?b h @ ''.'' @ ?b p) = Inr sig"
    and token: "token = (?b h @ ''.'' @ ?b p) @ ''.'' @ sig"
    using assms(2) by (auto simp: mint_token_def b64_json_def h_def p_def Let_def result_simps)
  have dots: "CHR ''.'' \<notin> set (?b h)" "CHR ''.'' \<notin> set (?b p)" "CHR ''.'' \<notin> set sig"
    using crypto_okD(2) [OF assms(1)] sign_no_dot [OF assms(1) sig] by auto
  have split: "split_on (CHR ''.'') token = [?b h, ?b p, sig]"
    using dots by (simp add: token split_on_append split_on_no_sep)
  have hx: "json_exact h" "jget_with as_str h ''alg'' = Some ''HS256''"
    by (simp_all add: h_def json_exact_jobj jget_with_def jget_jobj)
  have px: "json_exact p" using token_payload_exact assms(3,4) by (simp add: p_def)
  show ?thesis
    using sig assms(5) hx decode_b64_json [OF assms(1) hx(1)] decode_b64_json [OF assms(1) px]
      token_payload_get [OF assms(4), of sub role claims expires_in]
    unfolding verify_token_def split
    by (cases expires_in) (auto simp: p_def)
qed

text \<open>
  A token that was minted is accepted while it has not expired, and the verified actor
  has the subject, role and claims it was minted with.
\<close>

theorem mint_verify_roundtrip:
  assumes "crypto_ok cr" and "mint_token cr env now sub role claims expires_in = Inr token"
    and "json_exact (JObject claims)" and "i64_range now"
    and "\<forall>d. expires_in = Some d \<longrightarrow> later \<le> i64_wrap (now + d)"
  shows "verify_token cr env later token
    = Inr \<lparr>actor_sub = Some sub, actor_role = role, actor_claims = claims\<rparr>"
  using assms by (rule mint_then_verify)

definition sample_crypto :: crypto where
  "sample_crypto = \<lparr>hmac_sha256 = (\<lambda>k m. Some (k @ m)), b64url_encode = hex_lower,
     b64url_decode = unhex, token_serde = sample_serde\<rparr>"

lemma sample_crypto_ok: "crypto_ok sample_crypto"
proof -
  have "CHR ''.'' \<notin> set (hex_lower x)" for x
    using hex_lower_hexdigits [of x] by (auto simp: list_all_iff is_ascii_hexdigit_def ascii_defs)
  then show ?thesis
    by (simp add: crypto_ok_def sample_crypto_def sample_serde_roundtrip unhex_hex_lower)
qed

definition sample_env :: env where
  "sample_env name = (if name = ''SDB_JWT_SECRET'' then Some ''k'' else None)"

definition sample_token :: string where
  "sample_token = (case mint_token sample_crypto sample_env 100 ''ada'' ''authenticated''
       [(''team'', JString ''x'')] (Some 3600) of Inl e \<Rightarrow> [] | Inr t \<Rightarrow> t)"

lemma sample_token_minted:
  "mint_token sample_crypto sample_env 100 ''ada'' ''authenticated'' [(''team'', JString ''x'')]
     (Some 3600) = Inr sample_token"
  by (simp add: sample_token_def mint_token_def sign_def jwt_secret_def b64_json_def Let_def
      sample_env_def sample_crypto_def)

lemma sample_token_verified:
  "verify_token sample_crypto sample_env 3700 sample_token
     = Inr \<lparr>actor_sub = Some ''ada'', actor_role = ''authenticated'',
            actor_claims = [(''team'', JString ''x'')]\<rparr>"
  by (rule mint_then_verify [OF sample_crypto_ok sample_token_minted])
    (simp_all add: bt_wf_def i64_range_def i64_max_def i64_wrap_def)

lemma hexdigit_alnum: "is_ascii_hexdigit c \<Longrightarrow> is_ascii_alphanumeric c"
  by (auto simp: is_ascii_hexdigit_def ascii_defs)

lemma sample_token_bearer:
  "trim (trim_start_matches [''Bearer ''] (''Bearer '' @ sample_token)) = sample_token"
proof -
  define h where "h = hex_lower (enc_json (jobj [(''alg'', JString ''HS256''), (''typ'', JString ''JWT'')]))"
  define p where "p = hex_lower (enc_json (token_payload 100 ''ada'' ''authenticated''
       [(''team'', JString ''x'')] (Some 3600)))"
  have "sample_token = h @ (''.'' @ p @ ''.'') @ hex_lower (CHR ''k'' # h @ ''.'' @ p)"
    using sample_token_minted unfolding h_def p_def
    by (simp add: mint_token_def sign_def jwt_secret_def b64_json_def Let_def
        sample_env_def sample_crypto_def sample_serde_def)
  moreover obtain a where "h = hex_lower (CHR ''o'' # a)"
    by (simp add: h_def jobj_def)
  ultimately obtain b c where tok: "sample_token = hex_lower (CHR ''o'' # a) @ b @ hex_lower (CHR ''k'' # c)"
    by metis
  moreover have "char_of (54 :: nat) = CHR ''6''" by code_simp
  ultimately obtain r where r: "sample_token = CHR ''6'' # r"
    by (simp add: hex_lower_def hex_byte_def hex_digit_def code_def)
  have "hex_lower (CHR ''k'' # c) \<noteq> []" by (simp add: hex_lower_def hex_byte_def)
  then have "is_ascii_alphanumeric (last sample_token)"
    using hex_lower_hexdigits [of "CHR ''k'' # c"] hexdigit_alnum
    by (simp add: tok list_all_iff)
  then have "trim sample_token = sample_token"
    by (intro trim_alnum_ends) (simp_all add: r ascii_defs)
  moreover have "trim_start_matches [''Bearer ''] (''Bearer '' @ sample_token) = sample_token"
    by (simp add: r trim_start_matches.simps [of _ "_ # _"])
  ultimately show ?thesis by simp
qed

lemma mint_verify_roundtrip_witness:
  "verify_token sample_crypto sample_env 3700 sample_token
     = Inr \<lparr>actor_sub = Some ''ada'', actor_role = ''authenticated'',
            actor_claims = [(''team'', JString ''x'')]\<rparr>"
  by (rule mint_verify_roundtrip [OF sample_crypto_ok sample_token_minted])
    (simp_all add: bt_wf_def i64_range_def i64_max_def i64_wrap_def)

text \<open>
  C13: an actor is accepted from a header only when the token's third part is the signature
  of its first two under the configured secret, its header names HS256 and an integer expiry
  is not in the past; without a header the actor is anonymous.
\<close>

theorem actor_from_authorization_authentic:
  assumes "actor_from_authorization cr env now header = Inr a"
  shows "case header of
      None \<Rightarrow> a = anon_actor
    | Some value \<Rightarrow> prefix ''Bearer '' value
        \<and> (\<exists>h p sig hv pv. trim (trim_start_matches [''Bearer ''] value) = h @ ''.'' @ p @ ''.'' @ sig
            \<and> sign cr env (h @ ''.'' @ p) = Inr sig
            \<and> decode_json cr h = Inr hv \<and> jget hv ''alg'' = Some (JString ''HS256'')
            \<and> decode_json cr p = Inr pv
            \<and> (\<forall>e. jget_with as_i64 pv ''exp'' = Some e \<longrightarrow> now \<le> e)
            \<and> actor_sub a = jget_with as_str pv ''sub'')"
proof (cases header)
  case None
  with assms show ?thesis by (simp add: actor_from_authorization_def)
next
  case (Some hv)
  with assms have p: "prefix ''Bearer '' hv"
    and v: "verify_token cr env now (trim (trim_start_matches [''Bearer ''] hv)) = Inr a"
    by (auto simp: actor_from_authorization_def starts_with_def split: if_splits)
  from verify_token_Inr [OF v] p Some show ?thesis by simp
qed

lemma actor_from_authorization_authentic_witness:
  "\<exists>h p sig. sample_token = h @ ''.'' @ p @ ''.'' @ sig \<and> sign sample_crypto sample_env (h @ ''.'' @ p) = Inr sig"
proof -
  have "actor_from_authorization sample_crypto sample_env 3700 (Some (''Bearer '' @ sample_token))
      = Inr \<lparr>actor_sub = Some ''ada'', actor_role = ''authenticated'',
            actor_claims = [(''team'', JString ''x'')]\<rparr>"
    using sample_token_verified sample_token_bearer
    by (simp add: actor_from_authorization_def starts_with_def)
  from actor_from_authorization_authentic [OF this] show ?thesis
    unfolding option.case sample_token_bearer by blast
qed

end
