(* ===== verification/Policy.thy ===== *)
theory Policy
  imports Auth
begin

text \<open>
  \<open>policy.rs\<close>: row policies. A rule is a JSON value; it is compiled to a SQL condition with
  parameters for reads, updates and deletes, and evaluated on the row for inserts. The
  abstract syntax \<open>cond\<close> of the conditions carries the refinement: the compiled text is the
  text of a condition, and where a rule compares plain values the condition selects
  exactly the rows the evaluation accepts.
\<close>

section \<open>Compilation\<close>

fun policy_json_to_sql_value :: "json \<Rightarrow> sql_value option" where
  "policy_json_to_sql_value JNull = Some SqlNull"
| "policy_json_to_sql_value (JBool b) = Some (SqlInteger (if b then 1 else 0))"
| "policy_json_to_sql_value (JNumber n) = number_to_sql n"
| "policy_json_to_sql_value (JString s) = Some (SqlText s)"
| "policy_json_to_sql_value _ = None"

text \<open>\<open>filter_map(as_str)\<close>, \<open>filter_map(json_to_sql_value)\<close>.\<close>

definition filter_map :: "('a \<Rightarrow> 'b option) \<Rightarrow> 'a list \<Rightarrow> 'b list" where
  "filter_map f xs = map the (filter (\<lambda>y. y \<noteq> None) (map f xs))"

definition paren :: "string \<Rightarrow> string" where
  "paren s = ''('' @ s @ '')''"

definition policy_join ::
    "string \<Rightarrow> (string \<times> sql_value list) list \<Rightarrow> policy_error + (string \<times> sql_value list)" where
  "policy_join op compiled =
     (if compiled = [] then Inl (PolicyError ''compound policy must not be empty'')
      else Inr (join ('' '' @ op @ '' '') (map (\<lambda>(sql, _). paren sql) compiled),
                concat (map snd compiled)))"

definition truth_sql :: "bool \<Rightarrow> string" where
  "truth_sql b = (if b then ''1=1'' else ''0=1'')"

definition role_allowed :: "actor \<Rightarrow> json list \<Rightarrow> bool" where
  "role_allowed actor roles \<longleftrightarrow> list_ex (\<lambda>role. role = actor_role actor) (filter_map as_str roles)"

text \<open>What follows the \<open>let Some(column)\<close> of \<open>compile_rule\<close>.\<close>

definition compile_column ::
    "actor \<Rightarrow> json \<Rightarrow> string \<Rightarrow> policy_error + (string \<times> sql_value list)" where
  "compile_column actor obj column =
     rbind (quote_ident column) (\<lambda>column_sql.
       case jget_with as_str obj ''equals_claim'' of
         Some claim \<Rightarrow>
           (case policy_json_to_sql_value (actor_claim actor claim) of
              None \<Rightarrow> Inr (''0=1'', [])
            | Some param \<Rightarrow> Inr (column_sql @ '' = ?'', [param]))
       | None \<Rightarrow>
       (case jget_with as_str obj ''in_claim'' of
         Some claim \<Rightarrow>
           (let values = (case as_array (actor_claim actor claim) of
                            None \<Rightarrow> [] | Some items \<Rightarrow> filter_map policy_json_to_sql_value items)
            in if values = [] then Inr (''0=1'', [])
               else Inr (column_sql @ '' IN ('' @ join '','' (map (\<lambda>_. ''?'') values) @ '')'', values))
       | None \<Rightarrow>
       (case jget obj ''equals'' of
         Some v \<Rightarrow>
           (case policy_json_to_sql_value v of
              None \<Rightarrow> Inr (''0=1'', [])
            | Some param \<Rightarrow> Inr (column_sql @ '' = ?'', [param]))
       | None \<Rightarrow> Inl (PolicyError ''unsupported policy rule''))))"

lemma json_child_smaller:
  assumes "jget_with as_array rule k = Some xs" and "x \<in> set xs"
  shows "size x < size rule"
proof -
  obtain m where r: "rule = JObject m" and g: "bt_get m k = Some (JArray xs)"
    using assms(1)
    by (cases rule; cases "jget rule k"; auto simp: jget_with_def elim: as_array.elims)
  have "size x < size (JArray xs)"
    using size_list_estimation' [OF assms(2), of "size x" size] by simp
  also have "size (JArray xs) < size rule"
    using bt_get_in_set [OF g] by (auto simp: r less_Suc_eq_le intro!: size_list_estimation')
  finally show ?thesis .
qed

function compile_rule :: "actor \<Rightarrow> json \<Rightarrow> policy_error + (string \<times> sql_value list)" where
  "compile_rule actor rule =
     (if \<not> is_object rule then Inl (PolicyError ''policy rule must be an object'')
      else
      (case jget_with as_bool rule ''allow'' of
         Some allow \<Rightarrow> Inr (truth_sql allow, [])
       | None \<Rightarrow>
      (case jget_with as_array rule ''role_in'' of
         Some roles \<Rightarrow> Inr (truth_sql (role_allowed actor roles), [])
       | None \<Rightarrow>
      (case jget_with as_array rule ''and'' of
         Some children \<Rightarrow> rbind (collect_map (\<lambda>child. compile_rule actor child) children) (policy_join ''AND'')
       | None \<Rightarrow>
      (case jget_with as_array rule ''or'' of
         Some children \<Rightarrow> rbind (collect_map (\<lambda>child. compile_rule actor child) children) (policy_join ''OR'')
       | None \<Rightarrow>
      (case jget_with as_str rule ''column'' of
         None \<Rightarrow> Inl (PolicyError ''unsupported policy rule'')
       | Some column \<Rightarrow> compile_column actor rule column))))))"
  by pat_completeness auto
termination
  by (relation "measure (\<lambda>(actor, rule). size rule)") (auto intro: json_child_smaller)

declare compile_rule.simps [simp del]

text \<open>The loop of \<open>compile_policies\<close> over the rules: the first error ends it.\<close>

definition compile_policies :: "json list \<Rightarrow> actor \<Rightarrow> policy_error + (string \<times> sql_value list)" where
  "compile_policies rules actor =
     (if actor_role actor = ''service_role'' \<or> rules = [] then Inr (''1=1'', [])
      else rbind (collect_map (compile_rule actor) rules) (\<lambda>compiled.
             Inr (join '' OR '' (map (\<lambda>(sql, _). paren sql) compiled), concat (map snd compiled))))"

section \<open>Evaluation\<close>

text \<open>\<open>for child in children { if !f(child)? { return Ok(false) } } Ok(true)\<close> and its dual.\<close>

fun all_ok :: "('a \<Rightarrow> 'e + bool) \<Rightarrow> 'a list \<Rightarrow> 'e + bool" where
  "all_ok f [] = Inr True"
| "all_ok f (x # xs) =
     (case f x of Inl e \<Rightarrow> Inl e | Inr b \<Rightarrow> if b then all_ok f xs else Inr False)"

fun any_ok :: "('a \<Rightarrow> 'e + bool) \<Rightarrow> 'a list \<Rightarrow> 'e + bool" where
  "any_ok f [] = Inr False"
| "any_ok f (x # xs) =
     (case f x of Inl e \<Rightarrow> Inl e | Inr b \<Rightarrow> if b then Inr True else any_ok f xs)"

lemma all_ok_cong [fundef_cong]:
  "xs = ys \<Longrightarrow> (\<And>x. x \<in> set ys \<Longrightarrow> f x = g x) \<Longrightarrow> all_ok f xs = all_ok g ys"
  by (induction xs arbitrary: ys) (auto split: sum.split)

lemma any_ok_cong [fundef_cong]:
  "xs = ys \<Longrightarrow> (\<And>x. x \<in> set ys \<Longrightarrow> f x = g x) \<Longrightarrow> any_ok f xs = any_ok g ys"
  by (induction xs arbitrary: ys) (auto split: sum.split)

definition row_value :: "json_map \<Rightarrow> string \<Rightarrow> json" where
  "row_value row column = (case bt_get row column of None \<Rightarrow> JNull | Some v \<Rightarrow> v)"

definition evaluate_column :: "actor \<Rightarrow> json_map \<Rightarrow> json \<Rightarrow> string \<Rightarrow> policy_error + bool" where
  "evaluate_column actor row obj column =
     (case jget_with as_str obj ''equals_claim'' of
        Some claim \<Rightarrow> Inr (json_eq (row_value row column) (actor_claim actor claim))
      | None \<Rightarrow>
      (case jget_with as_str obj ''in_claim'' of
        Some claim \<Rightarrow>
          Inr (case as_array (actor_claim actor claim) of
                 None \<Rightarrow> False
               | Some items \<Rightarrow> list_ex (\<lambda>item. json_eq item (row_value row column)) items)
      | None \<Rightarrow>
      (case jget obj ''equals'' of
        Some v \<Rightarrow> Inr (json_eq (row_value row column) v)
      | None \<Rightarrow> Inl (PolicyError ''unsupported policy rule''))))"

function evaluate_rule :: "actor \<Rightarrow> json_map \<Rightarrow> json \<Rightarrow> policy_error + bool" where
  "evaluate_rule actor row rule =
     (if \<not> is_object rule then Inl (PolicyError ''policy rule must be an object'')
      else
      (case jget_with as_bool rule ''allow'' of
         Some allow \<Rightarrow> Inr allow
       | None \<Rightarrow>
      (case jget_with as_array rule ''role_in'' of
         Some roles \<Rightarrow> Inr (role_allowed actor roles)
       | None \<Rightarrow>
      (case jget_with as_array rule ''and'' of
         Some children \<Rightarrow> all_ok (\<lambda>child. evaluate_rule actor row child) children
       | None \<Rightarrow>
      (case jget_with as_array rule ''or'' of
         Some children \<Rightarrow> any_ok (\<lambda>child. evaluate_rule actor row child) children
       | None \<Rightarrow>
      (case jget_with as_str rule ''column'' of
         None \<Rightarrow> Inl (PolicyError ''unsupported policy rule'')
       | Some column \<Rightarrow> evaluate_column actor row rule column))))))"
  by pat_completeness auto
termination
  by (relation "measure (\<lambda>(actor, row, rule). size rule)") (auto intro: json_child_smaller)

declare evaluate_rule.simps [simp del]

definition evaluate_policies :: "json list \<Rightarrow> json_map \<Rightarrow> actor \<Rightarrow> policy_error + bool" where
  "evaluate_policies rules row actor =
     (if actor_role actor = ''service_role'' \<or> rules = [] then Inr True
      else any_ok (evaluate_rule actor row) rules)"

section \<open>The conditions behind the text\<close>

datatype cond =
  Truth bool
| Equals string sql_value
| Member string "sql_value list"
| Conj "cond list"
| Disj "cond list"

definition quoted :: "string \<Rightarrow> string" where
  "quoted name = [CHR 34] @ name @ [CHR 34]"

fun cond_sql :: "cond \<Rightarrow> string" where
  "cond_sql (Truth b) = truth_sql b"
| "cond_sql (Equals c v) = quoted c @ '' = ?''"
| "cond_sql (Member c vs) = quoted c @ '' IN ('' @ join '','' (map (\<lambda>_. ''?'') vs) @ '')''"
| "cond_sql (Conj cs) = join '' AND '' (map (\<lambda>c. paren (cond_sql c)) cs)"
| "cond_sql (Disj cs) = join '' OR '' (map (\<lambda>c. paren (cond_sql c)) cs)"

fun cond_params :: "cond \<Rightarrow> sql_value list" where
  "cond_params (Truth b) = []"
| "cond_params (Equals c v) = [v]"
| "cond_params (Member c vs) = vs"
| "cond_params (Conj cs) = concat (map cond_params cs)"
| "cond_params (Disj cs) = concat (map cond_params cs)"

text \<open>
  Whether SQLite selects a row: \<open>=\<close> and \<open>IN\<close> never hold of NULL, values of different
  storage classes differ, and a condition without negation is true exactly when its parts
  make it so. Reals are compared by the engine, and are left to the parameter \<open>real_eq\<close>.
\<close>

fun sql_equal :: "(f64 \<Rightarrow> sql_value \<Rightarrow> bool) \<Rightarrow> sql_value \<Rightarrow> sql_value \<Rightarrow> bool" where
  "sql_equal real_eq (SqlReal f) v = real_eq f v"
| "sql_equal real_eq v (SqlReal f) = real_eq f v"
| "sql_equal real_eq SqlNull v = False"
| "sql_equal real_eq v w = (v = w)"

fun cond_holds ::
    "(f64 \<Rightarrow> sql_value \<Rightarrow> bool) \<Rightarrow> (string \<Rightarrow> sql_value) \<Rightarrow> cond \<Rightarrow> bool" where
  "cond_holds real_eq row (Truth b) = b"
| "cond_holds real_eq row (Equals c v) = sql_equal real_eq (row c) v"
| "cond_holds real_eq row (Member c vs) = list_ex (sql_equal real_eq (row c)) vs"
| "cond_holds real_eq row (Conj cs) = list_all (cond_holds real_eq row) cs"
| "cond_holds real_eq row (Disj cs) = list_ex (cond_holds real_eq row) cs"

fun cond_idents :: "cond \<Rightarrow> string list" where
  "cond_idents (Truth b) = []"
| "cond_idents (Equals c v) = [c]"
| "cond_idents (Member c vs) = [c]"
| "cond_idents (Conj cs) = concat (map cond_idents cs)"
| "cond_idents (Disj cs) = concat (map cond_idents cs)"

definition column_cond :: "actor \<Rightarrow> json \<Rightarrow> string \<Rightarrow> policy_error + cond" where
  "column_cond actor obj column =
     (if \<not> valid_ident column then Inl (PolicyError (''invalid identifier: '' @ column)) else
      case jget_with as_str obj ''equals_claim'' of
         Some claim \<Rightarrow>
           Inr (case policy_json_to_sql_value (actor_claim actor claim) of
                  None \<Rightarrow> Truth False | Some param \<Rightarrow> Equals column param)
       | None \<Rightarrow>
       (case jget_with as_str obj ''in_claim'' of
         Some claim \<Rightarrow>
           (let values = (case as_array (actor_claim actor claim) of
                            None \<Rightarrow> [] | Some items \<Rightarrow> filter_map policy_json_to_sql_value items)
            in Inr (if values = [] then Truth False else Member column values))
       | None \<Rightarrow>
       (case jget obj ''equals'' of
         Some v \<Rightarrow>
           Inr (case policy_json_to_sql_value v of None \<Rightarrow> Truth False | Some param \<Rightarrow> Equals column param)
       | None \<Rightarrow> Inl (PolicyError ''unsupported policy rule''))))"

definition compound :: "(cond list \<Rightarrow> cond) \<Rightarrow> cond list \<Rightarrow> policy_error + cond" where
  "compound f cs = (if cs = [] then Inl (PolicyError ''compound policy must not be empty'') else Inr (f cs))"

function rule_cond :: "actor \<Rightarrow> json \<Rightarrow> policy_error + cond" where
  "rule_cond actor rule =
     (if \<not> is_object rule then Inl (PolicyError ''policy rule must be an object'')
      else
      (case jget_with as_bool rule ''allow'' of
         Some allow \<Rightarrow> Inr (Truth allow)
       | None \<Rightarrow>
      (case jget_with as_array rule ''role_in'' of
         Some roles \<Rightarrow> Inr (Truth (role_allowed actor roles))
       | None \<Rightarrow>
      (case jget_with as_array rule ''and'' of
         Some children \<Rightarrow> rbind (collect_map (\<lambda>child. rule_cond actor child) children) (compound Conj)
       | None \<Rightarrow>
      (case jget_with as_array rule ''or'' of
         Some children \<Rightarrow> rbind (collect_map (\<lambda>child. rule_cond actor child) children) (compound Disj)
       | None \<Rightarrow>
      (case jget_with as_str rule ''column'' of
         None \<Rightarrow> Inl (PolicyError ''unsupported policy rule'')
       | Some column \<Rightarrow> column_cond actor rule column))))))"
  by pat_completeness auto
termination
  by (relation "measure (\<lambda>(actor, rule). size rule)") (auto intro: json_child_smaller)

declare rule_cond.simps [simp del]

abbreviation cond_text :: "cond \<Rightarrow> string \<times> sql_value list" where
  "cond_text c \<equiv> (cond_sql c, cond_params c)"

lemma compile_column_cond: "compile_column actor obj column = rmap cond_text (column_cond actor obj column)"
  by (auto simp: compile_column_def column_cond_def quote_ident_def quoted_def truth_sql_def Let_def
      split: option.split)

lemma collect_map_rmap:
  "(\<And>x. x \<in> set xs \<Longrightarrow> f x = rmap h (g x)) \<Longrightarrow> collect_map f xs = rmap (map h) (collect_map g xs)"
proof (induction xs)
  case (Cons x xs)
  then show ?case by (cases "g x"; cases "collect_map g xs") auto
qed simp

lemma join_compound:
  "rbind (rmap (map cond_text) r) (policy_join ''AND'') = rmap cond_text (rbind r (compound Conj))"
  "rbind (rmap (map cond_text) r) (policy_join ''OR'') = rmap cond_text (rbind r (compound Disj))"
  by (cases r; simp add: policy_join_def compound_def o_def)+

lemma compile_rule_cond: "compile_rule actor rule = rmap cond_text (rule_cond actor rule)"
proof (induction actor rule rule: compile_rule.induct)
  case (1 actor rule)
  then have "collect_map (\<lambda>child. compile_rule actor child) children
      = rmap (map cond_text) (collect_map (\<lambda>child. rule_cond actor child) children)"
    if "is_object rule" "jget_with as_bool rule ''allow'' = None" "jget_with as_array rule ''role_in'' = None"
      "jget_with as_array rule ''and'' = Some children
       \<or> jget_with as_array rule ''and'' = None \<and> jget_with as_array rule ''or'' = Some children"
    for children
    using that by (intro collect_map_rmap) auto
  then show ?case
    by (subst compile_rule.simps, subst rule_cond.simps)
      (simp add: join_compound compile_column_cond split: option.split)
qed

section \<open>Compilation and evaluation agree on plain values\<close>

text \<open>
  A plain value is a string or an integer of 64 bits; rows also hold nulls. A rule is
  comparable for an actor when every value it compares a column with is plain or nested (a
  nested value equals nothing). Nulls and booleans are left out: there the two disagree.
\<close>

fun plain_value :: "json \<Rightarrow> bool" where
  "plain_value (JNumber n) = (number_exact n \<and> number_as_i64 n \<noteq> None)"
| "plain_value (JString s) = True"
| "plain_value v = False"

definition plain_row :: "json_map \<Rightarrow> bool" where
  "plain_row row \<longleftrightarrow> list_all (\<lambda>(k, v). v = JNull \<or> plain_value v) row"

fun nested :: "json \<Rightarrow> bool" where
  "nested (JArray xs) = True"
| "nested (JObject m) = True"
| "nested v = False"

definition comparable :: "json \<Rightarrow> bool" where
  "comparable v \<longleftrightarrow> plain_value v \<or> nested v"

definition column_comparable :: "actor \<Rightarrow> json \<Rightarrow> bool" where
  "column_comparable actor obj \<longleftrightarrow>
     (case jget_with as_str obj ''equals_claim'' of
        Some claim \<Rightarrow> comparable (actor_claim actor claim)
      | None \<Rightarrow>
      (case jget_with as_str obj ''in_claim'' of
        Some claim \<Rightarrow>
          (case as_array (actor_claim actor claim) of
             None \<Rightarrow> True | Some items \<Rightarrow> list_all comparable items)
      | None \<Rightarrow> (case jget obj ''equals'' of Some v \<Rightarrow> comparable v | None \<Rightarrow> True)))"

function rule_comparable :: "actor \<Rightarrow> json \<Rightarrow> bool" where
  "rule_comparable actor rule =
     ((\<forall>k \<in> {''and'', ''or''}. \<forall>children. jget_with as_array rule k = Some children
         \<longrightarrow> list_all (rule_comparable actor) children)
      \<and> column_comparable actor rule)"
  by pat_completeness auto
termination
  by (relation "measure (\<lambda>(actor, rule). size rule)") (auto intro: json_child_smaller)

declare rule_comparable.simps [simp del]

text \<open>The values the engine sees for a row, as \<open>json_to_sql_value\<close> stores them.\<close>

definition stored :: "serde \<Rightarrow> json_map \<Rightarrow> string \<Rightarrow> sql_value" where
  "stored sd row column = json_to_sql_value sd (row_value row column)"

lemma plain_number_cases:
  assumes "number_exact n" and "number_as_i64 n = Some i"
  shows "(n = PosInt (nat i) \<and> 0 \<le> i) \<or> (n = NegInt i \<and> i < 0)"
  using assms by (cases n) (auto split: if_splits)

lemma plain_value_cases:
  assumes "plain_value v"
  shows "(\<exists>s. v = JString s) \<or> (\<exists>i. v = json_of_int i \<and> json_to_sql_value sd v = SqlInteger i
    \<and> policy_json_to_sql_value v = Some (SqlInteger i))"
proof (cases v)
  case (JNumber n)
  with assms obtain i where i: "number_as_i64 n = Some i" and n: "number_exact n" by auto
  have "v = json_of_int i"
    using plain_number_cases [OF n i] by (auto simp: JNumber json_of_int_def)
  moreover have "json_to_sql_value sd v = SqlInteger i" "policy_json_to_sql_value v = Some (SqlInteger i)"
    using i by (simp_all add: JNumber number_to_sql_def)
  ultimately show ?thesis by blast
qed (use assms in auto)

lemma json_of_int_eq: "json_eq (json_of_int i) (json_of_int j) \<longleftrightarrow> i = j"
  by (auto simp: json_of_int_def)

lemma json_of_int_diff [simp]:
  "\<not> json_eq (json_of_int i) (JString s)" "\<not> json_eq (JString s) (json_of_int i)"
  "json_of_int i \<noteq> JNull" "json_of_int i \<noteq> JString s"
  by (auto simp: json_of_int_def)

lemma json_eq_sym_plain: "plain_value a \<or> a = JNull \<Longrightarrow> json_eq b a \<longleftrightarrow> json_eq a b"
  by (cases a; cases b) (auto simp: f64_eq_def elim!: number_eq.elims)

lemma json_eq_nested: "nested b \<Longrightarrow> plain_value a \<or> a = JNull \<Longrightarrow> \<not> json_eq a b"
  by (cases a; cases b) auto

lemma compare_plain:
  assumes "plain_value a \<or> a = JNull" and "comparable b"
  shows "json_eq a b \<longleftrightarrow> (case policy_json_to_sql_value b of
      None \<Rightarrow> False | Some p \<Rightarrow> sql_equal re (json_to_sql_value sd a) p)"
proof (cases "nested b")
  case True
  with json_eq_nested [OF True assms(1)] show ?thesis by (cases b) auto
next
  case False
  with assms(2) have b: "plain_value b" by (simp add: comparable_def)
  show ?thesis
  proof (cases "a = JNull")
    case True
    with plain_value_cases [OF b, of sd] show ?thesis by (auto simp: json_of_int_def split: option.split)
  next
    case False
    with assms(1) have a: "plain_value a" by simp
    from plain_value_cases [OF a, of sd] plain_value_cases [OF b, of sd] show ?thesis
      by (elim disjE exE conjE) (simp_all add: json_of_int_eq)
  qed
qed

lemma plain_row_value: "plain_row row \<Longrightarrow> plain_value (row_value row c) \<or> row_value row c = JNull"
  by (auto simp: plain_row_def row_value_def list_all_iff split: option.split dest!: bt_get_in_set)

lemma filter_map_ex:
  "list_ex P (filter_map f xs) \<longleftrightarrow> (\<exists>x \<in> set xs. \<exists>y. f x = Some y \<and> P y)"
  by (force simp: filter_map_def list_ex_iff)

lemma column_cond_agrees:
  assumes "plain_row row" and "column_comparable actor obj"
    and "column_cond actor obj column = Inr c"
  shows "evaluate_column actor row obj column = Inr (cond_holds re (stored sd row) c)"
proof -
  note cp = compare_plain [OF plain_row_value [OF assms(1), of column], of _ re sd]
  show ?thesis
  proof (cases "jget_with as_str obj ''equals_claim''")
    case (Some claim)
    with assms(2,3) cp [of "actor_claim actor claim"] show ?thesis
      by (auto simp: column_cond_def column_comparable_def evaluate_column_def stored_def
          split: if_splits option.splits)
  next
    case ec: None
    show ?thesis
    proof (cases "jget_with as_str obj ''in_claim''")
      case (Some claim)
      define items where "items = (case as_array (actor_claim actor claim) of None \<Rightarrow> [] | Some xs \<Rightarrow> xs)"
      let ?vs = "filter_map policy_json_to_sql_value items"
      from ec Some assms(2) have "list_all comparable items"
        by (auto simp: column_comparable_def items_def split: option.splits)
      then have "list_ex (\<lambda>item. json_eq item (row_value row column)) items
          \<longleftrightarrow> list_ex (sql_equal re (stored sd row column)) ?vs"
        using cp json_eq_sym_plain [OF plain_row_value [OF assms(1)]]
        unfolding filter_map_ex by (fastforce simp: list_ex_iff list_all_iff stored_def split: option.splits)
      moreover have "?vs = [] \<Longrightarrow> \<not> list_ex (sql_equal re (stored sd row column)) ?vs" by simp
      moreover have "c = (if ?vs = [] then Truth False else Member column ?vs)"
        using ec Some assms(3)
        by (auto simp: column_cond_def items_def filter_map_def Let_def split: if_splits option.splits)
      ultimately show ?thesis
        using ec Some by (auto simp: evaluate_column_def items_def split: option.splits if_splits)
    next
      case None
      with ec assms(2,3) cp [of "the (jget obj ''equals'')"] show ?thesis
        by (auto simp: column_cond_def column_comparable_def evaluate_column_def stored_def
            split: if_splits option.splits)
    qed
  qed
qed

lemma all_ok_cond:
  "list_all2 (\<lambda>x y. g x = Inr y) xs cs \<Longrightarrow> (\<And>x c. x \<in> set xs \<Longrightarrow> g x = Inr c \<Longrightarrow> f x = Inr (h c)) \<Longrightarrow>
    all_ok f xs = Inr (list_all h cs)"
  by (induction xs cs rule: list_all2_induct) auto

lemma any_ok_cond:
  "list_all2 (\<lambda>x y. g x = Inr y) xs cs \<Longrightarrow> (\<And>x c. x \<in> set xs \<Longrightarrow> g x = Inr c \<Longrightarrow> f x = Inr (h c)) \<Longrightarrow>
    any_ok f xs = Inr (list_ex h cs)"
  by (induction xs cs rule: list_all2_induct) auto

lemma rule_cond_agrees:
  "plain_row row \<Longrightarrow> rule_comparable actor rule \<Longrightarrow> rule_cond actor rule = Inr c \<Longrightarrow>
    evaluate_rule actor row rule = Inr (cond_holds re (stored sd row) c)"
proof (induction actor rule arbitrary: c rule: rule_cond.induct)
  case (1 actor rule)
  note cmp = "1.prems"(2) [unfolded rule_comparable.simps [of actor rule]]
  note rc = "1.prems"(3) [unfolded rule_cond.simps [of actor rule]]
  show ?case
  proof (cases "jget_with as_bool rule ''allow'' = None \<and> jget_with as_array rule ''role_in'' = None")
    case False
    with rc show ?thesis
      by (subst evaluate_rule.simps) (auto split: if_splits option.splits)
  next
    case nar: True
    have io: "is_object rule" using rc by (simp split: if_splits)
    show ?thesis
    proof (cases "jget_with as_array rule ''and''")
      case (Some xs)
      with rc nar io obtain cs where cs: "collect_map (rule_cond actor) xs = Inr cs" and c: "c = Conj cs"
        by (auto simp: result_simps compound_def split: if_splits)
      have "evaluate_rule actor row x = Inr (cond_holds re (stored sd row) d)"
        if "x \<in> set xs" "rule_cond actor x = Inr d" for x d
        using "1.IH"(2) [OF _ _ _ Some that(1)] io nar that "1.prems"(1) cmp Some by (auto simp: list_all_iff)
      from all_ok_cond [OF cs [unfolded collect_map_Inr_iff] this] show ?thesis
        using nar io Some c by (subst evaluate_rule.simps) simp
    next
      case nand: None
      show ?thesis
      proof (cases "jget_with as_array rule ''or''")
        case (Some xs)
        with rc nar nand io obtain cs where cs: "collect_map (rule_cond actor) xs = Inr cs" and c: "c = Disj cs"
          by (auto simp: result_simps compound_def split: if_splits)
        have "evaluate_rule actor row x = Inr (cond_holds re (stored sd row) d)"
          if "x \<in> set xs" "rule_cond actor x = Inr d" for x d
          using "1.IH"(1) [OF _ _ _ nand Some that(1)] io nar that "1.prems"(1) cmp Some
          by (auto simp: list_all_iff)
        from any_ok_cond [OF cs [unfolded collect_map_Inr_iff] this] show ?thesis
          using nar io nand Some c by (subst evaluate_rule.simps) simp
      next
        case None
        with rc nar nand io obtain column where col: "jget_with as_str rule ''column'' = Some column"
          and cc: "column_cond actor rule column = Inr c"
          by (auto split: option.splits)
        from column_cond_agrees [OF "1.prems"(1) _ cc] cmp show ?thesis
          using nar io nand None col by (subst evaluate_rule.simps) simp
      qed
    qed
  qed
qed

section \<open>The text of a condition\<close>

lemma count_list_join: "count_list (join sep xs) c
    = sum_list (map (\<lambda>x. count_list x c) xs) + (length xs - 1) * count_list sep c"
  by (induction sep xs rule: join.induct) (auto simp: algebra_simps)

lemma count_placeholders:
  "list_all valid_ident (cond_idents c) \<Longrightarrow> count_list (cond_sql c) (CHR ''?'') = length (cond_params c)"
proof (induction c)
  case (Conj cs)
  then have "map (\<lambda>x. count_list (paren (cond_sql x)) (CHR ''?'')) cs = map (length \<circ> cond_params) cs"
    by (auto simp: paren_def list_all_iff)
  then show ?case by (simp add: count_list_join length_concat o_def del: map_eq_conv)
next
  case (Disj cs)
  then have "map (\<lambda>x. count_list (paren (cond_sql x)) (CHR ''?'')) cs = map (length \<circ> cond_params) cs"
    by (auto simp: paren_def list_all_iff)
  then show ?case by (simp add: count_list_join length_concat o_def del: map_eq_conv)
next
  case (Member c vs)
  have "sum_list (map (\<lambda>x. count_list ''?'' (CHR ''?'')) vs) = length vs" by (induction vs) auto
  with Member show ?case
    by (simp add: quoted_def count_list_join valid_ident_notin count_list_0_iff o_def)
qed (auto simp: truth_sql_def quoted_def valid_ident_notin count_list_0_iff)

lemma column_cond_idents: "column_cond actor obj column = Inr c \<Longrightarrow> list_all valid_ident (cond_idents c)"
  by (auto simp: column_cond_def Let_def split: if_splits option.splits)

lemma rule_cond_idents: "rule_cond actor rule = Inr c \<Longrightarrow> list_all valid_ident (cond_idents c)"
proof (induction actor rule arbitrary: c rule: rule_cond.induct)
  case (1 actor rule)
  note rc = "1.prems" [unfolded rule_cond.simps [of actor rule]]
  have part: "list_all valid_ident (cond_idents d)"
    if "collect_map (rule_cond actor) xs = Inr cs" "d \<in> set cs"
      "\<And>x e. x \<in> set xs \<Longrightarrow> rule_cond actor x = Inr e \<Longrightarrow> list_all valid_ident (cond_idents e)"
    for xs cs d
    using that by (force simp: collect_map_Inr_iff list_all2_conv_all_nth in_set_conv_nth)
  from rc part show ?case
    using "1.IH" column_cond_idents
    by (auto simp: result_simps compound_def list_all_iff split: if_splits option.splits; blast)
qed

text \<open>The whole policy as one condition.\<close>

definition policies_cond :: "json list \<Rightarrow> actor \<Rightarrow> policy_error + cond" where
  "policies_cond rules actor =
     (if actor_role actor = ''service_role'' \<or> rules = [] then Inr (Truth True)
      else rmap Disj (collect_map (rule_cond actor) rules))"

lemma compile_policies_text: "compile_policies rules actor = rmap cond_text (policies_cond rules actor)"
proof -
  have "collect_map (compile_rule actor) rules = rmap (map cond_text) (collect_map (rule_cond actor) rules)"
    by (rule collect_map_rmap) (rule compile_rule_cond)
  then show ?thesis
    by (cases "collect_map (rule_cond actor) rules")
      (simp_all add: compile_policies_def policies_cond_def truth_sql_def o_def)
qed

lemma policies_cond_idents: "policies_cond rules actor = Inr c \<Longrightarrow> list_all valid_ident (cond_idents c)"
  using rule_cond_idents
  by (fastforce simp: policies_cond_def result_simps list_all2_conv_all_nth in_set_conv_nth
      list_all_iff split: if_splits)

lemma compile_policies_cond:
  assumes "compile_policies rules actor = Inr (sql, params)"
  obtains c where "policies_cond rules actor = Inr c" and "(sql, params) = cond_text c"
    and "list_all valid_ident (cond_idents c)"
  using assms policies_cond_idents by (auto simp: compile_policies_text result_simps)

lemma policies_cond_agrees:
  assumes "policies_cond rules actor = Inr c" and "list_all (rule_comparable actor) rules" and "plain_row row"
  shows "evaluate_policies rules row actor = Inr (cond_holds real_eq (stored sd row) c)"
proof (cases "actor_role actor = ''service_role'' \<or> rules = []")
  case True
  with assms(1) show ?thesis by (auto simp: policies_cond_def evaluate_policies_def)
next
  case False
  with assms(1) obtain cs where c: "c = Disj cs" and cs: "collect_map (rule_cond actor) rules = Inr cs"
    by (auto simp: policies_cond_def result_simps)
  have "any_ok (evaluate_rule actor row) rules = Inr (list_ex (cond_holds real_eq (stored sd row)) cs)"
    using assms(2,3) rule_cond_agrees
    by (intro any_ok_cond [OF cs [unfolded collect_map_Inr_iff]]) (auto simp: list_all_iff)
  with False c show ?thesis by (simp add: evaluate_policies_def)
qed

section \<open>Properties\<close>


definition owner_rule :: json where
  "owner_rule = JObject [(''column'', JString ''owner''), (''equals_claim'', JString ''sub'')]"

definition ada :: actor where
  "ada = \<lparr>actor_sub = Some ''ada'', actor_role = ''authenticated'', actor_claims = []\<rparr>"

lemma compile_owner_rule:
  "compile_policies [owner_rule] ada = Inr (''('' @ [CHR 34] @ ''owner'' @ [CHR 34] @ '' = ?)'', [SqlText ''ada''])"
  by (simp add: compile_policies_def ada_def owner_rule_def compile_rule.simps [of _ "JObject _"]
      jget_with_def bt_get_def compile_column_def quote_ident_def ident_start_def ident_char_def ascii_defs
      actor_claim_def jopt_def paren_def)


text \<open>
  A compiled policy is text over valid identifiers with one placeholder for each
  parameter: the values of the rule and of the actor's claims never become SQL text.
\<close>

theorem compiled_policy_parameters:
  assumes "compile_policies rules actor = Inr (sql, params)"
  shows "count_list sql (CHR ''?'') = length params
    \<and> (\<exists>c. sql = cond_sql c \<and> params = cond_params c \<and> list_all valid_ident (cond_idents c))"
  using assms
proof (rule compile_policies_cond)
  fix c
  assume "(sql, params) = cond_text c" and "list_all valid_ident (cond_idents c)"
  with count_placeholders [of c] show ?thesis by auto
qed

lemma compiled_policy_parameters_witness:
  "count_list (''('' @ [CHR 34] @ ''owner'' @ [CHR 34] @ '' = ?)'') (CHR ''?'') = length [SqlText ''ada'']
    \<and> (\<exists>c. ''('' @ [CHR 34] @ ''owner'' @ [CHR 34] @ '' = ?)'' = cond_sql c
          \<and> [SqlText ''ada''] = cond_params c \<and> list_all valid_ident (cond_idents c))"
  by (rule compiled_policy_parameters [OF compile_owner_rule])

text \<open>
  Where a claim is missing the two enforcements part: a rule comparing a column with an
  absent claim accepts the insert of a row without that column, while the condition it
  compiles to selects no row at all.
\<close>

theorem missing_claim_diverges:
  "evaluate_policies [JObject [(''column'', JString ''org''), (''equals_claim'', JString ''org'')]]
     [(''id'', json_of_int 1)] ada = Inr True
   \<and> compile_policies [JObject [(''column'', JString ''org''), (''equals_claim'', JString ''org'')]] ada
     = Inr (paren (cond_sql (Equals ''org'' SqlNull)), cond_params (Equals ''org'' SqlNull))
   \<and> (\<forall>row. \<not> cond_holds (\<lambda>_ _. False) row (Equals ''org'' SqlNull))"
proof (intro conjI allI)
  show "\<not> cond_holds (\<lambda>_ _. False) row (Equals ''org'' SqlNull)" for row
    by (cases "row ''org''") simp_all
qed (simp_all add: evaluate_policies_def compile_policies_def ada_def evaluate_rule.simps [of _ _ "JObject _"]
    compile_rule.simps [of _ "JObject _"] jget_with_def bt_get_def compile_column_def evaluate_column_def
    quote_ident_def quoted_def ident_start_def ident_char_def ascii_defs actor_claim_def row_value_def)

end
