(* ===== verification/Postgrest.thy ===== *)
theory Postgrest
  imports Policy
begin

text \<open>
  \<open>postgrest.rs\<close>: the query language of the REST surface. The parameters of a request
  are parsed into a \<open>select_query\<close>; its filters, order and columns are compiled to SQL
  text with positional parameters, and \<open>build_select_sql\<close> joins them with the row policy.
  A \<open>HashMap\<close> of parameters is the list of its entries in the order the loop sees them.
  What the text means is said by a grammar of SQL's boolean operators, in which \<open>AND\<close>
  binds tighter than \<open>OR\<close>.
\<close>

section \<open>Data\<close>

datatype filter_op =
  OpEq | OpNeq | OpGt | OpGte | OpLt | OpLte | OpIn | OpIs | OpLike | OpIlike

record filter_condition =
  fc_column :: string
  fc_op :: filter_op
  fc_value :: string

datatype filter_expr =
  Condition filter_condition
| AndAll "filter_expr list"
| OrAny "filter_expr list"
| Negate filter_expr

datatype order_direction = Asc | Desc

datatype order_nulls = NullsFirst | NullsLast | NullsDefault

record order_clause =
  oc_column :: string
  oc_direction :: order_direction
  oc_nulls :: order_nulls

datatype count_mode = CountNone | CountExact | CountPlanned | CountEstimated

record select_query =
  sq_filters :: filter_expr
  sq_limit :: nat
  sq_offset :: nat
  sq_order :: "order_clause list"
  sq_select :: "string list"
  sq_count :: count_mode

definition default_query :: select_query where
  "default_query =
     \<lparr>sq_filters = AndAll [], sq_limit = 100, sq_offset = 0, sq_order = [], sq_select = [],
      sq_count = CountNone\<rparr>"

datatype parse_error = ParseError string

section \<open>Parsing\<close>

definition parse_select_param :: "string \<Rightarrow> parse_error + string list" where
  "parse_select_param v =
     (if v = [] \<or> v = ''*'' then Inr []
      else Inr (filter (\<lambda>s. s \<noteq> []) (map trim (split_on (CHR '','') v))))"

definition parse_direction :: "string list \<Rightarrow> parse_error + order_direction" where
  "parse_direction parts =
     (case drop 1 parts of
        [] \<Rightarrow> Inr Asc
      | other # _ \<Rightarrow>
          if other = ''asc'' then Inr Asc
          else if other = ''desc'' then Inr Desc
          else Inl (ParseError (''order direction must be asc or desc, got: '' @ other)))"

definition parse_nulls :: "string list \<Rightarrow> parse_error + order_nulls" where
  "parse_nulls parts =
     (case drop 2 parts of
        [] \<Rightarrow> Inr NullsDefault
      | other # _ \<Rightarrow>
          if other = ''nullsfirst'' then Inr NullsFirst
          else if other = ''nullslast'' then Inr NullsLast
          else Inl (ParseError (''order nulls must be nullsfirst or nullslast, got: '' @ other)))"

definition parse_order_clause :: "string \<Rightarrow> parse_error + order_clause" where
  "parse_order_clause clause =
     (let parts = split_on (CHR ''.'') (trim clause)
      in if hd parts = [] then Inl (ParseError ''order clause must have a column name'')
         else rbind (parse_direction parts) (\<lambda>direction.
              rbind (parse_nulls parts) (\<lambda>nulls.
              Inr \<lparr>oc_column = hd parts, oc_direction = direction, oc_nulls = nulls\<rparr>)))"

definition parse_order :: "string \<Rightarrow> parse_error + order_clause list" where
  "parse_order v = (if v = [] then Inr [] else collect_map parse_order_clause (split_on (CHR '','') v))"

definition op_names :: "(string \<times> filter_op) list" where
  "op_names =
     [(''eq'', OpEq), (''neq'', OpNeq), (''gt'', OpGt), (''gte'', OpGte), (''lt'', OpLt),
      (''lte'', OpLte), (''in'', OpIn), (''is'', OpIs), (''like'', OpLike), (''ilike'', OpIlike)]"

definition parse_op :: "string \<Rightarrow> parse_error + filter_op" where
  "parse_op op_str =
     (case map_of op_names op_str of
        Some op \<Rightarrow> Inr op
      | None \<Rightarrow> Inl (ParseError (''unsupported filter operator: '' @ op_str)))"

text \<open>The loop over \<open>op_str\<close>: the first operator whose name and a dot start the value.\<close>

fun parse_value_op ::
    "string list \<Rightarrow> string \<Rightarrow> string \<Rightarrow> (parse_error + filter_condition) option" where
  "parse_value_op [] key v = None"
| "parse_value_op (op_str # ops) key v =
     (case strip_prefix v (op_str @ ''.'') of
        Some rest \<Rightarrow>
          Some (rmap (\<lambda>op. \<lparr>fc_column = key, fc_op = op, fc_value = rest\<rparr>) (parse_op op_str))
      | None \<Rightarrow> parse_value_op ops key v)"

definition parse_condition :: "string \<Rightarrow> string \<Rightarrow> parse_error + filter_condition" where
  "parse_condition key v =
     (case split_once (CHR ''.'') key of
        Some (column, op_str) \<Rightarrow>
          rmap (\<lambda>op. \<lparr>fc_column = column, fc_op = op, fc_value = v\<rparr>) (parse_op op_str)
      | None \<Rightarrow>
        (case strip_prefix v ''eq.'' of
           Some filter_value \<Rightarrow> Inr \<lparr>fc_column = key, fc_op = OpEq, fc_value = filter_value\<rparr>
         | None \<Rightarrow>
           (case parse_value_op [''neq'', ''gt'', ''gte'', ''lt'', ''lte'', ''in'', ''is'', ''like'', ''ilike'']
                   key v of
              Some r \<Rightarrow> r
            | None \<Rightarrow> Inl (ParseError (''filter for '' @ key
                             @ '' must use format column.op=value or key=op.value'')))))"

definition parse_filter_entry :: "string \<Rightarrow> string \<Rightarrow> parse_error + filter_expr" where
  "parse_filter_entry key v =
     (case strip_prefix v ''not.'' of
        Some rest \<Rightarrow> rmap (\<lambda>c. Negate (Condition c)) (parse_condition key rest)
      | None \<Rightarrow> rmap Condition (parse_condition key v))"

definition parse_or_segment :: "string \<Rightarrow> parse_error + filter_expr" where
  "parse_or_segment segment =
     (let part = trim segment
      in case split_once (CHR ''='') part of
           Some (key, val) \<Rightarrow> rmap Condition (parse_condition key val)
         | None \<Rightarrow>
           (case splitn_on 3 (CHR ''.'') part of
              column # op # value0 # rest \<Rightarrow>
                rmap Condition (parse_condition (column @ ''.'' @ op) (join ''.'' (value0 # rest)))
            | [column, v] \<Rightarrow> Inr (Condition \<lparr>fc_column = column, fc_op = OpEq, fc_value = v\<rparr>)
            | _ \<Rightarrow> Inl (ParseError (''invalid or filter segment: '' @ part))))"

definition parse_or_expr :: "string \<Rightarrow> parse_error + filter_expr" where
  "parse_or_expr v =
     (let parts = split_on (CHR '','') v
      in if parts = [] then Inl (ParseError ''or filter must not be empty'')
         else rmap OrAny (collect_map parse_or_segment parts))"

definition parse_and_segment :: "string \<Rightarrow> parse_error + filter_expr" where
  "parse_and_segment segment =
     (let part = trim segment
      in case split_once (CHR ''='') part of
           Some (k, v) \<Rightarrow> rmap Condition (parse_condition k v)
         | None \<Rightarrow> Inl (ParseError (''invalid and filter segment: '' @ part)))"

definition parse_count :: "string \<Rightarrow> count_mode" where
  "parse_count v =
     (if v = ''exact'' then CountExact
      else if v = ''planned'' then CountPlanned
      else if v = ''estimated'' then CountEstimated
      else CountNone)"

text \<open>The locals of \<open>parse_query_params\<close> and one turn of its loop.\<close>

record query_scan =
  qs_result :: select_query
  qs_conditions :: "filter_expr list"
  qs_or :: "filter_expr option"

definition push_condition :: "query_scan \<Rightarrow> filter_expr \<Rightarrow> query_scan" where
  "push_condition s e = s\<lparr>qs_conditions := qs_conditions s @ [e]\<rparr>"

definition map_result :: "(select_query \<Rightarrow> select_query) \<Rightarrow> query_scan \<Rightarrow> query_scan" where
  "map_result f s = s\<lparr>qs_result := f (qs_result s)\<rparr>"

definition unwrap_or :: "'a \<Rightarrow> 'a option \<Rightarrow> 'a" where
  "unwrap_or d x = (case x of None \<Rightarrow> d | Some v \<Rightarrow> v)"

text \<open>The arms of \<open>match key.as_str()\<close>.\<close>

datatype param_kind =
  SelectParam | LimitParam | OffsetParam | OrderParam | RouteParam | CountParam | OrParam | AndParam
| FilterParam

definition param_kind :: "string \<Rightarrow> param_kind" where
  "param_kind key =
     (if key = ''select'' then SelectParam
      else if key = ''limit'' then LimitParam
      else if key = ''offset'' then OffsetParam
      else if key = ''order'' then OrderParam
      else if key = ''bookmark'' \<or> key = ''session'' \<or> key = ''route_region'' then RouteParam
      else if key = ''count'' then CountParam
      else if key = ''or'' then OrParam
      else if key = ''and'' then AndParam
      else FilterParam)"

definition scan_entry :: "string \<times> string \<Rightarrow> query_scan \<Rightarrow> parse_error + query_scan" where
  "scan_entry kv s =
     (let key = fst kv; v = snd kv
      in case param_kind key of
           SelectParam \<Rightarrow> rmap (\<lambda>cols. map_result (\<lambda>q. q\<lparr>sq_select := cols\<rparr>) s) (parse_select_param v)
         | LimitParam \<Rightarrow> Inr (map_result (\<lambda>q. q\<lparr>sq_limit := unwrap_or 100 (parse_u64 v)\<rparr>) s)
         | OffsetParam \<Rightarrow> Inr (map_result (\<lambda>q. q\<lparr>sq_offset := unwrap_or 0 (parse_u64 v)\<rparr>) s)
         | OrderParam \<Rightarrow> rmap (\<lambda>os. map_result (\<lambda>q. q\<lparr>sq_order := os\<rparr>) s) (parse_order v)
         | RouteParam \<Rightarrow> Inr s
         | CountParam \<Rightarrow> Inr (map_result (\<lambda>q. q\<lparr>sq_count := parse_count v\<rparr>) s)
         | OrParam \<Rightarrow> rmap (\<lambda>e. s\<lparr>qs_or := Some e\<rparr>) (parse_or_expr v)
         | AndParam \<Rightarrow>
             rmap (\<lambda>cs. push_condition s (AndAll cs))
               (collect_map parse_and_segment (split_on (CHR '','') v))
         | FilterParam \<Rightarrow> rmap (push_condition s) (parse_filter_entry key v))"

fun scan_entries :: "(string \<times> string) list \<Rightarrow> query_scan \<Rightarrow> parse_error + query_scan" where
  "scan_entries [] s = Inr s"
| "scan_entries (kv # kvs) s = rbind (scan_entry kv s) (scan_entries kvs)"

definition finish_scan :: "query_scan \<Rightarrow> select_query" where
  "finish_scan s =
     (let conditions = qs_conditions s @ (case qs_or s of None \<Rightarrow> [] | Some e \<Rightarrow> [e])
      in (qs_result s)\<lparr>sq_filters := (case conditions of [e] \<Rightarrow> e | _ \<Rightarrow> AndAll conditions)\<rparr>)"

definition parse_query_params :: "(string \<times> string) list \<Rightarrow> parse_error + select_query" where
  "parse_query_params query =
     rmap finish_scan
       (scan_entries query \<lparr>qs_result = default_query, qs_conditions = [], qs_or = None\<rparr>)"

section \<open>Compiling\<close>

fun policy_parse_error :: "policy_error \<Rightarrow> parse_error" where
  "policy_parse_error (PolicyError m) = ParseError m"

text \<open>
  \<open>to_lowercase\<close> is compared with ASCII words that no other character lowercases into, so
  the ASCII function decides the same.
\<close>

definition compile_is :: "string \<Rightarrow> string \<Rightarrow> parse_error + (string \<times> sql_value list)" where
  "compile_is column v =
     (let val = to_ascii_lowercase v
      in if val = ''null'' then Inr (column @ '' IS NULL'', [])
         else if val = ''not.null'' \<or> val = ''notnull'' then Inr (column @ '' IS NOT NULL'', [])
         else if val = ''true'' then Inr (column @ '' IS 1'', [])
         else if val = ''false'' then Inr (column @ '' IS 0'', [])
         else Inl (ParseError (''is filter expects null, not.null, true, or false, got: '' @ v)))"

definition in_values :: "string \<Rightarrow> string list" where
  "in_values v =
     map trim (split_on (CHR '','') (trim_end_char (CHR '')'') (trim_start_char (CHR ''('') v)))"

definition compile_in :: "string \<Rightarrow> string \<Rightarrow> parse_error + (string \<times> sql_value list)" where
  "compile_in column v =
     (let values = in_values v
      in if values = [] then Inr (''0=1'', [])
         else Inr (column @ '' IN ('' @ join '','' (map (\<lambda>_. ''?'') values) @ '')'', map SqlText values))"

definition compile_condition :: "filter_condition \<Rightarrow> parse_error + (string \<times> sql_value list)" where
  "compile_condition c =
     rbind (rmap_err policy_parse_error (quote_ident (fc_column c))) (\<lambda>column.
       (case fc_op c of
          OpEq \<Rightarrow> Inr (column @ '' = ?'', [SqlText (fc_value c)])
        | OpNeq \<Rightarrow> Inr (column @ '' != ?'', [SqlText (fc_value c)])
        | OpGt \<Rightarrow> Inr (column @ '' > ?'', [SqlText (fc_value c)])
        | OpGte \<Rightarrow> Inr (column @ '' >= ?'', [SqlText (fc_value c)])
        | OpLt \<Rightarrow> Inr (column @ '' < ?'', [SqlText (fc_value c)])
        | OpLte \<Rightarrow> Inr (column @ '' <= ?'', [SqlText (fc_value c)])
        | OpLike \<Rightarrow> Inr (column @ '' LIKE ?'', [SqlText (fc_value c)])
        | OpIlike \<Rightarrow> Inr (column @ '' LIKE ? COLLATE NOCASE'', [SqlText (fc_value c)])
        | OpIn \<Rightarrow> compile_in column (fc_value c)
        | OpIs \<Rightarrow> compile_is column (fc_value c)))"

definition join_clauses ::
    "string \<Rightarrow> (string \<times> sql_value list) list \<Rightarrow> string \<times> sql_value list" where
  "join_clauses op compiled =
     (if compiled = [] then (''1=1'', [])
      else (join op (map (\<lambda>(sql, _). paren sql) compiled), concat (map snd compiled)))"

fun compile_filters :: "filter_expr \<Rightarrow> parse_error + (string \<times> sql_value list)" where
  "compile_filters (Condition c) = compile_condition c"
| "compile_filters (AndAll children) = rmap (join_clauses '' AND '') (collect_map compile_filters children)"
| "compile_filters (OrAny children) = rmap (join_clauses '' OR '') (collect_map compile_filters children)"
| "compile_filters (Negate inner) =
     rmap (\<lambda>(sql, params). (''NOT '' @ paren sql, params)) (compile_filters inner)"

fun direction_sql :: "order_direction \<Rightarrow> string" where
  "direction_sql Asc = ''ASC''"
| "direction_sql Desc = ''DESC''"

fun nulls_sql :: "order_nulls \<Rightarrow> string" where
  "nulls_sql NullsFirst = '' NULLS FIRST''"
| "nulls_sql NullsLast = '' NULLS LAST''"
| "nulls_sql NullsDefault = ''''"

definition compile_order :: "order_clause list \<Rightarrow> parse_error + string" where
  "compile_order order =
     (if order = [] then Inr []
      else rmap (\<lambda>parts. ''ORDER BY '' @ join '', '' parts)
             (collect_map (\<lambda>clause.
                rmap (\<lambda>column. column @ '' '' @ direction_sql (oc_direction clause) @ nulls_sql (oc_nulls clause))
                  (rmap_err policy_parse_error (quote_ident (oc_column clause)))) order))"

definition compile_select_columns :: "string list \<Rightarrow> parse_error + string" where
  "compile_select_columns columns =
     (if columns = [] then Inr ''*''
      else rmap (join '', '') (collect_map (\<lambda>col. rmap_err policy_parse_error (quote_ident col)) columns))"

definition where_text :: "string \<Rightarrow> string \<Rightarrow> string" where
  "where_text filter_sql policy_sql =
     (if filter_sql = ''1=1'' then paren policy_sql
      else filter_sql @ '' AND '' @ paren policy_sql)"

text \<open>\<open>n as i64\<close> of a \<open>u64\<close> keeps the bits.\<close>

definition u64_as_i64 :: "nat \<Rightarrow> int" where
  "u64_as_i64 n = i64_wrap (int n)"

definition clamp :: "nat \<Rightarrow> nat \<Rightarrow> nat \<Rightarrow> nat" where
  "clamp lo hi n = (if n < lo then lo else if hi < n then hi else n)"

definition build_select_sql ::
    "string \<Rightarrow> select_query \<Rightarrow> json list \<Rightarrow> actor \<Rightarrow> parse_error + (string \<times> sql_value list)" where
  "build_select_sql table q rules actor =
     rbind (rmap_err policy_parse_error (quote_ident table)) (\<lambda>table_quoted.
     rbind (compile_select_columns (sq_select q)) (\<lambda>columns.
     rbind (compile_filters (sq_filters q)) (\<lambda>(filter_sql, filter_params).
     rbind (rmap_err policy_parse_error (compile_policies rules actor)) (\<lambda>(policy_sql, policy_params).
     rbind (compile_order (sq_order q)) (\<lambda>order_sql.
     let lim = u64_as_i64 (clamp 1 1000 (sq_limit q));
         offset = u64_as_i64 (sq_offset q);
         sql = ''SELECT '' @ columns @ '' FROM '' @ table_quoted @ '' WHERE ''
               @ where_text filter_sql policy_sql
               @ (if order_sql \<noteq> [] then '' '' @ order_sql else [])
               @ '' LIMIT ? OFFSET ?''
     in Inr (sql, filter_params @ policy_params @ [SqlInteger lim, SqlInteger offset]))))))"

text \<open>\<open>where_for_operation\<close> and \<open>where_for_operation_postgrest\<close> of \<open>runtime.rs\<close>, given the
  rules \<open>policy_rules\<close> read.\<close>

definition where_for_operation ::
    "json list api \<Rightarrow> (string \<times> string) list \<Rightarrow> actor \<Rightarrow> (string \<times> sql_value list) api" where
  "where_for_operation rules filters actor =
     rbind (collect_map (\<lambda>(key, v).
              rbind (assert_user_ident key) (\<lambda>column.
              rmap (\<lambda>quoted. (quoted @ '' = ?'', SqlText v)) (rmap_err policy_api_error (quote_ident column))))
            filters) (\<lambda>clauses.
     rbind rules (\<lambda>rules.
     rbind (rmap_err policy_api_error (compile_policies rules actor)) (\<lambda>(policy_sql, policy_params).
     Inr (join '' AND '' (map fst clauses @ [paren policy_sql]), map snd clauses @ policy_params))))"

fun parse_api_error :: "parse_error \<Rightarrow> api_error" where
  "parse_api_error (ParseError m) = api_err 400 m"

definition where_for_operation_postgrest ::
    "json list api \<Rightarrow> filter_expr \<Rightarrow> actor \<Rightarrow> (string \<times> sql_value list) api" where
  "where_for_operation_postgrest rules filters actor =
     rbind (rmap_err parse_api_error (compile_filters filters)) (\<lambda>(filter_sql, filter_params).
     rbind rules (\<lambda>rules.
     rbind (rmap_err policy_api_error (compile_policies rules actor)) (\<lambda>(policy_sql, policy_params).
     Inr (where_text filter_sql policy_sql, filter_params @ policy_params))))"

section \<open>What the compiled text means\<close>

text \<open>
  Boolean expressions over atomic conditions. A condition has one of SQL's three values,
  \<open>None\<close> for unknown; the engine decides the atomic ones. A row is selected when the value
  of the \<open>WHERE\<close> expression is \<open>Some True\<close>.
\<close>

type_synonym engine_atom = "string \<Rightarrow> sql_value list \<Rightarrow> bool option"

datatype sql_expr =
  Const bool
| Atom string "sql_value list"
| And_Expr sql_expr sql_expr
| Or_Expr sql_expr sql_expr
| Not_Expr sql_expr

fun and3 :: "bool option \<Rightarrow> bool option \<Rightarrow> bool option" where
  "and3 (Some False) b = Some False"
| "and3 (Some True) b = b"
| "and3 None b = (if b = Some False then Some False else None)"

definition not3 :: "bool option \<Rightarrow> bool option" where
  "not3 a = map_option Not a"

definition or3 :: "bool option \<Rightarrow> bool option \<Rightarrow> bool option" where
  "or3 a b = not3 (and3 (not3 a) (not3 b))"

fun expr_value :: "engine_atom \<Rightarrow> sql_expr \<Rightarrow> bool option" where
  "expr_value eng (Const b) = Some b"
| "expr_value eng (Atom a ps) = eng a ps"
| "expr_value eng (And_Expr l r) = and3 (expr_value eng l) (expr_value eng r)"
| "expr_value eng (Or_Expr l r) = or3 (expr_value eng l) (expr_value eng r)"
| "expr_value eng (Not_Expr e) = not3 (expr_value eng e)"

lemma and3_true [simp]: "and3 a b = Some True \<longleftrightarrow> a = Some True \<and> b = Some True"
  by (cases "(a, b)" rule: and3.cases) auto

lemma and3_unit [simp]: "and3 a (Some True) = a"
  by (cases "(a, Some True)" rule: and3.cases) auto

lemma or3_true [simp]: "or3 a b = Some True \<longleftrightarrow> a = Some True \<or> b = Some True"
  by (cases a; cases b; cases "the a"; cases "the b") (auto simp: or3_def not3_def)

lemma or3_unit [simp]: "or3 a (Some False) = a"
  by (cases a; cases "the a") (auto simp: or3_def not3_def)

text \<open>
  The grammar: atoms, constants and parenthesised expressions, then \<open>NOT\<close>, then \<open>AND\<close>,
  then \<open>OR\<close>. Placeholders are positional, so the parameters of an expression are those of
  its parts in the order of the text. The text of an atom is one quoted column and one of the
  comparisons.
\<close>

definition comparison_tails :: "string list" where
  "comparison_tails =
     ['' = ?'', '' != ?'', '' > ?'', '' >= ?'', '' < ?'', '' <= ?'', '' LIKE ?'', '' LIKE ? COLLATE NOCASE'']"

definition test_tails :: "string list" where
  "test_tails = ['' IS NULL'', '' IS NOT NULL'', '' IS 1'', '' IS 0'']"

inductive atom_text :: "string \<Rightarrow> sql_value list \<Rightarrow> bool" where
  compare: "valid_ident c \<Longrightarrow> t \<in> set comparison_tails \<Longrightarrow> atom_text (quoted c @ t) [p]"
| test: "valid_ident c \<Longrightarrow> t \<in> set test_tails \<Longrightarrow> atom_text (quoted c @ t) []"
| member: "valid_ident c \<Longrightarrow> ps \<noteq> [] \<Longrightarrow>
    atom_text (quoted c @ '' IN ('' @ join '','' (map (\<lambda>_. ''?'') ps) @ '')'') ps"

inductive prim_text and not_text and and_text and or_text where
  prim_const: "prim_text (truth_sql b) [] (Const b)"
| prim_atom: "atom_text a ps \<Longrightarrow> prim_text a ps (Atom a ps)"
| prim_paren: "or_text s ps e \<Longrightarrow> prim_text (paren s) ps e"
| not_prim: "prim_text s ps e \<Longrightarrow> not_text s ps e"
| not_not: "not_text s ps e \<Longrightarrow> not_text (''NOT '' @ s) ps (Not_Expr e)"
| and_not: "not_text s ps e \<Longrightarrow> and_text s ps e"
| and_and: "not_text s ps e \<Longrightarrow> and_text s' ps' e' \<Longrightarrow>
    and_text (s @ '' AND '' @ s') (ps @ ps') (And_Expr e e')"
| or_and: "and_text s ps e \<Longrightarrow> or_text s ps e"
| or_or: "and_text s ps e \<Longrightarrow> or_text s' ps' e' \<Longrightarrow>
    or_text (s @ '' OR '' @ s') (ps @ ps') (Or_Expr e e')"

lemmas or_text_intros = or_and and_not not_prim

text \<open>The meaning a filter should have, and that of a policy condition.\<close>

definition conj3 :: "bool option list \<Rightarrow> bool option" where
  "conj3 vs = foldr and3 vs (Some True)"

definition disj3 :: "bool option list \<Rightarrow> bool option" where
  "disj3 vs = foldr or3 vs (Some False)"

fun filter_value :: "engine_atom \<Rightarrow> filter_expr \<Rightarrow> bool option" where
  "filter_value eng (Condition c) =
     (case compile_condition c of Inr (a, ps) \<Rightarrow> eng a ps | Inl _ \<Rightarrow> None)"
| "filter_value eng (AndAll es) = conj3 (map (filter_value eng) es)"
| "filter_value eng (OrAny es) = (if es = [] then Some True else disj3 (map (filter_value eng) es))"
| "filter_value eng (Negate e) = not3 (filter_value eng e)"

fun policy_value :: "engine_atom \<Rightarrow> cond \<Rightarrow> bool option" where
  "policy_value eng (Truth b) = Some b"
| "policy_value eng (Equals c v) = eng (cond_sql (Equals c v)) [v]"
| "policy_value eng (Member c vs) = eng (cond_sql (Member c vs)) vs"
| "policy_value eng (Conj cs) = conj3 (map (policy_value eng) cs)"
| "policy_value eng (Disj cs) = disj3 (map (policy_value eng) cs)"

lemma conj3_simps [simp]: "conj3 [] = Some True" "conj3 (v # vs) = and3 v (conj3 vs)"
  by (simp_all add: conj3_def)

lemma disj3_simps [simp]: "disj3 [] = Some False" "disj3 (v # vs) = or3 v (disj3 vs)"
  by (simp_all add: disj3_def)

text \<open>
  A text with the value \<open>v\<close> under every engine, at the three levels a compiled part can stand.
\<close>

type_synonym sql_meaning = "engine_atom \<Rightarrow> bool option"

definition prim_means :: "string \<Rightarrow> sql_value list \<Rightarrow> sql_meaning \<Rightarrow> bool" where
  "prim_means s ps v \<longleftrightarrow> (\<exists>e. prim_text s ps e \<and> (\<forall>eng. expr_value eng e = v eng))"

definition and_means :: "string \<Rightarrow> sql_value list \<Rightarrow> sql_meaning \<Rightarrow> bool" where
  "and_means s ps v \<longleftrightarrow> (\<exists>e. and_text s ps e \<and> (\<forall>eng. expr_value eng e = v eng))"

definition or_means :: "string \<Rightarrow> sql_value list \<Rightarrow> sql_meaning \<Rightarrow> bool" where
  "or_means s ps v \<longleftrightarrow> (\<exists>e. or_text s ps e \<and> (\<forall>eng. expr_value eng e = v eng))"

named_theorems means_intros \<open>composing texts with their values\<close>

lemma means_levels [means_intros]:
  "prim_means s ps v \<Longrightarrow> and_means s ps v"
  "and_means s ps v \<Longrightarrow> or_means s ps v"
  "or_means s ps v \<Longrightarrow> prim_means (paren s) ps v"
  unfolding prim_means_def and_means_def or_means_def
  by (blast intro: prim_text_not_text_and_text_or_text.intros)+

lemma and_means_and:
  assumes "prim_means s ps v" and "and_means s' ps' v'"
  shows "and_means (s @ '' AND '' @ s') (ps @ ps') (\<lambda>eng. and3 (v eng) (v' eng))"
proof -
  from assms obtain e e' where "prim_text s ps e" "and_text s' ps' e'"
    "\<forall>eng. expr_value eng e = v eng" "\<forall>eng. expr_value eng e' = v' eng"
    by (auto simp: prim_means_def and_means_def)
  then have "and_text (s @ '' AND '' @ s') (ps @ ps') (And_Expr e e')"
    "\<forall>eng. expr_value eng (And_Expr e e') = and3 (v eng) (v' eng)"
    by (blast intro: and_and not_prim, simp)
  then show ?thesis unfolding and_means_def by blast
qed

lemma or_means_or:
  assumes "and_means s ps v" and "or_means s' ps' v'"
  shows "or_means (s @ '' OR '' @ s') (ps @ ps') (\<lambda>eng. or3 (v eng) (v' eng))"
proof -
  from assms obtain e e' where "and_text s ps e" "or_text s' ps' e'"
    "\<forall>eng. expr_value eng e = v eng" "\<forall>eng. expr_value eng e' = v' eng"
    by (auto simp: or_means_def and_means_def)
  then have "or_text (s @ '' OR '' @ s') (ps @ ps') (Or_Expr e e')"
    "\<forall>eng. expr_value eng (Or_Expr e e') = or3 (v eng) (v' eng)"
    by (blast intro: or_or, simp)
  then show ?thesis unfolding or_means_def by blast
qed

lemma and_means_not:
  assumes "prim_means s ps v"
  shows "and_means (''NOT '' @ s) ps (\<lambda>eng. not3 (v eng))"
proof -
  from assms obtain e where "prim_text s ps e" "\<forall>eng. expr_value eng e = v eng"
    by (auto simp: prim_means_def)
  then have "and_text (''NOT '' @ s) ps (Not_Expr e)"
    "\<forall>eng. expr_value eng (Not_Expr e) = not3 (v eng)"
    by (blast intro: not_not not_prim and_not, simp)
  then show ?thesis unfolding and_means_def by blast
qed

lemma atom_means: "atom_text a ps \<Longrightarrow> prim_means a ps (\<lambda>eng. eng a ps)"
  unfolding prim_means_def by (intro exI [of _ "Atom a ps"]) (auto intro: prim_atom)

lemma truth_prim_means: "prim_means (truth_sql b) [] (\<lambda>eng. Some b)"
  unfolding prim_means_def by (intro exI [of _ "Const b"]) (auto intro: prim_const)

lemma or_means_base:
  "atom_text a ps \<Longrightarrow> or_means a ps (\<lambda>eng. eng a ps)"
  "or_means (truth_sql b) [] (\<lambda>eng. Some b)"
  by (rule means_levels(2) [OF means_levels(1)], rule atom_means truth_prim_means, assumption?)+

text \<open>A nonempty list of parenthesised parts, joined.\<close>

definition conj_meaning :: "sql_meaning list \<Rightarrow> sql_meaning" where
  "conj_meaning vs = (\<lambda>eng. conj3 (map (\<lambda>v. v eng) vs))"

definition disj_meaning :: "sql_meaning list \<Rightarrow> sql_meaning" where
  "disj_meaning vs = (\<lambda>eng. disj3 (map (\<lambda>v. v eng) vs))"

lemma meaning_simps [simp]:
  "conj_meaning [] = (\<lambda>eng. Some True)"
  "conj_meaning (map f xs) = (\<lambda>eng. conj3 (map (\<lambda>x. f x eng) xs))"
  "disj_meaning (map f xs) = (\<lambda>eng. disj3 (map (\<lambda>x. f x eng) xs))"
  "disj_meaning [v] = v"
  by (simp_all add: conj_meaning_def disj_meaning_def o_def)

lemma and_means_join:
  assumes "list_all2 (\<lambda>(s, ps) v. or_means s ps v) compiled vs" and "compiled \<noteq> []"
  shows "and_means (join '' AND '' (map (\<lambda>(s, _). paren s) compiled)) (concat (map snd compiled))
    (conj_meaning vs)"
  using assms
proof (induction rule: list_all2_induct)
  case (Cons x xs v vs)
  obtain s ps where x: "x = (s, ps)" by fastforce
  with Cons have p: "prim_means (paren s) ps v" by (auto intro: means_intros)
  show ?case
  proof (cases xs)
    case Nil
    with Cons x p show ?thesis by (auto simp: conj_meaning_def intro: means_intros)
  next
    case (Cons y ys)
    with Cons.IH x show ?thesis
      using and_means_and [OF p] by (simp add: split_def conj_meaning_def)
  qed
qed simp

lemma or_means_join:
  assumes "list_all2 (\<lambda>(s, ps) v. or_means s ps v) compiled vs" and "compiled \<noteq> []"
  shows "or_means (join '' OR '' (map (\<lambda>(s, _). paren s) compiled)) (concat (map snd compiled))
    (disj_meaning vs)"
  using assms
proof (induction rule: list_all2_induct)
  case (Cons x xs v vs)
  obtain s ps where x: "x = (s, ps)" by fastforce
  with Cons have p: "and_means (paren s) ps v" by (auto intro: means_intros)
  show ?case
  proof (cases xs)
    case Nil
    with Cons x p show ?thesis by (auto simp: disj_meaning_def intro: means_intros)
  next
    case (Cons y ys)
    with Cons.IH x show ?thesis
      using or_means_or [OF p] by (simp add: split_def disj_meaning_def)
  qed
qed simp

section \<open>Compiled parts have the meaning of what they were compiled from\<close>

lemma is_atom: "valid_ident c \<Longrightarrow> compile_is (quoted c) v = Inr (s, ps) \<Longrightarrow> atom_text s ps"
  by (auto simp: compile_is_def Let_def test_tails_def split: if_splits intro!: atom_text.test)

lemma in_atom: "valid_ident c \<Longrightarrow> compile_in (quoted c) v = Inr (s, ps) \<Longrightarrow> atom_text s ps"
  using atom_text.member [of c "map SqlText (in_values v)"]
  by (auto simp: compile_in_def Let_def in_values_def o_def)

lemma condition_means:
  assumes "compile_condition c = Inr (s, ps)"
  shows "prim_means s ps (\<lambda>eng. filter_value eng (Condition c))"
proof -
  from assms have id: "valid_ident (fc_column c)"
    by (auto simp: compile_condition_def result_simps ident_simps)
  then have "quote_ident (fc_column c) = Inr (quoted (fc_column c))"
    by (simp add: quote_ident_def quoted_def)
  with assms id have "prim_means s ps (\<lambda>eng. eng s ps)"
    by (cases "fc_op c")
      (auto simp: compile_condition_def comparison_tails_def intro: is_atom in_atom
        intro!: atom_means atom_text.compare)
  with assms show ?thesis by simp
qed

text \<open>A disjunction at the top of a filter is the one form that \<open>AND\<close> cannot follow.\<close>

fun and_safe :: "filter_expr \<Rightarrow> bool" where
  "and_safe (OrAny es) = (length es \<le> 1)"
| "and_safe _ = True"

lemma collect_means:
  assumes "collect_map compile_filters es = Inr compiled"
    and "\<And>e s ps. e \<in> set es \<Longrightarrow> compile_filters e = Inr (s, ps) \<Longrightarrow> or_means s ps (\<lambda>eng. filter_value eng e)"
  shows "list_all2 (\<lambda>(s, ps) v. or_means s ps v) compiled (map (\<lambda>e eng. filter_value eng e) es)"
  using assms by (auto simp: collect_map_Inr_iff list_all2_conv_all_nth split: prod.split)

lemma join_clauses_means:
  assumes "list_all2 (\<lambda>(s, ps) v. or_means s ps v) compiled vs"
  shows "join_clauses '' AND '' compiled = (s, ps) \<Longrightarrow> and_means s ps (conj_meaning vs)"
    and "join_clauses '' OR '' compiled = (s, ps) \<Longrightarrow>
      or_means s ps (if vs = [] then (\<lambda>_. Some True) else disj_meaning vs)"
    and "join_clauses '' OR '' compiled = (s, ps) \<Longrightarrow> length vs \<le> 1 \<Longrightarrow>
      and_means s ps (if vs = [] then (\<lambda>_. Some True) else disj_meaning vs)"
proof -
  have unit: "and_means ''1=1'' [] (\<lambda>_. Some True)"
    using truth_prim_means [of True] by (simp add: truth_sql_def means_intros)
  show "join_clauses '' AND '' compiled = (s, ps) \<Longrightarrow> and_means s ps (conj_meaning vs)"
    using assms and_means_join [OF assms] unit
    by (cases "compiled = []") (auto simp: join_clauses_def)
  show "join_clauses '' OR '' compiled = (s, ps) \<Longrightarrow>
      or_means s ps (if vs = [] then (\<lambda>_. Some True) else disj_meaning vs)"
    using assms or_means_join [OF assms] unit
    by (cases "compiled = []") (auto simp: join_clauses_def intro: means_intros)
  assume j: "join_clauses '' OR '' compiled = (s, ps)" and le: "length vs \<le> 1"
  show "and_means s ps (if vs = [] then (\<lambda>_. Some True) else disj_meaning vs)"
  proof (cases vs)
    case Nil
    with assms j unit show ?thesis by (simp add: join_clauses_def)
  next
    case (Cons v ws)
    with le have "vs = [v]" by simp
    with assms j show ?thesis
      by (auto simp: join_clauses_def list_all2_Cons2 intro!: means_levels(1) [OF means_levels(3)])
  qed
qed

lemma filters_mean:
  "compile_filters e = Inr (s, ps) \<Longrightarrow> or_means s ps (\<lambda>eng. filter_value eng e)
     \<and> (and_safe e \<longrightarrow> and_means s ps (\<lambda>eng. filter_value eng e))"
proof (induction e arbitrary: s ps)
  case (Condition c)
  then show ?case using condition_means [of c s ps] by (auto intro: means_intros)
next
  case (AndAll es)
  then obtain compiled where c: "collect_map compile_filters es = Inr compiled"
    and j: "join_clauses '' AND '' compiled = (s, ps)"
    by (auto simp: result_simps)
  have "list_all2 (\<lambda>(s, ps) v. or_means s ps v) compiled (map (\<lambda>e eng. filter_value eng e) es)"
    using AndAll.IH by (intro collect_means [OF c]) blast
  from join_clauses_means(1) [OF this j] show ?case by (simp add: means_intros)
next
  case (OrAny es)
  then obtain compiled where c: "collect_map compile_filters es = Inr compiled"
    and j: "join_clauses '' OR '' compiled = (s, ps)"
    by (auto simp: result_simps)
  have "list_all2 (\<lambda>(s, ps) v. or_means s ps v) compiled (map (\<lambda>e eng. filter_value eng e) es)"
    using OrAny.IH by (intro collect_means [OF c]) blast
  from join_clauses_means(2,3) [OF this j] show ?case by (cases "es = []") simp_all
next
  case (Negate e)
  then obtain t where t: "compile_filters e = Inr (t, ps)" and s: "s = ''NOT '' @ paren t"
    by (auto simp: result_simps)
  from Negate.IH [OF t] have "and_means s ps (\<lambda>eng. not3 (filter_value eng e))"
    unfolding s by (intro and_means_not means_levels(3)) simp
  then show ?case by (simp add: means_intros)
qed

text \<open>Policies: a compiled condition has parts wherever it is compound.\<close>

fun cond_nonempty :: "cond \<Rightarrow> bool" where
  "cond_nonempty (Member c vs) = (vs \<noteq> [])"
| "cond_nonempty (Conj cs) = (cs \<noteq> [] \<and> list_all cond_nonempty cs)"
| "cond_nonempty (Disj cs) = (cs \<noteq> [] \<and> list_all cond_nonempty cs)"
| "cond_nonempty _ = True"

lemma rule_cond_nonempty: "rule_cond actor rule = Inr c \<Longrightarrow> cond_nonempty c"
proof (induction actor rule arbitrary: c rule: rule_cond.induct)
  case (1 actor rule)
  note rc = "1.prems" [unfolded rule_cond.simps [of actor rule]]
  have part: "list_all cond_nonempty cs"
    if "collect_map (rule_cond actor) xs = Inr cs"
      "\<And>x e. x \<in> set xs \<Longrightarrow> rule_cond actor x = Inr e \<Longrightarrow> cond_nonempty e" for xs cs
    using that by (force simp: collect_map_Inr_iff list_all2_conv_all_nth list_all_length)
  have col: "column_cond actor rule column = Inr c \<Longrightarrow> cond_nonempty c" for column
    by (auto simp: column_cond_def Let_def split: if_splits option.splits)
  from rc col show ?case
    using "1.IH" part
    by (auto simp: result_simps compound_def split: if_splits option.splits)
qed

lemma cond_means:
  "cond_nonempty c \<Longrightarrow> list_all valid_ident (cond_idents c) \<Longrightarrow>
    or_means (cond_sql c) (cond_params c) (\<lambda>eng. policy_value eng c)"
proof (induction c)
  case (Truth b)
  then show ?case using or_means_base(2) [of b] by simp
next
  case (Equals c v)
  then have "atom_text (quoted c @ '' = ?'') [v]"
    by (intro atom_text.compare) (simp_all add: comparison_tails_def)
  then show ?case using or_means_base(1) by simp
next
  case (Member c vs)
  then have "atom_text (cond_sql (Member c vs)) vs"
    using atom_text.member [of c vs] by simp
  then show ?case using or_means_base(1) by (simp del: cond_sql.simps)
next
  case (Conj cs)
  then have "list_all2 (\<lambda>(s, ps) v. or_means s ps v) (map cond_text cs) (map (\<lambda>c eng. policy_value eng c) cs)"
    by (auto simp: list_all2_conv_all_nth list_all_iff)
  from and_means_join [OF this] Conj.prems show ?case
    by (simp add: o_def means_intros)
next
  case (Disj cs)
  then have "list_all2 (\<lambda>(s, ps) v. or_means s ps v) (map cond_text cs) (map (\<lambda>c eng. policy_value eng c) cs)"
    by (auto simp: list_all2_conv_all_nth list_all_iff)
  from or_means_join [OF this] Disj.prems show ?case
    by (simp add: o_def)
qed

lemma policies_mean:
  assumes "compile_policies rules actor = Inr (sql, params)"
  obtains c where "policies_cond rules actor = Inr c" and "or_means sql params (\<lambda>eng. policy_value eng c)"
    and "(sql, params) = cond_text c" and "list_all valid_ident (cond_idents c)"
proof -
  from assms obtain c where c: "policies_cond rules actor = Inr c" and tx: "(sql, params) = cond_text c"
    and id: "list_all valid_ident (cond_idents c)"
    by (rule compile_policies_cond)
  have "cond_nonempty c"
    using c rule_cond_nonempty
    by (fastforce simp: policies_cond_def result_simps list_all2_conv_all_nth list_all_length split: if_splits)
  from cond_means [OF this id] tx c id show thesis by (intro that) auto
qed

end
