(* ===== verification/Postgrest_Properties.thy ===== *)
theory Postgrest_Properties
  imports Postgrest "HOL-Library.Multiset"
begin

text \<open>
  What \<open>postgrest.rs\<close> guarantees: the row policy of a select holds of every row it returns
  unless the filter is a disjunction, values never become statement text, the page is bounded, an
  order parameter parses to what it says, and the iteration order of the parameters of a request
  is immaterial.
\<close>

section \<open>Properties\<close>

lemma build_select_parts:
  assumes "build_select_sql table q rules actor = Inr (sql, params)"
  obtains fs fp ps pp cols order where "compile_filters (sq_filters q) = Inr (fs, fp)"
    and "compile_policies rules actor = Inr (ps, pp)"
    and "compile_select_columns (sq_select q) = Inr cols" and "compile_order (sq_order q) = Inr order"
    and "valid_ident table"
    and "sql = (''SELECT '' @ cols @ '' FROM '' @ quoted table) @ '' WHERE '' @ where_text fs ps
      @ (if order \<noteq> [] then '' '' @ order else []) @ '' LIMIT ? OFFSET ?''"
    and "params = (fp @ pp) @ [SqlInteger (u64_as_i64 (clamp 1 1000 (sq_limit q))),
      SqlInteger (u64_as_i64 (sq_offset q))]"
proof -
  obtain tq cols fs fp ps pp order where
    *: "quote_ident table = Inr tq" "compile_select_columns (sq_select q) = Inr cols"
      "compile_filters (sq_filters q) = Inr (fs, fp)" "compile_policies rules actor = Inr (ps, pp)"
      "compile_order (sq_order q) = Inr order"
    and sql: "sql = ''SELECT '' @ cols @ '' FROM '' @ tq @ '' WHERE ''
               @ where_text fs ps @ (if order \<noteq> [] then '' '' @ order else []) @ '' LIMIT ? OFFSET ?''"
    and params: "params = fp @ pp @ [SqlInteger (u64_as_i64 (clamp 1 1000 (sq_limit q))),
      SqlInteger (u64_as_i64 (sq_offset q))]"
    using assms by (auto simp: build_select_sql_def result_simps Let_def simp del: append.simps)
  from *(1) have "valid_ident table" "tq = quoted table" by (auto simp: ident_simps quoted_def)
  with * sql params show thesis by (intro that) simp_all
qed

lemma join_Cons: "join sep (x # xs) = x @ (if xs = [] then [] else sep @ join sep xs)"
  by (cases xs) auto

lemma join_clauses_unit: "join_clauses op compiled = (''1=1'', ps) \<Longrightarrow> compiled = [] \<and> ps = []"
  by (cases compiled) (auto simp: join_clauses_def join_Cons paren_def)

lemma condition_text_quote: "compile_condition c = Inr (s, ps) \<Longrightarrow> s = CHR 34 # tl s"
  by (cases "fc_op c") (auto simp: compile_condition_def result_simps ident_simps compile_is_def
      compile_in_def in_values_def Let_def split: if_splits)

lemma filter_text_unit:
  assumes "compile_filters e = Inr (''1=1'', ps)"
  shows "ps = [] \<and> (\<forall>eng. filter_value eng e = Some True)"
proof (cases e)
  case (Condition c)
  with assms condition_text_quote [of c "''1=1''" ps] show ?thesis by simp
next
  case (AndAll es)
  with assms show ?thesis
    by (auto simp: result_simps collect_map_Inr_iff dest!: join_clauses_unit [OF sym])
next
  case (OrAny es)
  with assms show ?thesis
    by (auto simp: result_simps collect_map_Inr_iff dest!: join_clauses_unit [OF sym])
next
  case (Negate f)
  with assms show ?thesis by (auto simp: result_simps)
qed

lemma and3_assoc: "and3 (and3 a b) c = and3 a (and3 b c)"
  by (cases a; cases b; cases c; cases "the a"; cases "the b"; cases "the c"; simp)

lemma and_text_append:
  assumes "and_text s' ps' e'"
  shows "prim_text s ps e \<Longrightarrow> True" "not_text s ps e \<Longrightarrow> True"
    and "and_text s ps e \<Longrightarrow> \<exists>d. and_text (s @ '' AND '' @ s') (ps @ ps') d
      \<and> (\<forall>eng. expr_value eng d = and3 (expr_value eng e) (expr_value eng e'))"
    and "or_text s ps e \<Longrightarrow> True"
proof (induction rule: prim_text_not_text_and_text_or_text.inducts)
  case (and_not s ps e)
  from and_and [OF and_not(1) assms] show ?case
    by (intro exI [of _ "And_Expr e e'"]) simp
next
  case (and_and s ps e t qs f)
  then obtain d where d: "and_text (t @ '' AND '' @ s') (qs @ ps') d"
    and v: "\<forall>eng. expr_value eng d = and3 (expr_value eng f) (expr_value eng e')" by blast
  from prim_text_not_text_and_text_or_text.and_and [OF and_and(1) d] v show ?case
    by (intro exI [of _ "And_Expr e d"]) (simp add: and3_assoc)
qed simp_all

lemma and_means_append:
  assumes "and_means s ps v" and "and_means s' ps' v'"
  shows "and_means (s @ '' AND '' @ s') (ps @ ps') (\<lambda>eng. and3 (v eng) (v' eng))"
proof -
  from assms obtain e e' where "and_text s ps e" "and_text s' ps' e'"
    "\<forall>eng. expr_value eng e = v eng" "\<forall>eng. expr_value eng e' = v' eng"
    by (auto simp: and_means_def)
  with and_text_append(3) [of s' ps' e' s ps e] show ?thesis by (auto simp: and_means_def)
qed

lemma where_means:
  assumes f: "compile_filters e = Inr (fs, fp)" and "and_safe e" and p: "or_means ps pp v"
  shows "or_means (where_text fs ps) (fp @ pp) (\<lambda>eng. and3 (filter_value eng e) (v eng))"
proof (cases "fs = ''1=1''")
  case True
  with filter_text_unit f have "fp = []" "\<forall>eng. filter_value eng e = Some True" by blast+
  then show ?thesis
    using True p by (simp add: where_text_def means_intros)
next
  case False
  have "and_means fs fp (\<lambda>eng. filter_value eng e)" using filters_mean [OF f] assms(2) by simp
  from and_means_append [OF this means_levels(1) [OF means_levels(3) [OF p]]] False show ?thesis
    unfolding where_text_def by (simp add: means_levels(2))
qed

text \<open>
  What the engine reads when the filter is a disjunction: the policy is a conjunct of the last
  alternative only.
\<close>

fun and_last :: "sql_meaning list \<Rightarrow> sql_meaning \<Rightarrow> sql_meaning list" where
  "and_last [] v = []"
| "and_last [x] v = [\<lambda>eng. and3 (x eng) (v eng)]"
| "and_last (x # y # ys) v = x # and_last (y # ys) v"

lemma or_means_join_and:
  assumes "list_all2 (\<lambda>(s, ps) v. or_means s ps v) compiled vs" and "compiled \<noteq> []" and "prim_means t qs w"
  shows "or_means (join '' OR '' (map (\<lambda>(s, _). paren s) compiled) @ '' AND '' @ t)
    (concat (map snd compiled) @ qs) (disj_meaning (and_last vs w))"
  using assms(1,2)
proof (induction rule: list_all2_induct)
  case (Cons x xs v vs)
  obtain s ps where x: "x = (s, ps)" by fastforce
  with Cons have p: "and_means (paren s) ps v" and pp: "prim_means (paren s) ps v"
    by (auto intro: means_intros)
  show ?case
  proof (cases xs)
    case Nil
    with Cons x show ?thesis
      using and_means_and [OF pp means_levels(1) [OF assms(3)]] by (simp add: means_levels(2))
  next
    case (Cons y ys)
    with \<open>list_all2 _ xs vs\<close> obtain u us where "vs = u # us" by (cases vs) auto
    with Cons Cons.IH x show ?thesis
      using or_means_or [OF p] by (simp add: split_def disj_meaning_def)
  qed
qed simp

lemma disj3_true: "disj3 vs = Some True \<longleftrightarrow> Some True \<in> set vs"
  by (induction vs) auto

lemma and_last_butlast: "x \<in> set (butlast vs) \<Longrightarrow> x \<in> set (and_last vs w)"
  by (induction vs w rule: and_last.induct) auto


text \<open>The policy under an engine that compares columns of a row as the conditions say.\<close>

definition engine_on ::
    "(f64 \<Rightarrow> sql_value \<Rightarrow> bool) \<Rightarrow> (string \<Rightarrow> sql_value) \<Rightarrow> engine_atom \<Rightarrow> bool" where
  "engine_on real_eq row eng \<longleftrightarrow>
     (\<forall>c v. eng (cond_sql (Equals c v)) [v] = Some True \<longleftrightarrow> sql_equal real_eq (row c) v)
     \<and> (\<forall>c vs. eng (cond_sql (Member c vs)) vs = Some True \<longleftrightarrow> list_ex (sql_equal real_eq (row c)) vs)"

lemma conj3_true: "conj3 vs = Some True \<longleftrightarrow> list_all (\<lambda>v. v = Some True) vs"
  by (induction vs) auto

lemma policy_value_holds:
  "engine_on real_eq row eng \<Longrightarrow> policy_value eng c = Some True \<longleftrightarrow> cond_holds real_eq row c"
proof (induction c)
  case (Conj cs)
  then show ?case by (auto simp: conj3_true list_all_iff)
next
  case (Disj cs)
  then show ?case by (auto simp: disj3_true list_ex_iff image_iff) metis+
qed (simp_all add: engine_on_def del: cond_sql.simps)



definition open_todos :: select_query where
  "open_todos = default_query\<lparr>sq_filters := Condition \<lparr>fc_column = ''status'', fc_op = OpNeq, fc_value = ''done''\<rparr>\<rparr>"

definition open_todos_text :: string where
  "open_todos_text = ''SELECT * FROM '' @ quoted ''todos'' @ '' WHERE '' @ quoted ''status''
     @ '' != ? AND ('' @ paren (quoted ''owner'' @ '' = ?'') @ '') LIMIT ? OFFSET ?''"

lemma build_open_todos:
  "build_select_sql ''todos'' open_todos [owner_rule] ada =
     Inr (open_todos_text, [SqlText ''done'', SqlText ''ada'', SqlInteger 100, SqlInteger 0])"
  using compile_owner_rule
  by (simp add: build_select_sql_def open_todos_def open_todos_text_def default_query_def quote_ident_def
      ident_start_def ident_char_def ascii_defs compile_select_columns_def compile_order_def
      compile_condition_def where_text_def u64_as_i64_def i64_wrap_def i64_max_def clamp_def quoted_def paren_def)


text \<open>
  A disjunction escapes the policy. The text of a filter is not put in parentheses before
  the policy is appended, so in the text of a query for any of several filters the policy
  belongs to the last one only: every row that satisfies an earlier filter is selected, whatever
  the policy says of it.
\<close>

theorem or_filter_bypasses_policy:
  assumes "build_select_sql table q rules actor = Inr (sql, params)"
    and "sq_filters q = OrAny es" and "e \<in> set (butlast es)"
  shows "\<exists>start w stop ps page t. sql = start @ '' WHERE '' @ w @ stop \<and> params = ps @ page
    \<and> length page = 2 \<and> or_text w ps t
    \<and> (\<forall>eng. filter_value eng e = Some True \<longrightarrow> expr_value eng t = Some True)"
proof (rule build_select_parts [OF assms(1)])
  fix fs fp ps pp cols order
  let ?stop = "(if order \<noteq> [] then '' '' @ order else []) @ '' LIMIT ? OFFSET ?''"
  let ?page = "[SqlInteger (u64_as_i64 (clamp 1 1000 (sq_limit q))), SqlInteger (u64_as_i64 (sq_offset q))]"
  assume "compile_filters (sq_filters q) = Inr (fs, fp)" and p: "compile_policies rules actor = Inr (ps, pp)"
    and sql: "sql = (''SELECT '' @ cols @ '' FROM '' @ quoted table) @ '' WHERE '' @ where_text fs ps @ ?stop"
    and params: "params = (fp @ pp) @ ?page"
  then obtain compiled where cs: "collect_map compile_filters es = Inr compiled"
    and j: "join_clauses '' OR '' compiled = (fs, fp)"
    by (auto simp: assms(2) result_simps)
  have ne: "compiled \<noteq> []" using assms(3) cs by (auto simp: collect_map_Inr_iff)
  let ?vs = "map (\<lambda>e eng. filter_value eng e) es"
  have m: "list_all2 (\<lambda>(s, ps) v. or_means s ps v) compiled ?vs"
    using filters_mean by (intro collect_means [OF cs]) blast
  obtain c where "or_means ps pp (\<lambda>eng. policy_value eng c)" using policies_mean [OF p] by blast
  note om = or_means_join_and [OF m ne means_levels(3) [OF this]]
  have "fs \<noteq> ''1=1''" using join_clauses_unit [of _ compiled fp] j ne by blast
  then have wt: "where_text fs ps = fs @ '' AND '' @ paren ps" by (simp only: where_text_def if_False)
  have fs: "fs = join '' OR '' (map (\<lambda>(s, _). paren s) compiled)" "fp = concat (map snd compiled)"
    using j ne by (auto simp only: join_clauses_def if_False prod.inject)
  from om [folded fs, simplified append_assoc] obtain t where t: "or_text (where_text fs ps) (fp @ pp) t"
    and v: "\<forall>eng. expr_value eng t = disj_meaning (and_last ?vs (\<lambda>eng. policy_value eng c)) eng"
    unfolding wt or_means_def by blast
  have "(\<lambda>eng. filter_value eng e) \<in> set (and_last ?vs (\<lambda>eng. policy_value eng c))"
    by (rule and_last_butlast, simp only: map_butlast [symmetric] set_map, rule imageI, rule assms(3))
  then have "filter_value eng e \<in> set (map (\<lambda>v. v eng) (and_last ?vs (\<lambda>eng. policy_value eng c)))" for eng
    unfolding set_map by (rule image_eqI [rotated]) (rule refl)
  then have sel: "expr_value eng t = Some True" if "filter_value eng e = Some True" for eng
    using that unfolding v [rule_format] disj_meaning_def disj3_true by metis
  show ?thesis
    by (intro exI conjI, rule sql, rule params, simp, rule t, intro allI impI, rule sel)
qed

text \<open>The statement's texts and limits.\<close>

fun filter_columns :: "filter_expr \<Rightarrow> string list" where
  "filter_columns (Condition c) = [fc_column c]"
| "filter_columns (AndAll es) = concat (map filter_columns es)"
| "filter_columns (OrAny es) = concat (map filter_columns es)"
| "filter_columns (Negate e) = filter_columns e"

lemma atom_text_count: "atom_text s ps \<Longrightarrow> count_list s (CHR ''?'') = length ps"
proof (induction rule: atom_text.induct)
  case (member c ps)
  have "sum_list (map (\<lambda>x. count_list ''?'' (CHR ''?'')) ps) = length ps" by (induction ps) auto
  with member show ?case
    by (simp add: quoted_def count_list_join valid_ident_notin count_list_0_iff o_def)
qed (auto simp: comparison_tails_def test_tails_def quoted_def valid_ident_notin count_list_0_iff)

lemma text_count:
  "prim_text s ps e \<Longrightarrow> count_list s (CHR ''?'') = length ps"
  "not_text s ps e \<Longrightarrow> count_list s (CHR ''?'') = length ps"
  "and_text s ps e \<Longrightarrow> count_list s (CHR ''?'') = length ps"
  "or_text s ps e \<Longrightarrow> count_list s (CHR ''?'') = length ps"
  by (induction rule: prim_text_not_text_and_text_or_text.inducts)
    (simp_all add: truth_sql_def paren_def atom_text_count)

lemma filters_count:
  assumes "compile_filters e = Inr (s, ps)"
  shows "count_list s (CHR ''?'') = length ps"
  using filters_mean [OF assms] text_count(4) by (auto simp: or_means_def)

lemma filter_columns_valid:
  "compile_filters e = Inr (s, ps) \<Longrightarrow> list_all valid_ident (filter_columns e)"
proof (induction e arbitrary: s ps)
  case (Condition c)
  then show ?case by (auto simp: compile_condition_def rbind_Inr_iff rmap_err_Inr_iff ident_simps)
next
  case (AndAll es)
  then obtain compiled where "collect_map compile_filters es = Inr compiled" by (auto simp: rmap_Inr_iff)
  from collect_map_each [OF this] AndAll.IH show ?case by (fastforce simp: list_all_iff)
next
  case (OrAny es)
  then obtain compiled where "collect_map compile_filters es = Inr compiled" by (auto simp: rmap_Inr_iff)
  from collect_map_each [OF this] OrAny.IH show ?case by (fastforce simp: list_all_iff)
qed (auto simp: rmap_Inr_iff)

lemma quoted_columns:
  "collect_map (\<lambda>c. rmap (f c) (rmap_err policy_parse_error (quote_ident (g c)))) xs = Inr ys \<Longrightarrow>
    list_all valid_ident (map g xs) \<and> ys = map (\<lambda>c. f c (quoted (g c))) xs"
  by (induction xs arbitrary: ys)
    (auto simp: rmap_Inr_iff rmap_err_Inr_iff ident_simps quoted_def split: sum.splits)

lemma sum_list_zero: "(\<And>x. x \<in> set xs \<Longrightarrow> f x = 0) \<Longrightarrow> sum_list (map f xs) = (0 :: nat)"
  by (induction xs) auto

lemma order_text:
  assumes "compile_order os = Inr s"
  shows "list_all valid_ident (map oc_column os) \<and> count_list s (CHR ''?'') = 0"
proof (cases "os = []")
  case False
  let ?f = "\<lambda>c col. col @ '' '' @ direction_sql (oc_direction c) @ nulls_sql (oc_nulls c)"
  from False assms obtain parts where parts: "collect_map (\<lambda>c. rmap (?f c)
      (rmap_err policy_parse_error (quote_ident (oc_column c)))) os = Inr parts"
    and s: "s = ''ORDER BY '' @ join '', '' parts"
    by (auto simp: compile_order_def rmap_Inr_iff)
  note q = quoted_columns [OF parts]
  have "CHR ''?'' \<notin> set (direction_sql d)" "CHR ''?'' \<notin> set (nulls_sql n)" for d n
    by (cases d, simp_all, cases n, simp_all)
  then have "count_list (?f c (quoted (oc_column c))) (CHR ''?'') = 0" if "c \<in> set os" for c
    using q that by (auto simp: count_list_0_iff quoted_def valid_ident_notin list_all_iff)
  then show ?thesis
    using q s by (simp add: count_list_join sum_list_zero)
qed (use assms in \<open>auto simp: compile_order_def\<close>)

lemma select_columns_text:
  assumes "compile_select_columns cols = Inr s"
  shows "list_all valid_ident cols \<and> count_list s (CHR ''?'') = 0"
proof (cases "cols = []")
  case False
  with assms obtain parts where parts: "collect_map (\<lambda>c. rmap_err policy_parse_error (quote_ident c)) cols = Inr parts"
    and s: "s = join '', '' parts"
    by (auto simp: compile_select_columns_def rmap_Inr_iff)
  have id: "rmap (\<lambda>x. x) r = r" for r :: "parse_error + string" by (cases r) auto
  have q: "list_all valid_ident cols \<and> parts = map quoted cols"
    using quoted_columns [of "\<lambda>c x. x" "\<lambda>c. c" cols parts] parts by (simp add: id)
  then have "count_list (quoted c) (CHR ''?'') = 0" if "c \<in> set cols" for c
    using that by (auto simp: count_list_0_iff quoted_def valid_ident_notin list_all_iff)
  with q s show ?thesis by (simp add: count_list_join sum_list_zero)
qed (use assms in \<open>auto simp: compile_select_columns_def\<close>)

text \<open>
  C20: nothing of the request but valid identifiers becomes statement text: table, columns,
  filter columns and order columns are identifiers, and every value has its placeholder.
\<close>

theorem select_text_safe:
  assumes "build_select_sql table q rules actor = Inr (sql, params)"
  shows "valid_ident table \<and> list_all valid_ident (sq_select q)
    \<and> list_all valid_ident (filter_columns (sq_filters q))
    \<and> list_all valid_ident (map oc_column (sq_order q))
    \<and> count_list sql (CHR ''?'') = length params"
proof (rule build_select_parts [OF assms])
  fix fs fp ps pp cols order
  assume f: "compile_filters (sq_filters q) = Inr (fs, fp)" and p: "compile_policies rules actor = Inr (ps, pp)"
    and c: "compile_select_columns (sq_select q) = Inr cols" and ord: "compile_order (sq_order q) = Inr order"
    and t: "valid_ident table"
    and sql: "sql = (''SELECT '' @ cols @ '' FROM '' @ quoted table) @ '' WHERE '' @ where_text fs ps
      @ (if order \<noteq> [] then '' '' @ order else []) @ '' LIMIT ? OFFSET ?''"
    and params: "params = (fp @ pp) @ [SqlInteger (u64_as_i64 (clamp 1 1000 (sq_limit q))),
      SqlInteger (u64_as_i64 (sq_offset q))]"
  have "or_means ps pp v \<Longrightarrow> count_list ps (CHR ''?'') = length pp" for v
    using text_count(4) by (auto simp: or_means_def)
  with policies_mean [OF p] have "count_list ps (CHR ''?'') = length pp" by blast
  moreover have "fs = ''1=1'' \<Longrightarrow> fp = []" using filter_text_unit f by blast
  ultimately have "count_list (where_text fs ps) (CHR ''?'') = length fp + length pp"
    using filters_count [OF f] by (cases "fs = ''1=1''") (simp_all add: where_text_def paren_def)
  then show ?thesis
    using t select_columns_text [OF c] order_text [OF ord] filter_columns_valid [OF f]
    by (simp add: sql params quoted_def valid_ident_notin count_list_0_iff)
qed

lemma select_text_safe_witness:
  "valid_ident ''todos'' \<and> list_all valid_ident (sq_select open_todos)
    \<and> list_all valid_ident (filter_columns (sq_filters open_todos))
    \<and> list_all valid_ident (map oc_column (sq_order open_todos))
    \<and> count_list open_todos_text (CHR ''?'')
       = length [SqlText ''done'', SqlText ''ada'', SqlInteger 100, SqlInteger 0]"
  by (rule select_text_safe [OF build_open_todos])

text \<open>
  The page of a select: its last two parameters are a limit between 1 and 1000, the
  query's own when that is in range, and the bits of the query's offset, which read as a negative
  number from \<open>2 ^ 63\<close> on.
\<close>

theorem page_bounds:
  assumes "build_select_sql table q rules actor = Inr (sql, params)" and "sq_offset q \<le> u64_max"
  shows "\<exists>ps lim off. params = ps @ [SqlInteger lim, SqlInteger off]
    \<and> 1 \<le> lim \<and> lim \<le> 1000 \<and> i64_range off
    \<and> (sq_limit q \<in> {1..1000} \<longrightarrow> lim = int (sq_limit q))
    \<and> off = (if int (sq_offset q) \<le> i64_max then int (sq_offset q) else int (sq_offset q) - 2 ^ 64)"
proof (rule build_select_parts [OF assms(1)])
  fix fs fp ps pp cols order
  assume params: "params = (fp @ pp) @ [SqlInteger (u64_as_i64 (clamp 1 1000 (sq_limit q))),
      SqlInteger (u64_as_i64 (sq_offset q))]"
  have lim: "u64_as_i64 (clamp 1 1000 n) = int (clamp 1 1000 n)" for n
    unfolding u64_as_i64_def by (rule i64_wrap_id) (auto simp: clamp_def i64_range_def i64_max_def)
  have off: "u64_as_i64 (sq_offset q)
      = (if int (sq_offset q) \<le> i64_max then int (sq_offset q) else int (sq_offset q) - 2 ^ 64)"
  proof (cases "int (sq_offset q) \<le> i64_max")
    case True
    then show ?thesis
      unfolding u64_as_i64_def by (simp add: i64_wrap_id i64_range_def i64_max_def)
  next
    case False
    define n where "n = int (sq_offset q)"
    have "n \<le> 18446744073709551615" "\<not> n \<le> 9223372036854775807"
      using False assms(2) by (simp_all add: n_def i64_max_def u64_max_def)
    then have "(n + 9223372036854775808) mod 18446744073709551616 = n - 9223372036854775808"
      using mod_add_self2 [of "n - 9223372036854775808" "18446744073709551616"] by (simp add: add.commute)
    with False show ?thesis by (simp add: u64_as_i64_def i64_wrap_def i64_max_def n_def)
  qed
  have "params = (fp @ pp) @ [SqlInteger (int (clamp 1 1000 (sq_limit q))),
      SqlInteger (u64_as_i64 (sq_offset q))]"
    by (simp only: params lim)
  moreover have "i64_range (u64_as_i64 (sq_offset q))" by (simp add: u64_as_i64_def)
  moreover have "1 \<le> clamp 1 1000 (sq_limit q)" "clamp 1 1000 (sq_limit q) \<le> 1000"
    "sq_limit q \<in> {1..1000} \<longrightarrow> clamp 1 1000 (sq_limit q) = sq_limit q"
    by (auto simp: clamp_def)
  ultimately show ?thesis
    using off by (metis of_nat_1 of_nat_le_iff of_nat_numeral)
qed

lemma page_bounds_witness:
  "\<exists>ps lim off. [SqlText ''done'', SqlText ''ada'', SqlInteger 100, SqlInteger 0]
      = ps @ [SqlInteger lim, SqlInteger off]
    \<and> 1 \<le> lim \<and> lim \<le> 1000 \<and> i64_range off \<and> lim = int (sq_limit open_todos)
    \<and> off = 0"
  using page_bounds [OF build_open_todos] by (simp add: open_todos_def default_query_def u64_max_def i64_max_def)

definition either_todos :: select_query where
  "either_todos = default_query\<lparr>sq_filters :=
     OrAny [Condition \<lparr>fc_column = ''status'', fc_op = OpNeq, fc_value = ''done''\<rparr>,
            Condition \<lparr>fc_column = ''owner'', fc_op = OpEq, fc_value = ''ada''\<rparr>]\<rparr>"

lemma build_either_todos:
  "build_select_sql ''todos'' either_todos [owner_rule] ada =
     Inr (''SELECT * FROM '' @ quoted ''todos'' @ '' WHERE '' @ paren (quoted ''status'' @ '' != ?'')
            @ '' OR '' @ paren (quoted ''owner'' @ '' = ?'') @ '' AND ('' @ paren (quoted ''owner'' @ '' = ?'')
            @ '') LIMIT ? OFFSET ?'',
          [SqlText ''done'', SqlText ''ada'', SqlText ''ada'', SqlInteger 100, SqlInteger 0])"
  using compile_owner_rule
  by (simp add: build_select_sql_def either_todos_def default_query_def quote_ident_def
      ident_start_def ident_char_def ascii_defs compile_select_columns_def compile_order_def
      compile_condition_def where_text_def u64_as_i64_def i64_wrap_def i64_max_def clamp_def quoted_def paren_def
      join_clauses_def)

lemma or_filter_bypasses_policy_witness:
  "\<exists>start w stop ps page t. ''SELECT * FROM '' @ quoted ''todos'' @ '' WHERE ''
            @ paren (quoted ''status'' @ '' != ?'')
            @ '' OR '' @ paren (quoted ''owner'' @ '' = ?'') @ '' AND ('' @ paren (quoted ''owner'' @ '' = ?'')
            @ '') LIMIT ? OFFSET ?'' = start @ '' WHERE '' @ w @ stop
    \<and> [SqlText ''done'', SqlText ''ada'', SqlText ''ada'', SqlInteger 100, SqlInteger 0] = ps @ page
    \<and> length page = 2 \<and> or_text w ps t
    \<and> expr_value (\<lambda>a ps. Some (ps = [SqlText ''done''])) t = Some True"
proof -
  let ?e = "Condition \<lparr>fc_column = ''status'', fc_op = OpNeq, fc_value = ''done''\<rparr>"
  have "filter_value (\<lambda>a ps. Some (ps = [SqlText ''done''])) ?e = Some True"
    by (simp add: compile_condition_def quote_ident_def ident_start_def ident_char_def ascii_defs)
  moreover have "sq_filters either_todos
      = OrAny [?e, Condition \<lparr>fc_column = ''owner'', fc_op = OpEq, fc_value = ''ada''\<rparr>]"
    by (simp add: either_todos_def)
  note or_filter_bypasses_policy [OF build_either_todos this, of ?e]
  ultimately show ?thesis
    by (elim meta_impE exE conjE) (simp, intro exI conjI, assumption+, blast)
qed

section \<open>Parsing properties\<close>

text \<open>The text form of an order, as a client writes it.\<close>

fun direction_param :: "order_direction \<Rightarrow> string" where
  "direction_param Asc = ''asc''"
| "direction_param Desc = ''desc''"

fun nulls_param :: "order_nulls \<Rightarrow> string" where
  "nulls_param NullsFirst = ''.nullsfirst''"
| "nulls_param NullsLast = ''.nullslast''"
| "nulls_param NullsDefault = ''''"

definition order_param :: "order_clause \<Rightarrow> string" where
  "order_param c = oc_column c @ ''.'' @ direction_param (oc_direction c) @ nulls_param (oc_nulls c)"

lemma ident_char_code:
  "ident_char c \<longleftrightarrow> code c = 95 \<or> 65 \<le> code c \<and> code c \<le> 90 \<or> 97 \<le> code c \<and> code c \<le> 122
     \<or> 48 \<le> code c \<and> code c \<le> 57"
  using code_inject [of c "CHR ''_''"] by (auto simp: ident_char_def ascii_defs)

lemma whitespace_not_ident: "list_all (\<lambda>p. p \<noteq> [] \<and> \<not> ident_char (hd p)) unicode_whitespace"
  by (simp add: unicode_whitespace_def ident_char_code)

lemma trim_ident_ends:
  assumes "valid_ident c" and "is_ascii_alphanumeric x"
  shows "trim (c @ s @ [x]) = c @ s @ [x]"
proof -
  obtain a r where c: "c = a # r" and a: "ident_char a"
    using assms(1) ident_start_char by (cases c) auto
  have "\<not> prefix p (a # t)" if "p \<in> set unicode_whitespace" for p t
    using whitespace_not_ident that a by (cases p) (auto simp: list_all_iff)
  then have "trim_start (a # r @ s @ [x]) = a # r @ s @ [x]"
    unfolding trim_start_def by (intro trim_start_matches_id) blast
  then show ?thesis
    using trim_end_alnum [OF assms(2), of "c @ s"] by (simp add: trim_def c)
qed

lemma parse_order_param:
  assumes "valid_ident (oc_column c)"
  shows "parse_order_clause (order_param c) = Inr c"
proof -
  have dot: "CHR ''.'' \<notin> set (oc_column c)"
    using valid_ident_notin [OF assms, of "CHR ''.''"] by simp
  obtain s x where sx: "''.'' @ direction_param (oc_direction c) @ nulls_param (oc_nulls c) = s @ [x]"
    and x: "is_ascii_alphanumeric x"
  proof (rule that)
    let ?t = "''.'' @ direction_param (oc_direction c) @ nulls_param (oc_nulls c)"
    show "?t = butlast ?t @ [last ?t]" by simp
    show "is_ascii_alphanumeric (last ?t)"
      by (cases "oc_direction c"; cases "oc_nulls c") (simp_all add: ascii_defs)
  qed
  have "trim (order_param c) = order_param c"
    unfolding order_param_def sx by (rule trim_ident_ends [OF assms x])
  moreover have "split_on (CHR ''.'') (order_param c)
      = oc_column c # split_on (CHR ''.'') (direction_param (oc_direction c) @ nulls_param (oc_nulls c))"
    unfolding order_param_def using split_on_append [OF dot] by simp
  moreover have "oc_column c \<noteq> []" using valid_ident_nonempty [OF assms] .
  moreover have "\<lparr>oc_column = oc_column c, oc_direction = oc_direction c, oc_nulls = oc_nulls c\<rparr> = c"
    by simp
  ultimately show ?thesis
    by (cases "oc_direction c"; cases "oc_nulls c")
      (simp_all add: parse_order_clause_def parse_direction_def parse_nulls_def Let_def)
qed

lemma order_param_no_comma:
  assumes "valid_ident (oc_column c)"
  shows "CHR '','' \<notin> set (order_param c)"
  using valid_ident_notin [OF assms, of "CHR '',''"]
  by (cases "oc_direction c"; cases "oc_nulls c") (simp_all add: order_param_def)

text \<open>
  An order written as a parameter parses to itself.
\<close>

theorem parse_order_roundtrip:
  assumes "list_all (valid_ident \<circ> oc_column) os"
  shows "parse_order (join '','' (map order_param os)) = Inr os"
proof (cases "os = []")
  case False
  have "split_on (CHR '','') (join '','' (map order_param os)) = map order_param os"
    using False assms order_param_no_comma by (intro split_on_join) (auto simp: list_all_iff)
  moreover have "join '','' (map order_param os) \<noteq> []"
    using False by (cases os) (simp_all add: join_Cons order_param_def)
  moreover have "collect_map parse_order_clause (map order_param os) = Inr os"
    using assms by (simp add: collect_map_Inr_iff list_all2_conv_all_nth list_all_length parse_order_param)
  ultimately show ?thesis by (simp add: parse_order_def)
qed (simp add: parse_order_def)

lemma parse_order_roundtrip_witness:
  "parse_order ''_at.desc.nullslast,id.asc''
     = Inr [\<lparr>oc_column = ''_at'', oc_direction = Desc, oc_nulls = NullsLast\<rparr>,
            \<lparr>oc_column = ''id'', oc_direction = Asc, oc_nulls = NullsDefault\<rparr>]"
  using parse_order_roundtrip [of "[\<lparr>oc_column = ''_at'', oc_direction = Desc, oc_nulls = NullsLast\<rparr>,
            \<lparr>oc_column = ''id'', oc_direction = Asc, oc_nulls = NullsDefault\<rparr>]"]
  by (simp add: order_param_def ident_start_def ident_char_def ascii_defs)

section \<open>The iteration order of the parameters\<close>

text \<open>
  The loop sees the entries of a hash map in an arbitrary order. What an entry contributes does
  not depend on the others.
\<close>
type_synonym scan_view = "select_query \<times> filter_expr multiset \<times> filter_expr option"

definition scan_view :: "query_scan \<Rightarrow> scan_view" where
  "scan_view s = (qs_result s, mset (qs_conditions s), qs_or s)"

fun or_same :: "('a \<Rightarrow> 'b \<Rightarrow> 'b) \<Rightarrow> 'e + 'a \<Rightarrow> 'b \<Rightarrow> 'b" where
  "or_same f (Inl e) x = x"
| "or_same f (Inr a) x = f a x"

definition entry_delta :: "string \<times> string \<Rightarrow> scan_view \<Rightarrow> scan_view" where
  "entry_delta kv =
     (\<lambda>(q, m, alt).
       let key = fst kv; v = snd kv
       in case param_kind key of
            SelectParam \<Rightarrow> (or_same (\<lambda>cols q. q\<lparr>sq_select := cols\<rparr>) (parse_select_param v) q, m, alt)
          | LimitParam \<Rightarrow> (q\<lparr>sq_limit := unwrap_or 100 (parse_u64 v)\<rparr>, m, alt)
          | OffsetParam \<Rightarrow> (q\<lparr>sq_offset := unwrap_or 0 (parse_u64 v)\<rparr>, m, alt)
          | OrderParam \<Rightarrow> (or_same (\<lambda>os q. q\<lparr>sq_order := os\<rparr>) (parse_order v) q, m, alt)
          | RouteParam \<Rightarrow> (q, m, alt)
          | CountParam \<Rightarrow> (q\<lparr>sq_count := parse_count v\<rparr>, m, alt)
          | OrParam \<Rightarrow> (q, m, or_same (\<lambda>e _. Some e) (parse_or_expr v) alt)
          | AndParam \<Rightarrow>
              (q, or_same (\<lambda>cs. add_mset (AndAll cs))
                    (collect_map parse_and_segment (split_on (CHR '','') v)) m, alt)
          | FilterParam \<Rightarrow> (q, or_same add_mset (parse_filter_entry key v) m, alt))"

lemma param_kind_same:
  "param_kind k = param_kind l \<Longrightarrow> k = l \<or> param_kind k = RouteParam \<or> param_kind k = FilterParam"
  unfolding param_kind_def by (auto split: if_splits)

lemma scan_entry_view:
  "scan_entry kv s = Inr t \<Longrightarrow> scan_view t = entry_delta kv (scan_view s)"
  by (cases "param_kind (fst kv)") (auto simp: scan_entry_def entry_delta_def scan_view_def Let_def
      map_result_def push_condition_def rmap_Inr_iff)

lemma scan_entry_ok: "is_ok (scan_entry kv s) \<longleftrightarrow> is_ok (scan_entry kv t)"
proof -
  have *: "is_ok (rmap f r) = is_ok r" for f :: "'x \<Rightarrow> query_scan" and r :: "parse_error + 'x"
    by (cases r) auto
  show ?thesis by (simp add: scan_entry_def Let_def * split: param_kind.split)
qed

lemma scan_entries_view:
  "scan_entries kvs s = Inr t \<Longrightarrow> scan_view t = fold entry_delta kvs (scan_view s)"
  by (induction kvs s rule: scan_entries.induct) (auto simp: rbind_Inr_iff scan_entry_view)

lemma scan_entries_ok: "is_ok (scan_entries kvs s) \<longleftrightarrow> (\<forall>kv \<in> set kvs. is_ok (scan_entry kv s))"
proof (induction kvs arbitrary: s)
  case (Cons kv kvs)
  show ?case
  proof (cases "scan_entry kv s")
    case (Inr t)
    have "(\<forall>kv \<in> set kvs. is_ok (scan_entry kv t)) = (\<forall>kv \<in> set kvs. is_ok (scan_entry kv s))"
      using scan_entry_ok [of _ s t] by blast
    with Inr Cons.IH [of t] show ?thesis by simp
  qed simp
qed simp

lemma or_same_case: "or_same f r x = (case r of Inl _ \<Rightarrow> x | Inr a \<Rightarrow> f a x)"
  by (cases r) auto

lemma entry_delta_commute:
  assumes "fst k \<noteq> fst l"
  shows "entry_delta k (entry_delta l v) = entry_delta l (entry_delta k v)"
proof -
  obtain q m alt where v: "v = (q, m, alt)" by (cases v)
  consider "param_kind (fst k) \<noteq> param_kind (fst l)"
    | "param_kind (fst k) = param_kind (fst l)" "param_kind (fst k) \<in> {RouteParam, FilterParam}"
    using param_kind_same [of "fst k" "fst l"] assms by blast
  then show ?thesis
  proof cases
    case 1
    then show ?thesis
      by (cases "param_kind (fst k)"; cases "param_kind (fst l)")
        (simp_all add: v entry_delta_def Let_def or_same_case split: sum.split)
  next
    case 2
    then show ?thesis
      by (auto simp: v entry_delta_def Let_def or_same_case split: sum.split)
  qed
qed

text \<open>What of a scan reaches the query.\<close>

lemma single_or_all_value:
  "filter_value eng (case es of [e] \<Rightarrow> e | _ \<Rightarrow> AndAll es) = conj3 (map (filter_value eng) es)"
  by (cases es; cases "tl es") auto

lemma finish_scan_value:
  "filter_value eng (sq_filters (finish_scan s))
     = conj3 (map (filter_value eng) (qs_conditions s @ (case qs_or s of None \<Rightarrow> [] | Some e \<Rightarrow> [e])))"
  (is "_ = conj3 (map _ ?es)")
proof -
  have "sq_filters (finish_scan s) = (case ?es of [e] \<Rightarrow> e | _ \<Rightarrow> AndAll ?es)"
    unfolding finish_scan_def Let_def by (cases "qs_result s") (simp only: select_query.simps)
  then show ?thesis by (simp only: single_or_all_value)
qed

lemma conj3_set:
  "conj3 vs = (if Some False \<in> set vs then Some False else if None \<in> set vs then None else Some True)"
proof (induction vs)
  case (Cons v vs)
  then show ?case by (cases v; cases "the v") auto
qed simp

lemma conj3_mset: "mset vs = mset ws \<Longrightarrow> conj3 vs = conj3 ws"
  unfolding conj3_set by (drule mset_eq_setD) (simp only:)

text \<open>
  The query a request asks for does not depend on the order in which the loop meets
  its parameters: another order of the same entries parses as well, to the same columns, page,
  order and count, and to a filter of the same value.
\<close>

theorem parse_query_params_order:
  assumes "parse_query_params kvs = Inr q" and "distinct (map fst kvs)" and "mset kvs = mset kvs'"
  shows "\<exists>q'. parse_query_params kvs' = Inr q' \<and> q'\<lparr>sq_filters := sq_filters q\<rparr> = q
    \<and> (\<forall>eng. filter_value eng (sq_filters q') = filter_value eng (sq_filters q))"
proof -
  let ?s = "\<lparr>qs_result = default_query, qs_conditions = [], qs_or = None\<rparr>"
  from assms(1) obtain t where t: "scan_entries kvs ?s = Inr t" and q: "q = finish_scan t"
    by (auto simp: parse_query_params_def rmap_Inr_iff)
  have "is_ok (scan_entries kvs' ?s)"
    using t scan_entries_ok [of kvs ?s] scan_entries_ok [of kvs' ?s] mset_eq_setD [OF assms(3)] by simp
  then obtain t' where t': "scan_entries kvs' ?s = Inr t'" by (auto simp: is_ok_iff)
  have inj: "x = y" if "x \<in> set kvs" "y \<in> set kvs" "fst x = fst y" for x y
    using assms(2) that by (meson distinct_map inj_onD)
  have "fold entry_delta kvs = fold entry_delta kvs'"
  proof (rule fold_multiset_equiv [OF _ assms(3)])
    fix x y assume xy: "x \<in> set kvs" "y \<in> set kvs"
    show "entry_delta x \<circ> entry_delta y = entry_delta y \<circ> entry_delta x"
    proof (cases "x = y")
      case False
      with inj [of x y] xy have "fst x \<noteq> fst y" by blast
      then show ?thesis by (intro ext) (simp add: entry_delta_commute del: split_paired_All)
    qed simp
  qed
  with scan_entries_view [OF t] scan_entries_view [OF t'] have view: "scan_view t' = scan_view t" by simp
  then have "qs_result t' = qs_result t" and m: "mset (qs_conditions t') = mset (qs_conditions t)"
    and o: "qs_or t' = qs_or t"
    by (simp_all add: scan_view_def)
  then have "(finish_scan t')\<lparr>sq_filters := sq_filters q\<rparr> = q"
    by (simp add: q finish_scan_def Let_def)
  moreover have "filter_value eng (sq_filters (finish_scan t')) = filter_value eng (sq_filters q)" for eng
    unfolding q finish_scan_value by (rule conj3_mset) (simp add: m o)
  moreover have "parse_query_params kvs' = Inr (finish_scan t')"
    using t' by (simp add: parse_query_params_def)
  ultimately show ?thesis by blast
qed

lemma parse_query_params_order_witness:
  "\<exists>q'. parse_query_params [(''limit'', ''7''), (''status'', ''neq.done''), (''id'', ''gt.3'')] = Inr q'
    \<and> q'\<lparr>sq_filters := AndAll [Condition \<lparr>fc_column = ''id'', fc_op = OpGt, fc_value = ''3''\<rparr>,
          Condition \<lparr>fc_column = ''status'', fc_op = OpNeq, fc_value = ''done''\<rparr>]\<rparr>
      = default_query\<lparr>sq_limit := 7, sq_filters := AndAll [Condition \<lparr>fc_column = ''id'', fc_op = OpGt, fc_value = ''3''\<rparr>,
          Condition \<lparr>fc_column = ''status'', fc_op = OpNeq, fc_value = ''done''\<rparr>]\<rparr>
    \<and> (\<forall>eng. filter_value eng (sq_filters q') = filter_value eng
          (AndAll [Condition \<lparr>fc_column = ''id'', fc_op = OpGt, fc_value = ''3''\<rparr>,
            Condition \<lparr>fc_column = ''status'', fc_op = OpNeq, fc_value = ''done''\<rparr>]))"
proof -
  have p: "parse_query_params [(''id'', ''gt.3''), (''limit'', ''7''), (''status'', ''neq.done'')]
    = Inr (default_query\<lparr>sq_limit := 7, sq_filters := AndAll [Condition \<lparr>fc_column = ''id'', fc_op = OpGt, fc_value = ''3''\<rparr>,
          Condition \<lparr>fc_column = ''status'', fc_op = OpNeq, fc_value = ''done''\<rparr>]\<rparr>)"
    by (simp add: parse_query_params_def default_query_def scan_entry_def param_kind_def Let_def
        parse_filter_entry_def parse_condition_def strip_prefix_def split_once_def parse_op_def op_names_def
        push_condition_def map_result_def unwrap_or_def parse_u64_def finish_scan_def ascii_defs u64_max_def)
  from parse_query_params_order [OF p, of "[(''limit'', ''7''), (''status'', ''neq.done''), (''id'', ''gt.3'')]"]
  show ?thesis by simp
qed

end
