(* ===== verification/Effects.thy ===== *)
theory Effects
  imports Ident
begin

text \<open>
  Effects: an action takes the state of the system and returns a \<open>Result\<close> with the state
  afterwards, so what a failing call has already done stays done. \<open>?\<close> is \<open>abind\<close>. Loops
  over a list that stop at the first error are \<open>afold\<close>. The named collection
  \<open>act_simps\<close> opens a successful run into its steps.
\<close>

type_synonym ('s, 'e, 'a) action = "'s \<Rightarrow> ('e + 'a) \<times> 's"

named_theorems act_simps \<open>opening runs of actions\<close>

definition aret :: "'a \<Rightarrow> ('s, 'e, 'a) action" where
  "aret x s = (Inr x, s)"

definition athrow :: "'e \<Rightarrow> ('s, 'e, 'a) action" where
  "athrow e s = (Inl e, s)"

definition abind :: "('s, 'e, 'a) action \<Rightarrow> ('a \<Rightarrow> ('s, 'e, 'b) action) \<Rightarrow> ('s, 'e, 'b) action" where
  "abind m f s = (case m s of (Inl e, s') \<Rightarrow> (Inl e, s') | (Inr x, s') \<Rightarrow> f x s')"

definition athen :: "('s, 'e, 'a) action \<Rightarrow> ('s, 'e, 'b) action \<Rightarrow> ('s, 'e, 'b) action" where
  "athen m n = abind m (\<lambda>_. n)"

definition alift :: "'e + 'a \<Rightarrow> ('s, 'e, 'a) action" where
  "alift r s = (r, s)"

definition aget :: "('s \<Rightarrow> 'a) \<Rightarrow> ('s, 'e, 'a) action" where
  "aget f s = (Inr (f s), s)"

definition amodify :: "('s \<Rightarrow> 's) \<Rightarrow> ('s, 'e, unit) action" where
  "amodify f s = (Inr (), f s)"

text \<open>\<open>map_err\<close> (also the conversion in \<open>?\<close>), \<open>.ok()\<close> and matching on the result.\<close>

definition amap_err :: "('e \<Rightarrow> 'f) \<Rightarrow> ('s, 'e, 'a) action \<Rightarrow> ('s, 'f, 'a) action" where
  "amap_err f m s = apfst (rmap_err f) (m s)"

definition acatch :: "('s, 'e, 'a) action \<Rightarrow> ('e + 'a \<Rightarrow> ('s, 'f, 'b) action) \<Rightarrow> ('s, 'f, 'b) action" where
  "acatch m h s = (case m s of (r, s') \<Rightarrow> h r s')"

definition aignore :: "('s, 'e, 'a) action \<Rightarrow> ('s, 'f, unit) action" where
  "aignore m = acatch m (\<lambda>_. aret ())"

fun afold :: "('x \<Rightarrow> 'a \<Rightarrow> ('s, 'e, 'a) action) \<Rightarrow> 'x list \<Rightarrow> 'a \<Rightarrow> ('s, 'e, 'a) action" where
  "afold f [] acc = aret acc"
| "afold f (x # xs) acc = abind (f x acc) (afold f xs)"

lemma aret_run [simp]: "aret x s = (Inr x, s)"
  by (simp add: aret_def)

lemma athrow_run [simp]: "athrow e s = (Inl e, s)"
  by (simp add: athrow_def)

lemma alift_run [simp]: "alift r s = (r, s)"
  by (simp add: alift_def)

lemma aget_run [simp]: "aget f s = (Inr (f s), s)"
  by (simp add: aget_def)

lemma amodify_run [simp]: "amodify f s = (Inr (), f s)"
  by (simp add: amodify_def)

lemma abind_Inr [act_simps]:
  "abind m f s = (Inr y, s'') \<longleftrightarrow> (\<exists>x s'. m s = (Inr x, s') \<and> f x s' = (Inr y, s''))"
  by (auto simp: abind_def split: prod.split sum.split)

lemma abind_Inl [act_simps]:
  "abind m f s = (Inl e, s'') \<longleftrightarrow> m s = (Inl e, s'') \<or> (\<exists>x s'. m s = (Inr x, s') \<and> f x s' = (Inl e, s''))"
  by (auto simp: abind_def split: prod.split sum.split)

lemma amap_err_Inr [act_simps]: "amap_err f m s = (Inr y, s') \<longleftrightarrow> m s = (Inr y, s')"
  by (cases "m s"; cases "fst (m s)") (auto simp: amap_err_def)

lemma amap_err_Inl [act_simps]: "amap_err f m s = (Inl e, s') \<longleftrightarrow> (\<exists>d. m s = (Inl d, s') \<and> e = f d)"
  by (cases "m s"; cases "fst (m s)") (auto simp: amap_err_def)

lemma abind_run [simp]: "m s = (Inr x, s') \<Longrightarrow> abind m f s = f x s'"
  by (simp add: abind_def)

lemma abind_elim:
  assumes "abind m f s = (r, s')"
  obtains (err) e where "m s = (Inl e, s')" "r = Inl e"
  | (ok) x s1 where "m s = (Inr x, s1)" "f x s1 = (r, s')"
  using assms by (auto simp: abind_def split: prod.splits sum.splits)

lemma athen_elim:
  assumes "athen m n s = (r, s')"
  obtains (err) e where "m s = (Inl e, s')" "r = Inl e"
  | (ok) x s1 where "m s = (Inr x, s1)" "n s1 = (r, s')"
  using assms unfolding athen_def by (rule abind_elim)

section \<open>Relations every step of an action keeps\<close>

text \<open>
  \<open>keeps R m\<close>: whatever \<open>m\<close> returns, the states before and after are related. For a
  reflexive and transitive \<open>R\<close> it composes along the combinators.
\<close>

definition keeps :: "('s \<Rightarrow> 's \<Rightarrow> bool) \<Rightarrow> ('s, 'e, 'a) action \<Rightarrow> bool" where
  "keeps R m \<longleftrightarrow> (\<forall>s. R s (snd (m s)))"

locale step_order =
  fixes R :: "'s \<Rightarrow> 's \<Rightarrow> bool"
  assumes refl: "R s s"
    and trans: "R s t \<Longrightarrow> R t u \<Longrightarrow> R s u"
begin

lemma keeps_pure [intro, simp]:
  "keeps R (aret x)" "keeps R (athrow e)" "keeps R (alift r)" "keeps R (aget f)"
  by (simp_all add: keeps_def refl)

lemma keeps_bind [intro]: "keeps R m \<Longrightarrow> (\<And>x. keeps R (f x)) \<Longrightarrow> keeps R (abind m f)"
proof -
  assume m: "keeps R m" and f: "\<And>x. keeps R (f x)"
  have "R s (snd (abind m f s))" for s
  proof -
    obtain r s' where ms: "m s = (r, s')" by (cases "m s")
    with m have "R s s'" by (metis keeps_def snd_conv)
    with f show ?thesis by (cases r) (auto simp: abind_def ms keeps_def intro: trans)
  qed
  then show ?thesis by (simp add: keeps_def)
qed

lemma keeps_then [intro]: "keeps R m \<Longrightarrow> keeps R n \<Longrightarrow> keeps R (athen m n)"
  unfolding athen_def by (rule keeps_bind)

lemma keeps_map_err [intro]: "keeps R m \<Longrightarrow> keeps R (amap_err f m)"
  by (simp add: keeps_def amap_err_def)

lemma keeps_catch [intro]: "keeps R m \<Longrightarrow> (\<And>r. keeps R (h r)) \<Longrightarrow> keeps R (acatch m h)"
proof -
  assume m: "keeps R m" and h: "\<And>r. keeps R (h r)"
  have "R s (snd (acatch m h s))" for s
  proof -
    obtain r s' where ms: "m s = (r, s')" by (cases "m s")
    with m have "R s s'" by (metis keeps_def snd_conv)
    with h show ?thesis by (auto simp: acatch_def ms keeps_def intro: trans)
  qed
  then show ?thesis by (simp add: keeps_def)
qed

lemma keeps_ignore [intro]: "keeps R m \<Longrightarrow> keeps R (aignore m)"
  unfolding aignore_def by (intro keeps_catch) auto

lemma keeps_fold [intro]: "(\<And>x acc. keeps R (f x acc)) \<Longrightarrow> keeps R (afold f xs acc)"
  by (induction xs arbitrary: acc) auto

end

end
