(* ===== verification/Sql_Db.thy ===== *)
theory Sql_Db
  imports Effects
begin

text \<open>
  A SQLite connection as the components that own tables use it. The tables are a record of
  row lists; a statement is a function on them that may violate a constraint; the
  engine may fail at any statement besides (\<open>faults\<close> lists what it will do, one entry
  for each statement). \<open>conn.transaction()\<close> is \<open>transaction\<close>: a body that returns an error,
  or a commit that fails, leaves the tables as they were.
\<close>

datatype sql_failure = ConstraintViolation string | SqlFailure string

record 'd sql_db =
  db_tables :: 'd
  db_faults :: "string option list"

type_synonym ('d, 'e, 'a) db_action = "('d sql_db, 'e, 'a) action"

definition next_fault :: "'d sql_db \<Rightarrow> string option" where
  "next_fault s = (case db_faults s of [] \<Rightarrow> None | f # _ \<Rightarrow> f)"

definition use_fault :: "'d sql_db \<Rightarrow> 'd sql_db" where
  "use_fault s = s\<lparr>db_faults := drop 1 (db_faults s)\<rparr>"

definition statement :: "('d \<Rightarrow> sql_failure + 'a \<times> 'd) \<Rightarrow> ('d, sql_failure, 'a) db_action" where
  "statement f s =
     (case next_fault s of
        Some e \<Rightarrow> (Inl (SqlFailure e), use_fault s)
      | None \<Rightarrow>
          (case f (db_tables s) of
             Inl e \<Rightarrow> (Inl e, use_fault s)
           | Inr (x, d) \<Rightarrow> (Inr x, (use_fault s)\<lparr>db_tables := d\<rparr>)))"

definition query :: "('d \<Rightarrow> 'a) \<Rightarrow> ('d, sql_failure, 'a) db_action" where
  "query f = statement (\<lambda>d. Inr (f d, d))"

definition execute :: "('d \<Rightarrow> sql_failure + nat \<times> 'd) \<Rightarrow> ('d, sql_failure, nat) db_action" where
  "execute = statement"

definition transaction ::
    "(sql_failure \<Rightarrow> 'e) \<Rightarrow> ('d, 'e, 'a) db_action \<Rightarrow> ('d, 'e, 'a) db_action" where
  "transaction conv body s =
     (case athen (amap_err conv (query (\<lambda>_. ())))
             (abind body (\<lambda>x. athen (amap_err conv (query (\<lambda>_. ()))) (aret x))) s of
        (Inl e, s') \<Rightarrow> (Inl e, s'\<lparr>db_tables := db_tables s\<rparr>)
      | (Inr x, s') \<Rightarrow> (Inr x, s'))"

section \<open>Rows\<close>

definition exists_row :: "('r \<Rightarrow> bool) \<Rightarrow> 'r list \<Rightarrow> bool" where
  "exists_row p rows \<longleftrightarrow> list_ex p rows"

text \<open>\<open>UPDATE ... SET ... WHERE p\<close>: the changed rows are counted.\<close>

definition update_rows :: "('r \<Rightarrow> bool) \<Rightarrow> ('r \<Rightarrow> 'r) \<Rightarrow> 'r list \<Rightarrow> nat \<times> 'r list" where
  "update_rows p f rows = (length (filter p rows), map (\<lambda>r. if p r then f r else r) rows)"

text \<open>A nullable column value equals another only when both are there.\<close>

definition same_value :: "'a option \<Rightarrow> 'a option \<Rightarrow> bool" where
  "same_value a b \<longleftrightarrow> a \<noteq> None \<and> a = b"

section \<open>Runs\<close>

named_theorems db_simps \<open>opening runs of statements\<close>

lemma use_fault_tables [simp]: "db_tables (use_fault s) = db_tables s"
  by (simp add: use_fault_def)

lemma statement_Inr [db_simps]:
  "statement f s = (Inr x, s') \<longleftrightarrow>
     next_fault s = None \<and> (\<exists>d. f (db_tables s) = Inr (x, d) \<and> s' = (use_fault s)\<lparr>db_tables := d\<rparr>)"
  by (auto simp: statement_def split: option.split sum.split)

lemma statement_Inl [db_simps]:
  "statement f s = (Inl e, s') \<longleftrightarrow> s' = use_fault s \<and>
     ((\<exists>m. next_fault s = Some m \<and> e = SqlFailure m) \<or> next_fault s = None \<and> f (db_tables s) = Inl e)"
  by (auto simp: statement_def split: option.split sum.split)

lemma query_Inr [db_simps]:
  "query f s = (Inr x, s') \<longleftrightarrow> next_fault s = None \<and> x = f (db_tables s) \<and> s' = use_fault s"
  by (cases s) (auto simp: query_def statement_Inr use_fault_def)

lemma query_Inl [db_simps]:
  "query f s = (Inl e, s') \<longleftrightarrow> s' = use_fault s \<and> (\<exists>m. next_fault s = Some m \<and> e = SqlFailure m)"
  by (auto simp: query_def statement_Inl)

lemma execute_Inr [db_simps]:
  "execute f s = (Inr x, s') \<longleftrightarrow>
     next_fault s = None \<and> (\<exists>d. f (db_tables s) = Inr (x, d) \<and> s' = (use_fault s)\<lparr>db_tables := d\<rparr>)"
  by (simp add: execute_def statement_Inr)

lemma execute_Inl [db_simps]:
  "execute f s = (Inl e, s') \<longleftrightarrow> s' = use_fault s \<and>
     ((\<exists>m. next_fault s = Some m \<and> e = SqlFailure m) \<or> next_fault s = None \<and> f (db_tables s) = Inl e)"
  by (simp add: execute_def statement_Inl)

lemma transaction_error [dest]: "transaction conv body s = (Inl e, s') \<Longrightarrow> db_tables s' = db_tables s"
  by (auto simp: transaction_def split: prod.splits sum.splits)

lemma transaction_ok:
  assumes "transaction conv body s = (Inr x, s')"
  obtains s1 s2 where "next_fault s = None" and "s1 = use_fault s"
    and "body s1 = (Inr x, s2)" and "s' = use_fault s2"
  using assms
  by (auto simp: transaction_def athen_def act_simps db_simps split: prod.splits sum.splits)

text \<open>Without faults a statement does what it says.\<close>

lemma faultless [simp]: "db_faults s = [] \<Longrightarrow> next_fault s = None" "db_faults s = [] \<Longrightarrow> use_fault s = s"
  by (simp_all add: next_fault_def use_fault_def)

lemma update_rows_nth [simp]: "snd (update_rows p f rows) = map (\<lambda>r. if p r then f r else r) rows"
  by (simp add: update_rows_def)

lemma find_map_key:
  "(\<And>r. key (f r) = key r) \<Longrightarrow> find (\<lambda>r. key r = k) (map f rows) = map_option f (find (\<lambda>r. key r = k) rows)"
  by (induction rows) auto

text \<open>Rows found by their key.\<close>

lemma find_key_None: "find (\<lambda>x. key x = k) xs = None \<longleftrightarrow> k \<notin> key ` set xs"
  by (auto simp: find_None_iff)

lemma find_key_Some: "find (\<lambda>x. key x = k) xs = Some x \<Longrightarrow> x \<in> set xs \<and> key x = k"
  by (auto simp: find_Some_iff)

lemma find_key_distinct:
  "distinct (map key xs) \<Longrightarrow> find (\<lambda>x. key x = k) xs = Some x \<longleftrightarrow> x \<in> set xs \<and> key x = k"
  by (induction xs) (auto simp: rev_image_eqI)

lemma find_key_append:
  "find (\<lambda>x. key x = k) (xs @ [y]) =
     (case find (\<lambda>x. key x = k) xs of Some x \<Rightarrow> Some x | None \<Rightarrow> if key y = k then Some y else None)"
  by (induction xs) auto

end
