(* ===== verification/Auth_Store.thy ===== *)
theory Auth_Store
  imports Sql_Db Concrete_Packages
begin

text \<open>
  \<open>auth_store.rs\<close>: users, sessions and refresh tokens of a project, kept in three tables
  of its database. Foreign keys are enforced (\<open>PRAGMA foreign_keys=ON\<close> of
  \<open>open_project_connection\<close>). Where a statement without \<open>ORDER BY\<close> takes the first of several
  rows, the engine's choice is the argument \<open>pick\<close>.
\<close>

section \<open>Schema\<close>

text \<open>The tables with their columns, the indexes by name, and what the DDL does to them.\<close>

record auth_schema =
  schema_tables :: "(string \<times> string list) list"
  schema_indexes :: "string list"

datatype ddl =
  Create_Table string "string list"
| Create_Index string string "string list"
| Add_Column string string

fun run_ddl :: "ddl \<Rightarrow> auth_schema \<Rightarrow> sql_failure + auth_schema" where
  "run_ddl (Create_Table t cols) d =
     (if map_of (schema_tables d) t \<noteq> None then Inr d
      else Inr (d\<lparr>schema_tables := schema_tables d @ [(t, cols)]\<rparr>))"
| "run_ddl (Create_Index i t cols) d =
     (if i \<in> set (schema_indexes d) then Inr d
      else (case map_of (schema_tables d) t of
              None \<Rightarrow> Inl (SqlFailure (''no such table: '' @ t))
            | Some have \<Rightarrow>
                (case find (\<lambda>c. c \<notin> set have) cols of
                   Some c \<Rightarrow> Inl (SqlFailure (''no such column: '' @ c))
                 | None \<Rightarrow> Inr (d\<lparr>schema_indexes := schema_indexes d @ [i]\<rparr>))))"
| "run_ddl (Add_Column t c) d =
     (case map_of (schema_tables d) t of
        None \<Rightarrow> Inl (SqlFailure (''no such table: '' @ t))
      | Some have \<Rightarrow>
          if c \<in> set have then Inl (SqlFailure (''duplicate column name: '' @ c))
          else Inr (d\<lparr>schema_tables := map (\<lambda>(t', cs). (t', if t' = t then cs @ [c] else cs))
                        (schema_tables d)\<rparr>))"

text \<open>\<open>execute_batch\<close> runs the statements one by one, each in its own transaction.\<close>

fun execute_batch :: "ddl list \<Rightarrow> auth_schema \<Rightarrow> (sql_failure + unit) \<times> auth_schema" where
  "execute_batch [] d = (Inr (), d)"
| "execute_batch (s # ss) d =
     (case run_ddl s d of Inl e \<Rightarrow> (Inl e, d) | Inr d' \<Rightarrow> execute_batch ss d')"

definition auth_tables_ddl :: "ddl list" where
  "auth_tables_ddl =
     [Create_Table ''_sdb_auth_users''
        [''id'', ''email'', ''phone'', ''password_hash'', ''user_json'', ''created_at'', ''updated_at''],
      Create_Index ''_sdb_auth_users_email_idx'' ''_sdb_auth_users'' [''email''],
      Create_Index ''_sdb_auth_users_phone_idx'' ''_sdb_auth_users'' [''phone''],
      Create_Table ''_sdb_auth_refresh_tokens''
        [''token'', ''user_id'', ''session_id'', ''parent_token'', ''created_at'', ''expires_at'', ''revoked_at''],
      Create_Table ''_sdb_auth_sessions'' [''id'', ''user_id'', ''created_at'', ''expires_at'', ''revoked_at''],
      Create_Index ''_sdb_auth_refresh_tokens_user_id_idx'' ''_sdb_auth_refresh_tokens'' [''user_id''],
      Create_Index ''_sdb_auth_refresh_tokens_active_idx'' ''_sdb_auth_refresh_tokens'' [''token'', ''revoked_at''],
      Create_Index ''_sdb_auth_refresh_tokens_session_idx'' ''_sdb_auth_refresh_tokens'' [''session_id''],
      Create_Index ''_sdb_auth_sessions_user_id_idx'' ''_sdb_auth_sessions'' [''user_id'']]"

definition add_column_if_missing ::
    "string \<Rightarrow> string \<Rightarrow> auth_schema \<Rightarrow> (sql_failure + unit) \<times> auth_schema" where
  "add_column_if_missing t column d =
     (if column \<in> set (case map_of (schema_tables d) t of None \<Rightarrow> [] | Some cs \<Rightarrow> cs)
      then (Inr (), d)
      else execute_batch [Add_Column t column] d)"

definition ensure_schema :: "auth_schema \<Rightarrow> (sql_failure + unit) \<times> auth_schema" where
  "ensure_schema =
     athen (execute_batch auth_tables_ddl)
       (athen (add_column_if_missing ''_sdb_auth_refresh_tokens'' ''session_id'')
          (add_column_if_missing ''_sdb_auth_refresh_tokens'' ''expires_at''))"

section \<open>Data\<close>

datatype logout_scope = GlobalScope | LocalScope | OthersScope

datatype json_failure = MalformedJson string | MissingField string

datatype auth_store_error =
  AuthSqlite sql_failure
| AuthJson json_failure
| UserAlreadyRegistered
| UserNotFound
| InvalidRefreshToken
| SessionRequired

record user_row =
  u_id :: string
  u_email :: "string option"
  u_phone :: "string option"
  u_password_hash :: string
  u_json :: string
  u_created_at :: string
  u_updated_at :: string

record token_row =
  rt_token :: string
  rt_user_id :: string
  rt_session_id :: "string option"
  rt_parent_token :: "string option"
  rt_created_at :: int
  rt_expires_at :: "int option"
  rt_revoked_at :: "int option"

record session_row =
  s_id :: string
  s_user_id :: string
  s_created_at :: int
  s_expires_at :: int
  s_revoked_at :: "int option"

record auth_tables =
  at_users :: "user_row list"
  at_tokens :: "token_row list"
  at_sessions :: "session_row list"

type_synonym 'a auth_action = "(auth_tables, auth_store_error, 'a) db_action"

record user_patch =
  patch_email :: "string option"
  patch_phone :: "string option"
  patch_password_hash :: "string option"
  patch_user_metadata :: "json option"
  patch_updated_at :: string

definition auth_stmt :: "(auth_tables, sql_failure, 'a) db_action \<Rightarrow> 'a auth_action" where
  "auth_stmt = amap_err AuthSqlite"

definition required_str :: "json \<Rightarrow> string \<Rightarrow> auth_store_error + string" where
  "required_str v field = ok_or (AuthJson (MissingField field)) (jget_with as_str v field)"

definition optional_str :: "json \<Rightarrow> string \<Rightarrow> string option" where
  "optional_str v field = jget_with as_str v field"

section \<open>Reading\<close>

definition parse_user :: "serde \<Rightarrow> string \<Rightarrow> auth_store_error + json" where
  "parse_user sd raw = ok_or (AuthJson (MalformedJson raw)) (from_json_text sd raw)"

fun parse_found :: "serde \<Rightarrow> string option \<Rightarrow> auth_store_error + json option" where
  "parse_found sd None = Inr None"
| "parse_found sd (Some raw) = rmap Some (parse_user sd raw)"

definition users_known_as :: "auth_tables \<Rightarrow> string \<Rightarrow> user_row list" where
  "users_known_as d identifier =
     filter (\<lambda>u. u_email u = Some identifier \<or> u_phone u = Some identifier) (at_users d)"

definition get_user_by_email_or_phone ::
    "(user_row list \<Rightarrow> user_row) \<Rightarrow> serde \<Rightarrow> string \<Rightarrow> json option auth_action" where
  "get_user_by_email_or_phone pick sd identifier =
     abind (auth_stmt (query (\<lambda>d.
         let rows = users_known_as d identifier
         in if rows = [] then None else Some (u_json (pick rows)))))
       (\<lambda>raw. alift (parse_found sd raw))"

definition find_user :: "auth_tables \<Rightarrow> string \<Rightarrow> user_row option" where
  "find_user d uid = find (\<lambda>u. u_id u = uid) (at_users d)"

definition find_token :: "auth_tables \<Rightarrow> string \<Rightarrow> token_row option" where
  "find_token d token = find (\<lambda>t. rt_token t = token) (at_tokens d)"

definition find_session :: "auth_tables \<Rightarrow> string \<Rightarrow> session_row option" where
  "find_session d sid = find (\<lambda>s. s_id s = sid) (at_sessions d)"

definition get_user_by_id :: "serde \<Rightarrow> string \<Rightarrow> json option auth_action" where
  "get_user_by_id sd uid =
     abind (auth_stmt (query (\<lambda>d. map_option u_json (find_user d uid)))) (\<lambda>raw. alift (parse_found sd raw))"

text \<open>
  The join both token queries make: user id, session id and user of a token that is neither
  revoked nor expired and whose session is neither.
\<close>

definition find_active :: "auth_tables \<Rightarrow> string \<Rightarrow> int \<Rightarrow> (string \<times> string \<times> string) option" where
  "find_active d token now =
     Option.bind (find_token d token) (\<lambda>rt.
     Option.bind (rt_session_id rt) (\<lambda>sid.
     Option.bind (find_user d (rt_user_id rt)) (\<lambda>u.
     Option.bind (find_session d sid) (\<lambda>s.
     if rt_revoked_at rt = None \<and> (case rt_expires_at rt of None \<Rightarrow> False | Some e \<Rightarrow> now < e)
        \<and> s_revoked_at s = None \<and> now < s_expires_at s
     then Some (rt_user_id rt, sid, u_json u) else None))))"

definition session_json :: "string \<Rightarrow> json \<Rightarrow> json" where
  "session_json sid user = jobj [(''session_id'', JString sid), (''user'', user)]"

definition get_active_refresh_token :: "serde \<Rightarrow> string \<Rightarrow> int \<Rightarrow> json auth_action" where
  "get_active_refresh_token sd token now =
     abind (auth_stmt (query (\<lambda>d. find_active d token now))) (\<lambda>existing.
       case existing of
         None \<Rightarrow> athrow InvalidRefreshToken
       | Some (uid, sid, raw) \<Rightarrow> alift (rmap (session_json sid) (parse_user sd raw)))"

section \<open>Writing\<close>

definition user_conflict :: "user_row \<Rightarrow> user_row \<Rightarrow> bool" where
  "user_conflict r u \<longleftrightarrow> same_value (u_email r) (u_email u) \<or> same_value (u_phone r) (u_phone u)"

definition insert_user :: "user_row \<Rightarrow> auth_tables \<Rightarrow> sql_failure + nat \<times> auth_tables" where
  "insert_user r d =
     (if exists_row (\<lambda>u. u_id u = u_id r \<or> user_conflict r u) (at_users d)
      then Inl (ConstraintViolation ''UNIQUE constraint failed'')
      else Inr (1, d\<lparr>at_users := at_users d @ [r]\<rparr>))"

text \<open>What \<open>create_user\<close> and \<open>update_user\<close> make of a failed statement.\<close>

fun user_statement_error :: "sql_failure \<Rightarrow> auth_store_error" where
  "user_statement_error (ConstraintViolation _) = UserAlreadyRegistered"
| "user_statement_error (SqlFailure e) = AuthSqlite (SqlFailure e)"

definition new_user_row :: "serde \<Rightarrow> json \<Rightarrow> auth_store_error + user_row" where
  "new_user_row sd user =
     rbind (required_str user ''id'') (\<lambda>user_id.
     rbind (required_str user ''password_hash'') (\<lambda>password_hash.
     rbind (required_str user ''created_at'') (\<lambda>created_at.
     rbind (required_str user ''updated_at'') (\<lambda>updated_at.
     Inr \<lparr>u_id = user_id, u_email = optional_str user ''email'', u_phone = optional_str user ''phone'',
          u_password_hash = password_hash, u_json = to_json_text sd user,
          u_created_at = created_at, u_updated_at = updated_at\<rparr>))))"

definition create_user :: "serde \<Rightarrow> json \<Rightarrow> json auth_action" where
  "create_user sd user =
     abind (alift (new_user_row sd user)) (\<lambda>r.
     abind (amap_err user_statement_error (execute (insert_user r))) (\<lambda>_. aret user))"

definition foreign_key :: "auth_tables \<Rightarrow> string \<Rightarrow> bool" where
  "foreign_key d uid \<longleftrightarrow> find_user d uid \<noteq> None"

definition upsert_session ::
    "string \<Rightarrow> string \<Rightarrow> int \<Rightarrow> int \<Rightarrow> auth_tables \<Rightarrow> sql_failure + nat \<times> auth_tables" where
  "upsert_session sid uid created expires d =
     (if find_session d sid \<noteq> None
      then Inr (1, d\<lparr>at_sessions := snd (update_rows (\<lambda>s. s_id s = sid)
                       (\<lambda>s. s\<lparr>s_expires_at := expires\<rparr>) (at_sessions d))\<rparr>)
      else if \<not> foreign_key d uid then Inl (ConstraintViolation ''FOREIGN KEY constraint failed'')
      else Inr (1, d\<lparr>at_sessions := at_sessions d @
             [\<lparr>s_id = sid, s_user_id = uid, s_created_at = created, s_expires_at = expires,
               s_revoked_at = None\<rparr>]\<rparr>))"

definition insert_token :: "token_row \<Rightarrow> auth_tables \<Rightarrow> sql_failure + nat \<times> auth_tables" where
  "insert_token r d =
     (if find_token d (rt_token r) \<noteq> None then Inl (ConstraintViolation ''UNIQUE constraint failed'')
      else if \<not> foreign_key d (rt_user_id r) then Inl (ConstraintViolation ''FOREIGN KEY constraint failed'')
      else Inr (1, d\<lparr>at_tokens := at_tokens d @ [r]\<rparr>))"

definition token_row_for ::
    "string \<Rightarrow> string \<Rightarrow> string \<Rightarrow> string option \<Rightarrow> int \<Rightarrow> int \<Rightarrow> token_row" where
  "token_row_for token uid sid parent created expires =
     \<lparr>rt_token = token, rt_user_id = uid, rt_session_id = Some sid, rt_parent_token = parent,
      rt_created_at = created, rt_expires_at = Some expires, rt_revoked_at = None\<rparr>"

definition issue_refresh_token ::
    "string \<Rightarrow> string \<Rightarrow> string \<Rightarrow> int \<Rightarrow> int \<Rightarrow> unit auth_action" where
  "issue_refresh_token token uid sid created expires =
     transaction AuthSqlite
       (athen (auth_stmt (execute (upsert_session sid uid created expires)))
          (athen (auth_stmt (execute (insert_token (token_row_for token uid sid None created expires))))
             (aret ())))"

definition revoke_token :: "string \<Rightarrow> int \<Rightarrow> auth_tables \<Rightarrow> sql_failure + nat \<times> auth_tables" where
  "revoke_token token now d =
     (let (n, rows) = update_rows (\<lambda>t. rt_token t = token) (\<lambda>t. t\<lparr>rt_revoked_at := Some now\<rparr>) (at_tokens d)
      in Inr (n, d\<lparr>at_tokens := rows\<rparr>))"

definition extend_session :: "string \<Rightarrow> int \<Rightarrow> auth_tables \<Rightarrow> sql_failure + nat \<times> auth_tables" where
  "extend_session sid expires d =
     (let (n, rows) = update_rows (\<lambda>s. s_id s = sid) (\<lambda>s. s\<lparr>s_expires_at := expires\<rparr>) (at_sessions d)
      in Inr (n, d\<lparr>at_sessions := rows\<rparr>))"

text \<open>The body of the transaction, then the user's JSON is parsed after the commit.\<close>

definition rotate_body :: "string \<Rightarrow> string \<Rightarrow> int \<Rightarrow> int \<Rightarrow> (string \<times> string) auth_action" where
  "rotate_body old_token new_token created expires =
     abind (auth_stmt (query (\<lambda>d. find_active d old_token created))) (\<lambda>existing.
       case existing of
         None \<Rightarrow> athrow InvalidRefreshToken
       | Some (uid, sid, raw) \<Rightarrow>
           athen (auth_stmt (execute (revoke_token old_token created)))
             (athen (auth_stmt (execute (extend_session sid expires)))
                (athen (auth_stmt (execute (insert_token
                           (token_row_for new_token uid sid (Some old_token) created expires))))
                   (aret (sid, raw)))))"

definition rotate_refresh_token ::
    "serde \<Rightarrow> string \<Rightarrow> string \<Rightarrow> int \<Rightarrow> int \<Rightarrow> json auth_action" where
  "rotate_refresh_token sd old_token new_token created expires =
     abind (transaction AuthSqlite (rotate_body old_token new_token created expires)) (\<lambda>(sid, raw).
       alift (rmap (session_json sid) (parse_user sd raw)))"

text \<open>The rows a scope reaches: \<open>scope_session\<close> reads the conditions on a session id.\<close>

fun scope_session :: "logout_scope \<Rightarrow> string \<Rightarrow> string option \<Rightarrow> bool" where
  "scope_session GlobalScope current sid = True"
| "scope_session LocalScope current sid = (sid = Some current)"
| "scope_session OthersScope current sid = (sid \<noteq> None \<and> sid \<noteq> Some current)"

definition revoke_session_rows ::
    "logout_scope \<Rightarrow> string \<Rightarrow> string \<Rightarrow> int \<Rightarrow> auth_tables \<Rightarrow> sql_failure + nat \<times> auth_tables" where
  "revoke_session_rows scope uid current now d =
     (let (n, rows) = update_rows
            (\<lambda>s. s_user_id s = uid \<and> scope_session scope current (Some (s_id s)) \<and> s_revoked_at s = None)
            (\<lambda>s. s\<lparr>s_revoked_at := Some now\<rparr>) (at_sessions d)
      in Inr (n, d\<lparr>at_sessions := rows\<rparr>))"

definition revoke_token_rows ::
    "logout_scope \<Rightarrow> string \<Rightarrow> string \<Rightarrow> int \<Rightarrow> auth_tables \<Rightarrow> sql_failure + nat \<times> auth_tables" where
  "revoke_token_rows scope uid current now d =
     (let (n, rows) = update_rows
            (\<lambda>t. rt_user_id t = uid \<and> scope_session scope current (rt_session_id t) \<and> rt_revoked_at t = None)
            (\<lambda>t. t\<lparr>rt_revoked_at := Some now\<rparr>) (at_tokens d)
      in Inr (n, d\<lparr>at_tokens := rows\<rparr>))"

definition revoke_sessions ::
    "string \<Rightarrow> string option \<Rightarrow> logout_scope \<Rightarrow> int \<Rightarrow> nat auth_action" where
  "revoke_sessions uid current_session_id scope revoked_at =
     transaction AuthSqlite
       (abind (alift (if scope = GlobalScope then Inr [] else ok_or SessionRequired current_session_id)) (\<lambda>current.
        abind (auth_stmt (execute (revoke_session_rows scope uid current revoked_at))) (\<lambda>sessions.
        athen (auth_stmt (execute (revoke_token_rows scope uid current revoked_at)))
          (aret sessions))))"

definition set_opt :: "string \<Rightarrow> json option \<Rightarrow> json \<Rightarrow> json" where
  "set_opt k x v = (case x of None \<Rightarrow> v | Some y \<Rightarrow> jset v k y)"

definition patch_user :: "user_patch \<Rightarrow> json \<Rightarrow> json" where
  "patch_user p user =
     jset (set_opt ''user_metadata'' (patch_user_metadata p)
       (set_opt ''password_hash'' (map_option JString (patch_password_hash p))
         (set_opt ''phone'' (map_option JString (patch_phone p))
           (set_opt ''email'' (map_option JString (patch_email p)) user))))
       ''updated_at'' (JString (patch_updated_at p))"

definition update_user_row ::
    "string \<Rightarrow> (user_row \<Rightarrow> user_row) \<Rightarrow> auth_tables \<Rightarrow> sql_failure + nat \<times> auth_tables" where
  "update_user_row uid f d =
     (let (n, rows) = update_rows (\<lambda>u. u_id u = uid) f (at_users d)
      in if (\<exists>r \<in> set (at_users d). u_id r = uid
              \<and> exists_row (\<lambda>u. u_id u \<noteq> uid \<and> user_conflict (f r) u) (at_users d))
         then Inl (ConstraintViolation ''UNIQUE constraint failed'')
         else Inr (n, d\<lparr>at_users := rows\<rparr>))"

definition set_user_columns :: "serde \<Rightarrow> json \<Rightarrow> string \<Rightarrow> string \<Rightarrow> user_row \<Rightarrow> user_row" where
  "set_user_columns sd user password_hash updated_at r =
     r\<lparr>u_email := optional_str user ''email'', u_phone := optional_str user ''phone'',
       u_password_hash := password_hash, u_json := to_json_text sd user, u_updated_at := updated_at\<rparr>"

definition update_user :: "serde \<Rightarrow> string \<Rightarrow> user_patch \<Rightarrow> json auth_action" where
  "update_user sd uid p =
     abind (get_user_by_id sd uid) (\<lambda>found.
       case found of
         None \<Rightarrow> athrow UserNotFound
       | Some user0 \<Rightarrow>
           (let user = patch_user p user0
            in abind (alift (required_str user ''password_hash'')) (\<lambda>password_hash.
               abind (amap_err user_statement_error (execute (update_user_row uid
                       (set_user_columns sd user password_hash (patch_updated_at p))))) (\<lambda>n.
               if n = 0 then athrow UserNotFound else aret user))))"

end
