(* ===== verification/Auth_Store_Properties.thy ===== *)
theory Auth_Store_Properties
  imports Auth_Store
begin

text \<open>
  What \<open>auth_store.rs\<close> guarantees over any history of its writers: the tables stay well
  formed, a rotated or revoked token never works again, a rotation hands the session to the new
  token, a logout ends the sessions of its scope and no other, and a failing operation changes
  nothing.
\<close>

section \<open>Well-formed tables\<close>

definition distinct_some :: "'a option list \<Rightarrow> bool" where
  "distinct_some xs \<longleftrightarrow> distinct (filter (\<lambda>x. x \<noteq> None) xs)"

definition users_wf :: "auth_tables \<Rightarrow> bool" where
  "users_wf d \<longleftrightarrow> distinct (map u_id (at_users d)) \<and> distinct_some (map u_email (at_users d))
     \<and> distinct_some (map u_phone (at_users d))"

definition keys_wf :: "auth_tables \<Rightarrow> bool" where
  "keys_wf d \<longleftrightarrow> distinct (map rt_token (at_tokens d)) \<and> distinct (map s_id (at_sessions d))"

definition refs_wf :: "auth_tables \<Rightarrow> bool" where
  "refs_wf d \<longleftrightarrow> (\<forall>t \<in> set (at_tokens d). rt_user_id t \<in> u_id ` set (at_users d))
     \<and> (\<forall>s \<in> set (at_sessions d). s_user_id s \<in> u_id ` set (at_users d))"

text \<open>A token's session is there and is its user's.\<close>

definition owned_by :: "session_row list \<Rightarrow> token_row \<Rightarrow> bool" where
  "owned_by sessions t =
     (case rt_session_id t of
        None \<Rightarrow> True
      | Some sid \<Rightarrow> sid \<in> s_id ` set sessions
          \<and> (\<forall>s \<in> set sessions. s_id s = sid \<longrightarrow> s_user_id s = rt_user_id t))"

definition sessions_owned :: "auth_tables \<Rightarrow> bool" where
  "sessions_owned d \<longleftrightarrow> list_all (owned_by (at_sessions d)) (at_tokens d)"

definition auth_inv :: "auth_tables \<Rightarrow> bool" where
  "auth_inv d \<longleftrightarrow> users_wf d \<and> keys_wf d \<and> refs_wf d \<and> sessions_owned d"

lemmas auth_inv_defs = auth_inv_def users_wf_def keys_wf_def refs_wf_def sessions_owned_def

text \<open>One writer of the tables; tokens are issued for a session of the user or a new one.\<close>

inductive auth_step :: "serde \<Rightarrow> auth_tables sql_db \<Rightarrow> auth_tables sql_db \<Rightarrow> bool" for sd where
  create: "create_user sd user s = (r, s') \<Longrightarrow> auth_step sd s s'"
| issue: "issue_refresh_token token uid sid created expires s = (r, s') \<Longrightarrow>
    (\<And>x. x \<in> set (at_sessions (db_tables s)) \<Longrightarrow> s_id x = sid \<Longrightarrow> s_user_id x = uid) \<Longrightarrow>
    auth_step sd s s'"
| rotate: "rotate_refresh_token sd old_token new_token created expires s = (r, s') \<Longrightarrow> auth_step sd s s'"
| revoke: "revoke_sessions uid current scope now s = (r, s') \<Longrightarrow> auth_step sd s s'"
| update: "update_user sd uid p s = (r, s') \<Longrightarrow> auth_step sd s s'"

inductive_cases auth_stepE: "auth_step sd s s'"

section \<open>Lookups\<close>

lemma distinct_some_snoc:
  "distinct_some (xs @ [x]) \<longleftrightarrow> distinct_some xs \<and> (x \<noteq> None \<longrightarrow> x \<notin> set xs)"
  by (auto simp: distinct_some_def)

lemma distinct_some_Cons:
  "distinct_some (x # xs) \<longleftrightarrow> distinct_some xs \<and> (x \<noteq> None \<longrightarrow> x \<notin> set xs)"
  by (auto simp: distinct_some_def)

lemma distinct_some_update:
  assumes "distinct (map key xs)" and "distinct_some (map g xs)"
    and "\<And>y z. y \<in> set xs \<Longrightarrow> z \<in> set xs \<Longrightarrow> key y = k \<Longrightarrow> key z \<noteq> k \<Longrightarrow> \<not> same_value (g (f y)) (g z)"
  shows "distinct_some (map (\<lambda>y. g (if key y = k then f y else y)) xs)"
proof -
  define h where "h y = g (if key y = k then f y else y)" for y
  have "distinct_some (map h xs)"
    using assms
  proof (induction xs)
    case (Cons y ys)
    have IH: "distinct_some (map h ys)"
      using Cons.prems by (intro Cons.IH) (simp_all add: distinct_some_Cons)
    have "h y \<noteq> h z" if z: "z \<in> set ys" and some: "h y \<noteq> None" for z
    proof -
      from z have "key z \<noteq> key y" using Cons.prems(1) by (auto simp: image_iff)
      moreover have "g y \<noteq> None \<Longrightarrow> g z \<noteq> g y"
        using z Cons.prems(2) by (auto simp: distinct_some_Cons image_iff)
      ultimately show ?thesis
        using Cons.prems(3) [of y z] Cons.prems(3) [of z y] z some by (auto simp: same_value_def h_def)
    qed
    with IH show ?case by (auto simp: distinct_some_Cons)
  qed (simp add: distinct_some_def)
  then show ?thesis unfolding h_def .
qed

section \<open>The statements keep the tables well formed\<close>

text \<open>The invariant reads the keys and references of the rows only.\<close>

definition token_key :: "token_row \<Rightarrow> string \<times> string \<times> string option" where
  "token_key t = (rt_token t, rt_user_id t, rt_session_id t)"

definition session_key :: "session_row \<Rightarrow> string \<times> string" where
  "session_key s = (s_id s, s_user_id s)"

lemma auth_inv_keys:
  "auth_inv d \<longleftrightarrow> users_wf d
     \<and> distinct (map fst (map token_key (at_tokens d))) \<and> distinct (map fst (map session_key (at_sessions d)))
     \<and> list_all (\<lambda>(tok, uid, sid). uid \<in> u_id ` set (at_users d)) (map token_key (at_tokens d))
     \<and> list_all (\<lambda>(sid, uid). uid \<in> u_id ` set (at_users d)) (map session_key (at_sessions d))
     \<and> list_all (\<lambda>(tok, uid, sid). case sid of None \<Rightarrow> True | Some x \<Rightarrow>
           x \<in> fst ` set (map session_key (at_sessions d))
           \<and> list_all (\<lambda>(y, v). y = x \<longrightarrow> v = uid) (map session_key (at_sessions d)))
         (map token_key (at_tokens d))"
  by (simp add: auth_inv_def keys_wf_def refs_wf_def sessions_owned_def owned_by_def token_key_def
      session_key_def list_all_iff o_def image_image)

lemma auth_inv_same_keys:
  assumes "at_users d' = at_users d" and "map token_key (at_tokens d') = map token_key (at_tokens d)"
    and "map session_key (at_sessions d') = map session_key (at_sessions d)"
  shows "auth_inv d' \<longleftrightarrow> auth_inv d"
  unfolding auth_inv_keys assms users_wf_def ..

lemma map_update_rows:
  "(\<And>r. key (f r) = key r) \<Longrightarrow> map key (snd (update_rows p f rows)) = map key rows"
  by (simp add: o_def)

lemma token_key_revoked [simp]: "token_key (t\<lparr>rt_revoked_at := x\<rparr>) = token_key t"
  by (simp add: token_key_def)

lemma session_key_updated [simp]:
  "session_key (s\<lparr>s_revoked_at := x\<rparr>) = session_key s" "session_key (s\<lparr>s_expires_at := e\<rparr>) = session_key s"
  by (simp_all add: session_key_def)

lemma set_rows_inv:
  "(\<And>t. token_key (f t) = token_key t) \<Longrightarrow> auth_inv d \<Longrightarrow>
    auth_inv (d\<lparr>at_tokens := snd (update_rows p f (at_tokens d))\<rparr>)"
  "(\<And>s. session_key (g s) = session_key s) \<Longrightarrow> auth_inv d \<Longrightarrow>
    auth_inv (d\<lparr>at_sessions := snd (update_rows q g (at_sessions d))\<rparr>)"
  by (subst auth_inv_same_keys [of _ d]; simp add: map_update_rows del: update_rows_nth)+

lemma update_inv:
  "revoke_token tok now d = Inr (n, d') \<Longrightarrow> auth_inv d \<Longrightarrow> auth_inv d'"
  "extend_session sid e d = Inr (n, d') \<Longrightarrow> auth_inv d \<Longrightarrow> auth_inv d'"
  "revoke_session_rows scope uid cur now d = Inr (n, d') \<Longrightarrow> auth_inv d \<Longrightarrow> auth_inv d'"
  "revoke_token_rows scope uid cur now d = Inr (n, d') \<Longrightarrow> auth_inv d \<Longrightarrow> auth_inv d'"
  by (auto simp: revoke_token_def extend_session_def revoke_session_rows_def revoke_token_rows_def
      case_prod_unfold Let_def simp del: update_rows_nth intro!: set_rows_inv)

lemma insert_user_inv:
  assumes "insert_user r d = Inr (n, d')" and "auth_inv d"
  shows "auth_inv d'"
proof -
  have d': "d' = d\<lparr>at_users := at_users d @ [r]\<rparr>"
    and ok: "\<And>u. u \<in> set (at_users d) \<Longrightarrow> u_id u \<noteq> u_id r \<and> \<not> user_conflict r u"
    using assms(1) by (auto simp: insert_user_def exists_row_def list_ex_iff split: if_splits)
  from ok have "u_id r \<notin> u_id ` set (at_users d)" "u_email r \<noteq> None \<Longrightarrow> u_email r \<notin> u_email ` set (at_users d)"
    "u_phone r \<noteq> None \<Longrightarrow> u_phone r \<notin> u_phone ` set (at_users d)"
    by (force simp: user_conflict_def same_value_def)+
  with assms(2) show ?thesis
    by (auto simp: d' auth_inv_def users_wf_def keys_wf_def refs_wf_def sessions_owned_def distinct_some_snoc)
qed

lemma update_user_inv:
  assumes "update_user_row uid f d = Inr (n, d')" and "auth_inv d" and f: "\<And>r. u_id (f r) = u_id r"
  shows "auth_inv d'"
proof -
  let ?h = "\<lambda>u. if u_id u = uid then f u else u"
  have d': "d' = d\<lparr>at_users := map ?h (at_users d)\<rparr>"
    and ok: "\<And>r u. r \<in> set (at_users d) \<Longrightarrow> u_id r = uid \<Longrightarrow> u \<in> set (at_users d) \<Longrightarrow> u_id u \<noteq> uid
      \<Longrightarrow> \<not> user_conflict (f r) u"
    using assms(1) by (auto simp: update_user_row_def update_rows_def Let_def exists_row_def list_ex_iff
        split: if_splits)
  have id: "(\<lambda>x. u_id (?h x)) = u_id" by (auto simp: f)
  then have keys: "map u_id (map ?h (at_users d)) = map u_id (at_users d)" by (simp add: o_def)
  have ids: "u_id ` set (map ?h (at_users d)) = u_id ` set (at_users d)"
    using arg_cong [OF keys, of set] by (simp only: set_map)
  have em: "distinct_some (map (\<lambda>y. u_email (?h y)) (at_users d))"
    using assms(2) ok by (intro distinct_some_update) (auto simp: auth_inv_def users_wf_def user_conflict_def)
  have ph: "distinct_some (map (\<lambda>y. u_phone (?h y)) (at_users d))"
    using assms(2) ok by (intro distinct_some_update) (auto simp: auth_inv_def users_wf_def user_conflict_def)
  have "users_wf d'"
    using assms(2) em ph by (simp add: auth_inv_def users_wf_def d' o_def id)
  moreover have "keys_wf d'" "sessions_owned d'"
    using assms(2) by (simp_all add: auth_inv_def keys_wf_def sessions_owned_def d')
  moreover have "refs_wf d'"
    using assms(2) ids unfolding auth_inv_def refs_wf_def d' by (simp del: set_map)
  ultimately show ?thesis by (simp add: auth_inv_def)
qed

lemma upsert_session_inv:
  assumes "upsert_session sid uid created expires d = Inr (n, d')" and inv: "auth_inv d"
  shows "auth_inv d'"
proof (cases "find_session d sid")
  case (Some s)
  with assms(1) have "d' = d\<lparr>at_sessions := snd (update_rows (\<lambda>s. s_id s = sid)
                       (\<lambda>s. s\<lparr>s_expires_at := expires\<rparr>) (at_sessions d))\<rparr>"
    by (simp add: upsert_session_def del: update_rows_nth)
  with inv show ?thesis by (simp only:) (rule set_rows_inv(2); simp)
next
  case None
  then have new: "sid \<notin> s_id ` set (at_sessions d)" by (simp add: find_session_def find_key_None)
  from None assms(1) have fk: "uid \<in> u_id ` set (at_users d)"
    and d': "d' = d\<lparr>at_sessions := at_sessions d @
             [\<lparr>s_id = sid, s_user_id = uid, s_created_at = created, s_expires_at = expires,
               s_revoked_at = None\<rparr>]\<rparr>"
    by (auto simp: upsert_session_def foreign_key_def find_user_def find_key_None split: if_splits)
  have "owned_by (at_sessions d') t" if "t \<in> set (at_tokens d)" for t
    using inv that new by (auto simp: d' auth_inv_def sessions_owned_def owned_by_def list_all_iff split: option.splits)
  with inv new fk show ?thesis
    by (auto simp: d' auth_inv_def users_wf_def keys_wf_def refs_wf_def sessions_owned_def list_all_iff)
qed

lemma insert_token_inv:
  assumes "insert_token r d = Inr (n, d')" and "auth_inv d"
    and "owned_by (at_sessions d) r"
  shows "auth_inv d'"
proof -
  have "rt_token r \<notin> rt_token ` set (at_tokens d)" and "rt_user_id r \<in> u_id ` set (at_users d)"
    and d': "d' = d\<lparr>at_tokens := at_tokens d @ [r]\<rparr>"
    using assms(1) by (auto simp: insert_token_def foreign_key_def find_user_def find_token_def find_key_None
        split: if_splits)
  with assms(2,3) show ?thesis
    by (auto simp: d' auth_inv_def users_wf_def keys_wf_def refs_wf_def sessions_owned_def)
qed

section \<open>The operations as functions of the tables\<close>

text \<open>
  What an operation that returns did to the tables: every writer is one statement, a
  transaction, or nothing.
\<close>

lemma auth_stmt_simps [db_simps]:
  "auth_stmt m s = (Inr x, s') \<longleftrightarrow> m s = (Inr x, s')"
  "auth_stmt m s = (Inl e, s') \<longleftrightarrow> (\<exists>d. m s = (Inl d, s') \<and> e = AuthSqlite d)"
  by (auto simp: auth_stmt_def act_simps)

lemma create_user_run:
  assumes "create_user sd user s = (r, s')"
  shows "db_tables s' = db_tables s \<and> is_ok r = False
    \<or> (\<exists>row n d. new_user_row sd user = Inr row \<and> insert_user row (db_tables s) = Inr (n, d)
        \<and> db_tables s' = d \<and> r = Inr user)"
  using assms
  by (cases r) (auto simp: create_user_def act_simps db_simps)

lemma issue_run:
  assumes "issue_refresh_token token uid sid created expires s = (r, s')"
  shows "db_tables s' = db_tables s \<and> is_ok r = False
    \<or> (\<exists>n d m. upsert_session sid uid created expires (db_tables s) = Inr (n, d) \<and> r = Inr ()
        \<and> insert_token (token_row_for token uid sid None created expires) d = Inr (m, db_tables s'))"
proof (cases r)
  case (Inl e)
  with assms show ?thesis by (auto simp: issue_refresh_token_def)
next
  case (Inr x)
  with assms show ?thesis
    unfolding issue_refresh_token_def
    by (auto elim!: transaction_ok simp: athen_def act_simps db_simps)
qed

lemma rotate_body_run:
  assumes "rotate_body old_token new_token created expires s = (Inr (sid, raw), s')"
  obtains uid n1 d1 n2 d2 n3 where "find_active (db_tables s) old_token created = Some (uid, sid, raw)"
    and "revoke_token old_token created (db_tables s) = Inr (n1, d1)"
    and "extend_session sid expires d1 = Inr (n2, d2)"
    and "insert_token (token_row_for new_token uid sid (Some old_token) created expires) d2 = Inr (n3, db_tables s')"
  using assms by (auto simp: rotate_body_def athen_def act_simps db_simps split: option.splits)

lemma rotate_run:
  assumes "rotate_refresh_token sd old_token new_token created expires s = (r, s')"
  shows "db_tables s' = db_tables s \<and> is_ok r = False
    \<or> (\<exists>uid sid raw n1 d1 n2 d2 n3.
        find_active (db_tables s) old_token created = Some (uid, sid, raw)
        \<and> revoke_token old_token created (db_tables s) = Inr (n1, d1)
        \<and> extend_session sid expires d1 = Inr (n2, d2)
        \<and> insert_token (token_row_for new_token uid sid (Some old_token) created expires) d2
            = Inr (n3, db_tables s')
        \<and> r = rmap (session_json sid) (parse_user sd raw))"
proof -
  obtain t s1 where t: "transaction AuthSqlite (rotate_body old_token new_token created expires) s = (t, s1)"
    by fastforce
  show ?thesis
  proof (cases t)
    case (Inl e)
    with t assms show ?thesis by (auto simp: rotate_refresh_token_def abind_def)
  next
    case (Inr p)
    obtain sid raw where p: "p = (sid, raw)" by fastforce
    with t Inr assms have s': "s' = s1" and r: "r = rmap (session_json sid) (parse_user sd raw)"
      by (auto simp: rotate_refresh_token_def abind_def)
    from t [unfolded Inr p] obtain s2 where "rotate_body old_token new_token created expires (use_fault s)
      = (Inr (sid, raw), s2)" and "db_tables s1 = db_tables s2"
      by (auto elim!: transaction_ok)
    with s' r show ?thesis by (auto elim!: rotate_body_run)
  qed
qed

lemma revoke_run:
  assumes "revoke_sessions uid current scope now s = (r, s')"
  shows "db_tables s' = db_tables s \<and> is_ok r = False
    \<or> (\<exists>cur n d m. (scope \<noteq> GlobalScope \<longrightarrow> current = Some cur) \<and> r = Inr n
        \<and> revoke_session_rows scope uid cur now (db_tables s) = Inr (n, d)
        \<and> revoke_token_rows scope uid cur now d = Inr (m, db_tables s'))"
proof (cases r)
  case (Inl e)
  with assms show ?thesis by (auto simp: revoke_sessions_def)
next
  case (Inr x)
  from assms [unfolded Inr revoke_sessions_def] show ?thesis
    by (rule transaction_ok) (auto simp: Inr athen_def act_simps db_simps ok_or_Inr_iff split: if_splits; blast)
qed

lemma get_user_run: "get_user_by_id sd uid s = (r, s') \<Longrightarrow> db_tables s' = db_tables s"
  by (cases r) (auto simp: get_user_by_id_def act_simps db_simps)

lemma update_run:
  assumes "update_user sd uid p s = (r, s')"
  shows "db_tables s' = db_tables s \<and> is_ok r = False
    \<or> (\<exists>user hash n. update_user_row uid (set_user_columns sd user hash (patch_updated_at p)) (db_tables s)
          = Inr (n, db_tables s')
        \<and> r = (if n = 0 then Inl UserNotFound else Inr user))"
proof -
  obtain g s1 where g: "get_user_by_id sd uid s = (g, s1)" by fastforce
  note s1 = get_user_run [OF g]
  show ?thesis
  proof (cases "\<exists>user. g = Inr (Some user)")
    case True
    then obtain user where "g = Inr (Some user)" by blast
    then have "update_user sd uid p s =
      (let user = patch_user p user
       in abind (alift (required_str user ''password_hash'')) (\<lambda>hash.
          abind (amap_err user_statement_error (execute (update_user_row uid
                  (set_user_columns sd user hash (patch_updated_at p))))) (\<lambda>n.
          if n = 0 then athrow UserNotFound else aret user))) s1"
      using g by (simp add: update_user_def)
    with assms s1 show ?thesis
      by (cases r) (force simp: Let_def act_simps db_simps split: if_splits)+
  next
    case False
    with g assms s1 show ?thesis
      by (cases g) (auto simp: update_user_def abind_def split: option.splits)
  qed
qed

lemma find_in:
  "find_session d sid = Some s \<Longrightarrow> s \<in> set (at_sessions d) \<and> s_id s = sid"
  "find_token d tok = Some t \<Longrightarrow> t \<in> set (at_tokens d) \<and> rt_token t = tok"
  "find_user d uid = Some u \<Longrightarrow> u \<in> set (at_users d) \<and> u_id u = uid"
  by (auto simp: find_session_def find_token_def find_user_def dest: find_key_Some)

definition active_rows :: "auth_tables \<Rightarrow> string \<Rightarrow> int \<Rightarrow> token_row \<Rightarrow> session_row \<Rightarrow> user_row \<Rightarrow> bool" where
  "active_rows d tok now rt s u \<longleftrightarrow> find_token d tok = Some rt \<and> rt_session_id rt = Some (s_id s)
     \<and> find_user d (rt_user_id rt) = Some u \<and> find_session d (s_id s) = Some s
     \<and> rt_revoked_at rt = None \<and> (case rt_expires_at rt of None \<Rightarrow> False | Some e \<Rightarrow> now < e)
     \<and> s_revoked_at s = None \<and> now < s_expires_at s"

lemma find_active_Some:
  "find_active d tok now = Some r \<longleftrightarrow>
     (\<exists>rt s u. active_rows d tok now rt s u \<and> r = (rt_user_id rt, s_id s, u_json u))"
proof
  assume "find_active d tok now = Some r"
  then obtain rt sid u s where "find_token d tok = Some rt" "rt_session_id rt = Some sid"
    "find_user d (rt_user_id rt) = Some u" "find_session d sid = Some s" "r = (rt_user_id rt, sid, u_json u)"
    "rt_revoked_at rt = None \<and> (case rt_expires_at rt of None \<Rightarrow> False | Some e \<Rightarrow> now < e)
     \<and> s_revoked_at s = None \<and> now < s_expires_at s"
    by (auto simp: find_active_def bind_eq_Some_conv split: if_splits)
  moreover from this find_in(1) have "s_id s = sid" by blast
  ultimately show "\<exists>rt s u. active_rows d tok now rt s u \<and> r = (rt_user_id rt, s_id s, u_json u)"
    unfolding active_rows_def by blast
next
  assume "\<exists>rt s u. active_rows d tok now rt s u \<and> r = (rt_user_id rt, s_id s, u_json u)"
  then show "find_active d tok now = Some r"
    by (auto simp: find_active_def active_rows_def)
qed

lemma owned_by_keys:
  "owned_by ss t \<longleftrightarrow>
     (case rt_session_id t of
        None \<Rightarrow> True
      | Some sid \<Rightarrow> sid \<in> fst ` set (map session_key ss)
          \<and> (\<forall>(y, v) \<in> set (map session_key ss). y = sid \<longrightarrow> v = rt_user_id t))"
  by (auto simp: owned_by_def session_key_def image_iff split: option.split)

lemma upsert_session_keys:
  assumes "upsert_session sid uid created expires d = Inr (n, d')"
  shows "set (map session_key (at_sessions d')) = set (map session_key (at_sessions d))
      \<and> sid \<in> fst ` set (map session_key (at_sessions d))
    \<or> set (map session_key (at_sessions d')) = insert (sid, uid) (set (map session_key (at_sessions d)))"
proof (cases "find_session d sid")
  case (Some s)
  with find_in(1) [OF Some] have "sid \<in> fst ` set (map session_key (at_sessions d))"
    by (force simp: session_key_def)
  moreover have "at_sessions d' = snd (update_rows (\<lambda>s. s_id s = sid)
                       (\<lambda>s. s\<lparr>s_expires_at := expires\<rparr>) (at_sessions d))"
    using assms Some by (auto simp: upsert_session_def simp del: update_rows_nth)
  then have "map session_key (at_sessions d') = map session_key (at_sessions d)"
    by (simp only:) (rule map_update_rows; simp)
  ultimately show ?thesis by (simp only:) blast
next
  case None
  with assms show ?thesis
    by (auto simp: upsert_session_def session_key_def split: if_splits)
qed

text \<open>Every operation of the store keeps the tables well formed, whether it succeeds or fails.\<close>

lemma auth_inv_step:
  assumes "auth_step sd s s'" and "auth_inv (db_tables s)"
  shows "auth_inv (db_tables s')"
  using assms
proof (cases rule: auth_step.cases)
  case (create user r)
  with create_user_run [OF create(1)] insert_user_inv assms(2) show ?thesis by metis
next
  case (issue token uid sid created expires r)
  let ?r = "token_row_for token uid sid None created expires"
  from issue_run [OF issue(1)] show ?thesis
  proof (elim disjE exE conjE)
    fix n d m
    assume u: "upsert_session sid uid created expires (db_tables s) = Inr (n, d)"
      and t: "insert_token ?r d = Inr (m, db_tables s')"
    have "\<forall>(y, v) \<in> set (map session_key (at_sessions (db_tables s))). y = sid \<longrightarrow> v = uid"
      using issue(2) by (auto simp: session_key_def)
    with upsert_session_keys [OF u] have "owned_by (at_sessions d) ?r"
      unfolding owned_by_keys token_row_for_def token_row.simps option.case
      by (elim disjE conjE; simp only:) auto
    with insert_token_inv [OF t upsert_session_inv [OF u assms(2)]] show ?thesis .
  qed (use assms(2) in simp)
next
  case (rotate old_token new_token created expires r)
  from rotate_run [OF rotate(1)] show ?thesis
  proof (elim disjE exE conjE)
    fix uid sid raw n1 d1 n2 d2 n3
    assume a: "find_active (db_tables s) old_token created = Some (uid, sid, raw)"
      and r: "revoke_token old_token created (db_tables s) = Inr (n1, d1)"
      and e: "extend_session sid expires d1 = Inr (n2, d2)"
      and t: "insert_token (token_row_for new_token uid sid (Some old_token) created expires) d2
        = Inr (n3, db_tables s')"
    have inv: "auth_inv d2" using update_inv(1) [OF r assms(2)] by (rule update_inv(2) [OF e])
    from a obtain rt where rt: "rt \<in> set (at_tokens (db_tables s))" "rt_user_id rt = uid" "rt_session_id rt = Some sid"
      by (auto simp: find_active_Some active_rows_def dest: find_in)
    with assms(2) have own: "owned_by (at_sessions (db_tables s)) rt"
      by (auto simp: auth_inv_def sessions_owned_def list_all_iff)
    have "at_sessions d1 = at_sessions (db_tables s)"
      using r by (auto simp: revoke_token_def update_rows_def)
    then have "map session_key (at_sessions d2) = map session_key (at_sessions (db_tables s))"
      using e by (auto simp: extend_session_def update_rows_def)
    with own rt have "owned_by (at_sessions d2) (token_row_for new_token uid sid (Some old_token) created expires)"
      unfolding owned_by_keys by (simp add: token_row_for_def)
    from insert_token_inv [OF t inv this] show ?thesis .
  qed (use assms(2) in simp)
next
  case (revoke uid current scope now r)
  from revoke_run [OF revoke(1)] update_inv(3,4) assms(2) show ?thesis by metis
next
  case (update uid p r)
  have "u_id (set_user_columns sd user hash at row) = u_id row" for user hash at row
    by (simp add: set_user_columns_def)
  with update_run [OF update(1)] update_user_inv assms(2) show ?thesis by metis
qed

section \<open>Tokens that were revoked\<close>

definition dead_token :: "string \<Rightarrow> auth_tables \<Rightarrow> bool" where
  "dead_token tok d \<longleftrightarrow> (\<exists>t \<in> set (at_tokens d). rt_token t = tok \<and> rt_revoked_at t \<noteq> None)"

lemma update_rows_keep:
  "(\<exists>t \<in> set rows. P t) \<Longrightarrow> (\<And>t. P t \<Longrightarrow> P (f t)) \<Longrightarrow> \<exists>t \<in> set (snd (update_rows p f rows)). P t"
  by (induction rows) auto

lemma dead_statement:
  "insert_token r d = Inr (n, d') \<Longrightarrow> dead_token tok d \<Longrightarrow> dead_token tok d'"
  "upsert_session sid uid c e d = Inr (n, d') \<Longrightarrow> dead_token tok d \<Longrightarrow> dead_token tok d'"
  "extend_session sid e d = Inr (n, d') \<Longrightarrow> dead_token tok d \<Longrightarrow> dead_token tok d'"
  "revoke_session_rows scope uid cur now d = Inr (n, d') \<Longrightarrow> dead_token tok d \<Longrightarrow> dead_token tok d'"
  "insert_user row d = Inr (n, d') \<Longrightarrow> dead_token tok d \<Longrightarrow> dead_token tok d'"
  "update_user_row uid g d = Inr (n, d') \<Longrightarrow> dead_token tok d \<Longrightarrow> dead_token tok d'"
  by (auto simp: dead_token_def insert_token_def upsert_session_def extend_session_def
      revoke_session_rows_def insert_user_def update_user_row_def update_rows_def
      Let_def split: if_splits)

lemma dead_update:
  "revoke_token tok' now d = Inr (n, d') \<Longrightarrow> dead_token tok d \<Longrightarrow> dead_token tok d'"
  "revoke_token_rows scope uid cur now d = Inr (n, d') \<Longrightarrow> dead_token tok d \<Longrightarrow> dead_token tok d'"
  by (auto simp: dead_token_def revoke_token_def revoke_token_rows_def case_prod_unfold Let_def
      simp del: update_rows_nth intro!: update_rows_keep; blast)+

lemma dead_step: "auth_step sd s s' \<Longrightarrow> dead_token tok (db_tables s) \<Longrightarrow> dead_token tok (db_tables s')"
proof (erule auth_stepE, goal_cases)
  case (1 user r)
  with create_user_run dead_statement(5) show ?case by metis
next
  case (2 token uid sid created expires r)
  with issue_run dead_statement(1,2) show ?case by metis
next
  case (3 old_token new_token created expires r)
  from rotate_run [OF 3(2)] 3(1) dead_statement(1,3) dead_update(1) show ?case by metis
next
  case (4 uid current scope now r)
  from revoke_run [OF 4(2)] 4(1) dead_statement(4) dead_update(2) show ?case by metis
next
  case (5 uid p r)
  with update_run dead_statement(6) show ?case by metis
qed

lemma dead_steps:
  "rtranclp (auth_step sd) s s' \<Longrightarrow> dead_token tok (db_tables s) \<Longrightarrow> auth_inv (db_tables s) \<Longrightarrow>
    dead_token tok (db_tables s') \<and> auth_inv (db_tables s')"
proof (induction rule: rtranclp_induct)
  case (step s1 s2)
  then show ?case
    using dead_step auth_inv_step by blast
qed simp

lemma dead_not_active:
  assumes "dead_token tok d" and "auth_inv d"
  shows "find_active d tok now = None"
proof (rule ccontr)
  assume "find_active d tok now \<noteq> None"
  then obtain rt where rt: "find_token d tok = Some rt" "rt_revoked_at rt = None"
    by (auto simp: find_active_Some active_rows_def)
  from assms(1) obtain t where t: "t \<in> set (at_tokens d)" "rt_token t = tok" "rt_revoked_at t \<noteq> None"
    by (auto simp: dead_token_def)
  have "find_token d tok = Some t"
    using assms(2) t(1,2) by (simp add: find_token_def find_key_distinct auth_inv_def keys_wf_def)
  with rt t(3) show False by simp
qed

lemma rotate_ok:
  assumes "rotate_refresh_token sd old_token new_token created expires s = (Inr v, s')"
  obtains uid sid raw d1 d2 n1 n2 n3
  where "find_active (db_tables s) old_token created = Some (uid, sid, raw)"
    and "revoke_token old_token created (db_tables s) = Inr (n1, d1)"
    and "extend_session sid expires d1 = Inr (n2, d2)"
    and "insert_token (token_row_for new_token uid sid (Some old_token) created expires) d2
      = Inr (n3, db_tables s')"
    and "Inr v = rmap (session_json sid) (parse_user sd raw)"
  using rotate_run [OF assms] by auto

lemma rotate_kills:
  assumes "rotate_refresh_token sd old_token new_token created expires s = (Inr v, s')"
  shows "dead_token old_token (db_tables s')"
proof (rule rotate_ok [OF assms])
  fix uid sid raw d1 d2 n1 n2 n3
  assume a: "find_active (db_tables s) old_token created = Some (uid, sid, raw)"
    and r: "revoke_token old_token created (db_tables s) = Inr (n1, d1)"
    and e: "extend_session sid expires d1 = Inr (n2, d2)"
    and t: "insert_token (token_row_for new_token uid sid (Some old_token) created expires) d2
      = Inr (n3, db_tables s')"
  from a obtain rt where "rt \<in> set (at_tokens (db_tables s))" "rt_token rt = old_token"
    by (auto simp: find_active_Some active_rows_def dest: find_in)
  moreover from r have "at_tokens d1 = map (\<lambda>t. if rt_token t = old_token then t\<lparr>rt_revoked_at := Some created\<rparr> else t)
      (at_tokens (db_tables s))"
    by (auto simp: revoke_token_def update_rows_def)
  ultimately have "dead_token old_token d1"
    unfolding dead_token_def by (intro bexI [of _ "rt\<lparr>rt_revoked_at := Some created\<rparr>"]) auto
  from dead_statement(1) [OF t dead_statement(3) [OF e this]] show ?thesis .
qed

section \<open>Properties\<close>


text \<open>
  C21: a refresh token works once: after a successful rotation, whatever operations follow,
  the old token is never active again, at any time.
\<close>

theorem rotated_token_is_dead:
  assumes "rotate_refresh_token sd old_token new_token created expires s = (Inr v, s')"
    and "auth_inv (db_tables s)" and "rtranclp (auth_step sd) s' s''"
  shows "find_active (db_tables s'') old_token now = None"
proof -
  have "auth_inv (db_tables s')" using auth_inv_step [OF auth_step.rotate [OF assms(1)] assms(2)] .
  with dead_steps [OF assms(3) rotate_kills [OF assms(1)]] dead_not_active show ?thesis by blast
qed

text \<open>
  A rotation hands the session over: it succeeds only for an active token, returns that
  token's session and user, and leaves the new token active for exactly that session and user
  until the new expiry.
\<close>

theorem rotation_hands_over:
  assumes "rotate_refresh_token sd old_token new_token created expires s = (Inr v, s')"
    and "auth_inv (db_tables s)"
  shows "\<exists>uid sid raw user. find_active (db_tables s) old_token created = Some (uid, sid, raw)
    \<and> from_json_text sd raw = Some user \<and> v = session_json sid user
    \<and> (\<forall>now. find_active (db_tables s') new_token now
          = (if now < expires then Some (uid, sid, raw) else None))"
proof (rule rotate_ok [OF assms(1)])
  fix uid sid raw d1 d2 n1 n2 n3
  assume a: "find_active (db_tables s) old_token created = Some (uid, sid, raw)"
    and r: "revoke_token old_token created (db_tables s) = Inr (n1, d1)"
    and e: "extend_session sid expires d1 = Inr (n2, d2)"
    and t: "insert_token (token_row_for new_token uid sid (Some old_token) created expires) d2
      = Inr (n3, db_tables s')"
    and v: "Inr v = rmap (session_json sid) (parse_user sd raw)"
  from v obtain user where user: "from_json_text sd raw = Some user" "v = session_json sid user"
    by (cases "from_json_text sd raw") (auto simp: parse_user_def)
  from a obtain rt ss u where "active_rows (db_tables s) old_token created rt ss u"
    and eq: "uid = rt_user_id rt" "sid = s_id ss" "raw = u_json u"
    by (auto simp: find_active_Some)
  then have rows: "find_user (db_tables s) uid = Some u" "find_session (db_tables s) sid = Some ss"
    "s_revoked_at ss = None"
    by (auto simp: active_rows_def)
  have s1: "at_users d1 = at_users (db_tables s)" "at_sessions d1 = at_sessions (db_tables s)"
    using r by (auto simp: revoke_token_def update_rows_def)
  have s2: "at_users d2 = at_users d1"
    "at_sessions d2 = map (\<lambda>x. if s_id x = sid then x\<lparr>s_expires_at := expires\<rparr> else x) (at_sessions d1)"
    using e by (auto simp: extend_session_def update_rows_def)
  have new: "find_token d2 new_token = None"
    and s3: "db_tables s' = d2\<lparr>at_tokens := at_tokens d2 @
        [token_row_for new_token uid sid (Some old_token) created expires]\<rparr>"
    using t by (auto simp: insert_token_def token_row_for_def split: if_splits)
  have tok: "find_token (db_tables s') new_token
      = Some (token_row_for new_token uid sid (Some old_token) created expires)"
    using new by (simp add: find_token_def s3 find_key_append token_row_for_def)
  have sess: "find_session (db_tables s') sid = Some (ss\<lparr>s_expires_at := expires\<rparr>)"
    using rows(2) find_key_Some [of s_id sid "at_sessions (db_tables s)" ss]
    by (simp add: find_session_def s3 s2 s1 find_map_key)
  have usr: "find_user (db_tables s') uid = Some u"
    using rows(1) by (simp add: find_user_def s3 s2 s1)
  have "find_active (db_tables s') new_token now = (if now < expires then Some (uid, sid, raw) else None)" for now
    using rows(3) eq(3) by (simp add: find_active_def tok token_row_for_def usr sess)
  with a user show ?thesis by blast
qed

definition end_session :: "logout_scope \<Rightarrow> string \<Rightarrow> string \<Rightarrow> int \<Rightarrow> session_row \<Rightarrow> session_row" where
  "end_session scope uid cur now x =
     (if s_user_id x = uid \<and> scope_session scope cur (Some (s_id x)) \<and> s_revoked_at x = None
      then x\<lparr>s_revoked_at := Some now\<rparr> else x)"

definition end_token :: "logout_scope \<Rightarrow> string \<Rightarrow> string \<Rightarrow> int \<Rightarrow> token_row \<Rightarrow> token_row" where
  "end_token scope uid cur now t =
     (if rt_user_id t = uid \<and> scope_session scope cur (rt_session_id t) \<and> rt_revoked_at t = None
      then t\<lparr>rt_revoked_at := Some now\<rparr> else t)"

lemma end_simps [simp]:
  "s_id (end_session scope uid cur now x) = s_id x" "rt_token (end_token scope uid cur now t) = rt_token t"
  "rt_user_id (end_token scope uid cur now t) = rt_user_id t"
  "rt_session_id (end_token scope uid cur now t) = rt_session_id t"
  "rt_expires_at (end_token scope uid cur now t) = rt_expires_at t"
  "s_expires_at (end_session scope uid cur now x) = s_expires_at x"
  "s_revoked_at (end_session scope uid cur now x) = None \<longleftrightarrow>
     s_revoked_at x = None \<and> \<not> (s_user_id x = uid \<and> scope_session scope cur (Some (s_id x)))"
  "rt_revoked_at (end_token scope uid cur now t) = None \<longleftrightarrow>
     rt_revoked_at t = None \<and> \<not> (rt_user_id t = uid \<and> scope_session scope cur (rt_session_id t))"
  by (auto simp: end_session_def end_token_def)

lemma revoke_ok:
  assumes "revoke_sessions uid current scope now s = (Inr n, s')"
  obtains cur where "scope \<noteq> GlobalScope \<Longrightarrow> current = Some cur"
    and "at_users (db_tables s') = at_users (db_tables s)"
    and "at_sessions (db_tables s') = map (end_session scope uid cur now) (at_sessions (db_tables s))"
    and "at_tokens (db_tables s') = map (end_token scope uid cur now) (at_tokens (db_tables s))"
proof -
  from revoke_run [OF assms] obtain cur d m where c: "scope \<noteq> GlobalScope \<longrightarrow> current = Some cur"
    and r: "revoke_session_rows scope uid cur now (db_tables s) = Inr (n, d)"
    and t: "revoke_token_rows scope uid cur now d = Inr (m, db_tables s')"
    by (auto simp only: is_ok.simps sum.inject HOL.simp_thms)
  from r have d: "d = (db_tables s)\<lparr>at_sessions := map (end_session scope uid cur now) (at_sessions (db_tables s))\<rparr>"
    by (simp add: revoke_session_rows_def update_rows_def end_session_def [abs_def])
  from t have "db_tables s' = d\<lparr>at_tokens := map (end_token scope uid cur now) (at_tokens d)\<rparr>"
    by (simp add: revoke_token_rows_def update_rows_def end_token_def [abs_def])
  with d c show thesis by (intro that [of cur]) simp_all
qed

text \<open>
  A logout ends the sessions of its scope and no other: afterwards a token is active when
  it was before, unless it belongs to the user and to a session the scope names.
\<close>

theorem logout_exact:
  assumes "revoke_sessions uid current scope now s = (Inr n, s')" and inv: "auth_inv (db_tables s)"
  shows "find_active (db_tables s') tok t =
    (case find_active (db_tables s) tok t of
       None \<Rightarrow> None
     | Some (u, sid, raw) \<Rightarrow>
         if u = uid \<and> (case scope of GlobalScope \<Rightarrow> True | LocalScope \<Rightarrow> current = Some sid | OthersScope \<Rightarrow> current \<noteq> Some sid)
         then None else Some (u, sid, raw))"
proof (rule revoke_ok [OF assms(1)])
  fix cur
  let ?d = "db_tables s" and ?d' = "db_tables s'"
  assume cur: "scope \<noteq> GlobalScope \<Longrightarrow> current = Some cur"
    and us: "at_users ?d' = at_users ?d"
    and ss: "at_sessions ?d' = map (end_session scope uid cur now) (at_sessions ?d)"
    and ts: "at_tokens ?d' = map (end_token scope uid cur now) (at_tokens ?d)"
  have sc: "scope_session scope cur (Some sid) \<longleftrightarrow>
      (case scope of GlobalScope \<Rightarrow> True | LocalScope \<Rightarrow> current = Some sid | OthersScope \<Rightarrow> current \<noteq> Some sid)" for sid
    using cur by (cases scope) auto
  have f: "find_session ?d' sid = map_option (end_session scope uid cur now) (find_session ?d sid)" for sid
    unfolding find_session_def ss by (rule find_map_key) simp
  have g: "find_token ?d' tok = map_option (end_token scope uid cur now) (find_token ?d tok)"
    unfolding find_token_def ts by (rule find_map_key) simp
  have u: "find_user ?d' v = find_user ?d v" for v by (simp add: find_user_def us)
  have own: "s_user_id x = rt_user_id rt"
    if "find_token ?d tok = Some rt" "rt_session_id rt = Some sid" "find_session ?d sid = Some x" for rt sid x
    using inv find_in(1) [OF that(3)] find_in(2) [OF that(1)] that(2)
    by (auto simp: auth_inv_def sessions_owned_def list_all_iff owned_by_def)
  show ?thesis
  proof (cases "find_token ?d tok")
    case (Some rt)
    show ?thesis
    proof (cases "rt_session_id rt")
      case sid: (Some sid)
      show ?thesis
      proof (cases "find_session ?d sid")
        case sess: (Some x)
        with find_in(1) have "s_id x = sid" by blast
        with own [OF Some sid sess] show ?thesis
          by (cases "find_user ?d (rt_user_id rt)") (auto simp: find_active_def g f u Some sid sess sc)
      qed (simp add: find_active_def g f u Some sid)
    qed (simp add: find_active_def g Some)
  qed (simp add: find_active_def g)
qed

text \<open>
  A failing operation changes nothing: whatever statement fails, the engine or a
  constraint, the tables are as they were. The exception is a rotation whose user row holds no
  JSON: that is found out after the commit.
\<close>

theorem auth_errors_change_nothing:
  "(is_ok (fst (create_user sd user s)) \<or> db_tables (snd (create_user sd user s)) = db_tables s)
   \<and> (is_ok (fst (issue_refresh_token tok uid sid created expires s))
      \<or> db_tables (snd (issue_refresh_token tok uid sid created expires s)) = db_tables s)
   \<and> (is_ok (fst (rotate_refresh_token sd old_token tok created expires s))
      \<or> db_tables (snd (rotate_refresh_token sd old_token tok created expires s)) = db_tables s
      \<or> (\<exists>raw. from_json_text sd raw = None
           \<and> fst (rotate_refresh_token sd old_token tok created expires s) = Inl (AuthJson (MalformedJson raw))))
   \<and> (is_ok (fst (revoke_sessions uid current scope now s))
      \<or> db_tables (snd (revoke_sessions uid current scope now s)) = db_tables s)
   \<and> (is_ok (fst (update_user sd uid p s)) \<or> db_tables (snd (update_user sd uid p s)) = db_tables s)"
proof (intro conjI)
  show "is_ok (fst (create_user sd user s)) \<or> db_tables (snd (create_user sd user s)) = db_tables s"
    using create_user_run [of sd user s] by (cases "create_user sd user s") auto
  show "is_ok (fst (issue_refresh_token tok uid sid created expires s))
      \<or> db_tables (snd (issue_refresh_token tok uid sid created expires s)) = db_tables s"
    using issue_run [of tok uid sid created expires s]
    by (cases "issue_refresh_token tok uid sid created expires s") auto
  show "is_ok (fst (revoke_sessions uid current scope now s))
      \<or> db_tables (snd (revoke_sessions uid current scope now s)) = db_tables s"
    using revoke_run [of uid current scope now s] by (cases "revoke_sessions uid current scope now s") auto
  obtain r s' where u: "update_user sd uid p s = (r, s')" by fastforce
  from update_run [OF u] show "is_ok (fst (update_user sd uid p s))
      \<or> db_tables (snd (update_user sd uid p s)) = db_tables s"
    by (auto simp: u update_user_row_def update_rows_def filter_empty_conv map_idI split: if_splits)
  obtain r s' where t: "rotate_refresh_token sd old_token tok created expires s = (r, s')" by fastforce
  have parse_fails: "is_ok (rmap f (parse_user sd raw))
      \<or> (from_json_text sd raw = None \<and> rmap f (parse_user sd raw) = Inl (AuthJson (MalformedJson raw)))"
    for f :: "json \<Rightarrow> json" and raw
    by (cases "from_json_text sd raw") (simp_all add: parse_user_def)
  from rotate_run [OF t] show "is_ok (fst (rotate_refresh_token sd old_token tok created expires s))
      \<or> db_tables (snd (rotate_refresh_token sd old_token tok created expires s)) = db_tables s
      \<or> (\<exists>raw. from_json_text sd raw = None
           \<and> fst (rotate_refresh_token sd old_token tok created expires s) = Inl (AuthJson (MalformedJson raw)))"
    by (elim disjE exE conjE) (use parse_fails in \<open>auto simp: t\<close>)
qed

text \<open>
  The schema migration: a new database gets the tables, and running it again changes
  nothing. But in a database whose token table has no session column, the column the code
  would add, the batch fails at the index on that column, before the column is added.
\<close>

definition first_schema :: auth_schema where
  "first_schema =
     \<lparr>schema_tables =
        [(''_sdb_auth_users'',
          [''id'', ''email'', ''phone'', ''password_hash'', ''user_json'', ''created_at'', ''updated_at'']),
         (''_sdb_auth_refresh_tokens'', [''token'', ''user_id'', ''parent_token'', ''created_at'', ''revoked_at''])],
      schema_indexes = [''_sdb_auth_refresh_tokens_user_id_idx'']\<rparr>"

theorem schema_migration:
  "\<exists>d. ensure_schema \<lparr>schema_tables = [], schema_indexes = []\<rparr> = (Inr (), d)
     \<and> ensure_schema d = (Inr (), d)
     \<and> fst (ensure_schema first_schema) = Inl (SqlFailure ''no such column: session_id'')
     \<and> map_of (schema_tables (snd (ensure_schema first_schema))) ''_sdb_auth_refresh_tokens''
       = map_of (schema_tables first_schema) ''_sdb_auth_refresh_tokens''"
proof (intro exI conjI)
  show "ensure_schema \<lparr>schema_tables = [], schema_indexes = []\<rparr>
    = (Inr (), snd (ensure_schema \<lparr>schema_tables = [], schema_indexes = []\<rparr>))"
    by code_simp
  show "ensure_schema (snd (ensure_schema \<lparr>schema_tables = [], schema_indexes = []\<rparr>))
    = (Inr (), snd (ensure_schema \<lparr>schema_tables = [], schema_indexes = []\<rparr>))"
    by code_simp
qed (code_simp+)

section \<open>Witnesses\<close>

definition sample_user :: json where
  "sample_user = jobj [(''id'', JString ''user-1''), (''email'', JString ''a@example.com''),
     (''password_hash'', JString ''pw''), (''created_at'', JString ''t0''), (''updated_at'', JString ''t0'')]"

definition no_auth :: "auth_tables sql_db" where
  "no_auth = \<lparr>db_tables = \<lparr>at_users = [], at_tokens = [], at_sessions = []\<rparr>, db_faults = []\<rparr>"

definition signed_up :: "auth_tables sql_db" where
  "signed_up = snd (create_user sample_serde sample_user no_auth)"

definition signed_in :: "auth_tables sql_db" where
  "signed_in = snd (issue_refresh_token ''rt-1'' ''user-1'' ''session-1'' 1 100 signed_up)"

lemma signed_in_steps: "rtranclp (auth_step sample_serde) no_auth signed_in"
proof -
  have "auth_step sample_serde no_auth signed_up"
    unfolding signed_up_def by (rule auth_step.create) (rule surjective_pairing)
  moreover have "at_sessions (db_tables signed_up) = []" by code_simp
  then have "auth_step sample_serde signed_up signed_in"
    unfolding signed_in_def by (intro auth_step.issue) (rule surjective_pairing, simp)
  ultimately show ?thesis by simp
qed


lemma signed_in_inv: "auth_inv (db_tables signed_in)"
  by (simp add: auth_inv_def users_wf_def keys_wf_def refs_wf_def sessions_owned_def) code_simp

definition rotated :: "(auth_store_error + json) \<times> auth_tables sql_db" where
  "rotated = rotate_refresh_token sample_serde ''rt-1'' ''rt-2'' 2 200 signed_in"

lemma rotated_run:
  "rotate_refresh_token sample_serde ''rt-1'' ''rt-2'' 2 200 signed_in
     = (Inr (session_json ''session-1'' sample_user), snd rotated)"
proof -
  have "fst rotated = Inr (session_json ''session-1'' sample_user)" by code_simp
  then show ?thesis unfolding rotated_def by (simp add: prod_eq_iff)
qed

lemma rotated_token_is_dead_witness:
  "find_active (db_tables signed_in) ''rt-1'' 2 \<noteq> None
    \<and> find_active (db_tables (snd rotated)) ''rt-1'' 2 = None"
proof
  show "find_active (db_tables signed_in) ''rt-1'' 2 \<noteq> None" by code_simp
  show "find_active (db_tables (snd rotated)) ''rt-1'' 2 = None"
    by (rule rotated_token_is_dead [OF rotated_run signed_in_inv rtranclp.rtrancl_refl])
qed

lemma rotation_hands_over_witness:
  "\<exists>uid sid raw user. find_active (db_tables signed_in) ''rt-1'' 2 = Some (uid, sid, raw)
    \<and> from_json_text sample_serde raw = Some user \<and> session_json ''session-1'' sample_user = session_json sid user
    \<and> (\<forall>now. find_active (db_tables (snd rotated)) ''rt-2'' now
          = (if now < 200 then Some (uid, sid, raw) else None))"
  by (rule rotation_hands_over [OF rotated_run signed_in_inv])

lemma logout_exact_witness:
  "find_active (db_tables signed_in) ''rt-1'' 50 \<noteq> None
    \<and> find_active (db_tables (snd (revoke_sessions ''user-1'' (Some ''session-1'') LocalScope 3 signed_in))) ''rt-1'' 50
      = None"
proof -
  have run: "revoke_sessions ''user-1'' (Some ''session-1'') LocalScope 3 signed_in
    = (Inr 1, snd (revoke_sessions ''user-1'' (Some ''session-1'') LocalScope 3 signed_in))"
    by (rule prod_eqI) (code_simp, simp)
  have act: "find_active (db_tables signed_in) ''rt-1'' 50
      = Some (''user-1'', ''session-1'', to_json_text sample_serde sample_user)"
    by code_simp
  from logout_exact [OF run signed_in_inv, of "''rt-1''" 50] show ?thesis by (simp add: act)
qed

end
