(* ===== verification/Control_Plane.thy ===== *)
theory Control_Plane
  imports BTree_Map Effects
begin

text \<open>
  \<open>control_plane.rs\<close>: the catalogue of projects, API keys and workers, and the placement of a
  request. The trait \<open>ControlPlane\<close> is the locale \<open>control_plane\<close> with the laws its
  clients rely on; \<open>InMemoryControlPlane\<close> is the model of the code, and interprets it. The
  state behind the mutex is the state of the actions; each call holds the lock throughout.
\<close>

section \<open>Data\<close>

datatype serving_state =
  Active string "string list"
| Cold "string option"

record project_entry =
  pe_project_id :: string
  pe_object_store_prefix :: string
  pe_default_region :: "string option"
  pe_serving_state :: serving_state

datatype api_key_kind = AnonKey | ServiceRoleKey

record api_key_record =
  ak_project_id :: string
  ak_key_id :: string
  ak_kind :: api_key_kind

record api_key_route =
  ar_project_id :: string
  ar_key_id :: string
  ar_kind :: api_key_kind
  ar_service_role :: bool
  ar_browser_safe :: bool

record worker_endpoint =
  we_worker_id :: string
  we_region :: "string option"
  we_url :: string
  we_healthy :: bool
  we_can_start_cold_project :: bool

datatype placement_intent = ReadIntent | WriteIntent

record placement_request =
  pr_project_id :: string
  pr_intent :: placement_intent
  pr_preferred_region :: "string option"

datatype placement_role = PrimaryRole | ReplicaRole

datatype placement_action =
  Route worker_endpoint placement_role
| WakeProject worker_endpoint

record placement_decision =
  pd_project_id :: string
  pd_project_state :: serving_state
  pd_action :: placement_action

datatype control_plane_error =
  ProjectNotFound string
| ApiKeyNotFound
| WorkerNotFound string
| NoHealthyWorker string

fun control_plane_error_text :: "control_plane_error \<Rightarrow> string" where
  "control_plane_error_text (ProjectNotFound project_id) = ''project not found: '' @ project_id"
| "control_plane_error_text ApiKeyNotFound = ''api key not found''"
| "control_plane_error_text (WorkerNotFound worker_id) = ''worker not found: '' @ worker_id"
| "control_plane_error_text (NoHealthyWorker project_id) =
     ''no healthy worker available for project: '' @ project_id"

definition active_entry ::
    "string \<Rightarrow> string \<Rightarrow> string option \<Rightarrow> string \<Rightarrow> string list \<Rightarrow> project_entry" where
  "active_entry project_id pre default_region primary_worker_id replica_worker_ids =
     \<lparr>pe_project_id = project_id, pe_object_store_prefix = pre, pe_default_region = default_region,
      pe_serving_state = Active primary_worker_id replica_worker_ids\<rparr>"

definition cold_entry :: "string \<Rightarrow> string \<Rightarrow> string option \<Rightarrow> string option \<Rightarrow> project_entry" where
  "cold_entry project_id pre default_region wakeup_region =
     \<lparr>pe_project_id = project_id, pe_object_store_prefix = pre, pe_default_region = default_region,
      pe_serving_state = Cold wakeup_region\<rparr>"

fun is_active :: "serving_state \<Rightarrow> bool" where
  "is_active (Active _ _) = True"
| "is_active (Cold _) = False"

fun is_cold :: "serving_state \<Rightarrow> bool" where
  "is_cold (Cold _) = True"
| "is_cold (Active _ _) = False"

definition anon_key :: "string \<Rightarrow> string \<Rightarrow> api_key_record" where
  "anon_key project_id key_id = \<lparr>ak_project_id = project_id, ak_key_id = key_id, ak_kind = AnonKey\<rparr>"

definition service_role_key :: "string \<Rightarrow> string \<Rightarrow> api_key_record" where
  "service_role_key project_id key_id =
     \<lparr>ak_project_id = project_id, ak_key_id = key_id, ak_kind = ServiceRoleKey\<rparr>"

definition is_service_role_kind :: "api_key_kind \<Rightarrow> bool" where
  "is_service_role_kind k \<longleftrightarrow> k = ServiceRoleKey"

definition is_browser_safe :: "api_key_kind \<Rightarrow> bool" where
  "is_browser_safe k \<longleftrightarrow> k = AnonKey"

definition new_endpoint :: "string \<Rightarrow> string option \<Rightarrow> string \<Rightarrow> worker_endpoint" where
  "new_endpoint worker_id region url =
     \<lparr>we_worker_id = worker_id, we_region = region, we_url = url, we_healthy = True,
      we_can_start_cold_project = True\<rparr>"

definition unhealthy :: "worker_endpoint \<Rightarrow> worker_endpoint" where
  "unhealthy w = w\<lparr>we_healthy := False\<rparr>"

definition without_cold_start :: "worker_endpoint \<Rightarrow> worker_endpoint" where
  "without_cold_start w = w\<lparr>we_can_start_cold_project := False\<rparr>"

definition read_request :: "string \<Rightarrow> placement_request" where
  "read_request project_id =
     \<lparr>pr_project_id = project_id, pr_intent = ReadIntent, pr_preferred_region = None\<rparr>"

definition write_request :: "string \<Rightarrow> placement_request" where
  "write_request project_id =
     \<lparr>pr_project_id = project_id, pr_intent = WriteIntent, pr_preferred_region = None\<rparr>"

definition prefer_region :: "string \<Rightarrow> placement_request \<Rightarrow> placement_request" where
  "prefer_region region r = r\<lparr>pr_preferred_region := Some region\<rparr>"

section \<open>The contract\<close>

type_synonym ('s, 'a) cp_action = "('s, control_plane_error, 'a) action"

definition route_of :: "api_key_record \<Rightarrow> api_key_route" where
  "route_of r =
     \<lparr>ar_project_id = ak_project_id r, ar_key_id = ak_key_id r, ar_kind = ak_kind r,
      ar_service_role = is_service_role_kind (ak_kind r), ar_browser_safe = is_browser_safe (ak_kind r)\<rparr>"

text \<open>
  What a caller of the trait may assume: a project that was stored is found, a key that was
  registered resolves to its record, health is per worker, and reading calls change nothing.
\<close>

locale control_plane =
  fixes upsert :: "project_entry \<Rightarrow> ('s, unit) cp_action"
    and project :: "string \<Rightarrow> ('s, project_entry) cp_action"
    and register :: "string \<Rightarrow> api_key_record \<Rightarrow> ('s, unit) cp_action"
    and resolve :: "string \<Rightarrow> ('s, api_key_route) cp_action"
  assumes upsert_ok: "\<exists>s'. upsert p s = (Inr (), s')"
    and project_upsert: "upsert p s = (Inr (), s') \<Longrightarrow>
      fst (project pid s') = (if pid = pe_project_id p then Inr p else fst (project pid s))"
    and project_error: "fst (project pid s) = Inl e \<Longrightarrow> e = ProjectNotFound pid"
    and register_result: "fst (register k r s) =
      (case fst (project (ak_project_id r) s) of Inl e \<Rightarrow> Inl e | Inr _ \<Rightarrow> Inr ())"
    and project_register: "fst (project pid (snd (register k r s))) = fst (project pid s)"
    and resolve_register: "register k r s = (Inr (), s') \<Longrightarrow>
      fst (resolve k' s') = (if k' = k then Inr (route_of r) else fst (resolve k' s))"
    and resolve_upsert: "fst (resolve k s) = Inr rt \<Longrightarrow> fst (resolve k (snd (upsert p s))) = Inr rt"
begin

lemma registered_key_resolves:
  "fst (project (ak_project_id r) s) = Inr p \<Longrightarrow> fst (resolve k (snd (register k r s))) = Inr (route_of r)"
  using register_result [of k r s] resolve_register [of k r s "snd (register k r s)" k]
  by (cases "register k r s") auto

lemma onboarding:
  "fst (resolve k (snd (register k r (snd (upsert p s))))) = Inr (route_of r)"
  if "ak_project_id r = pe_project_id p"
proof -
  obtain s' where s': "upsert p s = (Inr (), s')" using upsert_ok by blast
  with project_upsert [OF s', of "ak_project_id r"] that show ?thesis
    by (intro registered_key_resolves [of _ _ p]) simp
qed

lemma register_unknown_project:
  "fst (project (ak_project_id r) s) = Inl e \<Longrightarrow> fst (register k r s) = Inl (ProjectNotFound (ak_project_id r))"
  using register_result [of k r s] project_error [of "ak_project_id r" s e] by simp

end

section \<open>The in-memory control plane\<close>

record control_state =
  cp_projects :: "(string \<times> project_entry) list"
  cp_api_keys :: "(string \<times> api_key_record) list"
  cp_workers :: "(string \<times> worker_endpoint) list"

definition empty_control :: control_state where
  "empty_control = \<lparr>cp_projects = [], cp_api_keys = [], cp_workers = []\<rparr>"

type_synonym 'a mem_action = "(control_state, 'a) cp_action"

definition cp_upsert_project :: "project_entry \<Rightarrow> unit mem_action" where
  "cp_upsert_project p =
     amodify (\<lambda>s. s\<lparr>cp_projects := bt_insert (pe_project_id p) p (cp_projects s)\<rparr>)"

definition cp_project :: "string \<Rightarrow> project_entry mem_action" where
  "cp_project project_id =
     abind (aget (\<lambda>s. bt_get (cp_projects s) project_id)) (\<lambda>found.
       alift (ok_or (ProjectNotFound project_id) found))"

definition cp_register_api_key :: "string \<Rightarrow> api_key_record \<Rightarrow> unit mem_action" where
  "cp_register_api_key api_key r =
     athen (cp_project (ak_project_id r))
       (amodify (\<lambda>s. s\<lparr>cp_api_keys := bt_insert api_key r (cp_api_keys s)\<rparr>))"

definition cp_resolve_api_key :: "string \<Rightarrow> api_key_route mem_action" where
  "cp_resolve_api_key api_key s =
     (case bt_get (cp_api_keys s) api_key of
        None \<Rightarrow> (Inl ApiKeyNotFound, s)
      | Some r \<Rightarrow>
          if bt_get (cp_projects s) (ak_project_id r) = None
          then (Inl (ProjectNotFound (ak_project_id r)), s)
          else (Inr \<lparr>ar_project_id = ak_project_id r, ar_key_id = ak_key_id r, ar_kind = ak_kind r,
                     ar_service_role = is_service_role_kind (ak_kind r),
                     ar_browser_safe = is_browser_safe (ak_kind r)\<rparr>, s))"

definition cp_register_worker :: "worker_endpoint \<Rightarrow> unit mem_action" where
  "cp_register_worker w =
     amodify (\<lambda>s. s\<lparr>cp_workers := bt_insert (we_worker_id w) w (cp_workers s)\<rparr>)"

definition cp_set_worker_health :: "string \<Rightarrow> bool \<Rightarrow> unit mem_action" where
  "cp_set_worker_health worker_id healthy s =
     (case bt_get (cp_workers s) worker_id of
        None \<Rightarrow> (Inl (WorkerNotFound worker_id), s)
      | Some w \<Rightarrow> (Inr (), s\<lparr>cp_workers := bt_insert worker_id (w\<lparr>we_healthy := healthy\<rparr>) (cp_workers s)\<rparr>))"

definition healthy_worker :: "(string \<times> worker_endpoint) list \<Rightarrow> string \<Rightarrow> worker_endpoint option" where
  "healthy_worker workers worker_id =
     (case bt_get workers worker_id of
        None \<Rightarrow> None
      | Some w \<Rightarrow> if we_healthy w then Some w else None)"

definition choose_endpoint :: "worker_endpoint list \<Rightarrow> string option \<Rightarrow> worker_endpoint option" where
  "choose_endpoint endpoints preferred_region =
     (let first = (case endpoints of [] \<Rightarrow> None | w # _ \<Rightarrow> Some w)
      in case preferred_region of
           None \<Rightarrow> first
         | Some region \<Rightarrow>
             if region = [] then first
             else (case find (\<lambda>w. we_region w = Some region) endpoints of
                     Some w \<Rightarrow> Some w
                   | None \<Rightarrow> first))"

definition choose_worker ::
    "(string \<times> worker_endpoint) list \<Rightarrow> string list \<Rightarrow> string option \<Rightarrow> worker_endpoint option" where
  "choose_worker workers worker_ids preferred_region =
     choose_endpoint (List.map_filter (healthy_worker workers) worker_ids) preferred_region"

definition choose_cold_start_worker ::
    "(string \<times> worker_endpoint) list \<Rightarrow> string option \<Rightarrow> worker_endpoint option" where
  "choose_cold_start_worker workers preferred_region =
     choose_endpoint (filter (\<lambda>w. we_healthy w \<and> we_can_start_cold_project w) (map snd workers)) preferred_region"

definition or_opt :: "'a option \<Rightarrow> 'a option \<Rightarrow> 'a option" where
  "or_opt a b = (case a of None \<Rightarrow> b | Some x \<Rightarrow> Some x)"

text \<open>The action of \<open>decide_placement\<close> for a project that is known.\<close>

definition decide_action ::
    "(string \<times> worker_endpoint) list \<Rightarrow> project_entry \<Rightarrow> placement_request
      \<Rightarrow> control_plane_error + placement_action" where
  "decide_action workers p req =
     (let none = NoHealthyWorker (pe_project_id p)
      in case pe_serving_state p of
           Active primary replicas \<Rightarrow>
             (case pr_intent req of
                WriteIntent \<Rightarrow>
                  rmap (\<lambda>w. Route w PrimaryRole) (ok_or none (healthy_worker workers primary))
              | ReadIntent \<Rightarrow>
                  (case choose_worker workers replicas (pr_preferred_region req) of
                     Some w \<Rightarrow> Inr (Route w ReplicaRole)
                   | None \<Rightarrow> rmap (\<lambda>w. Route w PrimaryRole) (ok_or none (healthy_worker workers primary))))
         | Cold wakeup_region \<Rightarrow>
             rmap WakeProject (ok_or none (choose_cold_start_worker workers
               (or_opt (or_opt (pr_preferred_region req) wakeup_region) (pe_default_region p)))))"

definition cp_decide_placement :: "placement_request \<Rightarrow> placement_decision mem_action" where
  "cp_decide_placement req s =
     (case bt_get (cp_projects s) (pr_project_id req) of
        None \<Rightarrow> (Inl (ProjectNotFound (pr_project_id req)), s)
      | Some p \<Rightarrow>
          (rmap (\<lambda>act. \<lparr>pd_project_id = pe_project_id p, pd_project_state = pe_serving_state p,
                        pd_action = act\<rparr>) (decide_action (cp_workers s) p req), s))"

interpretation mem: control_plane cp_upsert_project cp_project cp_register_api_key cp_resolve_api_key
  by unfold_locales
    (auto simp: cp_upsert_project_def cp_project_def cp_register_api_key_def cp_resolve_api_key_def
      abind_def athen_def aget_def amodify_def alift_def bt_get_insert route_of_def ok_or_Inl_iff
      split: option.splits sum.splits if_splits)

section \<open>Placement\<close>

text \<open>The workers that may serve a request.\<close>

definition eligible ::
    "(string \<times> worker_endpoint) list \<Rightarrow> project_entry \<Rightarrow> placement_request \<Rightarrow> worker_endpoint \<Rightarrow> bool" where
  "eligible workers p req w \<longleftrightarrow> we_healthy w \<and>
     (case pe_serving_state p of
        Active primary replicas \<Rightarrow>
          bt_get workers primary = Some w
          \<or> pr_intent req = ReadIntent \<and> list_ex (\<lambda>r. bt_get workers r = Some w) replicas
      | Cold _ \<Rightarrow> we_can_start_cold_project w \<and> w \<in> set (map snd workers))"

fun action_worker :: "placement_action \<Rightarrow> worker_endpoint" where
  "action_worker (Route w _) = w"
| "action_worker (WakeProject w) = w"

text \<open>Whether the kind of the action suits the project and the worker.\<close>

fun action_fits ::
    "(string \<times> worker_endpoint) list \<Rightarrow> project_entry \<Rightarrow> placement_request \<Rightarrow> placement_action \<Rightarrow> bool" where
  "action_fits workers p req (Route w PrimaryRole) =
     (case pe_serving_state p of Active primary _ \<Rightarrow> bt_get workers primary = Some w | Cold _ \<Rightarrow> False)"
| "action_fits workers p req (Route w ReplicaRole) =
     (case pe_serving_state p of
        Active _ replicas \<Rightarrow> pr_intent req = ReadIntent \<and> list_ex (\<lambda>r. bt_get workers r = Some w) replicas
      | Cold _ \<Rightarrow> False)"
| "action_fits workers p req (WakeProject w) = is_cold (pe_serving_state p)"

lemma healthy_worker_Some:
  "healthy_worker workers k = Some w \<longleftrightarrow> bt_get workers k = Some w \<and> we_healthy w"
  by (auto simp: healthy_worker_def split: option.split)

lemma choose_endpoint_None: "choose_endpoint ws region = None \<longleftrightarrow> ws = []"
  by (auto simp: choose_endpoint_def Let_def split: option.splits list.splits)

lemma find_Some_in: "find P xs = Some x \<Longrightarrow> x \<in> set xs \<and> P x"
  by (auto simp: find_Some_iff)

lemma choose_endpoint_in: "choose_endpoint ws region = Some w \<Longrightarrow> w \<in> set ws"
  by (auto simp: choose_endpoint_def Let_def dest: find_Some_in split: option.splits list.splits if_splits)

lemma choose_endpoint_region:
  assumes "choose_endpoint ws (Some region) = Some w" and "region \<noteq> []"
    and "v \<in> set ws" and "we_region v = Some region"
  shows "we_region w = Some region"
proof -
  obtain x where x: "find (\<lambda>w. we_region w = Some region) ws = Some x"
    using assms(3,4) by (cases "find (\<lambda>w. we_region w = Some region) ws") (auto simp: find_None_iff)
  with assms(1,2) find_Some_in [OF x] show ?thesis
    by (simp add: choose_endpoint_def Let_def)
qed

lemma set_healthy: "set (List.map_filter (healthy_worker workers) ids)
    = {w. we_healthy w \<and> (\<exists>k \<in> set ids. bt_get workers k = Some w)}"
  by (induction ids) (auto simp: List.map_filter_simps healthy_worker_def split: option.splits)

lemma choose_worker_Some:
  "choose_worker workers ids region = Some w \<Longrightarrow> we_healthy w \<and> list_ex (\<lambda>k. bt_get workers k = Some w) ids"
  unfolding choose_worker_def by (drule choose_endpoint_in) (auto simp: set_healthy list_ex_iff)

lemma choose_worker_None:
  "choose_worker workers ids region = None \<longleftrightarrow>
     \<not> (\<exists>w. we_healthy w \<and> list_ex (\<lambda>k. bt_get workers k = Some w) ids)"
proof -
  have "choose_worker workers ids region = None
      \<longleftrightarrow> set (List.map_filter (healthy_worker workers) ids) = {}"
    by (simp only: choose_worker_def choose_endpoint_None set_empty)
  then show ?thesis by (auto simp: set_healthy list_ex_iff)
qed

lemma choose_cold_Some:
  "choose_cold_start_worker workers region = Some w \<Longrightarrow>
    we_healthy w \<and> we_can_start_cold_project w \<and> w \<in> set (map snd workers)"
  unfolding choose_cold_start_worker_def by (drule choose_endpoint_in) auto

lemma choose_cold_None:
  "choose_cold_start_worker workers region = None \<longleftrightarrow>
     \<not> (\<exists>w \<in> set (map snd workers). we_healthy w \<and> we_can_start_cold_project w)"
  by (auto simp: choose_cold_start_worker_def choose_endpoint_None filter_empty_conv)

lemma placement_action_sound:
  assumes "decide_action workers p req = Inr act"
  shows "eligible workers p req (action_worker act) \<and> action_fits workers p req act"
proof (cases "pe_serving_state p")
  case (Active primary replicas)
  with assms show ?thesis
    by (cases "pr_intent req")
      (auto simp: decide_action_def eligible_def Let_def rmap_Inr_iff ok_or_Inr_iff healthy_worker_Some
        dest: choose_worker_Some split: option.splits)
next
  case (Cold region)
  with assms show ?thesis
    by (auto simp: decide_action_def eligible_def Let_def rmap_Inr_iff ok_or_Inr_iff
        dest: choose_cold_Some)
qed

lemma placement_action_complete:
  assumes "eligible workers p req w"
  shows "is_ok (decide_action workers p req)"
proof -
  have ok: "is_ok (rmap f (ok_or e x)) \<longleftrightarrow> x \<noteq> None"
    for f :: "worker_endpoint \<Rightarrow> placement_action" and e :: control_plane_error and x
    by (cases x) auto
  show ?thesis
  proof (cases "pe_serving_state p")
    case (Active primary replicas)
    have "healthy_worker workers primary \<noteq> None \<or> choose_worker workers replicas region \<noteq> None \<and> pr_intent req = ReadIntent"
      for region
      using assms Active choose_worker_None [of workers replicas region]
      by (auto simp: eligible_def healthy_worker_def)
    from this [of "pr_preferred_region req"] Active show ?thesis
      by (cases "pr_intent req") (auto simp: decide_action_def Let_def ok split: option.split)
  next
    case (Cold region)
    with assms have "choose_cold_start_worker workers r \<noteq> None" for r
      by (auto simp: choose_cold_None eligible_def)
    with Cold show ?thesis by (simp add: decide_action_def Let_def ok)
  qed
qed

lemma placement_action_error:
  "decide_action workers p req = Inl e \<Longrightarrow> e = NoHealthyWorker (pe_project_id p)"
proof -
  have err: "rmap f (ok_or e x) = Inl d \<Longrightarrow> d = e"
    for f :: "worker_endpoint \<Rightarrow> placement_action" and d e :: control_plane_error and x
    by (cases x) auto
  show "decide_action workers p req = Inl e \<Longrightarrow> e = NoHealthyWorker (pe_project_id p)"
    by (cases "pe_serving_state p"; cases "pr_intent req")
      (auto simp: decide_action_def Let_def dest: err split: option.splits)
qed

section \<open>Histories of the catalogue\<close>

definition cp_inv :: "control_state \<Rightarrow> bool" where
  "cp_inv s \<longleftrightarrow> bt_wf (cp_projects s) \<and> bt_wf (cp_workers s)
     \<and> (\<forall>k p. bt_get (cp_projects s) k = Some p \<longrightarrow> pe_project_id p = k)
     \<and> (\<forall>k w. bt_get (cp_workers s) k = Some w \<longrightarrow> we_worker_id w = k)
     \<and> (\<forall>k r. bt_get (cp_api_keys s) k = Some r \<longrightarrow> bt_get (cp_projects s) (ak_project_id r) \<noteq> None)"

inductive cp_step :: "control_state \<Rightarrow> control_state \<Rightarrow> bool" where
  upsert: "cp_step s (snd (cp_upsert_project p s))"
| register: "cp_step s (snd (cp_register_api_key k r s))"
| worker: "cp_step s (snd (cp_register_worker w s))"
| health: "cp_step s (snd (cp_set_worker_health i b s))"
| place: "cp_step s (snd (cp_decide_placement req s))"
| resolve: "cp_step s (snd (cp_resolve_api_key k s))"

lemma cp_inv_step: "cp_step s s' \<Longrightarrow> cp_inv s \<Longrightarrow> cp_inv s'"
  by (induction rule: cp_step.induct)
    (auto simp: cp_inv_def cp_upsert_project_def cp_register_api_key_def cp_register_worker_def
      cp_set_worker_health_def cp_decide_placement_def cp_resolve_api_key_def cp_project_def abind_def athen_def
      bt_get_insert bt_wf_insert ok_or_Inr_iff split: option.splits sum.splits if_splits)

lemma cp_inv_empty: "cp_inv empty_control"
  by (simp add: cp_inv_def empty_control_def bt_get_def bt_wf_def)

lemma cp_inv_reachable: "rtranclp cp_step empty_control s \<Longrightarrow> cp_inv s"
  by (induction rule: rtranclp_induct) (auto intro: cp_inv_empty cp_inv_step)

section \<open>Properties\<close>

text \<open>
  Placement is sound and complete: for a known project the decision fails exactly when no
  worker is eligible, with \<open>NoHealthyWorker\<close>; a decision names a registered, healthy worker in
  a role the project gives it: a write goes to the primary, a read to a replica or the primary, a
  cold project to a worker that can start it. Deciding changes nothing.
\<close>

theorem placement_exact:
  assumes "bt_get (cp_projects s) (pr_project_id req) = Some p"
  shows "snd (cp_decide_placement req s) = s
    \<and> (case fst (cp_decide_placement req s) of
         Inl e \<Rightarrow> e = NoHealthyWorker (pe_project_id p) \<and> (\<forall>w. \<not> eligible (cp_workers s) p req w)
       | Inr d \<Rightarrow> pd_project_state d = pe_serving_state p
           \<and> eligible (cp_workers s) p req (action_worker (pd_action d))
           \<and> action_fits (cp_workers s) p req (pd_action d))"
proof (cases "decide_action (cp_workers s) p req")
  case (Inl e)
  with placement_action_error [OF Inl] placement_action_complete [of "cp_workers s" p req] assms
  show ?thesis by (auto simp: cp_decide_placement_def)
next
  case (Inr act)
  with placement_action_sound [OF Inr] assms show ?thesis by (simp add: cp_decide_placement_def)
qed

text \<open>
  The region a caller prefers wins: when a replica of an active project, or a worker that
  can start a cold one, is healthy and in that region, the request goes to that region.
\<close>

theorem preferred_region_wins:
  assumes "bt_get (cp_projects s) (pr_project_id req) = Some p"
    and "pr_preferred_region req = Some region" and "region \<noteq> []" and "pr_intent req = ReadIntent"
    and "we_region v = Some region" and "we_healthy v"
    and "case pe_serving_state p of
        Active _ replicas \<Rightarrow> list_ex (\<lambda>k. bt_get (cp_workers s) k = Some v) replicas
      | Cold _ \<Rightarrow> we_can_start_cold_project v \<and> v \<in> set (map snd (cp_workers s))"
  shows "\<exists>d. fst (cp_decide_placement req s) = Inr d
    \<and> we_region (action_worker (pd_action d)) = Some region"
proof (cases "pe_serving_state p")
  case (Active primary replicas)
  with assms have v: "v \<in> set (List.map_filter (healthy_worker (cp_workers s)) replicas)"
    by (auto simp: set_healthy list_ex_iff)
  then obtain w where w: "choose_worker (cp_workers s) replicas (Some region) = Some w"
    unfolding choose_worker_def by (metis choose_endpoint_None empty_iff list.set(1) option.exhaust)
  with choose_endpoint_region [of _ region w v] v assms(3,5) have "we_region w = Some region"
    unfolding choose_worker_def by blast
  with w Active assms show ?thesis by (simp add: cp_decide_placement_def decide_action_def)
next
  case (Cold wake)
  let ?ws = "filter (\<lambda>w. we_healthy w \<and> we_can_start_cold_project w) (map snd (cp_workers s))"
  from Cold assms have v: "v \<in> set ?ws" by simp
  then obtain w where w: "choose_endpoint ?ws (Some region) = Some w"
    by (metis choose_endpoint_None empty_iff list.set(1) option.exhaust)
  with choose_endpoint_region [OF w assms(3) v assms(5)] Cold assms show ?thesis
    by (simp add: cp_decide_placement_def decide_action_def choose_cold_start_worker_def or_opt_def)
qed

text \<open>
  C22: no key dangles: in every state the control plane reaches from the empty one a registered
  key resolves to its own record, and the only failure of a resolution is a key that was never
  registered.
\<close>

theorem keys_never_dangle:
  assumes "rtranclp cp_step empty_control s"
  shows "fst (cp_resolve_api_key k s) =
    (case bt_get (cp_api_keys s) k of None \<Rightarrow> Inl ApiKeyNotFound | Some r \<Rightarrow> Inr (route_of r))"
proof (cases "bt_get (cp_api_keys s) k")
  case (Some r)
  with cp_inv_reachable [OF assms] have "bt_get (cp_projects s) (ak_project_id r) \<noteq> None"
    unfolding cp_inv_def by blast
  with Some show ?thesis by (simp add: cp_resolve_api_key_def route_of_def)
qed (simp add: cp_resolve_api_key_def)

section \<open>Witnesses\<close>

definition demo_worker :: worker_endpoint where
  "demo_worker = new_endpoint ''w1'' (Some ''iad'') ''http://w1''"

definition demo_control :: control_state where
  "demo_control =
     snd (cp_register_api_key ''key'' (anon_key ''demo'' ''k1'')
       (snd (cp_register_worker demo_worker
         (snd (cp_upsert_project (cold_entry ''demo'' ''p/demo'' None (Some ''fra'')) empty_control)))))"

lemma demo_project: "bt_get (cp_projects demo_control) ''demo'' = Some (cold_entry ''demo'' ''p/demo'' None (Some ''fra''))"
  by code_simp

lemma placement_exact_witness:
  "snd (cp_decide_placement (read_request ''demo'') demo_control) = demo_control
    \<and> (case fst (cp_decide_placement (read_request ''demo'') demo_control) of
         Inl e \<Rightarrow> False
       | Inr d \<Rightarrow> action_worker (pd_action d) = demo_worker)"
proof
  have p: "bt_get (cp_projects demo_control) (pr_project_id (read_request ''demo''))
      = Some (cold_entry ''demo'' ''p/demo'' None (Some ''fra''))"
    using demo_project by (simp add: read_request_def)
  from placement_exact [OF p]
  show "snd (cp_decide_placement (read_request ''demo'') demo_control) = demo_control" by blast
qed code_simp

lemma preferred_region_wins_witness:
  "\<exists>d. fst (cp_decide_placement (prefer_region ''iad'' (read_request ''demo'')) demo_control) = Inr d
    \<and> we_region (action_worker (pd_action d)) = Some ''iad''"
proof (rule preferred_region_wins)
  show "bt_get (cp_projects demo_control) (pr_project_id (prefer_region ''iad'' (read_request ''demo'')))
      = Some (cold_entry ''demo'' ''p/demo'' None (Some ''fra''))"
    using demo_project by (simp add: read_request_def prefer_region_def)
  show "we_region demo_worker = Some ''iad''" "we_healthy demo_worker"
    by (simp_all add: demo_worker_def new_endpoint_def)
  have "map snd (cp_workers demo_control) = [demo_worker]" by code_simp
  then show "case pe_serving_state (cold_entry ''demo'' ''p/demo'' None (Some ''fra'')) of
        Active _ replicas \<Rightarrow> list_ex (\<lambda>k. bt_get (cp_workers demo_control) k = Some demo_worker) replicas
      | Cold _ \<Rightarrow> we_can_start_cold_project demo_worker \<and> demo_worker \<in> set (map snd (cp_workers demo_control))"
    by (simp add: cold_entry_def demo_worker_def new_endpoint_def)
qed (simp_all add: prefer_region_def read_request_def)

lemma demo_reachable: "rtranclp cp_step empty_control demo_control"
  unfolding demo_control_def
  by (rule rtranclp.rtrancl_into_rtrancl [OF rtranclp.rtrancl_into_rtrancl
        [OF rtranclp.rtrancl_into_rtrancl [OF rtranclp.rtrancl_refl]]])
    (rule cp_step.intros)+

lemma keys_never_dangle_witness:
  "fst (cp_resolve_api_key ''key'' demo_control) = Inr (route_of (anon_key ''demo'' ''k1''))
    \<and> fst (cp_resolve_api_key ''other'' demo_control) = Inl ApiKeyNotFound"
proof -
  have "bt_get (cp_api_keys demo_control) ''key'' = Some (anon_key ''demo'' ''k1'')"
    "bt_get (cp_api_keys demo_control) ''other'' = None"
    by code_simp+
  then show ?thesis by (simp add: keys_never_dangle [OF demo_reachable])
qed

end
