(* ===== verification/File_System.thy ===== *)
theory File_System
  imports Effects
begin

text \<open>
  The part of \<open>std::fs\<close> the local object store uses, over a tree of directories and files.
  A path is the list of its components. Failures of the device, limits on names and
  permissions are not modelled; the failures that come from the shape of the tree (a missing
  parent, a file where a directory is needed) are.
\<close>

datatype fs_node = File bytes | Dir "(string \<times> fs_node) list"

type_synonym fs_path = "string list"

fun lookup :: "fs_node \<Rightarrow> fs_path \<Rightarrow> fs_node option" where
  "lookup n [] = Some n"
| "lookup (File d) (p # ps) = None"
| "lookup (Dir es) (p # ps) = (case bt_get es p of None \<Rightarrow> None | Some n \<Rightarrow> lookup n ps)"

definition set_entry :: "string \<Rightarrow> fs_node option \<Rightarrow> (string \<times> fs_node) list \<Rightarrow> (string \<times> fs_node) list" where
  "set_entry p x es = (case x of None \<Rightarrow> bt_remove p es | Some n \<Rightarrow> bt_insert p n es)"

text \<open>Replaces, creates or removes the node at a path whose parent is a directory.\<close>

fun set_node :: "fs_path \<Rightarrow> fs_node option \<Rightarrow> fs_node \<Rightarrow> fs_node" where
  "set_node [] x n = n"
| "set_node ps x (File d) = File d"
| "set_node [p] x (Dir es) = Dir (set_entry p x es)"
| "set_node (p # ps) x (Dir es) =
     (case bt_get es p of None \<Rightarrow> Dir es | Some n \<Rightarrow> Dir (bt_insert p (set_node ps x n) es))"

text \<open>\<open>fs::create_dir_all\<close>.\<close>

fun create_dir_all :: "fs_path \<Rightarrow> fs_node \<Rightarrow> fs_node option" where
  "create_dir_all [] n = (case n of File d \<Rightarrow> None | Dir es \<Rightarrow> Some n)"
| "create_dir_all (p # ps) (File d) = None"
| "create_dir_all (p # ps) (Dir es) =
     map_option (\<lambda>m. Dir (bt_insert p m es))
       (create_dir_all ps (case bt_get es p of None \<Rightarrow> Dir [] | Some n \<Rightarrow> n))"

definition is_dir :: "fs_node option \<Rightarrow> bool" where
  "is_dir x = (case x of Some (Dir es) \<Rightarrow> True | _ \<Rightarrow> False)"

definition parent_is_dir :: "fs_node \<Rightarrow> fs_path \<Rightarrow> bool" where
  "parent_is_dir root p \<longleftrightarrow> p \<noteq> [] \<and> is_dir (lookup root (butlast p))"

text \<open>\<open>File::create\<close> and writing: truncates a file, fails on a directory.\<close>

definition write_file :: "fs_path \<Rightarrow> bytes \<Rightarrow> fs_node \<Rightarrow> fs_node option" where
  "write_file p d root =
     (if parent_is_dir root p \<and> \<not> is_dir (lookup root p) then Some (set_node p (Some (File d)) root) else None)"

definition read_file :: "fs_node \<Rightarrow> fs_path \<Rightarrow> bytes option" where
  "read_file root p = (case lookup root p of Some (File d) \<Rightarrow> Some d | _ \<Rightarrow> None)"

definition remove_node :: "fs_path \<Rightarrow> fs_node \<Rightarrow> fs_node" where
  "remove_node p root = set_node p None root"

text \<open>\<open>fs::rename\<close> of a file.\<close>

definition rename_file :: "fs_path \<Rightarrow> fs_path \<Rightarrow> fs_node \<Rightarrow> fs_node option" where
  "rename_file src dst root =
     (case read_file root src of
        None \<Rightarrow> None
      | Some d \<Rightarrow> write_file dst d (remove_node src root))"

text \<open>\<open>fs::hard_link\<close> where nothing has the new name.\<close>

definition hard_link :: "fs_path \<Rightarrow> fs_path \<Rightarrow> fs_node \<Rightarrow> fs_node option" where
  "hard_link src dst root =
     (case read_file root src of
        None \<Rightarrow> None
      | Some d \<Rightarrow> if lookup root dst \<noteq> None then None else write_file dst d root)"

section \<open>Well-formed trees\<close>

definition name_ok :: "string \<Rightarrow> bool" where
  "name_ok s \<longleftrightarrow> s \<noteq> [] \<and> CHR ''/'' \<notin> set s"

fun wf_node :: "fs_node \<Rightarrow> bool" where
  "wf_node (File d) = True"
| "wf_node (Dir es) = (bt_wf es \<and> list_all (\<lambda>(s, n). name_ok s \<and> wf_node n) es)"

lemma wf_node_entry: "wf_node (Dir es) \<Longrightarrow> bt_get es p = Some n \<Longrightarrow> name_ok p \<and> wf_node n"
  by (auto simp: list_all_iff dest!: bt_get_in_set)

lemma list_all_bt_insert: "list_all P m \<Longrightarrow> P (k, v) \<Longrightarrow> list_all P (bt_insert k v m)"
  by (induction m) auto

lemma wf_insert: "wf_node (Dir es) \<Longrightarrow> name_ok p \<Longrightarrow> wf_node n \<Longrightarrow> wf_node (Dir (bt_insert p n es))"
  by (simp add: bt_wf_insert list_all_bt_insert)

lemma wf_set_entry:
  "wf_node (Dir es) \<Longrightarrow> name_ok p \<Longrightarrow> (\<And>n. x = Some n \<Longrightarrow> wf_node n) \<Longrightarrow> wf_node (Dir (set_entry p x es))"
proof (cases x)
  case None
  assume "wf_node (Dir es)"
  then have "bt_wf (bt_remove p es)" and "list_all (\<lambda>(s, n). name_ok s \<and> wf_node n) (bt_remove p es)"
    using bt_wf_remove [of es p] by (simp, auto simp: bt_remove_def list_all_iff)
  with None show ?thesis by (simp add: set_entry_def)
next
  case (Some n)
  assume "wf_node (Dir es)" and "name_ok p" and "\<And>n. x = Some n \<Longrightarrow> wf_node n"
  with Some show ?thesis unfolding set_entry_def by (simp add: bt_wf_insert list_all_bt_insert)
qed

lemma wf_set_node:
  "wf_node n \<Longrightarrow> list_all name_ok ps \<Longrightarrow> (\<And>m. x = Some m \<Longrightarrow> wf_node m) \<Longrightarrow> wf_node (set_node ps x n)"
proof (induction ps x n rule: set_node.induct)
  case (3 p x es)
  then show ?case using wf_set_entry by auto
next
  case (4 p q ps x es)
  then show ?case using wf_node_entry [OF "4.prems"(1)] wf_insert [OF "4.prems"(1)]
    by (auto split: option.split)
qed auto

lemma wf_create_dir_all:
  "wf_node n \<Longrightarrow> list_all name_ok ps \<Longrightarrow> create_dir_all ps n = Some n' \<Longrightarrow> wf_node n'"
proof (induction ps n arbitrary: n' rule: create_dir_all.induct)
  case (3 p ps es)
  then obtain m where m: "create_dir_all ps (case bt_get es p of None \<Rightarrow> Dir [] | Some n \<Rightarrow> n) = Some m"
    and n': "n' = Dir (bt_insert p m es)" by auto
  have "wf_node (case bt_get es p of None \<Rightarrow> Dir [] | Some n \<Rightarrow> n)"
    using wf_node_entry [OF "3.prems"(1)] by (auto simp: bt_wf_def split: option.split)
  with 3 m have "wf_node m" by auto
  with "3.prems" n' show ?case using wf_insert by auto
qed (auto split: fs_node.splits)

lemma wf_lookup: "wf_node n \<Longrightarrow> lookup n ps = Some m \<Longrightarrow> wf_node m"
proof (induction n ps rule: lookup.induct)
  case (3 es p ps)
  then show ?case using wf_node_entry [OF "3.prems"(1)] by (auto split: option.splits)
qed auto

section \<open>What the operations do to the files\<close>

lemma lookup_append: "lookup n (ps @ qs) = Option.bind (lookup n ps) (\<lambda>m. lookup m qs)"
  by (induction n ps rule: lookup.induct) (auto split: option.split)

lemma read_file_append: "lookup n ps = Some m \<Longrightarrow> read_file n (ps @ qs) = read_file m qs"
  by (simp add: read_file_def lookup_append)

lemma read_file_File [simp]: "read_file (File d) q = (if q = [] then Some d else None)"
  by (cases q) (auto simp: read_file_def)

lemma read_file_root_Dir [simp]: "read_file (Dir es) [] = None"
  by (simp add: read_file_def)

lemma read_file_Cons:
  "read_file (Dir es) (p # q) = (case bt_get es p of None \<Rightarrow> None | Some n \<Rightarrow> read_file n q)"
  by (auto simp: read_file_def split: option.split)

lemma read_file_set_node:
  "lookup n ps = Some (Dir es) \<Longrightarrow>
    read_file (set_node (ps @ [p]) x n) q =
      (if prefix (ps @ [p]) q
       then Option.bind x (\<lambda>m. read_file m (drop (Suc (length ps)) q)) else read_file n q)"
proof (induction ps arbitrary: n q)
  case Nil
  then have n: "n = Dir es" by simp
  show ?case
    by (cases q) (auto simp: n read_file_Cons set_entry_def bt_get_insert bt_get_remove split: option.split)
next
  case (Cons a ps)
  then obtain fs m where n: "n = Dir fs" and m: "bt_get fs a = Some m" and l: "lookup m ps = Some (Dir es)"
    by (cases n) (auto split: option.splits)
  obtain b bs where bs: "ps @ [p] = b # bs" by (cases "ps @ [p]") auto
  have sn: "set_node (a # ps @ [p]) x n = Dir (bt_insert a (set_node (ps @ [p]) x m) fs)"
    by (simp add: n m bs)
  show ?case
  proof (cases q)
    case (Cons c cs)
    have "read_file (set_node (a # ps @ [p]) x n) q =
        (if a = c then read_file (set_node (ps @ [p]) x m) cs else read_file n q)"
      by (simp only: sn) (simp add: n read_file_Cons bt_get_insert Cons)
    then show ?thesis
      using Cons.IH [OF l, of cs] m by (auto simp: Cons n read_file_Cons)
  qed (simp only: sn append_Cons, simp add: n)
qed

lemma parent_is_dirE:
  assumes "parent_is_dir root p"
  obtains ps s es where "p = ps @ [s]" and "lookup root ps = Some (Dir es)"
  using assms by (cases p rule: rev_cases) (auto simp: parent_is_dir_def is_dir_def split: option.splits fs_node.splits)

lemma read_file_below:
  "\<not> is_dir (lookup root p) \<Longrightarrow> strict_prefix p q \<Longrightarrow> read_file root q = None"
  by (auto simp: strict_prefix_def prefix_def read_file_def lookup_append is_dir_def
      split: option.splits fs_node.splits bind_splits elim: lookup.elims)

text \<open>Setting a file where there is no directory changes that file only.\<close>

lemma read_file_set_file:
  assumes "parent_is_dir root p" and "\<not> is_dir (lookup root p)"
  shows "read_file (set_node p (Some (File d)) root) q = (if q = p then Some d else read_file root q)"
proof -
  obtain ps s es where p: "p = ps @ [s]" and l: "lookup root ps = Some (Dir es)"
    using assms(1) by (rule parent_is_dirE)
  have "drop (Suc (length ps)) q = [] \<longleftrightarrow> q = p" if "prefix p q"
    using that by (auto simp: p prefix_def)
  then show ?thesis
    using read_file_set_node [OF l, of s "Some (File d)" q] read_file_below [OF assms(2), of q]
    by (auto simp: p [symmetric] strict_prefix_def)
qed

lemma read_file_remove:
  assumes "parent_is_dir root p"
  shows "read_file (remove_node p root) q = (if prefix p q then None else read_file root q)"
  using parent_is_dirE [OF assms] read_file_set_node unfolding remove_node_def
  by (metis bind.bind_lzero)

lemma read_file_create_dir_all:
  "create_dir_all ps n = Some n' \<Longrightarrow>
    read_file n' q = read_file n q \<and> is_dir (lookup n' ps)"
proof (induction ps n arbitrary: n' q rule: create_dir_all.induct)
  case (3 p ps es)
  let ?m = "case bt_get es p of None \<Rightarrow> Dir [] | Some n \<Rightarrow> n"
  from 3 obtain m where m: "create_dir_all ps ?m = Some m" and n': "n' = Dir (bt_insert p m es)" by auto
  have empty: "read_file (Dir []) r = None" for r
    by (cases r) (auto simp: read_file_Cons bt_get_def)
  from "3.IH" [OF m] show ?case
    by (cases q) (auto simp: n' read_file_Cons bt_get_insert empty split: option.split)
qed (auto simp: is_dir_def split: fs_node.splits)

lemma lookup_parent: "lookup root (ps @ [s]) \<noteq> None \<Longrightarrow> parent_is_dir root (ps @ [s])"
  by (auto simp: parent_is_dir_def lookup_append is_dir_def split: bind_splits fs_node.splits)

lemma read_file_lookup: "read_file root p \<noteq> None \<Longrightarrow> lookup root p \<noteq> None \<and> \<not> is_dir (lookup root p)"
  by (auto simp: read_file_def is_dir_def split: option.splits fs_node.splits)

lemma write_file_Some:
  assumes "write_file p d root = Some root'"
  shows "read_file root' q = (if q = p then Some d else read_file root q)"
    and "wf_node root \<Longrightarrow> list_all name_ok p \<Longrightarrow> wf_node root'"
  using assms read_file_set_file [of root p] wf_set_node [of root p "Some (File d)"]
  by (auto simp: write_file_def split: if_splits)

lemma wf_remove_node: "wf_node root \<Longrightarrow> list_all name_ok p \<Longrightarrow> wf_node (remove_node p root)"
  unfolding remove_node_def by (rule wf_set_node) auto

end
