(* ===== verification/Object_Store.thy ===== *)
theory Object_Store
  imports Effects
begin

text \<open>
  The trait \<open>ObjectStore\<close> of \<open>object_store.rs\<close>: a record of operations on a world \<open>'w\<close>,
  the trait object the runtime holds, and the contract its clients rely on, the locale
  \<open>object_store_contract\<close>. The contract is stated over the objects a world holds, for the
  keys a store accepts; it lets any operation fail, and a failed write may or may not have
  happened. \<open>Local_Store\<close> and \<open>S3_Store\<close> provide it.
\<close>

record object_meta =
  meta_key :: string
  meta_len :: nat

record 'w object_store =
  os_describe :: "string \<Rightarrow> 'w \<Rightarrow> string"
  os_exists :: "string \<Rightarrow> ('w, string, bool) action"
  os_read_bytes :: "string \<Rightarrow> ('w, string, bytes) action"
  os_len :: "string \<Rightarrow> ('w, string, nat option) action"
  os_put_bytes :: "string \<Rightarrow> bytes \<Rightarrow> ('w, string, unit) action"
  os_put_bytes_if_absent :: "string \<Rightarrow> bytes \<Rightarrow> ('w, string, bool) action"
  os_put_file :: "string \<Rightarrow> bytes option \<Rightarrow> ('w, string, unit) action"
    \<comment> \<open>the source file is its content, \<open>None\<close> when it cannot be read\<close>
  os_delete :: "string \<Rightarrow> ('w, string, unit) action"
  os_delete_prefix :: "string \<Rightarrow> ('w, string, unit) action"
  os_list_prefix :: "string \<Rightarrow> ('w, string, object_meta list) action"

text \<open>The default method of the trait: check, then write.\<close>

definition default_put_bytes_if_absent ::
    "'w object_store \<Rightarrow> string \<Rightarrow> bytes \<Rightarrow> ('w, string, bool) action" where
  "default_put_bytes_if_absent st key data =
     abind (os_exists st key) (\<lambda>there.
       if there then aret False
       else abind (os_put_bytes st key data) (\<lambda>_. aret True))"

text \<open>\<open>out.sort_by(|a, b| a.key.cmp(&b.key))\<close>.\<close>

definition sort_metas :: "object_meta list \<Rightarrow> object_meta list" where
  "sort_metas ms = sort_key meta_key ms"

section \<open>The contract\<close>

type_synonym objects = "string \<Rightarrow> bytes option"

text \<open>A key below a prefix, with the slash between them.\<close>

definition below :: "string \<Rightarrow> string \<Rightarrow> bool" where
  "below p k \<longleftrightarrow> prefix (trim_end_char (CHR ''/'') p @ ''/'') k"

definition removed_only :: "(string \<Rightarrow> bool) \<Rightarrow> objects \<Rightarrow> objects \<Rightarrow> bool" where
  "removed_only P m m' \<longleftrightarrow> (\<forall>k. m' k = m k \<or> (P k \<and> m' k = None))"

locale object_store_contract =
  fixes st :: "'w object_store"
    and objs :: "'w \<Rightarrow> objects"
    and key_ok :: "string \<Rightarrow> bool"
    and inv :: "'w \<Rightarrow> bool"
  assumes objs_ok: "inv w \<Longrightarrow> objs w k \<noteq> None \<Longrightarrow> key_ok k"
    and exists_law: "\<And>k w r w'. os_exists st k w = (r, w') \<Longrightarrow> key_ok k \<Longrightarrow> inv w \<Longrightarrow>
      inv w' \<and> (objs w' = objs w \<and> (\<forall>b. r = Inr b \<longrightarrow> objs w k \<noteq> None \<longrightarrow> b))"
    and read_law: "\<And>k w r w'. os_read_bytes st k w = (r, w') \<Longrightarrow> key_ok k \<Longrightarrow> inv w \<Longrightarrow>
      inv w' \<and> (objs w' = objs w \<and> (\<forall>d. r = Inr d \<longrightarrow> objs w k = Some d))"
    and len_law: "\<And>k w r w'. os_len st k w = (r, w') \<Longrightarrow> key_ok k \<Longrightarrow> inv w \<Longrightarrow>
      inv w' \<and> (objs w' = objs w \<and> (\<forall>n d. r = Inr (Some n) \<longrightarrow> objs w k = Some d \<longrightarrow> n = length d))"
    and put_law: "\<And>k d w r w'. os_put_bytes st k d w = (r, w') \<Longrightarrow> key_ok k \<Longrightarrow> inv w \<Longrightarrow>
      inv w' \<and> (objs w' = (objs w)(k \<mapsto> d) \<or> (is_ok r = False \<and> objs w' = objs w))"
    and put_if_absent_law: "\<And>k d w r w'. os_put_bytes_if_absent st k d w = (r, w') \<Longrightarrow> key_ok k \<Longrightarrow> inv w \<Longrightarrow>
      inv w' \<and> ((objs w k = None \<and> objs w' = (objs w)(k \<mapsto> d)) \<or> (objs w' = objs w \<and> r \<noteq> Inr True))"
    and put_file_law: "\<And>k src w r w'. os_put_file st k src w = (r, w') \<Longrightarrow> key_ok k \<Longrightarrow> inv w \<Longrightarrow>
      inv w' \<and> ((\<exists>d. src = Some d \<and> objs w' = (objs w)(k \<mapsto> d)) \<or> (is_ok r = False \<and> objs w' = objs w))"
    and delete_law: "\<And>k w r w'. os_delete st k w = (r, w') \<Longrightarrow> key_ok k \<Longrightarrow> inv w \<Longrightarrow>
      inv w' \<and> (removed_only (\<lambda>l. l = k \<or> (objs w k = None \<and> below k l)) (objs w) (objs w')
      \<and> (is_ok r \<longrightarrow> objs w' k = None))"
    and delete_prefix_law: "\<And>p w r w'. os_delete_prefix st p w = (r, w') \<Longrightarrow> inv w \<Longrightarrow>
      inv w' \<and> (removed_only (prefix (trim_end_char (CHR ''/'') p)) (objs w) (objs w')
      \<and> (is_ok r \<longrightarrow> (\<forall>k. below p k \<longrightarrow> objs w' k = None)))"
    and list_law: "\<And>p w r w'. os_list_prefix st p w = (r, w') \<Longrightarrow> inv w \<Longrightarrow>
      inv w' \<and> (objs w' = objs w \<and> (\<forall>ms. r = Inr ms \<longrightarrow>
        sorted_wrt (<) (map meta_key ms)
        \<and> (\<forall>m \<in> set ms. key_ok (meta_key m) \<longrightarrow>
             (\<exists>d. objs w (meta_key m) = Some d \<and> meta_len m = length d))
        \<and> (\<forall>k. below p k \<and> objs w k \<noteq> None \<longrightarrow> k \<in> meta_key ` set ms)))"
begin

lemma put_then_read:
  assumes "os_put_bytes st k d w = (Inr (), w1)" and "key_ok k" and "inv w"
    and "os_read_bytes st k w1 = (Inr d', w2)"
  shows "d' = d"
  using put_law [OF assms(1-3)] read_law [OF assms(4,2)] by auto

lemma put_other:
  assumes "os_put_bytes st k d w = (r, w')" and "key_ok k" and "inv w" and "l \<noteq> k"
  shows "objs w' l = objs w l"
  using put_law [OF assms(1-3)] assms(4) by auto

lemma delete_other:
  assumes "os_delete st k w = (r, w')" and "key_ok k" and "inv w" and "l \<noteq> k"
    and "objs w k \<noteq> None \<or> \<not> below k l"
  shows "objs w' l = objs w l"
  using delete_law [OF assms(1-3)] assms(4,5) by (auto simp: removed_only_def)

text \<open>A key is created by at most one of two conditional writes.\<close>

lemma put_if_absent_once:
  assumes "os_put_bytes_if_absent st k d w = (Inr True, w1)" and "key_ok k" and "inv w"
    and "objs w2 k = objs w1 k" and "inv w2" and "os_put_bytes_if_absent st k d' w2 = (r, w3)"
  shows "r \<noteq> Inr True \<and> objs w3 k = Some d"
  using put_if_absent_law [OF assms(1-3)] put_if_absent_law [OF assms(6,2,5)] assms(4) by auto

end

end
