(* ===== verification/Local_Store.thy ===== *)
theory Local_Store
  imports File_System Object_Store Text_Codec
begin

text \<open>
  \<open>LocalObjectStore\<close> of \<open>object_store.rs\<close>: one file per object below a base directory,
  written to a temporary name and renamed (or linked, for a conditional write). The world is
  the directory tree and the counter of temporary names; the process id, the clock of the
  temporary names and the text of the operating system's errors belong to the store.
\<close>

record local_store =
  base_dir :: fs_path
  process_id :: nat
  now_nanos :: "nat \<Rightarrow> nat"
  io_error :: string

record local_world =
  fs_root :: fs_node
  next_temp_id :: nat

section \<open>Paths\<close>

definition normalize_without_existing_check :: "fs_path \<Rightarrow> fs_path" where
  "normalize_without_existing_check path =
     foldl (\<lambda>out c. if c = ''.'' then out else if c = ''..'' then butlast out else out @ [c]) [] path"

definition local_path :: "local_store \<Rightarrow> string \<Rightarrow> string + fs_path" where
  "local_path ls key =
     (let parts = split_on (CHR ''/'') key
      in if list_ex (\<lambda>part. part = [] \<or> part = ''.'' \<or> part = ''..'') parts
         then Inl (''invalid object key: '' @ key)
         else let path = base_dir ls @ parts;
                  normalized = normalize_without_existing_check path
              in if normalized \<noteq> base_dir ls \<and> \<not> prefix (base_dir ls) normalized
                 then Inl ''object store path escapes base directory''
                 else Inr path)"

definition unique_temp_suffix :: "local_store \<Rightarrow> (local_world, string, string) action" where
  "unique_temp_suffix ls w =
     (Inr (show_nat (process_id ls) @ ''-'' @ show_nat (now_nanos ls (next_temp_id w)) @ ''-''
           @ show_nat (next_temp_id w)),
      w\<lparr>next_temp_id := wrapping_add (next_temp_id w) 1\<rparr>)"

text \<open>A call into \<open>std::fs\<close> that changes the tree or fails.\<close>

definition fs_call :: "local_store \<Rightarrow> (fs_node \<Rightarrow> fs_node option) \<Rightarrow> (local_world, string, unit) action" where
  "fs_call ls f w =
     (case f (fs_root w) of
        None \<Rightarrow> (Inl (io_error ls), w)
      | Some root \<Rightarrow> (Inr (), w\<lparr>fs_root := root\<rparr>))"

text \<open>\<open>dest.with_file_name(name)\<close>.\<close>

definition with_file_name :: "fs_path \<Rightarrow> string \<Rightarrow> fs_path" where
  "with_file_name dest name = butlast dest @ [name]"

section \<open>Operations\<close>

definition local_describe :: "local_store \<Rightarrow> string \<Rightarrow> local_world \<Rightarrow> string" where
  "local_describe ls key w =
     (case local_path ls key of
        Inr path \<Rightarrow> ''/'' @ join ''/'' path
      | Inl e \<Rightarrow> ''local://invalid/'' @ key)"

definition local_exists :: "local_store \<Rightarrow> string \<Rightarrow> (local_world, string, bool) action" where
  "local_exists ls key =
     abind (alift (local_path ls key)) (\<lambda>path. aget (\<lambda>w. lookup (fs_root w) path \<noteq> None))"

definition local_read_bytes :: "local_store \<Rightarrow> string \<Rightarrow> (local_world, string, bytes) action" where
  "local_read_bytes ls key =
     abind (alift (local_path ls key)) (\<lambda>path w.
       (ok_or (io_error ls) (read_file (fs_root w) path), w))"

text \<open>\<open>dir_len\<close> is the length the system reports for a directory.\<close>

definition local_len :: "nat \<Rightarrow> local_store \<Rightarrow> string \<Rightarrow> (local_world, string, nat option) action" where
  "local_len dir_len ls key =
     abind (alift (local_path ls key)) (\<lambda>path. aget (\<lambda>w.
       case lookup (fs_root w) path of
         None \<Rightarrow> None | Some (File d) \<Rightarrow> Some (length d) | Some (Dir es) \<Rightarrow> Some dir_len))"

definition local_put_bytes :: "local_store \<Rightarrow> string \<Rightarrow> bytes \<Rightarrow> (local_world, string, unit) action" where
  "local_put_bytes ls key data =
     abind (alift (local_path ls key)) (\<lambda>dest.
     athen (fs_call ls (create_dir_all (butlast dest)))
     (abind (unique_temp_suffix ls) (\<lambda>sfx.
       let tmp = with_file_name dest (''.'' @ last dest @ ''.tmp-'' @ sfx)
       in athen (fs_call ls (write_file tmp data)) (fs_call ls (rename_file tmp dest)))))"

definition local_put_bytes_if_absent ::
    "local_store \<Rightarrow> string \<Rightarrow> bytes \<Rightarrow> (local_world, string, bool) action" where
  "local_put_bytes_if_absent ls key data =
     abind (alift (local_path ls key)) (\<lambda>dest.
     athen (fs_call ls (create_dir_all (butlast dest)))
     (abind (unique_temp_suffix ls) (\<lambda>sfx.
       let tmp = with_file_name dest
             (''.'' @ last dest @ ''.create-if-absent-'' @ show_nat (process_id ls) @ ''-'' @ sfx)
       in athen (fs_call ls (write_file tmp data))
          (\<lambda>w. if lookup (fs_root w) dest \<noteq> None
               then (Inr False, w\<lparr>fs_root := remove_node tmp (fs_root w)\<rparr>)
               else (case hard_link tmp dest (fs_root w) of
                       Some root \<Rightarrow> (Inr True, w\<lparr>fs_root := remove_node tmp root\<rparr>)
                     | None \<Rightarrow> (Inl (io_error ls), w\<lparr>fs_root := remove_node tmp (fs_root w)\<rparr>))))))"

definition local_put_file :: "local_store \<Rightarrow> string \<Rightarrow> bytes option \<Rightarrow> (local_world, string, unit) action" where
  "local_put_file ls key source =
     abind (alift (local_path ls key)) (\<lambda>dest.
     athen (fs_call ls (create_dir_all (butlast dest)))
     (abind (unique_temp_suffix ls) (\<lambda>sfx.
       let tmp = with_file_name dest (''.'' @ last dest @ ''.tmp-'' @ sfx)
       in abind (alift (ok_or (io_error ls) source)) (\<lambda>data.
          athen (fs_call ls (write_file tmp data)) (fs_call ls (rename_file tmp dest))))))"

definition local_delete :: "local_store \<Rightarrow> string \<Rightarrow> (local_world, string, unit) action" where
  "local_delete ls key =
     abind (alift (local_path ls key)) (\<lambda>path w.
       if lookup (fs_root w) path \<noteq> None
       then (Inr (), w\<lparr>fs_root := remove_node path (fs_root w)\<rparr>)
       else (Inr (), w))"

definition local_delete_prefix :: "local_store \<Rightarrow> string \<Rightarrow> (local_world, string, unit) action" where
  "local_delete_prefix ls p =
     abind (alift (local_path ls (trim_end_char (CHR ''/'') p))) (\<lambda>path w.
       case lookup (fs_root w) path of
         None \<Rightarrow> (Inr (), w)
       | Some (File d) \<Rightarrow> (Inl (io_error ls), w)
       | Some (Dir es) \<Rightarrow> (Inr (), w\<lparr>fs_root := remove_node path (fs_root w)\<rparr>))"

fun collect_local_objects :: "fs_node \<Rightarrow> string \<Rightarrow> object_meta list" where
  "collect_local_objects (File d) p = [\<lparr>meta_key = p, meta_len = length d\<rparr>]"
| "collect_local_objects (Dir es) p =
     concat (map (\<lambda>(name, n).
       collect_local_objects n (trim_end_char (CHR ''/'') p @ ''/'' @ name)) es)"

definition local_list_prefix :: "local_store \<Rightarrow> string \<Rightarrow> (local_world, string, object_meta list) action" where
  "local_list_prefix ls p =
     (let prefix = trim_end_char (CHR ''/'') p
      in abind (alift (local_path ls prefix)) (\<lambda>root. aget (\<lambda>w.
           case lookup (fs_root w) root of
             None \<Rightarrow> []
           | Some n \<Rightarrow> sort_metas (collect_local_objects n prefix))))"

definition local_object_store :: "nat \<Rightarrow> local_store \<Rightarrow> local_world object_store" where
  "local_object_store dir_len ls =
     \<lparr>os_describe = local_describe ls, os_exists = local_exists ls, os_read_bytes = local_read_bytes ls,
      os_len = local_len dir_len ls, os_put_bytes = local_put_bytes ls,
      os_put_bytes_if_absent = local_put_bytes_if_absent ls, os_put_file = local_put_file ls,
      os_delete = local_delete ls, os_delete_prefix = local_delete_prefix ls,
      os_list_prefix = local_list_prefix ls\<rparr>"

section \<open>The objects of a tree\<close>

definition local_key_ok :: "string \<Rightarrow> bool" where
  "local_key_ok key \<longleftrightarrow> list_all (\<lambda>part. part \<noteq> [] \<and> hd part \<noteq> CHR ''.'') (split_on (CHR ''/'') key)"

definition object_path :: "local_store \<Rightarrow> string \<Rightarrow> fs_path" where
  "object_path ls key = base_dir ls @ split_on (CHR ''/'') key"

definition local_objects :: "local_store \<Rightarrow> local_world \<Rightarrow> objects" where
  "local_objects ls w key =
     (if local_key_ok key then read_file (fs_root w) (object_path ls key) else None)"

definition local_inv :: "local_store \<Rightarrow> local_world \<Rightarrow> bool" where
  "local_inv ls w \<longleftrightarrow> wf_node (fs_root w) \<and> list_all name_ok (base_dir ls)"

section \<open>Keys and paths\<close>

lemma split_on_append_sep: "split_on c (a @ c # r) = split_on c a @ split_on c r"
  by (induction a) (auto split: list.split)

lemma join_append: "xs \<noteq> [] \<Longrightarrow> ys \<noteq> [] \<Longrightarrow> join s (xs @ ys) = join s xs @ s @ join s ys"
proof (induction s xs rule: join.induct)
  case (2 s x)
  then show ?case by (cases ys) auto
qed auto

lemma split_on_prefix: "prefix (split_on c a) (split_on c l) \<longleftrightarrow> l = a \<or> prefix (a @ [c]) l"
proof
  assume "prefix (split_on c a) (split_on c l)"
  then obtain r where r: "split_on c l = split_on c a @ r" by (auto simp: prefix_def)
  show "l = a \<or> prefix (a @ [c]) l"
  proof (cases "r = []")
    case True
    with r split_on_inject show ?thesis by fastforce
  next
    case False
    have "l = join [c] (split_on c l)" by (simp add: join_split_on)
    also have "\<dots> = a @ [c] @ join [c] r" by (simp add: r join_append False join_split_on)
    finally show ?thesis by simp
  qed
qed (auto simp: prefix_def split_on_append_sep)

lemma local_path_Inr:
  assumes "local_path ls key = Inr path"
  shows "path = object_path ls key" and "list_all name_ok (split_on (CHR ''/'') key)"
  using assms split_on_pieces [of _ "CHR ''/''" key]
  by (auto simp: local_path_def object_path_def Let_def list_all_iff list_ex_iff name_ok_def split: if_splits)

lemma object_path_inject [simp]: "object_path ls k = object_path ls l \<longleftrightarrow> k = l"
  using split_on_inject by (auto simp: object_path_def)

lemma object_path_prefix:
  "prefix (object_path ls k) (object_path ls l) \<longleftrightarrow> l = k \<or> prefix (k @ ''/'') l"
  by (simp add: object_path_def split_on_prefix)

lemma object_path_nonempty [simp]: "object_path ls k \<noteq> []"
  by (simp add: object_path_def)

lemma hidden_path:
  assumes "local_key_ok k" and "hd t = CHR ''.''"
  shows "\<not> prefix (with_file_name (object_path ls key) t) (object_path ls k)"
proof
  assume "prefix (with_file_name (object_path ls key) t) (object_path ls k)"
  then have "t \<in> set (split_on (CHR ''/'') k)"
    by (auto simp: with_file_name_def object_path_def butlast_append prefix_def)
  with assms show False by (auto simp: local_key_ok_def list_all_iff)
qed

lemma local_key_ok_trim: "local_key_ok k \<Longrightarrow> trim_end_char (CHR ''/'') k = k"
proof (cases k rule: rev_cases)
  case (snoc s c)
  assume "local_key_ok k"
  then have "c \<noteq> CHR ''/''"
    using split_on_append_sep [of c s "[]"] snoc by (auto simp: local_key_ok_def)
  with snoc show ?thesis by (simp add: trim_end_char_def)
qed (simp add: trim_end_char_def)

section \<open>Steps of the operations\<close>

lemma fs_call_cases:
  assumes "fs_call ls f w = (r, w')"
  obtains root where "f (fs_root w) = Some root" "r = Inr ()" "w' = w\<lparr>fs_root := root\<rparr>"
  | "f (fs_root w) = None" "r = Inl (io_error ls)" "w' = w"
  using assms by (auto simp: fs_call_def split: option.splits)

definition same_objects :: "local_store \<Rightarrow> local_world \<Rightarrow> local_world \<Rightarrow> bool" where
  "same_objects ls w w' \<longleftrightarrow>
     (local_inv ls w \<longrightarrow> local_inv ls w') \<and> local_objects ls w' = local_objects ls w"

lemma mkdir_same:
  assumes "fs_call ls (create_dir_all (butlast (object_path ls k))) w = (r, w')"
    and "list_all name_ok (split_on (CHR ''/'') k)"
  shows "same_objects ls w w'"
  using assms(1)
proof (cases rule: fs_call_cases)
  case (1 root)
  have "local_inv ls w \<Longrightarrow> list_all name_ok (butlast (object_path ls k))"
    using assms(2) by (auto simp: local_inv_def object_path_def list_all_iff dest!: in_set_butlastD)
  then show ?thesis
    using 1 read_file_create_dir_all [OF 1(1)] wf_create_dir_all [OF _ _ 1(1)]
    by (auto simp: same_objects_def local_inv_def local_objects_def fun_eq_iff)
qed (simp add: same_objects_def)

lemma temp_same: "unique_temp_suffix ls w = (r, w') \<Longrightarrow> same_objects ls w w'"
  by (auto simp: unique_temp_suffix_def same_objects_def local_inv_def local_objects_def)

text \<open>A temporary name: hidden, and a name.\<close>

definition temp_name :: "string \<Rightarrow> bool" where
  "temp_name t \<longleftrightarrow> hd t = CHR ''.'' \<and> name_ok t"

lemma name_ok_with_file_name:
  assumes "local_inv ls w" and "list_all name_ok (split_on (CHR ''/'') k)" and "temp_name t"
  shows "list_all name_ok (with_file_name (object_path ls k) t)"
  using assms
  by (auto simp: local_inv_def with_file_name_def object_path_def temp_name_def list_all_iff butlast_append
      dest: in_set_butlastD)

lemma write_temp_same:
  assumes "fs_call ls (write_file (with_file_name (object_path ls k) t) d) w = (r, w')"
    and "list_all name_ok (split_on (CHR ''/'') k)" and "temp_name t"
  shows "same_objects ls w w'"
  using assms(1)
proof (cases rule: fs_call_cases)
  case (1 root)
  note wf = write_file_Some [OF 1(1)]
  have "object_path ls l \<noteq> with_file_name (object_path ls k) t" if "local_key_ok l" for l
    using hidden_path [OF that] assms(3) by (metis prefix_order.refl temp_name_def)
  then show "same_objects ls w w'"
    using 1 wf(1) wf(2) name_ok_with_file_name [OF _ assms(2,3)]
    by (auto simp: same_objects_def local_inv_def local_objects_def fun_eq_iff)
qed (simp_all add: same_objects_def)

lemma write_temp_read:
  "fs_call ls (write_file p d) w = (Inr (), w') \<Longrightarrow> read_file (fs_root w') p = Some d"
  by (erule fs_call_cases) (auto simp: write_file_Some(1))

lemma remove_temp_same:
  assumes "read_file (fs_root w) (with_file_name (object_path ls k) t) \<noteq> None"
    and "list_all name_ok (split_on (CHR ''/'') k)" and "temp_name t"
  shows "same_objects ls w (w\<lparr>fs_root := remove_node (with_file_name (object_path ls k) t) (fs_root w)\<rparr>)"
proof -
  have "parent_is_dir (fs_root w) (with_file_name (object_path ls k) t)"
    using read_file_lookup [OF assms(1)] lookup_parent by (simp add: with_file_name_def)
  from read_file_remove [OF this] show ?thesis
    using hidden_path [of _ t ls k] assms(3) wf_remove_node name_ok_with_file_name [OF _ assms(2,3)]
    by (auto simp: same_objects_def local_inv_def local_objects_def fun_eq_iff temp_name_def)
qed

lemma same_objects_trans: "same_objects ls w w' \<Longrightarrow> same_objects ls w' w'' \<Longrightarrow> same_objects ls w w''"
  by (auto simp: same_objects_def)

lemma write_object:
  assumes "write_file (object_path ls k) d (fs_root w) = Some root"
    and "list_all name_ok (split_on (CHR ''/'') k)" and "local_key_ok k" and "local_inv ls w"
  shows "local_inv ls (w\<lparr>fs_root := root\<rparr>)"
    and "local_objects ls (w\<lparr>fs_root := root\<rparr>) = (local_objects ls w)(k \<mapsto> d)"
proof -
  note wf = write_file_Some [OF assms(1)]
  have "list_all name_ok (object_path ls k)"
    using assms(2,4) by (simp add: local_inv_def object_path_def)
  then show "local_inv ls (w\<lparr>fs_root := root\<rparr>)" using wf(2) assms(4) by (simp add: local_inv_def)
  show "local_objects ls (w\<lparr>fs_root := root\<rparr>) = (local_objects ls w)(k \<mapsto> d)"
    using assms(3) wf(1) by (auto simp: local_objects_def fun_eq_iff)
qed

lemma rename_object:
  assumes "fs_call ls (rename_file (with_file_name (object_path ls k) t) (object_path ls k)) w = (r, w')"
    and "read_file (fs_root w) (with_file_name (object_path ls k) t) = Some d"
    and "list_all name_ok (split_on (CHR ''/'') k)" and "temp_name t" and "local_key_ok k" and "local_inv ls w"
  shows "local_inv ls w' \<and> (local_objects ls w' = (local_objects ls w)(k \<mapsto> d)
    \<or> (is_ok r = False \<and> local_objects ls w' = local_objects ls w))"
  using assms(1)
proof (cases rule: fs_call_cases)
  case (1 root)
  let ?u = "w\<lparr>fs_root := remove_node (with_file_name (object_path ls k) t) (fs_root w)\<rparr>"
  have "same_objects ls w ?u" using remove_temp_same [OF _ assms(3,4)] assms(2) by simp
  moreover have "write_file (object_path ls k) d (fs_root ?u) = Some root"
    using 1(1) assms(2) by (simp add: rename_file_def)
  ultimately show ?thesis
    using write_object [of ls k d ?u root] assms(3,5,6) 1(3) by (simp add: same_objects_def)
qed (use assms(6) in simp)

section \<open>The contract\<close>

lemma digits_no_slash: "CHR ''/'' \<notin> set (show_nat n)"
  using show_nat_digits [of n] by (auto simp: list_all_iff is_ascii_digit_def code_def)

lemma temp_suffix_no_slash: "unique_temp_suffix ls w = (Inr sfx, w') \<Longrightarrow> CHR ''/'' \<notin> set sfx"
  by (auto simp: unique_temp_suffix_def digits_no_slash)

lemma temp_nameI: "name_ok s \<Longrightarrow> CHR ''/'' \<notin> set r \<Longrightarrow> temp_name (''.'' @ s @ r)"
  by (auto simp: temp_name_def name_ok_def)

lemma last_name_ok: "list_all name_ok (split_on (CHR ''/'') k) \<Longrightarrow> name_ok (last (object_path ls k))"
  by (simp add: object_path_def list_all_iff)

definition wrote :: "local_store \<Rightarrow> string \<Rightarrow> bytes \<Rightarrow> local_world \<Rightarrow> string + unit \<Rightarrow> local_world \<Rightarrow> bool" where
  "wrote ls k d w r w' \<longleftrightarrow> local_inv ls w' \<and> (local_objects ls w' = (local_objects ls w)(k \<mapsto> d)
     \<or> (is_ok r = False \<and> local_objects ls w' = local_objects ls w))"

lemma wrote_after: "same_objects ls w w1 \<Longrightarrow> wrote ls k d w1 r w' \<Longrightarrow> wrote ls k d w r w'"
  by (simp add: wrote_def same_objects_def)

lemma wrote_nothing: "same_objects ls w w' \<Longrightarrow> local_inv ls w \<Longrightarrow> wrote ls k d w (Inl e) w'"
  by (simp add: wrote_def same_objects_def)

lemma write_rename:
  assumes "athen (fs_call ls (write_file (with_file_name (object_path ls k) t) d))
      (fs_call ls (rename_file (with_file_name (object_path ls k) t) (object_path ls k))) w = (r, w')"
    and nm: "list_all name_ok (split_on (CHR ''/'') k)" "temp_name t" "local_key_ok k" and inv: "local_inv ls w"
  shows "wrote ls k d w r w'"
  using assms(1)
proof (cases rule: athen_elim)
  case (err e)
  from write_temp_same [OF err(1) nm(1,2)] err(2) inv show ?thesis by (simp add: wrote_nothing)
next
  case (ok x w1)
  from write_temp_same [OF ok(1) nm(1,2)] have s: "same_objects ls w w1" .
  with inv have "local_inv ls w1" by (simp add: same_objects_def)
  from rename_object [OF ok(2) write_temp_read nm this] ok(1) have "wrote ls k d w1 r w'"
    by (simp add: wrote_def)
  with s show ?thesis by (rule wrote_after)
qed

text \<open>The directories of the object and a temporary name come first.\<close>

lemma prepared:
  assumes "abind (alift (local_path ls k)) (\<lambda>dest.
      athen (fs_call ls (create_dir_all (butlast dest))) (abind (unique_temp_suffix ls) (f dest))) w = (r, w')"
    and "local_inv ls w"
  obtains (failed) e where "r = Inl e" "same_objects ls w w'"
  | (ready) sfx w1 where "same_objects ls w w1" "local_inv ls w1" "list_all name_ok (split_on (CHR ''/'') k)"
      "CHR ''/'' \<notin> set sfx" "f (object_path ls k) sfx w1 = (r, w')"
  using assms(1)
proof (cases rule: abind_elim)
  case (ok dest w0)
  then have lp: "local_path ls k = Inr dest" "w0 = w" by auto
  note path = local_path_Inr [OF lp(1)]
  from ok(2) show thesis unfolding lp(2)
  proof (cases rule: athen_elim)
    case (ok u v)
    from mkdir_same [OF _ path(2)] ok(1) path(1) have s: "same_objects ls w v" by simp
    from ok(2) show thesis
    proof (cases rule: abind_elim)
      case (ok sf v')
      with s have "same_objects ls w v'" using temp_same same_objects_trans by blast
      then show thesis
        using ready [of v' sf] ok temp_suffix_no_slash [OF ok(1)] path assms(2)
        by (simp add: same_objects_def)
    qed (simp add: unique_temp_suffix_def)
  next
    case (err e)
    with failed mkdir_same [OF _ path(2)] path(1) show thesis by simp
  qed
qed (auto intro: failed simp: same_objects_def)

lemma local_put_bytes_law:
  assumes "local_put_bytes ls k d w = (r, w')" and "local_key_ok k" and "local_inv ls w"
  shows "wrote ls k d w r w'"
  using assms(1,3) unfolding local_put_bytes_def
proof (cases rule: prepared)
  case (ready sfx w1)
  have "temp_name (''.'' @ last (object_path ls k) @ ''.tmp-'' @ sfx)"
    by (rule temp_nameI) (use ready last_name_ok in auto)
  from write_rename [OF _ ready(3) this assms(2) ready(2)] ready(5) have "wrote ls k d w1 r w'"
    by (simp add: Let_def)
  with ready(1) show ?thesis by (rule wrote_after)
qed (use assms(3) wrote_nothing in auto)

lemma local_put_file_law:
  assumes "local_put_file ls k src w = (r, w')" and "local_key_ok k" and "local_inv ls w"
  shows "local_inv ls w' \<and> ((\<exists>d. src = Some d \<and> local_objects ls w' = (local_objects ls w)(k \<mapsto> d))
    \<or> (is_ok r = False \<and> local_objects ls w' = local_objects ls w))"
  using assms(1,3) unfolding local_put_file_def
proof (cases rule: prepared)
  case (failed e)
  with assms(3) show ?thesis by (simp add: same_objects_def)
next
  case (ready sfx w1)
  have t: "temp_name (''.'' @ last (object_path ls k) @ ''.tmp-'' @ sfx)"
    by (rule temp_nameI) (use ready last_name_ok in auto)
  show ?thesis
  proof (cases src)
    case None
    with ready show ?thesis by (auto simp: Let_def abind_def same_objects_def)
  next
    case (Some d)
    with write_rename [OF _ ready(3) t assms(2) ready(2)] ready(5) have "wrote ls k d w1 r w'"
      by (simp add: Let_def)
    with ready(1) have "wrote ls k d w r w'" by (rule wrote_after)
    with Some show ?thesis by (auto simp: wrote_def)
  qed
qed

lemma local_put_if_absent_law:
  assumes "local_put_bytes_if_absent ls k d w = (r, w')" and "local_key_ok k" and "local_inv ls w"
  shows "local_inv ls w'
    \<and> ((local_objects ls w k = None \<and> local_objects ls w' = (local_objects ls w)(k \<mapsto> d) \<and> r \<noteq> Inr False)
       \<or> (local_objects ls w' = local_objects ls w \<and> r \<noteq> Inr True))"
  using assms(1,3) unfolding local_put_bytes_if_absent_def
proof (cases rule: prepared)
  case (failed e)
  with assms(3) show ?thesis by (simp add: same_objects_def)
next
  case (ready sfx w1)
  define t where "t = ''.'' @ last (object_path ls k) @ ''.create-if-absent-'' @ show_nat (process_id ls) @ ''-'' @ sfx"
  define tmp where "tmp = with_file_name (object_path ls k) t"
  have t: "temp_name t"
    unfolding t_def by (rule temp_nameI) (use ready last_name_ok digits_no_slash in auto)
  from ready(5) [unfolded Let_def, folded t_def, folded tmp_def] show ?thesis
  proof (cases rule: athen_elim)
    case (err e)
    from write_temp_same [OF err(1) [unfolded tmp_def] ready(3) t] ready(1) err(2) assms(3) show ?thesis
      by (simp add: same_objects_def)
  next
    case (ok x w2)
    have s: "same_objects ls w w2"
      using write_temp_same [OF ok(1) [unfolded tmp_def] ready(3) t] ready(1) same_objects_trans by blast
    have rd: "read_file (fs_root w2) tmp = Some d" using write_temp_read ok(1) by simp
    have unchanged: "same_objects ls w (w2\<lparr>fs_root := remove_node tmp (fs_root w2)\<rparr>)"
      using remove_temp_same [OF _ ready(3) t, of w2 ls] rd s same_objects_trans
      unfolding tmp_def by fastforce
    show ?thesis
    proof (cases "lookup (fs_root w2) (object_path ls k) = None \<and> hard_link tmp (object_path ls k) (fs_root w2) \<noteq> None")
      case False
      with ok(2) have w': "w' = w2\<lparr>fs_root := remove_node tmp (fs_root w2)\<rparr>" and r: "r \<noteq> Inr True"
        by (auto split: if_splits option.splits)
      have "same_objects ls w w'" unfolding w' by (rule unchanged)
      with assms(3) r show ?thesis by (simp add: same_objects_def)
    next
      case True
      then obtain root where hl: "write_file (object_path ls k) d (fs_root w2) = Some root"
        and lk: "lookup (fs_root w2) (object_path ls k) = None"
        using rd by (auto simp: hard_link_def split: if_splits)
      with ok(2) rd have w': "w' = w2\<lparr>fs_root := remove_node tmp root\<rparr>" "r = Inr True"
        by (auto simp: hard_link_def)
      let ?w3 = "w2\<lparr>fs_root := root\<rparr>"
      have i2: "local_inv ls w2" using s assms(3) by (simp add: same_objects_def)
      note wo = write_object [OF hl ready(3) assms(2) i2]
      have "read_file (fs_root ?w3) tmp \<noteq> None" using write_file_Some(1) [OF hl] rd by simp
      from remove_temp_same [OF this [unfolded tmp_def] ready(3) t] have "same_objects ls ?w3 w'"
        by (simp add: w' tmp_def)
      moreover have "local_objects ls w k = None"
        using lk s by (simp add: same_objects_def fun_eq_iff local_objects_def read_file_def)
          (metis local_objects_def option.simps(4) read_file_def)
      ultimately show ?thesis
        using wo s w'(2) by (simp add: same_objects_def)
    qed
  qed
qed

lemma local_path_cases:
  assumes "abind (alift (local_path ls k)) f w = (r, w')"
  obtains (invalid) e where "r = Inl e" "w' = w"
  | (valid) "list_all name_ok (split_on (CHR ''/'') k)" "f (object_path ls k) w = (r, w')"
  using assms
proof (cases rule: abind_elim)
  case (ok path w0)
  with valid local_path_Inr [of ls k path] show thesis by simp
qed (auto intro: invalid)

lemma remove_objects:
  assumes "lookup (fs_root w) (object_path ls k) \<noteq> None"
    and "list_all name_ok (split_on (CHR ''/'') k)" and "local_inv ls w"
  defines "w' \<equiv> w\<lparr>fs_root := remove_node (object_path ls k) (fs_root w)\<rparr>"
  shows "local_inv ls w'"
    and "local_objects ls w' l = (if l = k \<or> prefix (k @ ''/'') l then None else local_objects ls w l)"
proof -
  have "list_all name_ok (object_path ls k)"
    using assms(2,3) by (simp add: local_inv_def object_path_def)
  then show "local_inv ls w'"
    using assms(3) wf_remove_node by (simp add: w'_def local_inv_def)
  have "parent_is_dir (fs_root w) (object_path ls k)"
    using lookup_parent [of "fs_root w" "butlast (object_path ls k)"] assms(1)
    by (metis append_butlast_last_id object_path_nonempty)
  from read_file_remove [OF this] show
    "local_objects ls w' l = (if l = k \<or> prefix (k @ ''/'') l then None else local_objects ls w l)"
    by (simp add: w'_def local_objects_def object_path_prefix)
qed

lemma objects_below_none:
  assumes "\<not> is_dir (lookup (fs_root w) (object_path ls k))" and "prefix (k @ ''/'') l"
  shows "local_objects ls w l = None"
proof -
  have "prefix (object_path ls k) (object_path ls l)" using assms(2) by (simp add: object_path_prefix)
  moreover have "k \<noteq> l" using assms(2) by (auto simp: prefix_def)
  ultimately show ?thesis
    using read_file_below [OF assms(1)] by (simp add: local_objects_def strict_prefix_def)
qed

lemma local_delete_law:
  assumes "local_delete ls k w = (r, w')" and "local_key_ok k" and "local_inv ls w"
  shows "local_inv ls w' \<and>
    (removed_only (\<lambda>l. l = k \<or> (local_objects ls w k = None \<and> below k l)) (local_objects ls w) (local_objects ls w')
     \<and> (is_ok r \<longrightarrow> local_objects ls w' k = None))"
  using assms(1) unfolding local_delete_def
proof (cases rule: local_path_cases)
  case valid
  have trim: "below k l \<longleftrightarrow> prefix (k @ ''/'') l" for l
    using local_key_ok_trim [OF assms(2)] by (simp add: below_def)
  show ?thesis
  proof (cases "lookup (fs_root w) (object_path ls k) = None")
    case True
    with valid(2) assms(2,3) show ?thesis
      by (auto simp: removed_only_def local_objects_def read_file_def)
  next
    case False
    note ro = remove_objects [OF False valid(1) assms(3)]
    have w': "w' = w\<lparr>fs_root := remove_node (object_path ls k) (fs_root w)\<rparr>"
      using valid(2) False by auto
    have gone: "local_objects ls w l = None" if "local_objects ls w k \<noteq> None" "prefix (k @ ''/'') l" for l
    proof -
      from that(1) have "read_file (fs_root w) (object_path ls k) \<noteq> None"
        by (auto simp: local_objects_def split: if_splits)
      from objects_below_none [OF _ that(2), of w ls] read_file_lookup [OF this] show ?thesis by simp
    qed
    then show ?thesis
      using ro unfolding w' by (auto simp: removed_only_def trim)
  qed
qed (use assms(3) in \<open>simp add: removed_only_def\<close>)

lemma local_delete_prefix_law:
  assumes "local_delete_prefix ls p w = (r, w')" and "local_inv ls w"
  shows "local_inv ls w' \<and>
    (removed_only (prefix (trim_end_char (CHR ''/'') p)) (local_objects ls w) (local_objects ls w')
     \<and> (is_ok r \<longrightarrow> (\<forall>k. below p k \<longrightarrow> local_objects ls w' k = None)))"
  using assms(1) unfolding local_delete_prefix_def
proof (cases rule: local_path_cases)
  case valid
  let ?p = "trim_end_char (CHR ''/'') p"
  show ?thesis
  proof (cases "is_dir (lookup (fs_root w) (object_path ls ?p))")
    case False
    with valid(2) assms(2) objects_below_none [OF False] show ?thesis
      by (auto simp: removed_only_def below_def is_dir_def split: option.splits fs_node.splits)
  next
    case True
    then have "lookup (fs_root w) (object_path ls ?p) \<noteq> None"
      by (auto simp: is_dir_def split: option.splits)
    note ro = remove_objects [OF this valid(1) assms(2)]
    have w': "w' = w\<lparr>fs_root := remove_node (object_path ls ?p) (fs_root w)\<rparr>"
      using valid(2) True by (auto simp: is_dir_def split: option.splits fs_node.splits)
    have "prefix (?p @ ''/'') l \<Longrightarrow> prefix ?p l" for l
      by (auto simp: prefix_def)
    with ro show ?thesis unfolding w' by (auto simp: removed_only_def below_def)
  qed
qed (use assms(2) in \<open>simp add: removed_only_def\<close>)

section \<open>Listing\<close>

definition slashed :: "string list \<Rightarrow> string" where
  "slashed ps = concat (map (\<lambda>s. CHR ''/'' # s) ps)"

lemma trim_end_noslash: "s \<noteq> [] \<Longrightarrow> last s \<noteq> CHR ''/'' \<Longrightarrow> trim_end_char (CHR ''/'') s = s"
  by (cases s rule: rev_cases) (auto simp: trim_end_char_def)

lemma trim_end_snoc: "name_ok s \<Longrightarrow> trim_end_char (CHR ''/'') (p @ CHR ''/'' # s) = p @ CHR ''/'' # s"
proof (rule trim_end_noslash)
  assume "name_ok s"
  then have "CHR ''/'' \<notin> set s" and "s \<noteq> []" by (auto simp: name_ok_def)
  moreover from this have "last s \<in> set s" by simp
  ultimately show "last (p @ CHR ''/'' # s) \<noteq> CHR ''/''" by (metis last_ConsR last_appendR list.discI)
qed simp

lemma slashed_join: "ps \<noteq> [] \<Longrightarrow> slashed ps = CHR ''/'' # join ''/'' ps"
proof (induction ps)
  case (Cons p ps)
  then show ?case by (cases ps) (auto simp: slashed_def)
qed simp

lemma collect_set:
  "wf_node n \<Longrightarrow> trim_end_char (CHR ''/'') p = p \<Longrightarrow>
    set (collect_local_objects n p)
      = {\<lparr>meta_key = p @ slashed ps, meta_len = length d\<rparr> | ps d. read_file n ps = Some d}"
proof (induction n p rule: collect_local_objects.induct)
  case (1 d p)
  then show ?case by (auto simp: slashed_def split: if_splits)
next
  case (2 es p)
  have step: "set (collect_local_objects n (p @ ''/'' @ s))
      = {\<lparr>meta_key = p @ slashed (s # ps), meta_len = length d\<rparr> | ps d. read_file n ps = Some d}"
    if "(s, n) \<in> set es" for s n
  proof -
    from that 2 have "wf_node n" "name_ok s" by (auto simp: list_all_iff)
    with "2.IH" [OF that refl] "2.prems"(2) trim_end_snoc [of s p] show ?thesis
      by (simp add: slashed_def)
  qed
  have mem: "(s, n) \<in> set es \<longleftrightarrow> bt_get es s = Some n" for s n
    using bt_get_eq_set [of es s n] "2.prems"(1) by simp
  have "set (collect_local_objects (Dir es) p)
      = (\<Union>(s, n) \<in> set es. set (collect_local_objects n (p @ ''/'' @ s)))"
    using "2.prems"(2) by auto
  also have "\<dots> = (\<Union>(s, n) \<in> set es.
      {\<lparr>meta_key = p @ slashed (s # ps), meta_len = length d\<rparr> | ps d. read_file n ps = Some d})"
  proof (rule SUP_cong [OF refl])
    fix x assume "x \<in> set es"
    moreover obtain s n where "x = (s, n)" by (cases x)
    ultimately show "(case x of (s, n) \<Rightarrow> set (collect_local_objects n (p @ ''/'' @ s)))
        = (case x of (s, n) \<Rightarrow>
            {\<lparr>meta_key = p @ slashed (s # ps), meta_len = length d\<rparr> | ps d. read_file n ps = Some d})"
      using step by (simp only: prod.case)
  qed
  also have "\<dots> = {\<lparr>meta_key = p @ slashed ps, meta_len = length d\<rparr> | ps d. read_file (Dir es) ps = Some d}"
    (is "?l = ?r")
  proof (intro equalityI subsetI)
    fix m assume "m \<in> ?l"
    then obtain s n ps d where "(s, n) \<in> set es" "m = \<lparr>meta_key = p @ slashed (s # ps), meta_len = length d\<rparr>"
      "read_file n ps = Some d" by auto
    moreover from this have "read_file (Dir es) (s # ps) = Some d" by (simp add: read_file_Cons mem)
    ultimately show "m \<in> ?r" by blast
  next
    fix m assume "m \<in> ?r"
    then obtain ps d where m: "m = \<lparr>meta_key = p @ slashed ps, meta_len = length d\<rparr>"
      and rd: "read_file (Dir es) ps = Some d" by auto
    then obtain s qs n where "ps = s # qs" "bt_get es s = Some n" "read_file n qs = Some d"
      by (cases ps) (auto simp: read_file_Cons split: option.splits)
    with m mem show "m \<in> ?l" by blast
  qed
  finally show ?case .
qed

lemma distinct_concat_map:
  assumes "\<And>x. x \<in> set es \<Longrightarrow> distinct (f x)"
    and "\<And>x y. x \<in> set es \<Longrightarrow> y \<in> set es \<Longrightarrow> g x \<noteq> g y \<Longrightarrow> set (f x) \<inter> set (f y) = {}"
    and "distinct (map g es)"
  shows "distinct (concat (map f es))"
  using assms
proof (induction es)
  case (Cons e es)
  have "set (f e) \<inter> set (f x) = {}" if "x \<in> set es" for x
    using Cons.prems(2) [of e x] Cons.prems(3) that by auto
  then have "set (f e) \<inter> set (concat (map f es)) = {}" by (auto simp: disjoint_iff)
  with Cons show ?case by simp
qed simp

lemma collect_distinct:
  "wf_node n \<Longrightarrow> trim_end_char (CHR ''/'') p = p \<Longrightarrow> distinct (map meta_key (collect_local_objects n p))"
proof (induction n p rule: collect_local_objects.induct)
  case (2 es p)
  let ?c = "\<lambda>(s, n). collect_local_objects n (p @ ''/'' @ s)"
  have entry: "wf_node n \<and> name_ok s" if "(s, n) \<in> set es" for s n
    using that "2.prems"(1) by (auto simp: list_all_iff)
  have keys: "\<exists>qs. k = p @ slashed (s # qs)"
    if "(s, n) \<in> set es" "k \<in> meta_key ` set (collect_local_objects n (p @ ''/'' @ s))" for s n k
    using that collect_set [of n "p @ ''/'' @ s"] entry [OF that(1)] trim_end_snoc [of s p]
    by (auto simp: slashed_def)
  have head: "s = t" if "name_ok s" "name_ok t" "p @ slashed (s # qs) = p @ slashed (t # rs)" for s t qs rs
  proof -
    have *: "takeWhile (\<lambda>c. c \<noteq> CHR ''/'') (u @ slashed vs) = u" if "name_ok u" for u vs
    proof -
      have "\<forall>c \<in> set u. c \<noteq> CHR ''/''" using that by (auto simp: name_ok_def)
      then show ?thesis by (cases vs) (simp_all add: slashed_def takeWhile_append2)
    qed
    from that(3) have "s @ slashed qs = t @ slashed rs" by (simp add: slashed_def)
    with * that(1,2) show ?thesis by metis
  qed
  have dist: "distinct (map fst es)"
    using bt.distinct_keys [of es] "2.prems"(1) by (simp add: bt_keys_def)
  have "distinct (concat (map (\<lambda>e. map meta_key (?c e)) es))"
  proof (rule distinct_concat_map [OF _ _ dist])
    fix e assume "e \<in> set es"
    with "2.IH" [of e "fst e" "snd e"] entry [of "fst e" "snd e"] "2.prems"(2) trim_end_snoc [of "fst e" p]
    show "distinct (map meta_key (?c e))" by (simp add: split_def)
  next
    fix e f assume "e \<in> set es" "f \<in> set es" "fst e \<noteq> fst f"
    with keys [of "fst e" "snd e"] keys [of "fst f" "snd f"] head entry [of "fst e" "snd e"] entry [of "fst f" "snd f"]
    show "set (map meta_key (?c e)) \<inter> set (map meta_key (?c f)) = {}"
      by (fastforce simp: split_def)
  qed
  then show ?case using "2.prems"(2) by (simp add: map_concat o_def split_def)
qed simp

lemma split_on_slashed:
  "list_all (\<lambda>s. CHR ''/'' \<notin> set s) ps \<Longrightarrow> split_on (CHR ''/'') (p @ slashed ps) = split_on (CHR ''/'') p @ ps"
proof (induction ps arbitrary: p)
  case (Cons s ps)
  then have "split_on (CHR ''/'') (p @ slashed (s # ps)) = split_on (CHR ''/'') ((p @ CHR ''/'' # s) @ slashed ps)"
    by (simp add: slashed_def)
  with Cons show ?case by (simp add: split_on_append_sep split_on_no_sep)
qed (simp add: slashed_def)

lemma read_file_names: "wf_node n \<Longrightarrow> read_file n ps = Some d \<Longrightarrow> list_all (\<lambda>s. CHR ''/'' \<notin> set s) ps"
proof (induction ps arbitrary: n)
  case (Cons s ps)
  then obtain es m where n: "n = Dir es" and m: "bt_get es s = Some m" and r: "read_file m ps = Some d"
    by (cases n) (auto simp: read_file_Cons split: option.splits)
  from Cons.prems(1) m have "name_ok s \<and> wf_node m" unfolding n by (rule wf_node_entry)
  with Cons.IH [OF _ r] show ?case by (simp add: name_ok_def)
qed simp

lemma sort_metas_sorted: "distinct (map meta_key ms) \<Longrightarrow> sorted_wrt (<) (map meta_key (sort_metas ms))"
  by (simp add: sort_metas_def strict_sorted_iff distinct_map)

lemma local_list_law:
  assumes "local_list_prefix ls p w = (r, w')" and "local_inv ls w"
  shows "local_inv ls w' \<and> (local_objects ls w' = local_objects ls w \<and> (\<forall>ms. r = Inr ms \<longrightarrow>
        sorted_wrt (<) (map meta_key ms)
        \<and> (\<forall>m \<in> set ms. local_key_ok (meta_key m) \<longrightarrow>
             (\<exists>d. local_objects ls w (meta_key m) = Some d \<and> meta_len m = length d))
        \<and> (\<forall>k. below p k \<and> local_objects ls w k \<noteq> None \<longrightarrow> k \<in> meta_key ` set ms)))"
  using assms(1) unfolding local_list_prefix_def Let_def
proof (cases rule: local_path_cases)
  case valid
  let ?p = "trim_end_char (CHR ''/'') p"
  have tt: "trim_end_char (CHR ''/'') ?p = ?p"
    by (simp add: trim_end_char_def dropWhile_idem [of "\<lambda>x. x = CHR ''/''"])
  have wf: "wf_node (fs_root w)" using assms(2) by (simp add: local_inv_def)
  have w': "w' = w" using valid(2) by simp
  show ?thesis
  proof (cases "lookup (fs_root w) (object_path ls ?p)")
    case None
    then have "\<not> is_dir (lookup (fs_root w) (object_path ls ?p))" by (simp add: is_dir_def)
    from objects_below_none [OF this] valid(2) None assms(2) show ?thesis
      by (auto simp: below_def)
  next
    case (Some n)
    let ?ms = "collect_local_objects n ?p"
    have ms: "r = Inr (sort_metas ?ms)" using valid(2) Some by simp
    have n: "wf_node n" using wf_lookup [OF wf Some] .
    note cs = collect_set [OF n tt]
    have path: "object_path ls (?p @ slashed ps) = object_path ls ?p @ ps" if "read_file n ps = Some d" for ps d
      using split_on_slashed [OF read_file_names [OF n that]] by (simp add: object_path_def)
    have listed: "local_objects ls w (meta_key m) = Some d'" 
      if "m \<in> set ?ms" "local_key_ok (meta_key m)" "m = \<lparr>meta_key = ?p @ slashed ps, meta_len = length d'\<rparr>"
        "read_file n ps = Some d'" for m ps d'
      using that path [OF that(4)] read_file_append [OF Some, of ps] by (simp add: local_objects_def)
    have complete: "k \<in> meta_key ` set ?ms" if "below p k" "local_objects ls w k \<noteq> None" for k
    proof -
      from that(1) obtain q where k: "k = ?p @ CHR ''/'' # q" by (auto simp: below_def prefix_def)
      then have "object_path ls k = object_path ls ?p @ split_on (CHR ''/'') q"
        by (simp add: object_path_def split_on_append_sep)
      with that(2) obtain d where rd: "read_file n (split_on (CHR ''/'') q) = Some d"
        by (auto simp: local_objects_def read_file_append [OF Some] split: if_splits)
      have "slashed (split_on (CHR ''/'') q) = CHR ''/'' # q"
        using slashed_join [of "split_on (CHR ''/'') q"] by (simp add: join_split_on)
      with rd k show ?thesis unfolding cs by (force simp: image_iff)
    qed
    show ?thesis
      unfolding w' ms
      using assms(2) sort_metas_sorted [OF collect_distinct [OF n tt]] complete listed cs
      by (fastforce simp: sort_metas_def)
  qed
qed (use assms(2) in simp)

lemma local_exists_law:
  "local_exists ls k w = (r, w') \<Longrightarrow> local_inv ls w \<Longrightarrow>
    local_inv ls w' \<and> (local_objects ls w' = local_objects ls w
      \<and> (\<forall>b. r = Inr b \<longrightarrow> local_objects ls w k \<noteq> None \<longrightarrow> b))"
  unfolding local_exists_def
  by (erule local_path_cases) (auto simp: local_objects_def read_file_def split: if_splits option.splits)

lemma local_read_law:
  "local_read_bytes ls k w = (r, w') \<Longrightarrow> local_key_ok k \<Longrightarrow> local_inv ls w \<Longrightarrow>
    local_inv ls w' \<and> (local_objects ls w' = local_objects ls w
      \<and> (\<forall>d. r = Inr d \<longrightarrow> local_objects ls w k = Some d))"
  unfolding local_read_bytes_def
  by (erule local_path_cases) (auto simp: local_objects_def result_simps)

lemma local_len_law:
  "local_len dl ls k w = (r, w') \<Longrightarrow> local_inv ls w \<Longrightarrow>
    local_inv ls w' \<and> (local_objects ls w' = local_objects ls w
      \<and> (\<forall>n d. r = Inr (Some n) \<longrightarrow> local_objects ls w k = Some d \<longrightarrow> n = length d))"
  unfolding local_len_def
  by (erule local_path_cases)
    (auto simp: local_objects_def read_file_def split: if_splits option.splits fs_node.splits)

lemma local_objects_ok: "local_objects ls w k \<noteq> None \<Longrightarrow> local_key_ok k"
  by (auto simp: local_objects_def split: if_splits)

lemma local_os_simps [simp]:
  "os_describe (local_object_store dl ls) = local_describe ls"
  "os_exists (local_object_store dl ls) = local_exists ls"
  "os_read_bytes (local_object_store dl ls) = local_read_bytes ls"
  "os_len (local_object_store dl ls) = local_len dl ls"
  "os_put_bytes (local_object_store dl ls) = local_put_bytes ls"
  "os_put_bytes_if_absent (local_object_store dl ls) = local_put_bytes_if_absent ls"
  "os_put_file (local_object_store dl ls) = local_put_file ls"
  "os_delete (local_object_store dl ls) = local_delete ls"
  "os_delete_prefix (local_object_store dl ls) = local_delete_prefix ls"
  "os_list_prefix (local_object_store dl ls) = local_list_prefix ls"
  by (simp_all add: local_object_store_def)

lemma local_contract: "object_store_contract (local_object_store dl ls) (local_objects ls) local_key_ok (local_inv ls)"
proof (unfold_locales, unfold local_os_simps, goal_cases)
  case (1 w k)
  then show ?case using local_objects_ok by blast
next
  case (2 k w r w')
  from local_exists_law [OF 2(1,3)] show ?case .
next
  case (3 k w r w')
  from local_read_law [OF 3] show ?case .
next
  case (4 k w r w')
  from local_len_law [OF 4(1,3)] show ?case .
next
  case (5 k d w r w')
  from local_put_bytes_law [OF 5] show ?case by (simp add: wrote_def)
next
  case (6 k d w r w')
  from local_put_if_absent_law [OF 6] show ?case by blast
next
  case (7 k src w r w')
  from local_put_file_law [OF 7] show ?case .
next
  case (8 k w r w')
  from local_delete_law [OF 8] show ?case .
next
  case (9 p w r w')
  from local_delete_prefix_law [OF 9] show ?case .
next
  case (10 p w r w')
  from local_list_law [OF 10] show ?case .
qed

interpretation local_os:
  object_store_contract "local_object_store dl ls" "local_objects ls" local_key_ok "local_inv ls" for dl ls
  by (rule local_contract)

section \<open>Properties\<close>


text \<open>
  C16: no object key leads out of the base directory: the path of an accepted key lies strictly
  below it and none of the components added to it is empty, a dot or a double dot.
\<close>

theorem local_path_confined:
  assumes "local_path ls key = Inr path"
  shows "strict_prefix (base_dir ls) path
    \<and> list_all (\<lambda>c. c \<notin> {[], ''.'', ''..''} \<and> CHR ''/'' \<notin> set c) (drop (length (base_dir ls)) path)
    \<and> (\<forall>key'. local_path ls key' = Inr path \<longrightarrow> key' = key)"
proof -
  note path = local_path_Inr [OF assms]
  have "list_all (\<lambda>c. c \<notin> {[], ''.'', ''..''}) (split_on (CHR ''/'') key)"
    using assms by (auto simp: local_path_def Let_def list_all_iff list_ex_iff split: if_splits)
  moreover have "list_all (\<lambda>c. CHR ''/'' \<notin> set c) (split_on (CHR ''/'') key)"
    using path(2) by (simp add: list_all_iff name_ok_def)
  moreover have "key' = key" if "local_path ls key' = Inr path" for key'
    using local_path_Inr(1) [OF that] path(1) by simp
  moreover have "strict_prefix (base_dir ls) path"
    by (simp add: path(1) object_path_def strict_prefix_def)
  moreover have "drop (length (base_dir ls)) path = split_on (CHR ''/'') key"
    by (simp add: path(1) object_path_def)
  ultimately show ?thesis by (simp add: list_all_iff)
qed

definition sample_local :: local_store where
  "sample_local = \<lparr>base_dir = [''store''], process_id = 7, now_nanos = (\<lambda>n. n), io_error = ''io error''\<rparr>"

definition sample_world :: local_world where
  "sample_world = \<lparr>fs_root = Dir [(''store'', Dir [])], next_temp_id = 1\<rparr>"

lemma sample_world_inv: "local_inv sample_local sample_world"
  by (simp add: local_inv_def sample_local_def sample_world_def bt_wf_def name_ok_def)

lemma local_path_confined_witness:
  "strict_prefix (base_dir sample_local) [''store'', ''a'', ''..b'']
    \<and> list_all (\<lambda>c. c \<notin> {[], ''.'', ''..''} \<and> CHR ''/'' \<notin> set c)
        (drop (length (base_dir sample_local)) [''store'', ''a'', ''..b''])"
proof -
  have "local_path sample_local ''a/..b'' = Inr [''store'', ''a'', ''..b'']"
    by (simp add: local_path_def sample_local_def normalize_without_existing_check_def)
  from local_path_confined [OF this] show ?thesis by blast
qed

end
