(* ===== verification/Store_Prog.thy ===== *)
theory Store_Prog
  imports Object_Store
begin

text \<open>
  Programs over an object store: the calls of a method in order, each followed by what it does
  with the result, ended by the result of the method. One program has two readings. \<open>run_prog\<close>
  runs it alone against a store and a clock. \<open>store_step\<close> is one call of it, so that the
  methods of several runtimes sharing a store interleave call by call (\<open>shared_step\<close>), each
  with a clock of its own.
\<close>

datatype 'a prog =
  Done 'a
| Now "nat \<Rightarrow> 'a prog"
| Exists string "string + bool \<Rightarrow> 'a prog"
| Read string "string + bytes \<Rightarrow> 'a prog"
| Put string bytes "string + unit \<Rightarrow> 'a prog"
| PutIfAbsent string bytes "string + bool \<Rightarrow> 'a prog"
| Delete string "string + unit \<Rightarrow> 'a prog"
| DeletePrefix string "string + unit \<Rightarrow> 'a prog"
| ListPrefix string "string + object_meta list \<Rightarrow> 'a prog"

type_synonym 'a api_prog = "'a api prog"

primrec pbind :: "'a prog \<Rightarrow> ('a \<Rightarrow> 'b prog) \<Rightarrow> 'b prog" where
  "pbind (Done x) g = g x"
| "pbind (Now f) g = Now (\<lambda>r. pbind (f r) g)"
| "pbind (Exists k f) g = Exists k (\<lambda>r. pbind (f r) g)"
| "pbind (Read k f) g = Read k (\<lambda>r. pbind (f r) g)"
| "pbind (Put k d f) g = Put k d (\<lambda>r. pbind (f r) g)"
| "pbind (PutIfAbsent k d f) g = PutIfAbsent k d (\<lambda>r. pbind (f r) g)"
| "pbind (Delete k f) g = Delete k (\<lambda>r. pbind (f r) g)"
| "pbind (DeletePrefix k f) g = DeletePrefix k (\<lambda>r. pbind (f r) g)"
| "pbind (ListPrefix k f) g = ListPrefix k (\<lambda>r. pbind (f r) g)"

text \<open>\<open>?\<close> and the calls with their errors converted to an \<open>ApiError\<close>.\<close>

definition ptry :: "'a api_prog \<Rightarrow> ('a \<Rightarrow> 'b api_prog) \<Rightarrow> 'b api_prog" where
  "ptry m g = pbind m (\<lambda>r. case r of Inl e \<Rightarrow> Done (Inl e) | Inr x \<Rightarrow> g x)"

definition pok :: "'a \<Rightarrow> 'a api_prog" where
  "pok x = Done (Inr x)"

definition perr :: "nat \<Rightarrow> string \<Rightarrow> 'a api_prog" where
  "perr st msg = Done (Inl (api_err st msg))"

definition p_now :: "nat api_prog" where
  "p_now = Now (\<lambda>n. Done (Inr n))"

definition p_exists :: "string \<Rightarrow> bool api_prog" where
  "p_exists k = Exists k (\<lambda>r. Done (rmap_err anyhow_api_error r))"

definition p_read :: "string \<Rightarrow> bytes api_prog" where
  "p_read k = Read k (\<lambda>r. Done (rmap_err anyhow_api_error r))"

definition p_put :: "string \<Rightarrow> bytes \<Rightarrow> unit api_prog" where
  "p_put k d = Put k d (\<lambda>r. Done (rmap_err anyhow_api_error r))"

definition p_put_if_absent :: "string \<Rightarrow> bytes \<Rightarrow> bool api_prog" where
  "p_put_if_absent k d = PutIfAbsent k d (\<lambda>r. Done (rmap_err anyhow_api_error r))"

definition p_delete :: "string \<Rightarrow> unit api_prog" where
  "p_delete k = Delete k (\<lambda>r. Done (rmap_err anyhow_api_error r))"

definition p_delete_prefix :: "string \<Rightarrow> unit api_prog" where
  "p_delete_prefix k = DeletePrefix k (\<lambda>r. Done (rmap_err anyhow_api_error r))"

definition p_list :: "string \<Rightarrow> object_meta list api_prog" where
  "p_list k = ListPrefix k (\<lambda>r. Done (rmap_err anyhow_api_error r))"

text \<open>\<open>.ok()\<close>.\<close>

definition p_ignore :: "'a api_prog \<Rightarrow> unit api_prog" where
  "p_ignore m = pbind m (\<lambda>_. Done (Inr ()))"

lemmas prog_defs = ptry_def pok_def perr_def p_now_def p_exists_def p_read_def p_put_def
  p_put_if_absent_def p_delete_def p_delete_prefix_def p_list_def p_ignore_def

section \<open>Running alone\<close>

record 'w sys =
  sys_world :: 'w
  sys_ticks :: nat

text \<open>\<open>clock n\<close> is the \<open>n\<close>-th reading of the clock, in milliseconds.\<close>

primrec run_prog :: "'w object_store \<Rightarrow> (nat \<Rightarrow> nat) \<Rightarrow> 'a prog \<Rightarrow> 'w sys \<Rightarrow> 'a \<times> 'w sys" where
  "run_prog st clock (Done x) s = (x, s)"
| "run_prog st clock (Now f) s =
     run_prog st clock (f (clock (sys_ticks s))) (s\<lparr>sys_ticks := Suc (sys_ticks s)\<rparr>)"
| "run_prog st clock (Exists k f) s =
     (case os_exists st k (sys_world s) of (r, w) \<Rightarrow> run_prog st clock (f r) (s\<lparr>sys_world := w\<rparr>))"
| "run_prog st clock (Read k f) s =
     (case os_read_bytes st k (sys_world s) of (r, w) \<Rightarrow> run_prog st clock (f r) (s\<lparr>sys_world := w\<rparr>))"
| "run_prog st clock (Put k d f) s =
     (case os_put_bytes st k d (sys_world s) of (r, w) \<Rightarrow> run_prog st clock (f r) (s\<lparr>sys_world := w\<rparr>))"
| "run_prog st clock (PutIfAbsent k d f) s =
     (case os_put_bytes_if_absent st k d (sys_world s) of (r, w) \<Rightarrow>
        run_prog st clock (f r) (s\<lparr>sys_world := w\<rparr>))"
| "run_prog st clock (Delete k f) s =
     (case os_delete st k (sys_world s) of (r, w) \<Rightarrow> run_prog st clock (f r) (s\<lparr>sys_world := w\<rparr>))"
| "run_prog st clock (DeletePrefix k f) s =
     (case os_delete_prefix st k (sys_world s) of (r, w) \<Rightarrow> run_prog st clock (f r) (s\<lparr>sys_world := w\<rparr>))"
| "run_prog st clock (ListPrefix k f) s =
     (case os_list_prefix st k (sys_world s) of (r, w) \<Rightarrow> run_prog st clock (f r) (s\<lparr>sys_world := w\<rparr>))"

lemma run_pbind:
  "run_prog st clock (pbind m g) s = (case run_prog st clock m s of (x, s') \<Rightarrow> run_prog st clock (g x) s')"
  by (induction m arbitrary: s) (auto split: prod.split)

lemma run_ptry:
  "run_prog st clock (ptry m g) = abind (run_prog st clock m) (\<lambda>x. run_prog st clock (g x))"
  by (auto simp: ptry_def run_pbind abind_def fun_eq_iff split: prod.split sum.split)

section \<open>Running together\<close>

text \<open>Every reading of a clock is before the year 292 million.\<close>

inductive store_step :: "'w object_store \<Rightarrow> 'w \<times> 'a prog \<Rightarrow> 'w \<times> 'a prog \<Rightarrow> bool" for st where
  "n < 2 ^ 63 \<Longrightarrow> store_step st (w, Now f) (w, f n)"
| "os_exists st k w = (r, w') \<Longrightarrow> store_step st (w, Exists k f) (w', f r)"
| "os_read_bytes st k w = (r, w') \<Longrightarrow> store_step st (w, Read k f) (w', f r)"
| "os_put_bytes st k d w = (r, w') \<Longrightarrow> store_step st (w, Put k d f) (w', f r)"
| "os_put_bytes_if_absent st k d w = (r, w') \<Longrightarrow> store_step st (w, PutIfAbsent k d f) (w', f r)"
| "os_delete st k w = (r, w') \<Longrightarrow> store_step st (w, Delete k f) (w', f r)"
| "os_delete_prefix st k w = (r, w') \<Longrightarrow> store_step st (w, DeletePrefix k f) (w', f r)"
| "os_list_prefix st k w = (r, w') \<Longrightarrow> store_step st (w, ListPrefix k f) (w', f r)"

inductive_cases store_step_Done: "store_step st (w, Done x) c"
inductive_simps store_step_simps:
  "store_step st (w, Now f) c" "store_step st (w, Exists k f) c" "store_step st (w, Read k f) c"
  "store_step st (w, Put k d f) c" "store_step st (w, PutIfAbsent k d f) c" "store_step st (w, Delete k f) c"
  "store_step st (w, DeletePrefix k f) c" "store_step st (w, ListPrefix k f) c"

text \<open>Several runtimes, each with the rest of its program.\<close>

inductive shared_step ::
    "'w object_store \<Rightarrow> 'w \<times> (string \<Rightarrow> 'a prog) \<Rightarrow> 'w \<times> (string \<Rightarrow> 'a prog) \<Rightarrow> bool" for st where
  "store_step st (w, ps i) (w', p) \<Longrightarrow> shared_step st (w, ps) (w', ps(i := p))"

inductive_cases shared_step_cases: "shared_step st (w, ps) c"

definition shared_run ::
    "'w object_store \<Rightarrow> 'w \<times> (string \<Rightarrow> 'a prog) \<Rightarrow> 'w \<times> (string \<Rightarrow> 'a prog) \<Rightarrow> bool" where
  "shared_run st = (shared_step st)\<^sup>*\<^sup>*"

section \<open>Objects written once\<close>

text \<open>
  A discipline for keys \<open>W\<close> that are only ever created, with contents \<open>P\<close>: \<open>once W P Q p K\<close>
  says that the program \<open>p\<close>, which has seen the objects \<open>K\<close> at write-once keys, never puts or
  deletes a write-once key, creates it only with a content that satisfies \<open>P\<close>, and that its
  result satisfies \<open>Q\<close> of all it has seen by then. Under the store's contract what one
  runtime has seen stays true whatever the others do, so \<open>Q\<close> holds of the objects of the
  store.
\<close>

primrec once ::
    "(string \<Rightarrow> bool) \<Rightarrow> (string \<Rightarrow> bytes \<Rightarrow> bool) \<Rightarrow> (objects \<Rightarrow> 'a \<Rightarrow> bool) \<Rightarrow> 'a prog \<Rightarrow> objects \<Rightarrow> bool" where
  "once W P Q (Done x) K = Q K x"
| "once W P Q (Now f) K = (\<forall>n < 2 ^ 63. once W P Q (f n) K)"
| "once W P Q (Exists k f) K = (\<forall>r. once W P Q (f r) K)"
| "once W P Q (Read k f) K =
     ((\<forall>e. once W P Q (f (Inl e)) K)
      \<and> (\<forall>d. (W k \<longrightarrow> P k d) \<longrightarrow> once W P Q (f (Inr d)) (if W k then K(k \<mapsto> d) else K)))"
| "once W P Q (Put k d f) K = (\<not> W k \<and> (\<forall>r. once W P Q (f r) K))"
| "once W P Q (PutIfAbsent k d f) K =
     ((W k \<longrightarrow> P k d) \<and> (\<forall>e. once W P Q (f (Inl e)) K) \<and> once W P Q (f (Inr False)) K
      \<and> once W P Q (f (Inr True)) (if W k then K(k \<mapsto> d) else K))"
| "once W P Q (Delete k f) K = (\<not> W k \<and> (\<forall>l. W l \<longrightarrow> \<not> below k l) \<and> (\<forall>r. once W P Q (f r) K))"
| "once W P Q (DeletePrefix p f) K =
     ((\<forall>k. W k \<longrightarrow> \<not> prefix (trim_end_char (CHR ''/'') p) k) \<and> (\<forall>r. once W P Q (f r) K))"
| "once W P Q (ListPrefix k f) K = (\<forall>r. once W P Q (f r) K)"

text \<open>The keys a program names.\<close>

primrec names_ok :: "(string \<Rightarrow> bool) \<Rightarrow> 'a prog \<Rightarrow> bool" where
  "names_ok ok (Done x) = True"
| "names_ok ok (Now f) = (\<forall>n. names_ok ok (f n))"
| "names_ok ok (Exists k f) = (ok k \<and> (\<forall>r. names_ok ok (f r)))"
| "names_ok ok (Read k f) = (ok k \<and> (\<forall>r. names_ok ok (f r)))"
| "names_ok ok (Put k d f) = (ok k \<and> (\<forall>r. names_ok ok (f r)))"
| "names_ok ok (PutIfAbsent k d f) = (ok k \<and> (\<forall>r. names_ok ok (f r)))"
| "names_ok ok (Delete k f) = (ok k \<and> (\<forall>r. names_ok ok (f r)))"
| "names_ok ok (DeletePrefix k f) = (\<forall>r. names_ok ok (f r))"
| "names_ok ok (ListPrefix k f) = (\<forall>r. names_ok ok (f r))"

lemma once_pbind: "once W P (\<lambda>K x. once W P Q (g x) K) m K \<Longrightarrow> once W P Q (pbind m g) K"
  by (induction m arbitrary: K) auto

lemma names_ok_pbind: "names_ok ok m \<Longrightarrow> (\<And>x. names_ok ok (g x)) \<Longrightarrow> names_ok ok (pbind m g)"
  by (induction m) auto

text \<open>A configuration in which every runtime keeps the discipline.\<close>

definition disciplined ::
    "('w \<Rightarrow> objects) \<Rightarrow> (string \<Rightarrow> bool) \<Rightarrow> ('w \<Rightarrow> bool) \<Rightarrow> (string \<Rightarrow> bool) \<Rightarrow>
     (string \<Rightarrow> bytes \<Rightarrow> bool) \<Rightarrow> (string \<Rightarrow> objects \<Rightarrow> 'a \<Rightarrow> bool) \<Rightarrow> 'w \<times> (string \<Rightarrow> 'a prog) \<Rightarrow> bool" where
  "disciplined objs ok winv W P Q c \<longleftrightarrow>
     winv (fst c) \<and> (\<forall>k d. W k \<longrightarrow> objs (fst c) k = Some d \<longrightarrow> P k d) \<and> (\<forall>i. names_ok ok (snd c i)
       \<and> (\<exists>K. dom K \<subseteq> Collect W \<and> K \<subseteq>\<^sub>m objs (fst c) \<and> once W P (Q i) (snd c i) K))"

context object_store_contract
begin

lemma store_step_inv:
  assumes "store_step st (w, p) (w', p')" and "names_ok key_ok p" and "inv w"
  shows "inv w' \<and> names_ok key_ok p'"
  using assms
  by (cases rule: store_step.cases)
    (auto dest: exists_law read_law put_law put_if_absent_law delete_law delete_prefix_law list_law)

text \<open>One call of a disciplined program keeps every write-once object and its own knowledge.\<close>

lemma store_step_once:
  assumes "store_step st (w, p) (w', p')" and "names_ok key_ok p" and "inv w"
    and "once W P Q p K" and "K \<subseteq>\<^sub>m objs w" and "dom K \<subseteq> Collect W"
    and good: "\<forall>k d. W k \<longrightarrow> objs w k = Some d \<longrightarrow> P k d"
  shows "(\<forall>k d. W k \<longrightarrow> objs w k = Some d \<longrightarrow> objs w' k = Some d)
    \<and> (\<forall>k d. W k \<longrightarrow> objs w' k = Some d \<longrightarrow> P k d)
    \<and> (\<exists>K'. dom K' \<subseteq> Collect W \<and> K' \<subseteq>\<^sub>m objs w' \<and> once W P Q p' K')"
  using assms(1)
proof (cases rule: store_step.cases)
  case (1 f n)
  with assms show ?thesis by (intro conjI exI [of _ K]) auto
next
  case (2 k r f)
  with assms exists_law [OF 2(3)] show ?thesis by (intro conjI exI [of _ K]) auto
next
  case (3 k r f)
  note law = read_law [OF 3(3)]
  show ?thesis
  proof (cases r)
    case (Inl e)
    with 3 assms law show ?thesis by (intro conjI exI [of _ K]) auto
  next
    case (Inr d)
    let ?K = "if W k then K(k \<mapsto> d) else K"
    have "?K \<subseteq>\<^sub>m objs w'" using 3 assms law Inr by (auto simp: map_le_def)
    moreover have "dom ?K \<subseteq> Collect W" using assms(6) by auto
    moreover have "W k \<longrightarrow> P k d" using 3 assms law Inr good by auto
    then have "once W P Q p' ?K" using 3 assms(4) Inr by auto
    ultimately show ?thesis using 3 assms law good by auto
  qed
next
  case (4 k d r f)
  with assms put_law [OF 4(3)] have w: "W l \<Longrightarrow> objs w' l = objs w l" for l by auto
  with assms(5,6) have "K \<subseteq>\<^sub>m objs w'" by (force simp: map_le_def)
  with 4 assms w show ?thesis by (intro conjI exI [of _ K]) auto
next
  case (5 k d r f)
  note law = put_if_absent_law [OF 5(3)]
  have w: "objs w l = Some e \<Longrightarrow> objs w' l = Some e" for l e
    using 5 assms law by auto
  then have K: "K \<subseteq>\<^sub>m objs w'" using assms(5) by (simp add: map_le_def) (metis domIff not_Some_eq)
  have g: "W l \<Longrightarrow> objs w' l = Some e \<Longrightarrow> P l e" for l e
    using good law 5 assms(2-4) by (cases "l = k") auto
  show ?thesis
  proof (cases "r = Inr True")
    case True
    let ?K = "if W k then K(k \<mapsto> d) else K"
    have "objs w' k = Some d" using 5 assms law True by auto
    with K have "?K \<subseteq>\<^sub>m objs w'" by (auto simp: map_le_def)
    moreover have "dom ?K \<subseteq> Collect W" using assms(6) by auto
    moreover have "once W P Q p' ?K" using 5 assms(4) True by auto
    ultimately show ?thesis using w g by blast
  next
    case False
    then have "once W P Q p' K" using 5 assms(4) by (cases r) auto
    with w g K assms(6) show ?thesis by blast
  qed
next
  case (6 k r f)
  have w: "objs w' l = objs w l" if "W l" for l
  proof -
    from that 6 assms(4) have "l \<noteq> k" "\<not> below k l" by auto
    with 6 assms delete_law [OF 6(3)] show ?thesis by (auto simp: removed_only_def)
  qed
  then have "K \<subseteq>\<^sub>m objs w'" using assms(5,6) by (force simp: map_le_def)
  with 6 assms w show ?thesis by (intro conjI exI [of _ K]) auto
next
  case (7 k r f)
  have w: "objs w' l = objs w l" if "W l" for l
  proof -
    from that 7 assms(4) have "\<not> prefix (trim_end_char (CHR ''/'') k) l" by auto
    with 7 assms delete_prefix_law [OF 7(3)] show ?thesis by (auto simp: removed_only_def)
  qed
  then have "K \<subseteq>\<^sub>m objs w'" using assms(5,6) by (force simp: map_le_def)
  with 7 assms w show ?thesis by (intro conjI exI [of _ K]) auto
next
  case (8 k r f)
  with assms list_law [OF 8(3)] show ?thesis by (intro conjI exI [of _ K]) auto
qed

lemma shared_step_disciplined:
  assumes "shared_step st c c'" and "disciplined objs key_ok inv W P Q c"
  shows "disciplined objs key_ok inv W P Q c'"
proof -
  obtain w ps where c: "c = (w, ps)" by (cases c)
  from assms(1) obtain i w' p where c': "c' = (w', ps(i := p))" and st: "store_step st (w, ps i) (w', p)"
    unfolding c by (rule shared_step_cases) auto
  from assms(2) have inv: "inv w" and good: "\<forall>k d. W k \<longrightarrow> objs w k = Some d \<longrightarrow> P k d" and nm: "names_ok key_ok (ps j)"
    and know: "\<exists>K. dom K \<subseteq> Collect W \<and> K \<subseteq>\<^sub>m objs w \<and> once W P (Q j) (ps j) K" for j
    by (auto simp: disciplined_def c)
  from know [of i] obtain K where "dom K \<subseteq> Collect W" "K \<subseteq>\<^sub>m objs w" "once W P (Q i) (ps i) K" by blast
  from store_step_once [OF st nm inv this(3,2,1) good]
  have stay: "\<forall>k d. W k \<longrightarrow> objs w k = Some d \<longrightarrow> objs w' k = Some d"
    and good': "\<forall>k d. W k \<longrightarrow> objs w' k = Some d \<longrightarrow> P k d"
    and new: "\<exists>K'. dom K' \<subseteq> Collect W \<and> K' \<subseteq>\<^sub>m objs w' \<and> once W P (Q i) p K'" by blast+
  have "\<exists>K. dom K \<subseteq> Collect W \<and> K \<subseteq>\<^sub>m objs w' \<and> once W P (Q j) (ps j) K" for j
  proof -
    from know [of j] obtain L where L: "dom L \<subseteq> Collect W" "L \<subseteq>\<^sub>m objs w" "once W P (Q j) (ps j) L" by blast
    then have "L \<subseteq>\<^sub>m objs w'" using stay by (force simp: map_le_def)
    with L show ?thesis by blast
  qed
  with new good' store_step_inv [OF st nm inv] nm show ?thesis
    by (auto simp: disciplined_def c')
qed

lemma shared_run_disciplined:
  assumes "shared_run st c c'" and "disciplined objs key_ok inv W P Q c"
  shows "disciplined objs key_ok inv W P Q c'"
  using assms unfolding shared_run_def
  by (induction rule: rtranclp_induct) (auto intro: shared_step_disciplined)

text \<open>What a finished runtime returned is backed by objects of the store.\<close>

lemma shared_run_result:
  assumes "shared_run st c (w, ps)" and "disciplined objs key_ok inv W P Q c" and "ps i = Done x"
  shows "\<exists>K. K \<subseteq>\<^sub>m objs w \<and> Q i K x"
  using shared_run_disciplined [OF assms(1,2)] assms(3)
  by (fastforce simp: disciplined_def dest: spec [of _ i])

end

section \<open>Running alone under the contract\<close>

lemma rmap_err_Inr: "rmap_err f r = Inr x \<longleftrightarrow> r = Inr x"
  by (cases r) auto

lemma is_ok_rmap_err [simp]: "is_ok (rmap_err f r) = is_ok r"
  by (cases r) auto

context object_store_contract
begin

lemma run_exists:
  assumes "run_prog st clock (p_exists k) s = (r, s')" and "key_ok k" and "inv (sys_world s)"
  shows "inv (sys_world s') \<and> objs (sys_world s') = objs (sys_world s) \<and> sys_ticks s' = sys_ticks s
    \<and> (\<forall>b. r = Inr b \<longrightarrow> objs (sys_world s) k \<noteq> None \<longrightarrow> b)"
proof -
  obtain r0 w where c: "os_exists st k (sys_world s) = (r0, w)" by (cases "os_exists st k (sys_world s)")
  from exists_law [OF this assms(2,3)] assms(1) c show ?thesis
    by (auto simp: p_exists_def rmap_err_Inr)
qed

lemma run_read:
  assumes "run_prog st clock (p_read k) s = (r, s')" and "key_ok k" and "inv (sys_world s)"
  shows "inv (sys_world s') \<and> objs (sys_world s') = objs (sys_world s) \<and> sys_ticks s' = sys_ticks s
    \<and> (\<forall>d. r = Inr d \<longrightarrow> objs (sys_world s) k = Some d)"
proof -
  obtain r0 w where c: "os_read_bytes st k (sys_world s) = (r0, w)" by (cases "os_read_bytes st k (sys_world s)")
  from read_law [OF this assms(2,3)] assms(1) c show ?thesis
    by (auto simp: p_read_def rmap_err_Inr)
qed

lemma run_put:
  assumes "run_prog st clock (p_put k d) s = (r, s')" and "key_ok k" and "inv (sys_world s)"
  shows "inv (sys_world s') \<and> sys_ticks s' = sys_ticks s
    \<and> (objs (sys_world s') = (objs (sys_world s))(k \<mapsto> d)
       \<or> (is_ok r = False \<and> objs (sys_world s') = objs (sys_world s)))"
proof -
  obtain r0 w where c: "os_put_bytes st k d (sys_world s) = (r0, w)" by (cases "os_put_bytes st k d (sys_world s)")
  from put_law [OF this assms(2,3)] assms(1) c show ?thesis by (auto simp: p_put_def)
qed

lemma run_put_if_absent:
  assumes "run_prog st clock (p_put_if_absent k d) s = (r, s')" and "key_ok k" and "inv (sys_world s)"
  shows "inv (sys_world s') \<and> sys_ticks s' = sys_ticks s
    \<and> ((objs (sys_world s) k = None \<and> objs (sys_world s') = (objs (sys_world s))(k \<mapsto> d))
       \<or> (objs (sys_world s') = objs (sys_world s) \<and> r \<noteq> Inr True))"
proof -
  obtain r0 w where c: "os_put_bytes_if_absent st k d (sys_world s) = (r0, w)"
    by (cases "os_put_bytes_if_absent st k d (sys_world s)")
  from put_if_absent_law [OF this assms(2,3)] assms(1) c show ?thesis
    by (cases r0) (auto simp: p_put_if_absent_def)
qed

lemma run_delete_prefix:
  assumes "run_prog st clock (p_delete_prefix p) s = (r, s')" and "inv (sys_world s)"
  shows "inv (sys_world s') \<and> sys_ticks s' = sys_ticks s
    \<and> removed_only (prefix (trim_end_char (CHR ''/'') p)) (objs (sys_world s)) (objs (sys_world s'))"
proof -
  obtain r0 w where c: "os_delete_prefix st p (sys_world s) = (r0, w)" by (cases "os_delete_prefix st p (sys_world s)")
  from delete_prefix_law [OF this assms(2)] assms(1) c show ?thesis by (auto simp: p_delete_prefix_def)
qed

end

lemma run_calls [simp]:
  "run_prog st clock (pok x) s = (Inr x, s)"
  "run_prog st clock (perr c msg) s = (Inl (api_err c msg), s)"
  "run_prog st clock p_now s = (Inr (clock (sys_ticks s)), s\<lparr>sys_ticks := Suc (sys_ticks s)\<rparr>)"
  by (simp_all add: prog_defs)

lemma run_ignore:
  "run_prog st clock (p_ignore m) s = (r, s') \<longleftrightarrow> r = Inr () \<and> s' = snd (run_prog st clock m s)"
  by (auto simp: p_ignore_def run_pbind split: prod.splits)

end
