(* ===== verification/Memory_Store.thy ===== *)
theory Memory_Store
  imports Store_Prog Concrete_Packages
begin

text \<open>
  An object store that is a sorted map and never fails but for a missing object: the concrete
  store of the theorems that apply a property at a concrete input. No definition of the
  program uses it.
\<close>

type_synonym mem_world = "(string \<times> bytes) list"

definition mem_metas :: "string \<Rightarrow> mem_world \<Rightarrow> object_meta list" where
  "mem_metas p w =
     map (\<lambda>(k, d). \<lparr>meta_key = k, meta_len = length d\<rparr>)
       (filter (\<lambda>(k, d). prefix (trim_end_char (CHR ''/'') p) k) w)"

definition mem_store :: "mem_world object_store" where
  "mem_store =
     \<lparr>os_describe = (\<lambda>k w. ''mem://'' @ k),
      os_exists = (\<lambda>k w. (Inr (bt_get w k \<noteq> None), w)),
      os_read_bytes = (\<lambda>k w. (ok_or ''not found'' (bt_get w k), w)),
      os_len = (\<lambda>k w. (Inr (map_option length (bt_get w k)), w)),
      os_put_bytes = (\<lambda>k d w. (Inr (), bt_insert k d w)),
      os_put_bytes_if_absent = (\<lambda>k d w.
        if bt_get w k = None then (Inr True, bt_insert k d w) else (Inr False, w)),
      os_put_file = (\<lambda>k src w.
        case src of None \<Rightarrow> (Inl ''no file'', w) | Some d \<Rightarrow> (Inr (), bt_insert k d w)),
      os_delete = (\<lambda>k w. (Inr (), bt_remove k w)),
      os_delete_prefix = (\<lambda>p w. (Inr (), filter (\<lambda>(k, d). \<not> prefix (trim_end_char (CHR ''/'') p) k) w)),
      os_list_prefix = (\<lambda>p w. (Inr (mem_metas p w), w))\<rparr>"

lemma mem_store_simps [simp]:
  "os_exists mem_store k w = (Inr (bt_get w k \<noteq> None), w)"
  "os_read_bytes mem_store k w = (ok_or ''not found'' (bt_get w k), w)"
  "os_len mem_store k w = (Inr (map_option length (bt_get w k)), w)"
  "os_put_bytes mem_store k d w = (Inr (), bt_insert k d w)"
  "os_put_bytes_if_absent mem_store k d w
     = (if bt_get w k = None then (Inr True, bt_insert k d w) else (Inr False, w))"
  "os_put_file mem_store k src w
     = (case src of None \<Rightarrow> (Inl ''no file'', w) | Some d \<Rightarrow> (Inr (), bt_insert k d w))"
  "os_delete mem_store k w = (Inr (), bt_remove k w)"
  "os_delete_prefix mem_store p w
     = (Inr (), filter (\<lambda>(k, d). \<not> prefix (trim_end_char (CHR ''/'') p) k) w)"
  "os_list_prefix mem_store p w = (Inr (mem_metas p w), w)"
  by (simp_all add: mem_store_def)

lemma bt_get_filter: "bt_get (filter (\<lambda>(k, d). P k) w) k = (if P k then bt_get w k else None)"
  by (induction w) (auto simp: bt_get_def)

lemma bt_wf_filter: "bt_wf w \<Longrightarrow> bt_wf (filter P w)"
  by (induction w) (auto simp: bt_wf_def)

lemma mem_contract: "object_store_contract mem_store bt_get (\<lambda>_. True) bt_wf"
proof (unfold_locales, unfold mem_store_simps, goal_cases)
  case (9 p w r w')
  moreover have "below p k \<Longrightarrow> prefix (trim_end_char (CHR ''/'') p) k" for k
    by (auto simp: below_def prefix_def)
  ultimately show ?case
    by (auto simp: removed_only_def bt_get_filter bt_wf_filter split: if_splits)
next
  case (10 p w r w')
  then have w: "w' = w" "r = Inr (mem_metas p w)" by auto
  have keys: "map meta_key (mem_metas p w)
      = filter (prefix (trim_end_char (CHR ''/'') p)) (map fst w)"
    by (auto simp: mem_metas_def filter_map o_def split_def intro!: arg_cong [of _ _ "\<lambda>f. map fst (filter f w)"])
  have "sorted_wrt (<) (map meta_key (mem_metas p w))"
    using 10(2) by (simp add: keys bt_wf_def sorted_wrt_filter)
  moreover have "\<exists>d. bt_get w (meta_key m) = Some d \<and> meta_len m = length d" if "m \<in> set (mem_metas p w)" for m
    using that bt_get_eq_set [OF 10(2)] by (auto simp: mem_metas_def)
  moreover have "k \<in> meta_key ` set (mem_metas p w)" if "below p k" "bt_get w k \<noteq> None" for k
  proof -
    have "k \<in> set (map meta_key (mem_metas p w))"
      using that by (auto simp: keys below_def prefix_def dest!: bt_get_in_set)
        (metis fst_conv imageI)
    then show ?thesis by simp
  qed
  ultimately show ?case using 10(2) by (simp add: w)
qed (auto simp: bt_get_insert bt_get_remove bt_wf_insert bt_wf_remove removed_only_def fun_eq_iff
    split: if_splits option.splits elim!: ok_or.elims)

lemma mem_run_step:
  assumes "store_step mem_store (w, ps i) (w', p)" and "shared_run mem_store (w', ps(i := p)) c"
  shows "shared_run mem_store (w, ps) c"
  using shared_step.intros [where ps = ps and i = i, OF assms(1)] assms(2)
  unfolding shared_run_def by (rule converse_rtranclp_into_rtranclp)

lemma mem_run_two_steps:
  assumes "store_step mem_store (w, ps i) (w1, p1)" and "store_step mem_store (w1, p1) (w2, p2)"
    and "shared_run mem_store (w2, ps(i := p2)) c"
  shows "shared_run mem_store (w, ps) c"
proof -
  have "store_step mem_store (w1, (ps(i := p1)) i) (w2, p2)" using assms(2) by simp
  moreover have "shared_run mem_store (w2, (ps(i := p1))(i := p2)) c" using assms(3) by simp
  ultimately have "shared_run mem_store (w1, ps(i := p1)) c" by (rule mem_run_step)
  with assms(1) show ?thesis by (rule mem_run_step)
qed

end
