(* ===== verification/S3_Store.thy ===== *)
theory S3_Store
  imports Object_Store Memory_Store
begin

text \<open>
  \<open>S3ObjectStore\<close> (\<open>object_store.rs\<close>, module \<open>s3\<close>): the keys under the configured prefix, the
  retries, the pages of a listing and the conditional write. The AWS client is the record
  \<open>s3_client\<close> over a world \<open>'w\<close>; what it promises is \<open>s3_service\<close>, the documented behaviour of the
  service: strong consistency, writes that happen as a whole or not at all even when their answer
  is lost, listings in the order of the keys, page after page.
\<close>

record s3_failure =
  sf_not_found :: bool
  sf_display :: string
  sf_debug :: string

record s3_page =
  pg_contents :: "(string option \<times> int option) list"
  pg_truncated :: "bool option"
  pg_next_token :: "string option"

text \<open>\<open>sc_put bucket key if_none_match data\<close>; \<open>sc_head\<close> answers with the content length.\<close>

record 'w s3_client =
  sc_put :: "string \<Rightarrow> string \<Rightarrow> bool \<Rightarrow> bytes \<Rightarrow> ('w, s3_failure, unit) action"
  sc_get :: "string \<Rightarrow> string \<Rightarrow> ('w, s3_failure, bytes) action"
  sc_head :: "string \<Rightarrow> string \<Rightarrow> ('w, s3_failure, int option) action"
  sc_delete :: "string \<Rightarrow> string \<Rightarrow> ('w, s3_failure, unit) action"
  sc_list :: "string \<Rightarrow> string \<Rightarrow> string option \<Rightarrow> ('w, s3_failure, s3_page) action"
  sc_sleep :: "nat \<Rightarrow> 'w \<Rightarrow> 'w"

text \<open>\<open>s3_pages\<close> bounds the pages read of one listing; \<open>s3_attempts\<close> is the number of attempts.\<close>

record 'w s3_store =
  s3_client :: "'w s3_client"
  s3_bucket :: string
  s3_prefix :: string
  s3_attempts :: nat
  s3_pages :: nat

definition trim_matches_char :: "char \<Rightarrow> string \<Rightarrow> string" where
  "trim_matches_char c s = trim_end_char c (trim_start_char c s)"

definition s3_max_attempts :: "(string \<Rightarrow> string option) \<Rightarrow> nat" where
  "s3_max_attempts env =
     max 1 (case Option.bind (env ''SDB_S3_ADAPTER_MAX_ATTEMPTS'') parse_u64 of None \<Rightarrow> 3 | Some n \<Rightarrow> n)"

definition new_s3_store ::
    "(string \<Rightarrow> string option) \<Rightarrow> 'w s3_client \<Rightarrow> nat \<Rightarrow> string \<Rightarrow> string \<Rightarrow> 'w s3_store" where
  "new_s3_store env client pages bucket key_prefix =
     \<lparr>s3_client = client, s3_bucket = bucket, s3_prefix = trim_matches_char (CHR ''/'') key_prefix,
      s3_attempts = s3_max_attempts env, s3_pages = pages\<rparr>"

definition s3_key :: "'w s3_store \<Rightarrow> string \<Rightarrow> string" where
  "s3_key s k = (if s3_prefix s = [] then k else s3_prefix s @ ''/'' @ k)"

definition strip_key_prefix :: "string \<Rightarrow> string \<Rightarrow> string" where
  "strip_key_prefix p k =
     (if p = [] then k else trim_start_char (CHR ''/'') (trim_start_matches [p] k))"

definition is_precondition_failed :: "s3_failure \<Rightarrow> bool" where
  "is_precondition_failed e \<longleftrightarrow>
     (let rendered = to_ascii_lowercase (sf_display e @ '' '' @ sf_debug e)
      in contains_str rendered ''preconditionfailed'' \<or> contains_str rendered ''pre-condition''
         \<or> contains_str rendered ''statuscode(412)'' \<or> contains_str rendered ''status: 412'')"

text \<open>\<open>retry_async\<close>: \<open>n\<close> attempts are left, this one is number \<open>attempt\<close>.\<close>

fun retry_attempts ::
    "(nat \<Rightarrow> 'w \<Rightarrow> 'w) \<Rightarrow> nat \<Rightarrow> nat \<Rightarrow> ('w, string, 'a) action \<Rightarrow> ('w, string, 'a) action" where
  "retry_attempts sleep 0 attempt act s = (Inl ''S3 operation failed'', s)"
| "retry_attempts sleep (Suc n) attempt act s =
     (case act s of
        (Inr v, s1) \<Rightarrow> (Inr v, s1)
      | (Inl e, s1) \<Rightarrow>
          if n = 0 then (Inl e, s1)
          else retry_attempts sleep n (attempt + 1) act (sleep (25 * attempt) s1))"

definition retry_async :: "'w s3_store \<Rightarrow> ('w, string, 'a) action \<Rightarrow> ('w, string, 'a) action" where
  "retry_async s act = retry_attempts (sc_sleep (s3_client s)) (s3_attempts s) 1 act"

section \<open>The operations\<close>

definition s3_read_bytes :: "'w s3_store \<Rightarrow> string \<Rightarrow> ('w, string, bytes) action" where
  "s3_read_bytes s k = retry_async s (amap_err sf_display (sc_get (s3_client s) (s3_bucket s) (s3_key s k)))"

definition s3_head_once :: "'w s3_store \<Rightarrow> string \<Rightarrow> ('w, string, nat option) action" where
  "s3_head_once s k =
     acatch (sc_head (s3_client s) (s3_bucket s) (s3_key s k)) (\<lambda>r.
       case r of
         Inr len \<Rightarrow> aret (map_option (\<lambda>n. nat (n mod 2 ^ 64)) len)
       | Inl e \<Rightarrow> if sf_not_found e then aret None else athrow (sf_display e))"

definition s3_len :: "'w s3_store \<Rightarrow> string \<Rightarrow> ('w, string, nat option) action" where
  "s3_len s k = retry_async s (s3_head_once s k)"

definition s3_exists :: "'w s3_store \<Rightarrow> string \<Rightarrow> ('w, string, bool) action" where
  "s3_exists s k = abind (s3_len s k) (\<lambda>len. aret (len \<noteq> None))"

definition s3_put_bytes :: "'w s3_store \<Rightarrow> string \<Rightarrow> bytes \<Rightarrow> ('w, string, unit) action" where
  "s3_put_bytes s k d =
     retry_async s (amap_err sf_display (sc_put (s3_client s) (s3_bucket s) (s3_key s k) False d))"

definition s3_put_bytes_if_absent :: "'w s3_store \<Rightarrow> string \<Rightarrow> bytes \<Rightarrow> ('w, string, bool) action" where
  "s3_put_bytes_if_absent s k d =
     acatch (sc_put (s3_client s) (s3_bucket s) (s3_key s k) True d) (\<lambda>r.
       case r of
         Inr _ \<Rightarrow> aret True
       | Inl e \<Rightarrow>
           if is_precondition_failed e then aret False
           else athrow (''S3 put_bytes_if_absent failed for '' @ s3_bucket s @ ''/'' @ s3_key s k @ '': '' @ sf_debug e))"

definition s3_put_file :: "'w s3_store \<Rightarrow> string \<Rightarrow> bytes option \<Rightarrow> ('w, string, unit) action" where
  "s3_put_file s k source =
     abind (alift (ok_or ''the source cannot be read'' source)) (\<lambda>d. s3_put_bytes s k d)"

definition s3_delete :: "'w s3_store \<Rightarrow> string \<Rightarrow> ('w, string, unit) action" where
  "s3_delete s k = retry_async s (amap_err sf_display (sc_delete (s3_client s) (s3_bucket s) (s3_key s k)))"

definition page_metas :: "string \<Rightarrow> s3_page \<Rightarrow> object_meta list" where
  "page_metas p page =
     List.map_filter (\<lambda>ob. case ob of
         (Some key, Some len) \<Rightarrow>
           Some \<lparr>meta_key = strip_key_prefix p key, meta_len = nat (len mod 2 ^ 64)\<rparr>
       | _ \<Rightarrow> None) (pg_contents page)"

text \<open>The loop over the pages; the last equation is a listing that has not ended within the bound.\<close>

fun list_pages ::
    "'w s3_store \<Rightarrow> string \<Rightarrow> nat \<Rightarrow> string option \<Rightarrow> object_meta list \<Rightarrow> ('w, string, object_meta list) action" where
  "list_pages s p (Suc n) token out =
     abind (amap_err sf_display (sc_list (s3_client s) (s3_bucket s) p token)) (\<lambda>page.
       let out1 = out @ page_metas (s3_prefix s) page
       in if pg_truncated page = Some True then list_pages s p n (pg_next_token page) out1
          else aret (sort_metas out1))"
| "list_pages s p 0 token out = athrow ''listing too long''"

definition s3_list_prefix :: "'w s3_store \<Rightarrow> string \<Rightarrow> ('w, string, object_meta list) action" where
  "s3_list_prefix s p =
     retry_async s (list_pages s (s3_key s (trim_end_char (CHR ''/'') p)) (s3_pages s) None [])"

fun delete_each :: "'w s3_store \<Rightarrow> object_meta list \<Rightarrow> ('w, string, unit) action" where
  "delete_each s [] = aret ()"
| "delete_each s (m # ms) = abind (s3_delete s (meta_key m)) (\<lambda>_. delete_each s ms)"

definition s3_delete_prefix :: "'w s3_store \<Rightarrow> string \<Rightarrow> ('w, string, unit) action" where
  "s3_delete_prefix s p = abind (s3_list_prefix s p) (delete_each s)"

definition s3_object_store :: "'w s3_store \<Rightarrow> 'w object_store" where
  "s3_object_store s =
     \<lparr>os_describe = (\<lambda>k w. ''s3://'' @ s3_bucket s @ ''/'' @ s3_key s k),
      os_exists = s3_exists s, os_read_bytes = s3_read_bytes s, os_len = s3_len s,
      os_put_bytes = s3_put_bytes s, os_put_bytes_if_absent = s3_put_bytes_if_absent s,
      os_put_file = s3_put_file s, os_delete = s3_delete s, os_delete_prefix = s3_delete_prefix s,
      os_list_prefix = s3_list_prefix s\<rparr>"

section \<open>What the service promises\<close>

text \<open>
  \<open>content\<close> is what the bucket holds, \<open>after\<close> the last key of the page a token continues.
\<close>

definition rest_of :: "('w \<Rightarrow> objects) \<Rightarrow> (string \<Rightarrow> string) \<Rightarrow> 'w \<Rightarrow> string \<Rightarrow> string option \<Rightarrow> string set" where
  "rest_of content after w p token =
     {k. content w k \<noteq> None \<and> prefix p k \<and> (case token of None \<Rightarrow> True | Some t \<Rightarrow> after t < k)}"

definition page_ok ::
    "('w \<Rightarrow> objects) \<Rightarrow> (string \<Rightarrow> string) \<Rightarrow> 'w \<Rightarrow> string \<Rightarrow> string option \<Rightarrow> s3_page \<Rightarrow> bool" where
  "page_ok content after w p token page \<longleftrightarrow>
     (\<exists>ks. sorted_wrt (<) ks \<and> set ks \<subseteq> rest_of content after w p token
       \<and> pg_contents page = map (\<lambda>k. (Some k, Some (int (length (the (content w k)))))) ks
       \<and> (if pg_truncated page = Some True
          then ks \<noteq> [] \<and> (\<exists>t. pg_next_token page = Some t \<and> after t = last ks)
            \<and> (\<forall>k \<in> rest_of content after w p token. k \<le> last ks \<longrightarrow> k \<in> set ks)
          else set ks = rest_of content after w p token))"

definition s3_service :: "'w s3_client \<Rightarrow> string \<Rightarrow> ('w \<Rightarrow> objects) \<Rightarrow> (string \<Rightarrow> string) \<Rightarrow> bool" where
  "s3_service C b content after \<longleftrightarrow>
     (\<forall>n w. content (sc_sleep C n w) = content w) \<and>
     (\<forall>k c d w r w'. sc_put C b k c d w = (r, w') \<longrightarrow>
        (content w' = (content w)(k \<mapsto> d) \<and> (c \<longrightarrow> content w k = None))
        \<or> (content w' = content w \<and> \<not> is_ok r)) \<and>
     (\<forall>k w r w'. sc_get C b k w = (r, w') \<longrightarrow> content w' = content w \<and> (\<forall>d. r = Inr d \<longrightarrow> content w k = Some d)) \<and>
     (\<forall>k w r w'. sc_head C b k w = (r, w') \<longrightarrow> content w' = content w \<and>
        (\<forall>n. r = Inr n \<longrightarrow> (\<exists>d. content w k = Some d \<and> n = Some (int (length d)))) \<and>
        (\<forall>e. r = Inl e \<longrightarrow> sf_not_found e \<longrightarrow> content w k = None)) \<and>
     (\<forall>k w r w'. sc_delete C b k w = (r, w') \<longrightarrow>
        content w' = (content w)(k := None) \<or> (content w' = content w \<and> \<not> is_ok r)) \<and>
     (\<forall>p token w r w'. sc_list C b p token w = (r, w') \<longrightarrow> content w' = content w \<and>
        (\<forall>page. r = Inr page \<longrightarrow> page_ok content after w p token page)) \<and>
     (\<forall>w k d. content w k = Some d \<longrightarrow> length d < 2 ^ 63)"

lemma s3_serviceD:
  assumes "s3_service C b content after"
  shows "content (sc_sleep C n w) = content w"
    and "sc_put C b k c d w = (r, w') \<Longrightarrow>
        (content w' = (content w)(k \<mapsto> d) \<and> (c \<longrightarrow> content w k = None))
        \<or> (content w' = content w \<and> \<not> is_ok r)"
    and "sc_get C b k w = (r1, w') \<Longrightarrow> content w' = content w \<and> (\<forall>d. r1 = Inr d \<longrightarrow> content w k = Some d)"
    and "sc_head C b k w = (r2, w') \<Longrightarrow> content w' = content w \<and>
        (\<forall>n. r2 = Inr n \<longrightarrow> (\<exists>d. content w k = Some d \<and> n = Some (int (length d)))) \<and>
        (\<forall>e. r2 = Inl e \<longrightarrow> sf_not_found e \<longrightarrow> content w k = None)"
    and "sc_delete C b k w = (r, w') \<Longrightarrow>
        content w' = (content w)(k := None) \<or> (content w' = content w \<and> \<not> is_ok r)"
    and "sc_list C b p token w = (r3, w') \<Longrightarrow> content w' = content w \<and>
        (\<forall>page. r3 = Inr page \<longrightarrow> page_ok content after w p token page)"
    and "content w k = Some d' \<Longrightarrow> length d' < 2 ^ 63"
proof -
  note laws = assms [unfolded s3_service_def]
  note c1 = conjunct1 [OF laws] and r1 = conjunct2 [OF laws]
  note c2 = conjunct1 [OF r1] and r2 = conjunct2 [OF r1]
  note c3 = conjunct1 [OF r2] and r3 = conjunct2 [OF r2]
  note c4 = conjunct1 [OF r3] and r4 = conjunct2 [OF r3]
  note c5 = conjunct1 [OF r4] and r5 = conjunct2 [OF r4]
  note c6 = conjunct1 [OF r5] and c7 = conjunct2 [OF r5]
  show "content (sc_sleep C n w) = content w" using c1 by simp
  show "sc_put C b k c d w = (r, w') \<Longrightarrow>
        (content w' = (content w)(k \<mapsto> d) \<and> (c \<longrightarrow> content w k = None)) \<or> (content w' = content w \<and> \<not> is_ok r)"
    by (rule c2 [THEN spec, THEN spec, THEN spec, THEN spec, THEN spec, THEN spec, THEN mp])
  show "sc_get C b k w = (r1, w') \<Longrightarrow> content w' = content w \<and> (\<forall>d. r1 = Inr d \<longrightarrow> content w k = Some d)"
    by (rule c3 [THEN spec, THEN spec, THEN spec, THEN spec, THEN mp])
  show "sc_head C b k w = (r2, w') \<Longrightarrow> content w' = content w \<and>
        (\<forall>n. r2 = Inr n \<longrightarrow> (\<exists>d. content w k = Some d \<and> n = Some (int (length d)))) \<and>
        (\<forall>e. r2 = Inl e \<longrightarrow> sf_not_found e \<longrightarrow> content w k = None)"
    by (rule c4 [THEN spec, THEN spec, THEN spec, THEN spec, THEN mp])
  show "sc_delete C b k w = (r, w') \<Longrightarrow>
        content w' = (content w)(k := None) \<or> (content w' = content w \<and> \<not> is_ok r)"
    by (rule c5 [THEN spec, THEN spec, THEN spec, THEN spec, THEN mp])
  show "sc_list C b p token w = (r3, w') \<Longrightarrow> content w' = content w \<and>
        (\<forall>page. r3 = Inr page \<longrightarrow> page_ok content after w p token page)"
    by (rule c6 [THEN spec, THEN spec, THEN spec, THEN spec, THEN spec, THEN mp])
  show "content w k = Some d' \<Longrightarrow> length d' < 2 ^ 63"
    by (rule c7 [THEN spec, THEN spec, THEN spec, THEN mp])
qed
section \<open>The contract\<close>

lemma retry_rule:
  assumes "retry_attempts sleep n attempt act s = (r, s')" and "I s"
    and "\<And>t r' t'. act t = (r', t') \<Longrightarrow> I t \<Longrightarrow> I t' \<and> (\<forall>v. r' = Inr v \<longrightarrow> Q v t')"
    and "\<And>t k. I t \<Longrightarrow> I (sleep k t)"
  shows "I s' \<and> (\<forall>v. r = Inr v \<longrightarrow> Q v s')"
  using assms(1,2)
proof (induction n arbitrary: attempt s)
  case (Suc n)
  obtain r1 s1 where run: "act s = (r1, s1)" by fastforce
  from assms(3) [OF run Suc.prems(2)] show ?case
    using Suc assms(4) by (cases r1) (auto simp: run split: if_splits)
qed auto

lemma retry_read:
  assumes "retry_async s act w = (r, w')" and "s3_service (s3_client s) b content after"
    and "\<And>w r w'. act w = (r, w') \<Longrightarrow> content w' = content w \<and> (\<forall>v. r = Inr v \<longrightarrow> P (content w) v)"
  shows "content w' = content w \<and> (\<forall>v. r = Inr v \<longrightarrow> P (content w) v)"
  by (rule retry_rule [where I = "\<lambda>t. content t = content w" and Q = "\<lambda>v t. P (content w) v",
        OF assms(1) [unfolded retry_async_def]])
    (use assms(3) s3_serviceD(1) [OF assms(2)] in \<open>fastforce+\<close>)

text \<open>An operation that, whenever it has an effect, has the same one.\<close>

lemma retry_write:
  assumes "retry_async s act w = (r, w')" and "s3_service (s3_client s) b content after"
    and "\<And>w r w'. act w = (r, w') \<Longrightarrow> content w' = g (content w) \<or> (content w' = content w \<and> \<not> is_ok r)"
    and "\<And>m. g (g m) = g m"
  shows "content w' = g (content w) \<or> (content w' = content w \<and> \<not> is_ok r)"
proof -
  let ?I = "\<lambda>t. content t = content w \<or> content t = g (content w)"
  have "?I w' \<and> (\<forall>v. r = Inr v \<longrightarrow> content w' = g (content w))"
    by (rule retry_rule [where I = ?I and Q = "\<lambda>v t. content t = g (content w)",
          OF assms(1) [unfolded retry_async_def]])
      (use assms(3,4) s3_serviceD(1) [OF assms(2)] in \<open>fastforce+\<close>)
  then show ?thesis by (cases r) auto
qed

lemma trim_start_char_id: "(s = [] \<or> hd s \<noteq> c) \<Longrightarrow> trim_start_char c s = s"
  by (cases s) (simp_all add: trim_start_char_def)

lemma trim_matches_ends:
  assumes "p = trim_matches_char c q" and "p \<noteq> []"
  shows "hd p \<noteq> c"
proof -
  let ?s = "dropWhile (\<lambda>x. x = c) q"
  have p: "p = rev (dropWhile (\<lambda>x. x = c) (rev ?s))"
    using assms(1) by (simp add: trim_matches_char_def trim_end_char_def trim_start_char_def)
  have "prefix p ?s"
    unfolding p prefix_def using takeWhile_dropWhile_id [of "\<lambda>x. x = c" "rev ?s"]
    by (metis rev_append rev_rev_ident)
  then have "?s \<noteq> []" and "hd p = hd ?s" using assms(2) by (cases p; force simp: prefix_def)+
  then show ?thesis using hd_dropWhile [of "\<lambda>x. x = c" q] by (metis dropWhile_eq_Nil_conv)
qed

definition s3_key_ok :: "'w s3_store \<Rightarrow> string \<Rightarrow> bool" where
  "s3_key_ok s k \<longleftrightarrow> s3_prefix s = [] \<or> k = [] \<or> hd k \<noteq> CHR ''/''"

lemma strip_key:
  assumes "s3_key_ok s k" and "s3_prefix s = [] \<or> hd (s3_prefix s) \<noteq> CHR ''/''"
  shows "strip_key_prefix (s3_prefix s) (s3_key s k) = k"
proof (cases "s3_prefix s = []")
  case False
  let ?p = "s3_prefix s"
  have "\<not> prefix ?p (CHR ''/'' # k)"
    using False assms(2) by (cases ?p) (auto simp: prefix_def)
  then have "trim_start_matches [?p] (CHR ''/'' # k) = CHR ''/'' # k"
    by (intro trim_start_matches_id) simp
  then have "trim_start_matches [?p] (?p @ CHR ''/'' # k) = CHR ''/'' # k"
    using False by (subst trim_start_matches.simps) simp
  then show ?thesis
    using False assms(1)
    by (simp add: strip_key_prefix_def s3_key_def trim_start_char_def s3_key_ok_def dropWhile_eq_Cons_conv)
      (cases k; auto)
qed (simp add: strip_key_prefix_def s3_key_def)

lemma s3_key_inject [simp]: "s3_key s k = s3_key s l \<longleftrightarrow> k = l"
  by (simp add: s3_key_def)

lemma prefix_s3_key [simp]: "prefix (s3_key s p) (s3_key s k) \<longleftrightarrow> prefix p k"
  by (simp add: s3_key_def)

lemma prefix_of_key: "prefix (s3_key s p) x \<Longrightarrow> \<exists>k. x = s3_key s k \<and> prefix p k"
  by (auto simp: s3_key_def prefix_def)
definition s3_objects :: "'w s3_store \<Rightarrow> ('w \<Rightarrow> objects) \<Rightarrow> 'w \<Rightarrow> objects" where
  "s3_objects s content w k = content w (s3_key s k)"

text \<open>The service holds no key with a second slash after the prefix: none the runtime makes has one.\<close>

definition s3_inv :: "'w s3_store \<Rightarrow> ('w \<Rightarrow> objects) \<Rightarrow> 'w \<Rightarrow> bool" where
  "s3_inv s content w \<longleftrightarrow> (\<forall>k. s3_objects s content w k \<noteq> None \<longrightarrow> s3_key_ok s k)"

lemma s3_objects_upd:
  "content w' = (content w)(s3_key s k \<mapsto> d) \<Longrightarrow> s3_objects s content w' = (s3_objects s content w)(k \<mapsto> d)"
  "content w' = (content w)(s3_key s k := None) \<Longrightarrow> s3_objects s content w' = (s3_objects s content w)(k := None)"
  "content w' = content w \<Longrightarrow> s3_objects s content w' = s3_objects s content w"
  by (auto simp: s3_objects_def fun_eq_iff)

lemma s3_inv_upd:
  assumes "s3_inv s content w"
  shows "s3_objects s content w' = (s3_objects s content w)(k \<mapsto> d) \<Longrightarrow> s3_key_ok s k \<Longrightarrow> s3_inv s content w'"
    and "s3_objects s content w' = s3_objects s content w \<Longrightarrow> s3_inv s content w'"
    and "removed_only P (s3_objects s content w) (s3_objects s content w') \<Longrightarrow> s3_inv s content w'"
proof -
  show "s3_objects s content w' = (s3_objects s content w)(k \<mapsto> d) \<Longrightarrow> s3_key_ok s k \<Longrightarrow> s3_inv s content w'"
    "s3_objects s content w' = s3_objects s content w \<Longrightarrow> s3_inv s content w'"
    using assms by (auto simp: s3_inv_def split: if_splits)
  assume "removed_only P (s3_objects s content w) (s3_objects s content w')"
  then show "s3_inv s content w'"
    using assms unfolding s3_inv_def removed_only_def by metis
qed

lemma amap_err_run: "amap_err f m s = (r, s') \<Longrightarrow> \<exists>r0. m s = (r0, s') \<and> r = rmap_err f r0"
  by (cases "m s") (auto simp: amap_err_def)

lemma s3_read_run:
  assumes "s3_read_bytes s k w = (r, w')" and S: "s3_service (s3_client s) (s3_bucket s) content after"
  shows "content w' = content w \<and> (\<forall>d. r = Inr d \<longrightarrow> content w (s3_key s k) = Some d)"
  by (rule retry_read [OF assms(1) [unfolded s3_read_bytes_def] S])
    (auto simp: rmap_err_Inr_iff dest!: amap_err_run s3_serviceD(3) [OF S])

definition length_of :: "objects \<Rightarrow> string \<Rightarrow> nat option" where
  "length_of m k = map_option length (m k)"

lemma s3_len_run:
  assumes "s3_len s k w = (r, w')" and S: "s3_service (s3_client s) (s3_bucket s) content after"
  shows "content w' = content w \<and> (\<forall>n. r = Inr n \<longrightarrow> n = length_of (content w) (s3_key s k))"
proof (rule retry_read [OF assms(1) [unfolded s3_len_def] S])
  fix v r v'
  assume run: "s3_head_once s k v = (r, v')"
  obtain r0 where head: "sc_head (s3_client s) (s3_bucket s) (s3_key s k) v = (r0, v')"
    and r: "r = (case r0 of Inr len \<Rightarrow> Inr (map_option (\<lambda>n. nat (n mod 2 ^ 64)) len)
      | Inl e \<Rightarrow> if sf_not_found e then Inr None else Inl (sf_display e))"
    using run by (auto simp: s3_head_once_def acatch_def split: prod.splits sum.splits if_splits)
  note law = s3_serviceD(4) [OF S head]
  have "nat (int (length d) mod 2 ^ 64) = length d" if "content v (s3_key s k) = Some d" for d
    using s3_serviceD(7) [OF S that] by simp
  with law show "content v' = content v \<and> (\<forall>n. r = Inr n \<longrightarrow> n = length_of (content v) (s3_key s k))"
    by (cases r0) (auto simp: r length_of_def split: if_splits)
qed

lemma s3_put_run:
  assumes "s3_put_bytes s k d w = (r, w')" and S: "s3_service (s3_client s) (s3_bucket s) content after"
  shows "content w' = (content w)(s3_key s k \<mapsto> d) \<or> (content w' = content w \<and> \<not> is_ok r)"
  by (rule retry_write [OF assms(1) [unfolded s3_put_bytes_def] S, where g = "\<lambda>m. m(s3_key s k \<mapsto> d)"])
    (auto simp: is_ok_iff rmap_err_Inr_iff dest!: amap_err_run s3_serviceD(2) [OF S])

lemma s3_delete_run:
  assumes "s3_delete s k w = (r, w')" and S: "s3_service (s3_client s) (s3_bucket s) content after"
  shows "content w' = (content w)(s3_key s k := None) \<or> (content w' = content w \<and> \<not> is_ok r)"
  by (rule retry_write [OF assms(1) [unfolded s3_delete_def] S, where g = "\<lambda>m. m(s3_key s k := None)"])
    (auto simp: is_ok_iff rmap_err_Inr_iff dest!: amap_err_run s3_serviceD(5) [OF S])

section \<open>Listing\<close>

definition meta_of :: "'w s3_store \<Rightarrow> objects \<Rightarrow> string \<Rightarrow> object_meta" where
  "meta_of s m k = \<lparr>meta_key = strip_key_prefix (s3_prefix s) k, meta_len = length (the (m k))\<rparr>"

lemma u64_length: "n < 2 ^ 63 \<Longrightarrow> nat (int n mod 2 ^ 64) = n"
  by simp

lemma page_metas_map:
  assumes "pg_contents page = map (\<lambda>k. (Some k, Some (int (length (the (m k)))))) ks"
    and "\<And>k. k \<in> set ks \<Longrightarrow> length (the (m k)) < 2 ^ 63"
  shows "page_metas (s3_prefix s) page = map (meta_of s m) ks"
  unfolding page_metas_def assms(1) using assms(2)
proof (induction ks)
  case (Cons k ks)
  then have "nat (int (length (the (m k))) mod 2 ^ 64) = length (the (m k))" by (intro u64_length) simp
  with Cons show ?case by (simp add: map_filter_simps meta_of_def)
qed (simp add: map_filter_simps)

lemma list_pages_run:
  assumes "list_pages s p n token (map (meta_of s (content w)) ks) w = (r, w')"
    and S: "s3_service (s3_client s) (s3_bucket s) content after"
    and "sorted_wrt (<) ks" and "set ks \<union> rest_of content after w p token = rest_of content after w p None"
    and "\<And>a b. a \<in> set ks \<Longrightarrow> b \<in> rest_of content after w p token \<Longrightarrow> a < b"
  shows "content w' = content w \<and> (\<forall>ms. r = Inr ms \<longrightarrow> (\<exists>ks. sorted_wrt (<) ks
    \<and> set ks = rest_of content after w p None \<and> ms = sort_metas (map (meta_of s (content w)) ks)))"
  using assms(1,3-5)
proof (induction n arbitrary: token ks w)
  case 0
  then show ?case by auto
next
  case (Suc n)
  obtain r0 w1 where run: "sc_list (s3_client s) (s3_bucket s) p token w = (r0, w1)" by fastforce
  note law = s3_serviceD(6) [OF S run]
  show ?case
  proof (cases r0)
    case (Inl e)
    then show ?thesis using Suc.prems(1) law run by (auto simp: amap_err_def abind_def)
  next
    case (Inr page)
    let ?rest = "rest_of content after w p token"
    have same: "content w1 = content w" using law by simp
    obtain ks1 where ks1: "sorted_wrt (<) ks1" "set ks1 \<subseteq> ?rest"
      and pg: "pg_contents page = map (\<lambda>k. (Some k, Some (int (length (the (content w k)))))) ks1"
      and more: "if pg_truncated page = Some True
          then ks1 \<noteq> [] \<and> (\<exists>t. pg_next_token page = Some t \<and> after t = last ks1)
            \<and> (\<forall>k \<in> ?rest. k \<le> last ks1 \<longrightarrow> k \<in> set ks1)
          else set ks1 = ?rest"
      using law Inr unfolding page_ok_def by blast
    have "length (the (content w k)) < 2 ^ 63" if "k \<in> set ks1" for k
      using that ks1(2) s3_serviceD(7) [OF S] by (force simp: rest_of_def)
    from page_metas_map [OF pg this] have out: "map (meta_of s (content w)) ks @ page_metas (s3_prefix s) page
        = map (meta_of s (content w1)) (ks @ ks1)" by (simp add: same)
    have sorted: "sorted_wrt (<) (ks @ ks1)"
      using Suc.prems(2,4) ks1 by (auto simp: sorted_wrt_append)
    show ?thesis
    proof (cases "pg_truncated page = Some True")
      case True
      then obtain t where t: "pg_next_token page = Some t" "after t = last ks1" "ks1 \<noteq> []"
        and upto: "\<And>k. k \<in> ?rest \<Longrightarrow> k \<le> last ks1 \<Longrightarrow> k \<in> set ks1" using more by auto
      have below: "k \<le> last ks1" if "k \<in> set ks1" for k
        using that ks1(1) t(3) by (induction ks1) (auto split: if_splits intro: less_imp_le)
      have "last ks1 \<in> ?rest" using ks1(2) t(3) by auto
      then have next_rest: "rest_of content after w1 p (Some t) = ?rest - set ks1"
        using upto below t(2)
        by (auto simp: rest_of_def same split: option.splits) (meson leD leI less_trans)+
      have next_run: "list_pages s p n (Some t) (map (meta_of s (content w1)) (ks @ ks1)) w1 = (r, w')"
        using Suc.prems(1) Inr run True t(1) out by (simp add: amap_err_def abind_def)
      have whole: "rest_of content after w1 p None = rest_of content after w p None"
        by (simp add: rest_of_def same)
      have "content w' = content w1 \<and> (\<forall>ms. r = Inr ms \<longrightarrow> (\<exists>ks. sorted_wrt (<) ks
          \<and> set ks = rest_of content after w1 p None \<and> ms = sort_metas (map (meta_of s (content w1)) ks)))"
      proof (rule Suc.IH [OF next_run sorted])
        show "set (ks @ ks1) \<union> rest_of content after w1 p (Some t) = rest_of content after w1 p None"
          unfolding whole next_rest Suc.prems(3) [symmetric] using ks1(2) by auto
        show "a < b" if "a \<in> set (ks @ ks1)" "b \<in> rest_of content after w1 p (Some t)" for a b
        proof (cases "a \<in> set ks1")
          case True
          with below that(2) t(2) show ?thesis by (auto simp: rest_of_def intro: le_less_trans)
        next
          case False
          with that Suc.prems(4) show ?thesis unfolding next_rest by auto
        qed
      qed
      then show ?thesis by (simp add: same rest_of_def)
    next
      case False
      then have "r = Inr (sort_metas (map (meta_of s (content w)) (ks @ ks1)))" "w' = w1"
        using Suc.prems(1) Inr run out by (auto simp: amap_err_def abind_def same)
      then show ?thesis
        using sorted same False more Suc.prems(3) by (intro conjI allI impI exI [of _ "ks @ ks1"]) auto
    qed
  qed
qed
lemma sort_metas_keys:
  "distinct (map meta_key ms) \<Longrightarrow> sorted_wrt (<) (map meta_key (sort_metas ms))" "set (sort_metas ms) = set ms"
proof -
  show "set (sort_metas ms) = set ms" by (simp add: sort_metas_def)
  assume "distinct (map meta_key ms)"
  then have "distinct (map meta_key (sort_metas ms))"
    by (simp add: sort_metas_def distinct_map inj_on_def)
  then show "sorted_wrt (<) (map meta_key (sort_metas ms))"
    by (simp add: sort_metas_def strict_sorted_iff)
qed

lemma s3_list_run:
  assumes "s3_list_prefix s p w = (r, w')" and S: "s3_service (s3_client s) (s3_bucket s) content after"
    and inv: "s3_inv s content w" and edge: "s3_prefix s = [] \<or> hd (s3_prefix s) \<noteq> CHR ''/''"
  shows "content w' = content w \<and> (\<forall>ms. r = Inr ms \<longrightarrow> sorted_wrt (<) (map meta_key ms)
    \<and> (\<forall>m \<in> set ms. \<exists>d. s3_objects s content w (meta_key m) = Some d \<and> meta_len m = length d)
    \<and> meta_key ` set ms = {k. prefix (trim_end_char (CHR ''/'') p) k \<and> s3_objects s content w k \<noteq> None})"
proof -
  let ?p = "trim_end_char (CHR ''/'') p"
  let ?all = "\<lambda>m. {x. m x \<noteq> None \<and> prefix (s3_key s ?p) x}"
  have pages: "content w' = content w \<and> (\<forall>ms. r = Inr ms \<longrightarrow> (\<exists>ks. sorted_wrt (<) ks
      \<and> set ks = ?all (content w) \<and> ms = sort_metas (map (meta_of s (content w)) ks)))"
  proof (rule retry_read [OF assms(1) [unfolded s3_list_prefix_def] S])
    fix v r v'
    assume run: "list_pages s (s3_key s ?p) (s3_pages s) None [] v = (r, v')"
    show "content v' = content v \<and> (\<forall>ms. r = Inr ms \<longrightarrow> (\<exists>ks. sorted_wrt (<) ks
      \<and> set ks = ?all (content v) \<and> ms = sort_metas (map (meta_of s (content v)) ks)))"
      using list_pages_run [where ks = "[]", simplified, OF run S] by (simp add: rest_of_def)
  qed
  have keys: "?all (content w) = s3_key s ` {k. prefix ?p k \<and> s3_objects s content w k \<noteq> None}"
    by (auto simp: s3_objects_def dest: prefix_of_key)
  have key: "meta_key (meta_of s (content w) (s3_key s k)) = k" if "s3_objects s content w k \<noteq> None" for k
    using that inv strip_key [OF _ edge] by (simp add: meta_of_def s3_inv_def)
  have "sorted_wrt (<) (map meta_key ms)
      \<and> (\<forall>m \<in> set ms. \<exists>d. s3_objects s content w (meta_key m) = Some d \<and> meta_len m = length d)
      \<and> meta_key ` set ms = {k. prefix ?p k \<and> s3_objects s content w k \<noteq> None}" if "r = Inr ms" for ms
  proof -
    obtain ks where ks: "sorted_wrt (<) ks" "set ks = ?all (content w)" "ms = sort_metas (map (meta_of s (content w)) ks)"
      using pages \<open>r = Inr ms\<close> by blast
    have "distinct (map meta_key (map (meta_of s (content w)) ks))"
      using ks(1,2) keys key by (auto simp: distinct_map strict_sorted_iff inj_on_def)
    from sort_metas_keys(1) [OF this] show ?thesis
      unfolding ks(3) using ks(2) keys key sort_metas_keys(2)
      by (force simp: image_image s3_objects_def meta_of_def)
  qed
  with pages show ?thesis by blast
qed

lemma s3_put_objects:
  assumes "s3_put_bytes s k d w = (r, w')" and "s3_service (s3_client s) (s3_bucket s) content after"
  shows "s3_objects s content w' = (s3_objects s content w)(k \<mapsto> d)
    \<or> (is_ok r = False \<and> s3_objects s content w' = s3_objects s content w)"
  using s3_put_run [OF assms] s3_objects_upd(1) [of content w' w s k d] s3_objects_upd(3) [of content w' w s] by blast

lemma s3_delete_objects:
  assumes "s3_delete s k w = (r, w')" and "s3_service (s3_client s) (s3_bucket s) content after"
  shows "s3_objects s content w' = (s3_objects s content w)(k := None)
    \<or> (s3_objects s content w' = s3_objects s content w \<and> \<not> is_ok r)"
  using s3_delete_run [OF assms] s3_objects_upd(2) [of content w' w s k] s3_objects_upd(3) [of content w' w s] by blast

lemma delete_each_run:
  assumes "delete_each s ms w = (r, w')" and S: "s3_service (s3_client s) (s3_bucket s) content after"
  shows "removed_only (\<lambda>k. k \<in> meta_key ` set ms) (s3_objects s content w) (s3_objects s content w')
    \<and> (is_ok r \<longrightarrow> (\<forall>k \<in> meta_key ` set ms. s3_objects s content w' k = None))"
  using assms(1)
proof (induction ms arbitrary: w)
  case (Cons m ms)
  obtain r0 w1 where del: "s3_delete s (meta_key m) w = (r0, w1)" by fastforce
  note one = s3_delete_objects [OF del S]
  show ?case
  proof (cases r0)
    case (Inl e)
    then show ?thesis using Cons.prems del one by (auto simp: abind_def removed_only_def)
  next
    case (Inr u)
    then have "delete_each s ms w1 = (r, w')" using Cons.prems del by (simp add: abind_def)
    note rest = Cons.IH [OF this]
    have first: "s3_objects s content w1 = (s3_objects s content w)(meta_key m := None)"
      using one Inr by simp
    have each: "s3_objects s content w' k = s3_objects s content w k
        \<or> k \<in> meta_key ` set (m # ms) \<and> s3_objects s content w' k = None" for k
      using conjunct1 [OF rest, unfolded removed_only_def first, THEN spec, of k] by (cases "k = meta_key m") auto
    have "s3_objects s content w' (meta_key m) = None"
      using conjunct1 [OF rest, unfolded removed_only_def first, THEN spec, of "meta_key m"] by auto
    with each rest show ?thesis by (auto simp: removed_only_def)
  qed
qed (simp add: removed_only_def)

text \<open>C39: over a service that keeps what S3 documents, \<open>S3ObjectStore\<close> keeps the contract of
  \<open>ObjectStore\<close> that durability, leases and storage rest on, with any prefix, any number of attempts
  and pages of any length: attempts that fail may have had their effect, and listings are complete
  and sorted however many pages they take.\<close>

theorem s3_store_keeps_contract:
  assumes S: "s3_service client bucket content after"
    and s: "s = new_s3_store env client pages bucket key_prefix"
  shows "object_store_contract (s3_object_store s) (s3_objects s content) (s3_key_ok s) (s3_inv s content)"
proof -
  have S: "s3_service (s3_client s) (s3_bucket s) content after" using S by (simp add: s new_s3_store_def)
  have edge: "s3_prefix s = [] \<or> hd (s3_prefix s) \<noteq> CHR ''/''"
    using trim_matches_ends [OF refl] by (auto simp: s new_s3_store_def)
  have same: "s3_objects s content w' = s3_objects s content w" if "content w' = content w" for w w'
    using that by (rule s3_objects_upd(3))
  have read: "s3_inv s content w'" if "s3_inv s content w" "content w' = content w" for w w'
    using s3_inv_upd(2) [OF that(1) same [OF that(2)]] .
  note keep = s3_inv_upd
  show ?thesis
  proof (unfold_locales, unfold s3_object_store_def object_store.select_convs, goal_cases)
    case (1 w k)
    then show ?case by (simp add: s3_inv_def)
  next
    case (2 k w r w')
    then obtain r0 where len: "s3_len s k w = (r0, w')" and r: "r = rmap (\<lambda>len. len \<noteq> None) r0"
      by (cases "s3_len s k w"; cases "fst (s3_len s k w)") (auto simp: s3_exists_def abind_def)
    note law = s3_len_run [OF len S]
    have "b" if "r = Inr b" "s3_objects s content w k \<noteq> None" for b
      using law that r by (cases r0) (auto simp: s3_objects_def length_of_def)
    with read [OF 2(3)] same law show ?case by blast
  next
    case (3 k w r w')
    note law = s3_read_run [OF 3(1) S]
    with read [OF 3(3)] same show ?case unfolding s3_objects_def by blast
  next
    case (4 k w r w')
    note law = s3_len_run [OF 4(1) S]
    have "n = length d" if "r = Inr (Some n)" "s3_objects s content w k = Some d" for n d
      using law that by (auto simp: s3_objects_def length_of_def)
    with read [OF 4(3)] same law show ?case by blast
  next
    case (5 k d w r w')
    from s3_put_objects [OF 5(1) S] keep(1) [OF 5(3) _ 5(2), of w' d] keep(2) [OF 5(3), of w']
    show ?case by blast
  next
    case (6 k d w r w')
    obtain r0 where put: "sc_put (s3_client s) (s3_bucket s) (s3_key s k) True d w = (r0, w')"
      and r: "\<not> is_ok r0 \<Longrightarrow> r \<noteq> Inr True"
      using 6(1) by (auto simp: s3_put_bytes_if_absent_def acatch_def split: prod.splits sum.splits if_splits)
    have "s3_objects s content w k = None \<and> s3_objects s content w' = (s3_objects s content w)(k \<mapsto> d)
        \<or> s3_objects s content w' = s3_objects s content w \<and> r \<noteq> Inr True"
      using s3_serviceD(2) [OF S put] r s3_objects_upd(1) [of content w' w s k d] same [of w' w]
      unfolding s3_objects_def by blast
    with keep(1) [OF 6(3) _ 6(2), of w' d] keep(2) [OF 6(3), of w'] show ?case by blast
  next
    case (7 k src w r w')
    show ?case
    proof (cases src)
      case None
      with 7 show ?thesis by (auto simp: s3_put_file_def abind_def)
    next
      case (Some d)
      with 7 have "s3_put_bytes s k d w = (r, w')" by (simp add: s3_put_file_def)
      from s3_put_objects [OF this S] keep(1) [OF 7(3) _ 7(2), of w' d] keep(2) [OF 7(3), of w'] Some
      show ?thesis by blast
    qed
  next
    case (8 k w r w')
    from s3_delete_objects [OF 8(1) S]
    have "removed_only (\<lambda>l. l = k \<or> (s3_objects s content w k = None \<and> below k l))
        (s3_objects s content w) (s3_objects s content w') \<and> (is_ok r \<longrightarrow> s3_objects s content w' k = None)"
      by (auto simp: removed_only_def)
    with keep(3) [OF 8(3)] show ?case by blast
  next
    case (9 p w r w')
    obtain r0 w1 where list: "s3_list_prefix s p w = (r0, w1)" by fastforce
    note listed = s3_list_run [OF list S 9(2) edge]
    have first: "s3_objects s content w1 = s3_objects s content w" using listed same by blast
    have "removed_only (prefix (trim_end_char (CHR ''/'') p)) (s3_objects s content w) (s3_objects s content w')
        \<and> (is_ok r \<longrightarrow> (\<forall>k. below p k \<longrightarrow> s3_objects s content w' k = None))"
    proof (cases r0)
      case (Inl e)
      then show ?thesis using 9(1) list first by (auto simp: s3_delete_prefix_def abind_def removed_only_def)
    next
      case (Inr ms)
      then have run: "delete_each s ms w1 = (r, w')" using 9(1) list by (simp add: s3_delete_prefix_def abind_def)
      have keys: "meta_key ` set ms = {k. prefix (trim_end_char (CHR ''/'') p) k \<and> s3_objects s content w k \<noteq> None}"
        using listed Inr by blast
      note gone = delete_each_run [OF run S, unfolded keys first]
      have "s3_objects s content w' k = None" if "is_ok r" "below p k" for k
      proof (cases "s3_objects s content w k")
        case None
        with conjunct1 [OF gone, unfolded removed_only_def, THEN spec, of k] show ?thesis by auto
      next
        case (Some d)
        with conjunct2 [OF gone] that show ?thesis by (auto simp: below_def prefix_def)
      qed
      with gone show ?thesis by (auto simp: removed_only_def)
    qed
    with keep(3) [OF 9(2)] show ?case by blast
  next
    case (10 p w r w')
    note listed = s3_list_run [OF 10(1) S 10(2) edge]
    have "k \<in> meta_key ` set ms" if "r = Inr ms" "below p k" "s3_objects s content w k \<noteq> None" for k ms
      using listed that by (auto simp: below_def prefix_def)
    with listed read [OF 10(2)] same show ?case by blast
  qed
qed
text \<open>The bound on the pages is no restriction: when the service answers, a listing ends within as
  many pages as there are keys, and one.\<close>

lemma list_pages_ends:
  assumes S: "s3_service (s3_client s) (s3_bucket s) content after"
    and answers: "\<And>token w. is_ok (fst (sc_list (s3_client s) (s3_bucket s) p token w))"
    and "finite (rest_of content after w p token)" and "card (rest_of content after w p token) < n"
  shows "is_ok (fst (list_pages s p n token out w))"
  using assms(3,4)
proof (induction n arbitrary: token out w)
  case (Suc n)
  let ?rest = "rest_of content after w p token"
  obtain page w1 where run: "sc_list (s3_client s) (s3_bucket s) p token w = (Inr page, w1)"
    using answers [of token w] by (metis is_ok_iff prod.collapse)
  note law = s3_serviceD(6) [OF S run]
  show ?case
  proof (cases "pg_truncated page = Some True")
    case True
    then obtain ks t where ks: "ks \<noteq> []" "set ks \<subseteq> ?rest" and t: "pg_next_token page = Some t" "after t = last ks"
      using law unfolding page_ok_def by auto
    have "last ks \<in> ?rest" using ks by auto
    moreover have "last ks \<notin> rest_of content after w1 p (Some t)" by (simp add: rest_of_def t)
    moreover have "rest_of content after w1 p (Some t) \<subseteq> ?rest"
    proof -
      have "content w1 = content w" using law by blast
      with \<open>last ks \<in> ?rest\<close> show ?thesis
        unfolding rest_of_def by (auto simp: t(2) split: option.splits intro: less_trans)
    qed
    ultimately have "rest_of content after w1 p (Some t) \<subset> ?rest" by blast
    then have "card (rest_of content after w1 p (Some t)) < card ?rest"
      by (rule psubset_card_mono [OF Suc.prems(1)])
    then have smaller: "card (rest_of content after w1 p (Some t)) < n" using Suc.prems(2) by simp
    have "finite (rest_of content after w1 p (Some t))"
      using \<open>rest_of content after w1 p (Some t) \<subset> ?rest\<close> Suc.prems(1) by (meson finite_subset psubset_imp_subset)
    from Suc.IH [OF this smaller] show ?thesis by (simp add: amap_err_def abind_def run True t Let_def)
  qed (simp add: amap_err_def abind_def run Let_def)
qed simp

section \<open>A bucket\<close>

text \<open>A bucket that lists one key a page and keeps objects of up to \<open>2\<^sup>6\<^sup>3 - 1\<close> bytes.\<close>

definition held :: "mem_world \<Rightarrow> objects" where
  "held w k = (case bt_get w k of None \<Rightarrow> None | Some d \<Rightarrow> if length d < 2 ^ 63 then Some d else None)"

definition held_keys :: "mem_world \<Rightarrow> string list" where
  "held_keys w = sort (remdups (filter (\<lambda>k. held w k \<noteq> None) (map fst w)))"

definition keys_after :: "mem_world \<Rightarrow> string \<Rightarrow> string option \<Rightarrow> string list" where
  "keys_after w p token =
     filter (\<lambda>k. prefix p k \<and> (case token of None \<Rightarrow> True | Some t \<Rightarrow> t < k)) (held_keys w)"

definition sample_page :: "mem_world \<Rightarrow> string list \<Rightarrow> s3_page" where
  "sample_page w ks =
     (case ks of
        k # _ # _ \<Rightarrow> \<lparr>pg_contents = [(Some k, Some (int (length (the (held w k)))))], pg_truncated = Some True,
           pg_next_token = Some k\<rparr>
      | _ \<Rightarrow> \<lparr>pg_contents = map (\<lambda>k. (Some k, Some (int (length (the (held w k)))))) ks, pg_truncated = Some False,
           pg_next_token = None\<rparr>)"

definition sample_s3 :: "mem_world s3_client" where
  "sample_s3 =
     \<lparr>sc_put = (\<lambda>b k c d w.
        if \<not> length d < 2 ^ 63 then (Inl \<lparr>sf_not_found = False, sf_display = ''EntityTooLarge'', sf_debug = []\<rparr>, w)
        else if c \<and> held w k \<noteq> None
        then (Inl \<lparr>sf_not_found = False, sf_display = ''PreconditionFailed'', sf_debug = []\<rparr>, w)
        else (Inr (), bt_insert k d w)),
      sc_get = (\<lambda>b k w. (ok_or \<lparr>sf_not_found = True, sf_display = ''NoSuchKey'', sf_debug = []\<rparr> (held w k), w)),
      sc_head = (\<lambda>b k w. (case held w k of
          None \<Rightarrow> Inl \<lparr>sf_not_found = True, sf_display = ''NotFound'', sf_debug = []\<rparr>
        | Some d \<Rightarrow> Inr (Some (int (length d))), w)),
      sc_delete = (\<lambda>b k w. (Inr (), bt_remove k w)),
      sc_list = (\<lambda>b p token w. (Inr (sample_page w (keys_after w p token)), w)),
      sc_sleep = (\<lambda>n w. w)\<rparr>"

lemma keys_after_sorted: "sorted_wrt (<) (keys_after w p token)"
  by (simp add: keys_after_def held_keys_def strict_sorted_iff sorted_wrt_filter distinct_sort)

lemma keys_after_rest: "set (keys_after w p token) = rest_of held id w p token"
proof -
  have "k \<in> set (map fst w)" if "held w k \<noteq> None" for k
    using that by (auto simp: held_def split: option.splits dest: bt_get_in_set intro: rev_image_eqI)
  then show ?thesis by (auto simp: keys_after_def held_keys_def rest_of_def split: option.splits)
qed

lemma sample_page_ok: "page_ok held id w p token (sample_page w (keys_after w p token))"
proof -
  let ?ks = "keys_after w p token"
  note facts = keys_after_sorted [of w p token] keys_after_rest [of w p token]
  show ?thesis
  proof (cases "\<exists>a b ks. ?ks = a # b # ks")
    case True
    then obtain a b ks where ks: "?ks = a # b # ks" by blast
    have "k \<le> a \<longrightarrow> k \<in> set [a]" if "k \<in> rest_of held id w p token" for k
    proof -
      have "k \<in> set (a # b # ks)" using that facts(2) unfolding ks by simp
      with facts(1) show ?thesis unfolding ks by (auto simp: not_le [symmetric])
    qed
    moreover have "a \<in> rest_of held id w p token" using facts(2) unfolding ks by auto
    ultimately show ?thesis
      unfolding page_ok_def ks by (intro exI [of _ "[a]"]) (simp add: sample_page_def)
  next
    case False
    with facts show ?thesis
      unfolding page_ok_def
      by (intro exI [of _ ?ks]) (auto simp: sample_page_def split: list.splits)
  qed
qed

lemma held_insert: "length d < 2 ^ 63 \<Longrightarrow> held (bt_insert k d w) = (held w)(k \<mapsto> d)"
  by (auto simp: held_def bt_get_insert fun_eq_iff)

lemma held_remove: "held (bt_remove k w) = (held w)(k := None)"
  by (auto simp: held_def bt_get_remove fun_eq_iff)

lemma sample_put_law:
  assumes "sc_put sample_s3 b k c d w = (r, w')"
  shows "(held w' = (held w)(k \<mapsto> d) \<and> (c \<longrightarrow> held w k = None)) \<or> (held w' = held w \<and> \<not> is_ok r)"
  using assms by (auto simp: sample_s3_def held_insert simp del: power_numeral split: if_splits)

lemma sample_list_law:
  assumes "sc_list sample_s3 b p token w = (r, w')"
  shows "w' = w \<and> (\<forall>page. r = Inr page \<longrightarrow> page_ok held id w p token page)"
  using assms sample_page_ok [of w p token] by (auto simp: sample_s3_def)

lemma sample_s3_service: "s3_service sample_s3 b held id"
  unfolding s3_service_def
proof (intro conjI, goal_cases)
  case 1 show ?case by (simp add: sample_s3_def)
next
  case 2 show ?case using sample_put_law by blast
next
  case 3 show ?case by (auto simp: sample_s3_def elim!: ok_or.elims)
next
  case 4 show ?case by (auto simp: sample_s3_def split: option.splits)
next
  case 5 show ?case by (auto simp: sample_s3_def held_remove)
next
  case 6 show ?case using sample_list_law by blast
next
  case 7 show ?case by (auto simp: held_def simp del: power_numeral split: option.splits if_splits)
qed

lemma s3_store_keeps_contract_witness:
  "object_store_contract (s3_object_store (new_s3_store (\<lambda>_. None) sample_s3 9 ''b'' ''/pre/''))
     (s3_objects (new_s3_store (\<lambda>_. None) sample_s3 9 ''b'' ''/pre/'') held)
     (s3_key_ok (new_s3_store (\<lambda>_. None) sample_s3 9 ''b'' ''/pre/''))
     (s3_inv (new_s3_store (\<lambda>_. None) sample_s3 9 ''b'' ''/pre/'') held)"
  by (rule s3_store_keeps_contract [OF sample_s3_service refl])

end
