(* ===== verification/Runtime_Base.thy ===== *)
theory Runtime_Base
  imports Store_Prog Runtime_Utils
begin

text \<open>
  What every method of \<open>ProjectRuntime\<close> has at hand: its options, its id and the packages it
  calls (JSON text, SHA-256), and the reading of structs from JSON, as \<open>serde\<close> derives it.
\<close>

record routing_endpoint =
  ep_role :: string
  ep_region :: "string option"
  ep_url :: string

record runtime_options =
  snapshot_every_ops :: nat
  snapshot_every_ms :: nat
  metadata_every_ops :: nat
  group_commit_max_ops :: nat
  group_commit_delay_ms :: nat
  writer_queue_capacity :: nat
  max_durable_wal_bytes :: nat
  writer_lease_ttl_ms :: nat
  read_replica :: bool
  replica_refresh_interval_ms :: nat
  replica_bookmark_wait_timeout_ms :: nat
  opt_primary_url :: "string option"
  routing_region :: "string option"
  routing_endpoints :: "routing_endpoint list"
  forward_connect_timeout_ms :: nat
  forward_request_timeout_ms :: nat
  forward_max_attempts_opt :: nat
  forward_retry_backoff_ms :: nat
  routing_endpoint_failure_threshold :: nat
  routing_endpoint_cooldown_ms :: nat
  sqlite_synchronous :: string
  opt_supabase_project_id :: string

definition default_options :: runtime_options where
  "default_options =
     \<lparr>snapshot_every_ops = 1000, snapshot_every_ms = 60000, metadata_every_ops = 100,
      group_commit_max_ops = 64, group_commit_delay_ms = 2, writer_queue_capacity = 1024,
      max_durable_wal_bytes = 64 * 1024 * 1024, writer_lease_ttl_ms = 30000, read_replica = False,
      replica_refresh_interval_ms = 1000, replica_bookmark_wait_timeout_ms = 5000,
      opt_primary_url = None, routing_region = None, routing_endpoints = [],
      forward_connect_timeout_ms = 1000, forward_request_timeout_ms = 5000,
      forward_max_attempts_opt = 3, forward_retry_backoff_ms = 25,
      routing_endpoint_failure_threshold = 2, routing_endpoint_cooldown_ms = 1000,
      sqlite_synchronous = ''NORMAL'', opt_supabase_project_id = ''demo''\<rparr>"

text \<open>\<open>rt_json_error\<close> is the text of the JSON package's error for an input.\<close>

record runtime =
  rt_id :: string
  rt_opts :: runtime_options
  rt_serde :: serde
  rt_sha256 :: "bytes \<Rightarrow> bytes"
  rt_json_error :: "bytes \<Rightarrow> string"

section \<open>Structs from JSON\<close>

text \<open>
  A struct is read from an object, whatever further fields it has, or from an array with one
  element for each field.
\<close>

definition struct_fields :: "string list \<Rightarrow> json \<Rightarrow> (string \<Rightarrow> json option) option" where
  "struct_fields names v =
     (case v of
        JObject m \<Rightarrow> Some (bt_get m)
      | JArray xs \<Rightarrow> if length xs = length names then Some (map_of (zip names xs)) else None
      | _ \<Rightarrow> None)"

definition field :: "(json \<Rightarrow> 'a option) \<Rightarrow> (string \<Rightarrow> json option) \<Rightarrow> string \<Rightarrow> 'a option" where
  "field f get name = Option.bind (get name) f"

text \<open>\<open>#[serde(default)]\<close>.\<close>

definition field_default :: "(json \<Rightarrow> 'a option) \<Rightarrow> 'a \<Rightarrow> (string \<Rightarrow> json option) \<Rightarrow> string \<Rightarrow> 'a option" where
  "field_default f d get name = (case get name of None \<Rightarrow> Some d | Some v \<Rightarrow> f v)"

text \<open>\<open>Option<T>\<close>: \<open>null\<close> is \<open>None\<close>.\<close>

fun as_opt :: "(json \<Rightarrow> 'a option) \<Rightarrow> json \<Rightarrow> 'a option option" where
  "as_opt f JNull = Some None"
| "as_opt f v = map_option Some (f v)"

definition as_u32 :: "json \<Rightarrow> nat option" where
  "as_u32 v = (case as_u64 v of Some n \<Rightarrow> if n < 2 ^ 32 then Some n else None | None \<Rightarrow> None)"

fun as_list :: "(json \<Rightarrow> 'a option) \<Rightarrow> json \<Rightarrow> 'a list option" where
  "as_list f (JArray xs) = those (map f xs)"
| "as_list f v = None"

definition json_opt :: "('a \<Rightarrow> json) \<Rightarrow> 'a option \<Rightarrow> json" where
  "json_opt f x = (case x of None \<Rightarrow> JNull | Some v \<Rightarrow> f v)"

lemma struct_fields_jobj [simp]: "struct_fields names (jobj kvs) = Some (bt_get (fold (\<lambda>(k, v). bt_insert k v) kvs []))"
  by (simp add: struct_fields_def jobj_def)

lemma field_jobj [simp]:
  "field f (bt_get (fold (\<lambda>(k, v). bt_insert k v) kvs [])) name = Option.bind (map_of (rev kvs) name) f"
  "field_default f d (bt_get (fold (\<lambda>(k, v). bt_insert k v) kvs [])) name
    = (case map_of (rev kvs) name of None \<Rightarrow> Some d | Some v \<Rightarrow> f v)"
  using bt.get_fold_insert [of kvs "[]" name]
  by (simp_all add: field_def field_default_def bt.get_empty split: option.splits)

lemma as_u64_json_of_nat [simp]: "as_u64 (json_of_nat n) = Some n"
  by (simp add: json_of_nat_def)

lemma as_u32_json_of_nat [simp]: "as_u32 (json_of_nat n) = (if n < 2 ^ 32 then Some n else None)"
  by (simp add: as_u32_def)

lemma canon_json_of_nat [simp]: "json_canon (json_of_nat n) = json_of_nat n"
  by (simp add: json_of_nat_def)

lemma printable_json_of_nat [simp]: "json_printable (json_of_nat n) \<longleftrightarrow> n \<le> u64_max"
  by (simp add: json_of_nat_def)

lemma json_opt_simps [simp]: "json_opt f None = JNull" "json_opt f (Some v) = f v"
  by (simp_all add: json_opt_def)

lemma those_map_Some: "(\<And>x. x \<in> set xs \<Longrightarrow> f (g x) = Some x) \<Longrightarrow> those (map f (map g xs)) = Some xs"
  by (induction xs) auto

text \<open>\<open>serde_json::from_slice\<close> into a struct, its error under the method's own message.\<close>

definition parse_struct :: "runtime \<Rightarrow> (json \<Rightarrow> 'a option) \<Rightarrow> bytes \<Rightarrow> string + 'a" where
  "parse_struct rt f data =
     (case Option.bind (from_json_text (rt_serde rt) data) f of
        None \<Rightarrow> Inl (rt_json_error rt data)
      | Some x \<Rightarrow> Inr x)"

definition p_result :: "'a api \<Rightarrow> 'a api_prog" where
  "p_result r = Done r"

definition parse_or :: "runtime \<Rightarrow> string \<Rightarrow> (json \<Rightarrow> 'a option) \<Rightarrow> bytes \<Rightarrow> 'a api" where
  "parse_or rt msg f data = rmap_err (\<lambda>e. api_err 503 (msg @ '': '' @ e)) (parse_struct rt f data)"

lemma parse_or_Inr [result_simps]:
  "parse_or rt msg f data = Inr x \<longleftrightarrow> Option.bind (from_json_text (rt_serde rt) data) f = Some x"
  by (auto simp: parse_or_def parse_struct_def result_simps split: option.splits)

end
