(* ===== verification/Lease.thy ===== *)
theory Lease
  imports Runtime_Base Local_Store Memory_Store
begin

text \<open>
  The writer lease of a project (\<open>WriterLease\<close> and the methods around it in \<open>runtime.rs\<close>):
  acquired, renewed, taken over when it has expired, and released, through the object store.
  A takeover claims the next fencing token by creating the claim object of that token. The
  methods are store programs: each call to the store is a step, so the runtimes that share a
  project interleave.
\<close>

record writer_lease =
  wl_schema_version :: nat
  wl_project_id :: string
  wl_owner_id :: string
  wl_fencing_token :: nat
  wl_acquired_at_ms :: nat
  wl_expires_at_ms :: nat

section \<open>The lease as JSON\<close>

definition lease_fields :: "string list" where
  "lease_fields = [''schema_version'', ''project_id'', ''owner_id'', ''fencing_token'',
     ''acquired_at_ms'', ''expires_at_ms'']"

definition lease_to_json :: "writer_lease \<Rightarrow> json" where
  "lease_to_json l = JObject
     [(''schema_version'', json_of_nat (wl_schema_version l)), (''project_id'', JString (wl_project_id l)),
      (''owner_id'', JString (wl_owner_id l)), (''fencing_token'', json_of_nat (wl_fencing_token l)),
      (''acquired_at_ms'', json_of_nat (wl_acquired_at_ms l)),
      (''expires_at_ms'', json_of_nat (wl_expires_at_ms l))]"

definition lease_of_json :: "json \<Rightarrow> writer_lease option" where
  "lease_of_json v =
     Option.bind (struct_fields lease_fields v) (\<lambda>get.
     Option.bind (field as_u32 get ''schema_version'') (\<lambda>version.
     Option.bind (field as_str get ''project_id'') (\<lambda>pid.
     Option.bind (field as_str get ''owner_id'') (\<lambda>owner.
     Option.bind (field as_u64 get ''fencing_token'') (\<lambda>token.
     Option.bind (field as_u64 get ''acquired_at_ms'') (\<lambda>acquired.
     map_option (\<lambda>expires.
       \<lparr>wl_schema_version = version, wl_project_id = pid, wl_owner_id = owner, wl_fencing_token = token,
        wl_acquired_at_ms = acquired, wl_expires_at_ms = expires\<rparr>)
     (field as_u64 get ''expires_at_ms'')))))))"

text \<open>\<open>serde_json::to_vec_pretty(&lease)\<close>.\<close>

definition lease_bytes :: "runtime \<Rightarrow> writer_lease \<Rightarrow> bytes" where
  "lease_bytes rt l = to_json_text_pretty (rt_serde rt) (lease_to_json l)"

definition new_lease :: "runtime \<Rightarrow> string \<Rightarrow> nat \<Rightarrow> nat \<Rightarrow> nat \<Rightarrow> writer_lease" where
  "new_lease rt pid token acquired expires =
     \<lparr>wl_schema_version = 1, wl_project_id = pid, wl_owner_id = rt_id rt, wl_fencing_token = token,
      wl_acquired_at_ms = acquired, wl_expires_at_ms = expires\<rparr>"

section \<open>Reading\<close>

definition load_writer_lease :: "runtime \<Rightarrow> string \<Rightarrow> writer_lease option api_prog" where
  "load_writer_lease rt pid =
     ptry (p_exists (writer_lease_key pid)) (\<lambda>there.
       if \<not> there then pok None
       else ptry (p_read (writer_lease_key pid)) (\<lambda>data.
            ptry (p_result (parse_or rt (''invalid writer lease for '' @ pid) lease_of_json data)) (\<lambda>l.
              pok (Some l))))"

definition load_writer_lease_claim :: "runtime \<Rightarrow> string \<Rightarrow> writer_lease api_prog" where
  "load_writer_lease_claim rt key =
     ptry (p_read key) (\<lambda>data.
       p_result (parse_or rt (''invalid writer lease claim '' @ key) lease_of_json data))"

section \<open>Taking over an expired lease\<close>

text \<open>\<open>for _ in 0..4\<close>: \<open>fuel\<close> is the number of rounds left.\<close>

fun claim_rounds :: "nat \<Rightarrow> runtime \<Rightarrow> string \<Rightarrow> writer_lease \<Rightarrow> nat \<Rightarrow> nat \<Rightarrow> writer_lease api_prog" where
  "claim_rounds 0 rt pid base now ttl =
     perr 423 (''project writer lease takeover kept changing: project_id='' @ pid)"
| "claim_rounds (Suc fuel) rt pid base now ttl =
     (let lease = new_lease rt pid (saturating_add (wl_fencing_token base) 1) now (now + ttl);
          claim_key = writer_lease_claim_key pid (wl_fencing_token lease)
      in ptry (p_put_if_absent claim_key (lease_bytes rt lease)) (\<lambda>created.
         if created
         then ptry (p_put (writer_lease_key pid) (lease_bytes rt lease)) (\<lambda>_. pok lease)
         else ptry (load_writer_lease_claim rt claim_key) (\<lambda>claimed.
           if wl_project_id claimed \<noteq> pid
           then perr 503 (''writer lease claim project mismatch: expected '' @ pid @ '', got ''
                  @ wl_project_id claimed)
           else if wl_owner_id claimed = rt_id rt
           then ptry (p_put (writer_lease_key pid) (lease_bytes rt claimed)) (\<lambda>_. pok claimed)
           else if now < wl_expires_at_ms claimed
           then perr 423 (''project writer lease takeover is held by another runtime: project_id='' @ pid
                  @ '', owner_id='' @ wl_owner_id claimed @ '', fencing_token=''
                  @ show_nat (wl_fencing_token claimed) @ '', expires_at_ms='' @ show_nat (wl_expires_at_ms claimed))
           else claim_rounds fuel rt pid claimed now ttl)))"

definition claim_expired_writer_lease ::
    "runtime \<Rightarrow> string \<Rightarrow> writer_lease \<Rightarrow> nat \<Rightarrow> nat \<Rightarrow> writer_lease api_prog" where
  "claim_expired_writer_lease rt pid base now ttl = claim_rounds 4 rt pid base now ttl"

section \<open>Acquiring\<close>

text \<open>\<open>now as u64\<close>.\<close>

definition truncate_u64 :: "nat \<Rightarrow> nat" where
  "truncate_u64 n = n mod (u64_max + 1)"

text \<open>What follows the first conditional write of \<open>ensure_writer_lease\<close>, with the lease loaded.\<close>

definition ensure_existing_lease ::
    "runtime \<Rightarrow> string \<Rightarrow> nat option \<Rightarrow> nat \<Rightarrow> writer_lease option \<Rightarrow> writer_lease option api_prog" where
  "ensure_existing_lease rt pid known_fencing_token now loaded =
     (let ttl = writer_lease_ttl_ms (rt_opts rt); key = writer_lease_key pid;
          mk = (\<lambda>token. new_lease rt pid token now (now + ttl))
      in case loaded of
           None \<Rightarrow>
             (let retry_lease = mk (wrapping_add (truncate_u64 now) 1)
              in ptry (p_put_if_absent key (lease_bytes rt retry_lease)) (\<lambda>created.
                   if created then pok (Some retry_lease)
                   else perr 423 (''project writer lease changed while acquiring '' @ pid)))
         | Some current \<Rightarrow>
             if wl_project_id current \<noteq> pid
             then perr 503 (''writer lease project mismatch: expected '' @ pid @ '', got ''
                    @ wl_project_id current)
             else if wl_owner_id current = rt_id rt \<and> now < wl_expires_at_ms current
             then (let renewed = mk (saturating_add (wl_fencing_token current) 1)
                   in ptry (p_put key (lease_bytes rt renewed)) (\<lambda>_. pok (Some renewed)))
             else if wl_expires_at_ms current \<le> now
             then (case known_fencing_token of
                     Some known \<Rightarrow>
                       if wl_owner_id current \<noteq> rt_id rt
                       then perr 423 (''project writer lease was lost; rehydrate before reacquiring: project_id=''
                              @ pid @ '', current_owner_id='' @ wl_owner_id current
                              @ '', current_fencing_token='' @ show_nat (wl_fencing_token current)
                              @ '', known_fencing_token='' @ show_nat known)
                       else ptry (claim_expired_writer_lease rt pid current now ttl) (\<lambda>l. pok (Some l))
                   | None \<Rightarrow> ptry (claim_expired_writer_lease rt pid current now ttl) (\<lambda>l. pok (Some l)))
             else perr 423 (''project writer lease is held by another runtime: project_id='' @ pid
                    @ '', owner_id='' @ wl_owner_id current
                    @ '', expires_at_ms='' @ show_nat (wl_expires_at_ms current)))"

definition ensure_writer_lease :: "runtime \<Rightarrow> string \<Rightarrow> nat option \<Rightarrow> writer_lease option api_prog" where
  "ensure_writer_lease rt pid known_fencing_token =
     (let ttl = writer_lease_ttl_ms (rt_opts rt)
      in if ttl = 0 then pok None
      else ptry p_now (\<lambda>now.
        let first_lease = new_lease rt pid (truncate_u64 now) now (now + ttl)
        in ptry (p_put_if_absent (writer_lease_key pid) (lease_bytes rt first_lease)) (\<lambda>created.
           if created then pok (Some first_lease)
           else ptry (load_writer_lease rt pid) (ensure_existing_lease rt pid known_fencing_token now))))"

section \<open>Renewal, release and collection\<close>

definition lease_audit_key :: "string \<Rightarrow> nat \<Rightarrow> string" where
  "lease_audit_key pid at = ''projects/'' @ pid @ ''/lease-audit-'' @ show_nat at @ ''.json''"

definition audit_lease_conflict :: "runtime \<Rightarrow> string \<Rightarrow> writer_lease \<Rightarrow> string \<Rightarrow> unit api_prog" where
  "audit_lease_conflict rt pid lease reason =
     ptry p_now (\<lambda>at. ptry p_now (\<lambda>audited.
       p_ignore (p_put (lease_audit_key pid at)
         (to_json_text_pretty (rt_serde rt)
           (jobj [(''project_id'', JString pid), (''runtime_id'', JString (rt_id rt)),
                  (''lease_owner_id'', JString (wl_owner_id lease)),
                  (''lease_fencing_token'', json_of_nat (wl_fencing_token lease)),
                  (''lease_expires_at_ms'', json_of_nat (wl_expires_at_ms lease)),
                  (''reason'', JString reason), (''audited_at_ms'', json_of_nat audited)])))))"

definition renew_lease :: "runtime \<Rightarrow> string \<Rightarrow> unit api_prog" where
  "renew_lease rt pid =
     ptry p_now (\<lambda>now. ptry (load_writer_lease rt pid) (\<lambda>loaded.
       case loaded of
         None \<Rightarrow> pok ()
       | Some current \<Rightarrow>
           if wl_owner_id current \<noteq> rt_id rt
           then ptry (audit_lease_conflict rt pid current ''renew_lease: lease owned by another runtime'') (\<lambda>_.
                perr 423 (''cannot renew lease: owned by another runtime: project_id='' @ pid
                  @ '', owner_id='' @ wl_owner_id current))
           else p_put (writer_lease_key pid)
                  (lease_bytes rt (new_lease rt pid (wl_fencing_token current) (wl_acquired_at_ms current)
                     (now + writer_lease_ttl_ms (rt_opts rt))))))"

definition release_writer_lease :: "runtime \<Rightarrow> string \<Rightarrow> unit api_prog" where
  "release_writer_lease rt pid =
     (if writer_lease_ttl_ms (rt_opts rt) = 0 then pok ()
      else ptry (load_writer_lease rt pid) (\<lambda>loaded.
        case loaded of
          Some current \<Rightarrow>
            if wl_owner_id current = rt_id rt then p_delete (writer_lease_key pid) else pok ()
        | None \<Rightarrow> pok ()))"

text \<open>Claims whose lease ended an hour ago, or that cannot be read as a lease, are removed.\<close>

fun gc_claims :: "runtime \<Rightarrow> nat \<Rightarrow> object_meta list \<Rightarrow> nat \<Rightarrow> nat api_prog" where
  "gc_claims rt now [] removed = pok removed"
| "gc_claims rt now (claim # claims) removed =
     ptry (p_read (meta_key claim)) (\<lambda>data.
       case parse_struct rt lease_of_json data of
         Inl e \<Rightarrow> ptry (p_ignore (p_delete (meta_key claim))) (\<lambda>_. gc_claims rt now claims (removed + 1))
       | Inr lease \<Rightarrow>
           if wl_expires_at_ms lease + 3600000 < now
           then ptry (p_ignore (p_delete (meta_key claim))) (\<lambda>_. gc_claims rt now claims (removed + 1))
           else gc_claims rt now claims removed)"

definition gc_lease_claims :: "runtime \<Rightarrow> string \<Rightarrow> nat api_prog" where
  "gc_lease_claims rt pid =
     ptry (p_list (''projects/'' @ pid @ ''/writer-lease-claims/'')) (\<lambda>claims.
     ptry p_now (\<lambda>now. gc_claims rt now claims 0))"

text \<open>One tick of \<open>lease_renewer_loop\<close>; \<open>holds_token\<close> is whether the state has a fencing token.\<close>

definition lease_renewer_tick :: "runtime \<Rightarrow> string \<Rightarrow> bool \<Rightarrow> unit api_prog" where
  "lease_renewer_tick rt pid holds_token =
     ptry p_now (\<lambda>now.
       pbind (if \<not> holds_token then Done (Inr False)
              else pbind (load_writer_lease rt pid) (\<lambda>current.
                Done (Inr (case current of
                  Inr (Some lease) \<Rightarrow> wl_owner_id lease = rt_id rt
                    \<and> wl_expires_at_ms lease < now + writer_lease_ttl_ms (rt_opts rt) div 2
                | _ \<Rightarrow> False))))
         (\<lambda>needs_renew.
            ptry (if needs_renew = Inr True then p_ignore (renew_lease rt pid) else pok ())
              (\<lambda>_. p_ignore (gc_lease_claims rt pid))))"

section \<open>The JSON text of a lease reads back\<close>

definition lease_small :: "writer_lease \<Rightarrow> bool" where
  "lease_small l \<longleftrightarrow> wl_schema_version l < 2 ^ 32 \<and> wl_fencing_token l \<le> u64_max
     \<and> wl_acquired_at_ms l \<le> u64_max \<and> wl_expires_at_ms l \<le> u64_max"

lemma lease_of_to_json: "lease_small l \<Longrightarrow> lease_of_json (json_canon (lease_to_json l)) = Some l"
  by (simp add: lease_to_json_def lease_of_json_def lease_small_def field_def bt_get_def)

lemma lease_printable: "lease_small l \<Longrightarrow> json_printable (lease_to_json l)"
  by (simp add: lease_to_json_def lease_small_def u64_max_def)

definition read_lease :: "runtime \<Rightarrow> bytes \<Rightarrow> writer_lease option" where
  "read_lease rt d = Option.bind (from_json_text (rt_serde rt) d) lease_of_json"

lemma read_lease_bytes:
  "serde_roundtrip (rt_serde rt) \<Longrightarrow> lease_small l \<Longrightarrow> read_lease rt (lease_bytes rt l) = Some l"
  by (simp add: read_lease_def lease_bytes_def serde_canonD lease_printable lease_of_to_json)

lemma parse_or_read_lease: "parse_or rt msg lease_of_json d = Inr l \<longleftrightarrow> read_lease rt d = Some l"
  by (simp add: parse_or_Inr read_lease_def)

lemma new_lease_small:
  "token \<le> u64_max \<Longrightarrow> acquired \<le> u64_max \<Longrightarrow> expires \<le> u64_max \<Longrightarrow>
    lease_small (new_lease rt pid token acquired expires)"
  by (simp add: lease_small_def new_lease_def)

section \<open>Claims are written once\<close>

text \<open>
  The claim objects of a project, each holding a lease with the token of its key. All the
  methods of the lease except the collection of old claims keep this discipline.
\<close>

definition is_claim :: "string \<Rightarrow> string \<Rightarrow> bool" where
  "is_claim pid k \<longleftrightarrow> (\<exists>n \<le> u64_max. k = writer_lease_claim_key pid n)"

definition claim_good :: "runtime \<Rightarrow> string \<Rightarrow> string \<Rightarrow> bytes \<Rightarrow> bool" where
  "claim_good rt pid k d \<longleftrightarrow>
     (\<exists>l. read_lease rt d = Some l \<and> wl_fencing_token l \<le> u64_max
        \<and> k = writer_lease_claim_key pid (wl_fencing_token l))"

text \<open>What a takeover has seen when it succeeds: the claim of its token, and that it is its own.\<close>

definition claim_backed :: "runtime \<Rightarrow> string \<Rightarrow> objects \<Rightarrow> writer_lease api \<Rightarrow> bool" where
  "claim_backed rt pid K r \<longleftrightarrow>
     (\<forall>l. r = Inr l \<longrightarrow> wl_owner_id l = rt_id rt \<and> wl_fencing_token l \<le> u64_max
        \<and> (\<exists>d. K (writer_lease_claim_key pid (wl_fencing_token l)) = Some d \<and> read_lease rt d = Some l))"

lemma claim_key_inject:
  assumes "m \<le> u64_max" and "n \<le> u64_max"
  shows "writer_lease_claim_key pid m = writer_lease_claim_key pid n \<longleftrightarrow> m = n"
proof -
  have "show_padded 20 m = show_padded 20 n \<longleftrightarrow> m = n"
    using digits_val_padded by metis
  then show ?thesis by (simp add: writer_lease_claim_key_def)
qed

lemma lease_key_not_claim: "CHR ''/'' \<notin> set pid \<Longrightarrow> \<not> is_claim pid (writer_lease_key pid)"
  using split_control_keys(2,4) [of pid] by (fastforce simp: is_claim_def)

lemma lease_key_not_below: "CHR ''/'' \<notin> set pid \<Longrightarrow> is_claim pid l \<Longrightarrow> \<not> below (writer_lease_key pid) l"
proof
  assume pid: "CHR ''/'' \<notin> set pid" and "is_claim pid l" and "below (writer_lease_key pid) l"
  then obtain n r where l: "l = writer_lease_claim_key pid n" and r: "l = writer_lease_key pid @ ''/'' @ r"
    by (auto simp: is_claim_def below_def prefix_def trim_end_char_def writer_lease_key_def)
  from r have "split_on (CHR ''/'') l = [''projects'', pid, ''writer-lease.json''] @ split_on (CHR ''/'') r"
    using split_on_append_sep [of "CHR ''/''" "writer_lease_key pid" r] split_control_keys(2) [OF pid] by simp
  with l split_control_keys(4) [OF pid, of n] show False by simp
qed

lemmas prog_simps = prog_defs Let_def

lemma claim_rounds_once:
  assumes "serde_roundtrip (rt_serde rt)" and "CHR ''/'' \<notin> set pid" and "now + ttl \<le> u64_max"
  shows "once (is_claim pid) (claim_good rt pid) (claim_backed rt pid) (claim_rounds fuel rt pid base now ttl) K"
proof (induction fuel arbitrary: base K)
  case 0
  then show ?case by (simp add: prog_simps claim_backed_def)
next
  case (Suc fuel)
  define lease where "lease = new_lease rt pid (saturating_add (wl_fencing_token base) 1) now (now + ttl)"
  define key where "key = writer_lease_claim_key pid (wl_fencing_token lease)"
  have tok: "wl_fencing_token lease \<le> u64_max" by (simp add: lease_def new_lease_def)
  have claim: "is_claim pid key" using tok by (auto simp: is_claim_def key_def)
  have "read_lease rt (lease_bytes rt lease) = Some lease"
    using read_lease_bytes [OF assms(1)] new_lease_small assms(3) by (simp add: lease_def)
  then have good: "claim_good rt pid key (lease_bytes rt lease)"
    and backed: "claim_backed rt pid (K'(key \<mapsto> lease_bytes rt lease)) (Inr lease)" for K'
    using tok by (auto simp: claim_good_def claim_backed_def key_def lease_def new_lease_def)
  have claimed: "claim_backed rt pid (K'(key \<mapsto> d)) (Inr l)"
    if "claim_good rt pid key d" "read_lease rt d = Some l" "wl_owner_id l = rt_id rt" for K' d l
    using that by (auto simp: claim_good_def claim_backed_def key_def)
  note nb = lease_key_not_claim [OF assms(2)]
  have err: "claim_backed rt pid K' (Inl e)" for K' e by (simp add: claim_backed_def)
  show ?case
    unfolding claim_rounds.simps Let_def lease_def [symmetric] key_def [symmetric]
    using claim good backed claimed nb err Suc.IH
    by (auto simp: prog_simps load_writer_lease_claim_def p_result_def parse_or_read_lease split: sum.split)
qed

section \<open>The methods as jobs of runtimes that share a project\<close>

datatype lease_job =
  Takeover writer_lease nat nat \<comment> \<open>the expired lease, the time, the duration\<close>
| Acquire "nat option"
| Renew
| Release

fun job_prog :: "runtime \<Rightarrow> string \<Rightarrow> lease_job \<Rightarrow> writer_lease option api_prog" where
  "job_prog rt pid (Takeover base now ttl) =
     ptry (claim_expired_writer_lease rt pid base now ttl) (\<lambda>l. pok (Some l))"
| "job_prog rt pid (Acquire known) = ensure_writer_lease rt pid known"
| "job_prog rt pid Renew = ptry (renew_lease rt pid) (\<lambda>_. pok None)"
| "job_prog rt pid Release = ptry (release_writer_lease rt pid) (\<lambda>_. pok None)"

definition lease_object :: "string \<Rightarrow> string \<Rightarrow> bool" where
  "lease_object pid k \<longleftrightarrow> k = writer_lease_key pid
     \<or> (\<exists>n. k = writer_lease_claim_key pid n \<or> k = lease_audit_key pid n)"

text \<open>The keys the jobs name; the programs differ only in what they do with results.\<close>

definition lease_names :: "string \<Rightarrow> (string \<Rightarrow> bool) \<Rightarrow> bool" where
  "lease_names pid ok \<longleftrightarrow> (\<forall>k. lease_object pid k \<longrightarrow> ok k)"

lemma lease_namesD [simp]:
  assumes "lease_names pid ok"
  shows "ok (writer_lease_key pid)" "ok (writer_lease_claim_key pid n)" "ok (lease_audit_key pid n)"
  using assms by (auto simp: lease_names_def lease_object_def)

lemma names_ok_ptry: "names_ok ok m \<Longrightarrow> (\<And>x. names_ok ok (g x)) \<Longrightarrow> names_ok ok (ptry m g)"
  unfolding ptry_def by (rule names_ok_pbind) (auto split: sum.split)

lemma names_ok_calls [simp]:
  "names_ok ok (pok x)" "names_ok ok (perr st msg)" "names_ok ok (p_result r)" "names_ok ok p_now"
  "names_ok ok (p_exists k) = ok k" "names_ok ok (p_read k) = ok k" "names_ok ok (p_put k d) = ok k"
  "names_ok ok (p_put_if_absent k d) = ok k" "names_ok ok (p_delete k) = ok k"
  by (simp_all add: prog_defs p_result_def)

lemma names_ok_ignore: "names_ok ok m \<Longrightarrow> names_ok ok (p_ignore m)"
  unfolding p_ignore_def by (rule names_ok_pbind) simp_all

lemmas names_ok_intros = names_ok_ptry names_ok_ignore

lemma names_ok_load: "lease_names pid ok \<Longrightarrow> names_ok ok (load_writer_lease rt pid)"
  unfolding load_writer_lease_def by (intro names_ok_intros) (auto intro!: names_ok_intros)

lemma names_ok_claim: "lease_names pid ok \<Longrightarrow> names_ok ok (claim_rounds fuel rt pid base now ttl)"
  by (induction fuel arbitrary: base)
    (auto simp: Let_def load_writer_lease_claim_def intro!: names_ok_intros)

lemma names_ok_job: "lease_names pid ok \<Longrightarrow> names_ok ok (job_prog rt pid job)"
  using names_ok_load names_ok_claim
  by (cases job)
    (auto simp: claim_expired_writer_lease_def ensure_writer_lease_def ensure_existing_lease_def renew_lease_def release_writer_lease_def
      audit_lease_conflict_def Let_def split: option.split intro!: names_ok_intros)

text \<open>Jobs other than takeovers keep the claims too, with nothing to say about their result.\<close>

lemma once_mono: "once W P Q p K \<Longrightarrow> (\<And>K x. Q K x \<Longrightarrow> Q' K x) \<Longrightarrow> once W P Q' p K"
  by (induction p arbitrary: K) auto

lemma once_ptry:
  "once W P (\<lambda>K r. case r of Inl e \<Rightarrow> Q K (Inl e) | Inr x \<Rightarrow> once W P Q (g x) K) m K \<Longrightarrow> once W P Q (ptry m g) K"
  unfolding ptry_def by (rule once_pbind) (erule once_mono, simp split: sum.splits)

abbreviation any_result :: "objects \<Rightarrow> 'a \<Rightarrow> bool" where
  "any_result \<equiv> (\<lambda>_ _. True)"

lemma once_ptry_any:
  "once W P any_result m K \<Longrightarrow> (\<And>x K. once W P any_result (g x) K) \<Longrightarrow> once W P any_result (ptry m g) K"
  by (rule once_ptry) (erule once_mono, auto split: sum.split)

lemma once_calls [simp]:
  "once W P any_result (pok x) K" "once W P any_result (perr st msg) K" "once W P any_result (p_result r) K"
  "once W P any_result p_now K" "once W P any_result (p_exists k) K" "once W P any_result (p_read k) K"
  "once W P any_result (p_put k d) K = (\<not> W k)"
  "once W P any_result (p_put_if_absent k d) K = (W k \<longrightarrow> P k d)"
  "once W P any_result (p_delete k) K = (\<not> W k \<and> (\<forall>l. W l \<longrightarrow> \<not> below k l))"
  by (simp_all add: prog_defs p_result_def)

lemma once_ignore_any: "once W P any_result m K \<Longrightarrow> once W P any_result (p_ignore m) K"
  unfolding p_ignore_def by (rule once_pbind) (erule once_mono, simp)

lemmas once_intros = once_ptry_any once_ignore_any

lemma audit_key_not_claim: "CHR ''/'' \<notin> set pid \<Longrightarrow> \<not> is_claim pid (lease_audit_key pid n)"
proof
  assume pid: "CHR ''/'' \<notin> set pid" and "is_claim pid (lease_audit_key pid n)"
  then obtain m where "lease_audit_key pid n = writer_lease_claim_key pid m" by (auto simp: is_claim_def)
  moreover have "split_on (CHR ''/'') (lease_audit_key pid n)
      = [''projects'', pid, ''lease-audit-'' @ show_nat n @ ''.json'']"
    using split_projects [OF pid] digits_no_slash [of n]
    by (simp add: lease_audit_key_def split_on_no_sep)
  ultimately show False using split_control_keys(4) [OF pid, of m] by simp
qed

lemma claim_rounds_any:
  assumes "serde_roundtrip (rt_serde rt)" and "CHR ''/'' \<notin> set pid" and "now + ttl \<le> u64_max"
  shows "once (is_claim pid) (claim_good rt pid) any_result (claim_rounds fuel rt pid base now ttl) K"
  using claim_rounds_once [OF assms] by (rule once_mono) simp

lemma once_ptry_now:
  "(\<And>n K. n < 2 ^ 63 \<Longrightarrow> once W P any_result (g n) K) \<Longrightarrow> once W P any_result (ptry p_now g) K"
  by (simp add: prog_defs)

lemma once_load_any: "once W P any_result (load_writer_lease rt pid) K"
  unfolding load_writer_lease_def by (auto intro!: once_intros)

lemma job_once_any:
  assumes "serde_roundtrip (rt_serde rt)" and "CHR ''/'' \<notin> set pid"
    and ttl: "writer_lease_ttl_ms (rt_opts rt) < 2 ^ 63"
    and take: "\<And>base now t. job = Takeover base now t \<Longrightarrow> now + t \<le> u64_max"
  shows "once (is_claim pid) (claim_good rt pid) any_result (job_prog rt pid job) K"
proof -
  note pid = lease_key_not_claim [OF assms(2)] lease_key_not_below [OF assms(2)] audit_key_not_claim [OF assms(2)]
  note claim = claim_rounds_any [OF assms(1,2)]
  have time: "n < 2 ^ 63 \<Longrightarrow> n + writer_lease_ttl_ms (rt_opts rt) \<le> u64_max" for n
    using ttl by (simp add: u64_max_def)
  show ?thesis
  proof (cases job)
    case (Takeover base now t)
    with claim [OF take [OF this]] show ?thesis
      by (auto simp: claim_expired_writer_lease_def intro!: once_intros)
  next
    case (Acquire known)
    then show ?thesis
      using pid claim [OF time]
      by (auto simp: ensure_writer_lease_def ensure_existing_lease_def claim_expired_writer_lease_def Let_def split: option.split
          intro!: once_intros once_ptry_now once_load_any)
  next
    case Renew
    then show ?thesis
      using pid by (auto simp: renew_lease_def audit_lease_conflict_def split: option.split
          intro!: once_intros once_load_any)
  next
    case Release
    then show ?thesis
      using pid by (auto simp: release_writer_lease_def split: option.split intro!: once_intros once_load_any)
  qed
qed

section \<open>Properties\<close>

definition takeover_backed :: "runtime \<Rightarrow> string \<Rightarrow> lease_job \<Rightarrow> objects \<Rightarrow> writer_lease option api \<Rightarrow> bool" where
  "takeover_backed rt pid job K r \<longleftrightarrow>
     (\<forall>l base now t. r = Inr (Some l) \<longrightarrow> job = Takeover base now t \<longrightarrow> claim_backed rt pid K (Inr l))"

lemma job_once:
  assumes "serde_roundtrip (rt_serde rt)" and "CHR ''/'' \<notin> set pid"
    and ttl: "writer_lease_ttl_ms (rt_opts rt) < 2 ^ 63"
    and take: "\<And>base now t. job = Takeover base now t \<Longrightarrow> now + t \<le> u64_max"
  shows "once (is_claim pid) (claim_good rt pid) (takeover_backed rt pid job) (job_prog rt pid job) K"
proof (cases "\<exists>base now t. job = Takeover base now t")
  case False
  from job_once_any [OF assms] show ?thesis
    by (rule once_mono) (use False in \<open>auto simp: takeover_backed_def\<close>)
next
  case True
  then obtain base now t where job: "job = Takeover base now t" by blast
  have "once (is_claim pid) (claim_good rt pid)
      (\<lambda>K r. case r of Inl e \<Rightarrow> takeover_backed rt pid job K (Inl e)
        | Inr x \<Rightarrow> once (is_claim pid) (claim_good rt pid) (takeover_backed rt pid job) (pok (Some x)) K)
      (claim_rounds 4 rt pid base now t) K"
    using claim_rounds_once [OF assms(1,2) take [OF job]]
    by (rule once_mono) (auto simp: takeover_backed_def pok_def claim_backed_def split: sum.split)
  from once_ptry [OF this] show ?thesis
    by (simp add: job claim_expired_writer_lease_def)
qed

text \<open>Loading the lease alone finds the lease that is there.\<close>

lemma run_load_lease:
  assumes store: "object_store_contract st objs ok winv" and names: "lease_names pid ok" and w: "winv (sys_world s)"
    and run: "run_prog st clock (load_writer_lease rt pid) s = (r, s')"
  shows "winv (sys_world s') \<and> objs (sys_world s') = objs (sys_world s) \<and> sys_ticks s' = sys_ticks s
    \<and> (\<forall>x. r = Inr x \<longrightarrow> objs (sys_world s) (writer_lease_key pid) = Some d \<longrightarrow> read_lease rt d = x \<and> x \<noteq> None)"
proof -
  note contract = object_store_contract.run_exists [OF store] object_store_contract.run_read [OF store]
  note ok = lease_namesD(1) [OF names]
  from run show ?thesis unfolding load_writer_lease_def run_ptry
  proof (cases rule: abind_elim)
    case (err e)
    with contract(1) [OF err(1) ok w] show ?thesis by simp
  next
    case (ok b s1)
    note ex = contract(1) [OF ok(1) lease_namesD(1) [OF names] w]
    show ?thesis
    proof (cases b)
      case False
      with ok(2) ex show ?thesis by auto
    next
      case True
      with ok(2) have "abind (run_prog st clock (p_read (writer_lease_key pid))) (\<lambda>data.
          run_prog st clock (ptry (p_result (parse_or rt (''invalid writer lease for '' @ pid) lease_of_json data))
            (\<lambda>l. pok (Some l)))) s1 = (r, s')" by (simp add: run_ptry)
      then show ?thesis
      proof (cases rule: abind_elim)
        case (err e)
        with contract(2) [OF err(1) lease_namesD(1) [OF names]] ex show ?thesis by simp
      next
        case (ok data s2)
        note rd = contract(2) [OF ok(1) lease_namesD(1) [OF names]]
        from ok(2) have "s' = s2" "\<forall>x. r = Inr x \<longrightarrow> x \<noteq> None \<and> read_lease rt data = x"
          by (auto simp: run_ptry p_result_def abind_def parse_or_read_lease split: sum.splits)
        with rd ex show ?thesis by auto
      qed
    qed
  qed
qed

text \<open>
  While the lease of a project is held by another runtime and has not expired, acquiring
  it fails, whatever token the caller knows, and changes no object.
\<close>

theorem live_lease_respected:
  assumes store: "object_store_contract st objs ok winv" and names: "lease_names pid ok" and w: "winv (sys_world s)"
    and held: "objs (sys_world s) (writer_lease_key pid) = Some d" "read_lease rt d = Some cur"
      "wl_owner_id cur \<noteq> rt_id rt" "clock (sys_ticks s) < wl_expires_at_ms cur"
    and ttl: "writer_lease_ttl_ms (rt_opts rt) \<noteq> 0"
    and run: "run_prog st clock (ensure_writer_lease rt pid known) s = (r, s')"
  shows "is_ok r = False \<and> objs (sys_world s') = objs (sys_world s)"
proof -
  note absent = object_store_contract.run_put_if_absent [OF store]
  let ?now = "clock (sys_ticks s)"
  let ?first = "new_lease rt pid (truncate_u64 ?now) ?now (?now + writer_lease_ttl_ms (rt_opts rt))"
  let ?f = "ensure_existing_lease rt pid known ?now"
  from run ttl have "abind (run_prog st clock (p_put_if_absent (writer_lease_key pid) (lease_bytes rt ?first)))
      (\<lambda>created. run_prog st clock (if created then pok (Some ?first) else ptry (load_writer_lease rt pid) ?f))
      (s\<lparr>sys_ticks := Suc (sys_ticks s)\<rparr>) = (r, s')"
    by (simp add: ensure_writer_lease_def Let_def run_ptry)
  then show ?thesis
  proof (cases rule: abind_elim)
    case (err e)
    with absent [OF err(1) lease_namesD(1) [OF names]] w held show ?thesis by auto
  next
    case (ok created s1)
    from absent [OF ok(1) lease_namesD(1) [OF names]] w held
    have s1: "winv (sys_world s1)" "objs (sys_world s1) = objs (sys_world s)" and "\<not> created" by auto
    with ok(2) have "abind (run_prog st clock (load_writer_lease rt pid)) (\<lambda>l. run_prog st clock (?f l)) s1 = (r, s')"
      by (simp add: run_ptry)
    then show ?thesis
    proof (cases rule: abind_elim)
      case (err e)
      with run_load_lease [OF store names s1(1) err(1)] s1 show ?thesis by simp
    next
      case (ok l s2)
      from run_load_lease [OF store names s1(1) ok(1), of d] s1 held
      have "l = Some cur" "objs (sys_world s2) = objs (sys_world s)" by auto
      with ok(2) held(3,4) show ?thesis by (auto simp: ensure_existing_lease_def Let_def split: if_splits)
    qed
  qed
qed


definition sample_runtime :: "string \<Rightarrow> runtime" where
  "sample_runtime i = \<lparr>rt_id = i, rt_opts = default_options, rt_serde = sample_serde,
     rt_sha256 = (\<lambda>d. take 32 d), rt_json_error = (\<lambda>d. ''expected value'')\<rparr>"

lemma sample_runtime_simps [simp]:
  "rt_id (sample_runtime i) = i" "rt_serde (sample_runtime i) = sample_serde"
  "rt_opts (sample_runtime i) = default_options" "rt_sha256 (sample_runtime i) = (\<lambda>d. take 32 d)"
  by (simp_all add: sample_runtime_def)

lemma takeover_steps:
  assumes "bt_get w (writer_lease_claim_key pid (wl_fencing_token l)) = None"
    and "l = new_lease rt pid (saturating_add (wl_fencing_token base) 1) now (now + ttl)"
  obtains w1 p1 w2 where
    "store_step mem_store (w, job_prog rt pid (Takeover base now ttl)) (w1, p1)"
    "store_step mem_store (w1, p1) (w2, Done (Inr (Some l)))"
    "w2 = bt_insert (writer_lease_key pid) (lease_bytes rt l)
            (bt_insert (writer_lease_claim_key pid (wl_fencing_token l)) (lease_bytes rt l) w)"
proof -
  let ?k = "writer_lease_claim_key pid (wl_fencing_token l)" and ?d = "lease_bytes rt l"
  obtain body where rounds: "claim_rounds (Suc 3) rt pid base now ttl = ptry (p_put_if_absent ?k ?d) body"
    and body: "body True = ptry (p_put (writer_lease_key pid) ?d) (\<lambda>_. pok l)"
  proof -
    note eq = claim_rounds.simps(2) [of 3 rt pid base now ttl, unfolded Let_def, folded assms(2)]
    show thesis by (rule that [OF eq]) simp
  qed
  have "job_prog rt pid (Takeover base now ttl) = ptry (ptry (p_put_if_absent ?k ?d) body) (\<lambda>l. pok (Some l))"
    by (simp only: job_prog.simps claim_expired_writer_lease_def rounds [symmetric]) simp
  then obtain f where p: "job_prog rt pid (Takeover base now ttl) = PutIfAbsent ?k ?d f"
    and f: "f (Inr True) = Put (writer_lease_key pid) ?d
        (\<lambda>r. pbind (pbind (Done (rmap_err anyhow_api_error r))
            (\<lambda>r. case r of Inl e \<Rightarrow> Done (Inl e) | Inr x \<Rightarrow> pok l))
          (\<lambda>r. case r of Inl e \<Rightarrow> Done (Inl e) | Inr x \<Rightarrow> pok (Some x)))"
    by (simp add: ptry_def p_put_if_absent_def body p_put_def)
  show thesis
  proof (rule that)
    show "store_step mem_store (w, job_prog rt pid (Takeover base now ttl)) (bt_insert ?k ?d w, f (Inr True))"
      unfolding p by (rule store_step.intros) (simp add: assms(1))
    show "store_step mem_store (bt_insert ?k ?d w, f (Inr True))
        (bt_insert (writer_lease_key pid) ?d (bt_insert ?k ?d w), Done (Inr (Some l)))"
      unfolding f by (subst store_step_simps) (simp add: pok_def)
  qed simp
qed

definition old_lease :: "nat \<Rightarrow> writer_lease" where
  "old_lease n = new_lease (sample_runtime ''old'') ''p'' n 0 50"

definition two_takeovers :: "string \<Rightarrow> lease_job" where
  "two_takeovers i =
     (if i = ''a'' then Takeover (old_lease 5) 100 50
      else if i = ''b'' then Takeover (old_lease 8) 100 50 else Renew)"

definition taken :: "string \<Rightarrow> nat \<Rightarrow> writer_lease" where
  "taken i n = new_lease (sample_runtime i) ''p'' n 100 150"

lemma sample_names: "lease_names p (\<lambda>_. True)"
  by (simp add: lease_names_def)

lemma two_takeovers_run:
  "\<exists>w ps. shared_run mem_store ([], \<lambda>i. job_prog (sample_runtime i) ''p'' (two_takeovers i)) (w, ps)
    \<and> ps ''a'' = Done (Inr (Some (taken ''a'' 6))) \<and> ps ''b'' = Done (Inr (Some (taken ''b'' 9)))"
proof -
  let ?ps = "\<lambda>i. job_prog (sample_runtime i) ''p'' (two_takeovers i)"
  have sat: "saturating_add 5 1 = 6" "saturating_add 8 1 = 9" by (simp_all add: saturating_add_def u64_max_def)
  have a: "?ps ''a'' = job_prog (sample_runtime ''a'') ''p'' (Takeover (old_lease 5) 100 50)"
    and b: "?ps ''b'' = job_prog (sample_runtime ''b'') ''p'' (Takeover (old_lease 8) 100 50)"
    by (simp_all add: two_takeovers_def)
  have la: "taken ''a'' 6 = new_lease (sample_runtime ''a'') ''p'' (saturating_add (wl_fencing_token (old_lease 5)) 1) 100 (100 + 50)"
    and lb: "taken ''b'' 9 = new_lease (sample_runtime ''b'') ''p'' (saturating_add (wl_fencing_token (old_lease 8)) 1) 100 (100 + 50)"
    using sat by (simp_all add: taken_def old_lease_def new_lease_def)
  have toks: "wl_fencing_token (taken i n) = n" for i n by (simp add: taken_def new_lease_def)
  have "bt_get [] (writer_lease_claim_key ''p'' 6) = None" by (simp add: bt_get_def)
  with la obtain w1 p1 w2 where s1: "store_step mem_store ([], ?ps ''a'') (w1, p1)"
    and s2: "store_step mem_store (w1, p1) (w2, Done (Inr (Some (taken ''a'' 6))))"
    and w2: "w2 = bt_insert (writer_lease_key ''p'') (lease_bytes (sample_runtime ''a'') (taken ''a'' 6))
      (bt_insert (writer_lease_claim_key ''p'' 6) (lease_bytes (sample_runtime ''a'') (taken ''a'' 6)) [])"
    unfolding a using takeover_steps [of "[]" "''p''" "taken ''a'' 6"] toks by (metis (no_types))
  have "is_claim ''p'' (writer_lease_claim_key ''p'' 9)"
    unfolding is_claim_def by (intro exI [of _ 9]) (simp add: u64_max_def)
  then have "writer_lease_key ''p'' \<noteq> writer_lease_claim_key ''p'' 9"
    using lease_key_not_claim [of "''p''"] by auto
  moreover have "writer_lease_claim_key ''p'' 6 \<noteq> writer_lease_claim_key ''p'' 9"
    using claim_key_inject [of 6 9] by (simp add: u64_max_def)
  ultimately have "bt_get w2 (writer_lease_claim_key ''p'' 9) = None"
    by (simp only: w2 bt_get_insert bt_get_empty) simp
  with lb obtain w3 p3 w4 where s3: "store_step mem_store (w2, ?ps ''b'') (w3, p3)"
    and s4: "store_step mem_store (w3, p3) (w4, Done (Inr (Some (taken ''b'' 9))))"
    unfolding b using takeover_steps [of w2 "''p''" "taken ''b'' 9"] toks by (metis (no_types))
  let ?p2 = "?ps(''a'' := Done (Inr (Some (taken ''a'' 6))))"
  let ?c = "(w4, ?p2(''b'' := Done (Inr (Some (taken ''b'' 9)))))"
  have "?p2 ''b'' = ?ps ''b''" by (rule fun_upd_other) simp
  with s3 have s3': "store_step mem_store (w2, ?p2 ''b'') (w3, p3)" by (simp only:)
  have "shared_run mem_store ?c ?c" by (simp add: shared_run_def)
  then have "shared_run mem_store (w2, ?p2) ?c" by (rule mem_run_two_steps [where ps = ?p2 and i = "''b''", OF s3' s4])
  then have "shared_run mem_store ([], ?ps) ?c" by (rule mem_run_two_steps [where ps = ?ps and i = "''a''", OF s1 s2])
  moreover have "(?p2(''b'' := Done (Inr (Some (taken ''b'' 9))))) ''a'' = Done (Inr (Some (taken ''a'' 6)))"
    by (simp only: fun_upd_apply) simp
  moreover have "(?p2(''b'' := Done (Inr (Some (taken ''b'' 9))))) ''b'' = Done (Inr (Some (taken ''b'' 9)))"
    by (rule fun_upd_same)
  ultimately show ?thesis by blast
qed


lemma read_lease_sample: "lease_small l \<Longrightarrow> read_lease (sample_runtime i) (lease_bytes (sample_runtime j) l) = Some l"
  using read_lease_bytes [of "sample_runtime i" l] sample_serde_roundtrip
  by (simp add: lease_bytes_def)

lemma live_lease_respected_witness:
  "let s = \<lparr>sys_world = [(writer_lease_key ''p'', lease_bytes (sample_runtime ''old'') (old_lease 5))], sys_ticks = 0\<rparr>;
       (r, s') = run_prog mem_store (\<lambda>n. 10) (ensure_writer_lease (sample_runtime ''a'') ''p'' None) s
   in is_ok r = False \<and> bt_get (sys_world s') = bt_get (sys_world s)"
proof -
  let ?s = "\<lparr>sys_world = [(writer_lease_key ''p'', lease_bytes (sample_runtime ''old'') (old_lease 5))], sys_ticks = 0\<rparr>"
  have "lease_small (old_lease 5)" by (simp add: lease_small_def old_lease_def new_lease_def u64_max_def)
  from live_lease_respected [OF mem_contract sample_names, where s = ?s and rt = "sample_runtime ''a''" and clock = "\<lambda>n. 10"
      and known = None, OF _ _ read_lease_sample [OF this, of "''a''" "''old''"] _ _ _ prod.collapse [symmetric]]
  have "is_ok (fst (run_prog mem_store (\<lambda>n. 10) (ensure_writer_lease (sample_runtime ''a'') ''p'' None) ?s)) = False
    \<and> bt_get (sys_world (snd (run_prog mem_store (\<lambda>n. 10) (ensure_writer_lease (sample_runtime ''a'') ''p'' None) ?s)))
      = bt_get (sys_world ?s)"
    by (simp add: bt_wf_def bt_get_def old_lease_def new_lease_def default_options_def)
  then show ?thesis by (simp add: Let_def split_def del: sys.select_convs)
qed

section \<open>A renewal may duplicate a token\<close>

lemma ptry_pok [simp]: "ptry (pok x) g = g x" "ptry (p_result (Inr x)) g = g x"
  by (simp_all add: prog_defs p_result_def)

lemma pbind_assoc: "pbind (pbind m f) g = pbind m (\<lambda>x. pbind (f x) g)"
  by (induction m) auto

lemma ptry_assoc: "ptry (ptry m f) g = ptry m (\<lambda>x. ptry (f x) g)"
  unfolding ptry_def pbind_assoc by (rule arg_cong [of _ _ "pbind m"]) (auto split: sum.split)

lemma ptry_steps:
  "n < 2 ^ 63 \<Longrightarrow> store_step st (w, ptry p_now g) (w, g n)"
  "os_exists st k w = (Inr b, w') \<Longrightarrow> store_step st (w, ptry (p_exists k) ge) (w', ge b)"
  "os_read_bytes st k w = (Inr d, w') \<Longrightarrow> store_step st (w, ptry (p_read k) gr) (w', gr d)"
  "os_put_bytes st k d w = (Inr (), w') \<Longrightarrow> store_step st (w, ptry (p_put k d) gp) (w', gp ())"
  "os_put_bytes_if_absent st k d w = (Inr b, w') \<Longrightarrow> store_step st (w, ptry (p_put_if_absent k d) ga) (w', ga b)"
  by (force simp: prog_defs store_step_simps)+

lemma load_ptry:
  "ptry (load_writer_lease rt pid) g = ptry (p_exists (writer_lease_key pid)) (\<lambda>there.
     if there
     then ptry (p_read (writer_lease_key pid)) (\<lambda>data.
            ptry (p_result (parse_or rt (''invalid writer lease for '' @ pid) lease_of_json data)) (\<lambda>l. g (Some l)))
     else g None)"
  unfolding load_writer_lease_def ptry_assoc
  by (rule arg_cong [of _ _ "ptry _"]) (auto simp: ptry_assoc fun_eq_iff)

lemma shared_run_solo:
  assumes "(store_step st)\<^sup>*\<^sup>* (w, p) (w', p')"
  shows "shared_run st (w, ps(i := p)) (w', ps(i := p'))"
proof -
  have "(store_step st)\<^sup>*\<^sup>* a b \<Longrightarrow> shared_run st (fst a, ps(i := snd a)) (fst b, ps(i := snd b))" for a b
  proof (induction rule: rtranclp_induct)
    case (step b c)
    have "store_step st (fst b, (ps(i := snd b)) i) (fst c, snd c)" using step(2) by simp
    from shared_step.intros [where ps = "ps(i := snd b)" and i = i, OF this]
    have "shared_step st (fst b, ps(i := snd b)) (fst c, ps(i := snd c))" by (simp only: fun_upd_upd)
    with step.IH show ?case unfolding shared_run_def by (rule rtranclp.rtrancl_into_rtrancl)
  qed (simp add: shared_run_def)
  from this [OF assms] show ?thesis by simp
qed

definition held_lease :: writer_lease where
  "held_lease = new_lease (sample_runtime ''a'') ''p'' 5 0 100"

definition race_jobs :: "string \<Rightarrow> lease_job" where
  "race_jobs i = (if i = ''a'' then Acquire None else if i = ''b'' then Takeover held_lease 100 50 else Renew)"

text \<open>
  C17: renewing is not exclusive with takeovers. A runtime that reads its own lease just before
  it expires, and writes the renewed one after another runtime has taken it over, ends with the
  same fencing token as the other, and with the lease object overwritten by its own lease.
\<close>

theorem renewal_duplicates_token:
  "\<exists>w (ps :: string \<Rightarrow> writer_lease option api_prog) l m.
     shared_run mem_store ([(writer_lease_key ''p'', lease_bytes (sample_runtime ''a'') held_lease)],
         \<lambda>i. job_prog (sample_runtime i) ''p'' (race_jobs i)) (w, ps)
     \<and> ps ''a'' = Done (Inr (Some l)) \<and> ps ''b'' = Done (Inr (Some m))
     \<and> wl_owner_id l = ''a'' \<and> wl_owner_id m = ''b'' \<and> wl_fencing_token l = wl_fencing_token m
     \<and> bt_get w (writer_lease_key ''p'') = Some (lease_bytes (sample_runtime ''a'') l)"
proof -
  let ?k = "writer_lease_key ''p''" and ?a = "sample_runtime ''a''" and ?b = "sample_runtime ''b''"
  let ?w0 = "[(?k, lease_bytes ?a held_lease)]"
  let ?ps = "\<lambda>i. job_prog (sample_runtime i) ''p'' (race_jobs i)"
  define la where "la = new_lease ?a ''p'' 6 99 30099"
  define lb where "lb = new_lease ?b ''p'' 6 100 150"
  have there: "bt_get ?w0 ?k = Some (lease_bytes ?a held_lease)" by (simp add: bt_get_def)
  have "lease_small held_lease" by (simp add: lease_small_def held_lease_def new_lease_def u64_max_def)
  note rl = read_lease_sample [OF this, of "''a''" "''a''"]
  have sat: "saturating_add 5 1 = 6" by (simp add: saturating_add_def u64_max_def)
  let ?put = "ptry (p_put ?k (lease_bytes ?a la)) (\<lambda>_. pok (Some la))"
  have "ensure_existing_lease ?a ''p'' None 99 (Some held_lease) = ?put"
    using sat by (simp add: ensure_existing_lease_def held_lease_def la_def new_lease_def default_options_def Let_def)
  then have put: "ptry (p_result (parse_or ?a msg lease_of_json (lease_bytes ?a held_lease)))
      (\<lambda>l. ensure_existing_lease ?a ''p'' None 99 (Some l)) = ?put" for msg
  proof -
    have "parse_or ?a msg lease_of_json (lease_bytes ?a held_lease) = Inr held_lease"
      using rl by (simp add: parse_or_read_lease)
    with \<open>ensure_existing_lease ?a ''p'' None 99 (Some held_lease) = ?put\<close> show ?thesis by simp
  qed
  have a0: "?ps ''a'' = ensure_writer_lease ?a ''p'' None" by (simp add: race_jobs_def)
  let ?load = "ptry (load_writer_lease ?a ''p'') (ensure_existing_lease ?a ''p'' None 99)"
  obtain d f where F: "ensure_writer_lease ?a ''p'' None = ptry p_now f"
    "f 99 = ptry (p_put_if_absent ?k d) (\<lambda>created. if created then pok (Some (new_lease ?a ''p'' (truncate_u64 99) 99 (99 + 30000))) else ?load)"
    by (simp add: ensure_writer_lease_def default_options_def Let_def)
  have s1: "store_step mem_store (?w0, ptry (p_put_if_absent ?k d) g) (?w0, g False)"
    for g :: "bool \<Rightarrow> writer_lease option api_prog"
    by (rule ptry_steps) (simp add: there del: bt_insert.simps)
  have s2: "store_step mem_store (?w0, ptry (p_exists ?k) g) (?w0, g True)"
    for g :: "bool \<Rightarrow> writer_lease option api_prog"
    by (rule ptry_steps) (simp add: there)
  have s3: "store_step mem_store (?w0, ptry (p_read ?k) g) (?w0, g (lease_bytes ?a held_lease))"
    for g :: "bytes \<Rightarrow> writer_lease option api_prog"
    by (rule ptry_steps) (simp add: there)
  let ?read = "ptry (p_read ?k) (\<lambda>data.
        ptry (p_result (parse_or ?a (''invalid writer lease for '' @ ''p'') lease_of_json data))
          (\<lambda>l. ensure_existing_lease ?a ''p'' None 99 (Some l)))"
  have "(store_step mem_store)\<^sup>*\<^sup>* (?w0, ?ps ''a'') (?w0, ptry p_now f)" by (simp add: a0 F(1))
  also have "store_step mem_store (?w0, ptry p_now f) (?w0, f 99)" by (rule ptry_steps) simp
  also have "store_step mem_store (?w0, f 99) (?w0, ?load)"
    unfolding F(2) by (rule s1 [THEN back_subst [of "\<lambda>p. store_step mem_store _ (?w0, p)"]]) simp
  also have "store_step mem_store (?w0, ?load) (?w0, ?read)"
    unfolding load_ptry by (rule s2 [THEN back_subst [of "\<lambda>p. store_step mem_store _ (?w0, p)"]]) simp
  also have "store_step mem_store (?w0, ?read) (?w0, ?put)"
    by (rule s3 [THEN back_subst [of "\<lambda>p. store_step mem_store _ (?w0, p)"]]) (rule put)
  finally have a1: "(store_step mem_store)\<^sup>*\<^sup>* (?w0, ?ps ''a'') (?w0, ?put)" .
  have lb': "lb = new_lease ?b ''p'' (saturating_add (wl_fencing_token held_lease) 1) 100 (100 + 50)"
    using sat by (simp add: lb_def held_lease_def new_lease_def)
  have "bt_get ?w0 (writer_lease_claim_key ''p'' (wl_fencing_token lb)) = None"
  proof -
    have "is_claim ''p'' (writer_lease_claim_key ''p'' 6)"
      unfolding is_claim_def by (intro exI [of _ 6]) (simp add: u64_max_def)
    then have "writer_lease_key ''p'' \<noteq> writer_lease_claim_key ''p'' 6"
      using lease_key_not_claim [of "''p''"] by auto
    then show ?thesis by (simp add: bt_get_def lb_def new_lease_def)
  qed
  then obtain w1 p1 w2 where b1: "store_step mem_store (?w0, job_prog ?b ''p'' (Takeover held_lease 100 50)) (w1, p1)"
    and b2: "store_step mem_store (w1, p1) (w2, Done (Inr (Some lb)))"
    using takeover_steps [OF _ lb'] by metis
  have b: "(?ps(''a'' := ?put)) ''b'' = job_prog ?b ''p'' (Takeover held_lease 100 50)"
    by (simp add: race_jobs_def)
  let ?w3 = "bt_insert ?k (lease_bytes ?a la) w2"
  let ?ps2 = "?ps(''a'' := ?put, ''b'' := Done (Inr (Some lb)))"
  have "store_step mem_store (w2, ?put) (?w3, pok (Some la))" by (rule ptry_steps) simp
  then have "shared_run mem_store (w2, ?ps2(''a'' := ?put)) (?w3, ?ps2(''a'' := pok (Some la)))"
    by (intro shared_run_solo) simp
  then have "shared_run mem_store (w2, ?ps2) (?w3, ?ps2(''a'' := pok (Some la)))" by (simp add: fun_upd_twist)
  with b1 b2 have "shared_run mem_store (?w0, ?ps(''a'' := ?put)) (?w3, ?ps2(''a'' := pok (Some la)))"
    by (intro mem_run_two_steps [where ps = "?ps(''a'' := ?put)" and i = "''b''"]) (simp_all only: b)
  moreover have "shared_run mem_store (?w0, ?ps) (?w0, ?ps(''a'' := ?put))"
  proof -
    have "?ps(''a'' := ?ps ''a'') = ?ps" by (rule fun_upd_triv)
    with shared_run_solo [OF a1, of ?ps "''a''"] show ?thesis by (simp only:)
  qed
  ultimately have run: "shared_run mem_store (?w0, ?ps) (?w3, ?ps2(''a'' := pok (Some la)))"
    unfolding shared_run_def by simp
  then show ?thesis
    by (intro exI [of _ ?w3] exI [of _ "?ps2(''a'' := pok (Some la))"] exI [of _ la] exI [of _ lb] conjI)
      (simp_all add: pok_def la_def lb_def new_lease_def bt_get_insert)
qed

end
