(* ===== verification/Manifest.thy ===== *)
theory Manifest
  imports Runtime_Base
begin

text \<open>
  The durable manifest of a project (\<open>DurableManifest\<close> of \<open>runtime.rs\<close>): which snapshot and
  which chain of WAL segments are the database. The structs with their JSON, and the abstract
  specification of what a manifest and the objects of a store make recoverable
  (\<open>chain_bytes\<close>, \<open>recoverable_from\<close>), against which \<open>Durability\<close> is proved.
\<close>

record snapshot_manifest =
  sm_key :: string
  sm_bytes :: nat
  sm_sha256 :: string

record wal_segment_manifest =
  ws_id :: nat
  ws_key :: string
  ws_offset :: nat
  ws_len :: nat
  ws_sha256 :: string

record wal_chain_manifest =
  wc_prefix :: string
  wc_durable_bytes :: nat
  wc_segments :: "wal_segment_manifest list"

record durable_manifest =
  dm_schema_version :: nat
  dm_project_id :: string
  dm_generation :: nat
  dm_previous_generation :: nat
  dm_fencing_token :: "nat option"
  dm_owner_id :: "string option"
  dm_commit_seq :: nat
  dm_bookmark :: string
  dm_updated_at :: string
  dm_reason :: "string option"
  dm_snapshot :: snapshot_manifest
  dm_wal :: wal_chain_manifest
  dm_ops_since_snapshot :: nat
  dm_gc_watermark_generation :: nat

section \<open>The structs as JSON\<close>

definition snapshot_to_json :: "snapshot_manifest \<Rightarrow> json" where
  "snapshot_to_json s = JObject
     [(''key'', JString (sm_key s)), (''bytes'', json_of_nat (sm_bytes s)), (''sha256'', JString (sm_sha256 s))]"

definition snapshot_of_json :: "json \<Rightarrow> snapshot_manifest option" where
  "snapshot_of_json v =
     Option.bind (struct_fields [''key'', ''bytes'', ''sha256''] v) (\<lambda>get.
     Option.bind (field as_str get ''key'') (\<lambda>key.
     Option.bind (field as_u64 get ''bytes'') (\<lambda>len.
     map_option (\<lambda>sha. \<lparr>sm_key = key, sm_bytes = len, sm_sha256 = sha\<rparr>) (field as_str get ''sha256''))))"

definition segment_to_json :: "wal_segment_manifest \<Rightarrow> json" where
  "segment_to_json s = JObject
     [(''id'', json_of_nat (ws_id s)), (''key'', JString (ws_key s)), (''offset'', json_of_nat (ws_offset s)),
      (''len'', json_of_nat (ws_len s)), (''sha256'', JString (ws_sha256 s))]"

definition segment_of_json :: "json \<Rightarrow> wal_segment_manifest option" where
  "segment_of_json v =
     Option.bind (struct_fields [''id'', ''key'', ''offset'', ''len'', ''sha256''] v) (\<lambda>get.
     Option.bind (field as_u64 get ''id'') (\<lambda>i.
     Option.bind (field as_str get ''key'') (\<lambda>key.
     Option.bind (field as_u64 get ''offset'') (\<lambda>off.
     Option.bind (field as_u64 get ''len'') (\<lambda>len.
     map_option (\<lambda>sha. \<lparr>ws_id = i, ws_key = key, ws_offset = off, ws_len = len, ws_sha256 = sha\<rparr>)
       (field as_str get ''sha256''))))))"

definition chain_to_json :: "wal_chain_manifest \<Rightarrow> json" where
  "chain_to_json c = JObject
     [(''prefix'', JString (wc_prefix c)), (''durable_bytes'', json_of_nat (wc_durable_bytes c)),
      (''segments'', JArray (map segment_to_json (wc_segments c)))]"

definition chain_of_json :: "json \<Rightarrow> wal_chain_manifest option" where
  "chain_of_json v =
     Option.bind (struct_fields [''prefix'', ''durable_bytes'', ''segments''] v) (\<lambda>get.
     Option.bind (field as_str get ''prefix'') (\<lambda>pre.
     Option.bind (field as_u64 get ''durable_bytes'') (\<lambda>len.
     map_option (\<lambda>segs. \<lparr>wc_prefix = pre, wc_durable_bytes = len, wc_segments = segs\<rparr>)
       (field (as_list segment_of_json) get ''segments''))))"

definition manifest_fields :: "string list" where
  "manifest_fields = [''schema_version'', ''project_id'', ''generation'', ''previous_generation'',
     ''fencing_token'', ''owner_id'', ''commit_seq'', ''bookmark'', ''updated_at'', ''reason'', ''snapshot'',
     ''wal'', ''ops_since_snapshot'', ''gc_watermark_generation'']"

definition manifest_to_json :: "durable_manifest \<Rightarrow> json" where
  "manifest_to_json m = JObject
     [(''schema_version'', json_of_nat (dm_schema_version m)),
      (''project_id'', JString (dm_project_id m)),
      (''generation'', json_of_nat (dm_generation m)),
      (''previous_generation'', json_of_nat (dm_previous_generation m)),
      (''fencing_token'', json_opt json_of_nat (dm_fencing_token m)),
      (''owner_id'', json_opt JString (dm_owner_id m)),
      (''commit_seq'', json_of_nat (dm_commit_seq m)),
      (''bookmark'', JString (dm_bookmark m)),
      (''updated_at'', JString (dm_updated_at m)),
      (''reason'', json_opt JString (dm_reason m)),
      (''snapshot'', snapshot_to_json (dm_snapshot m)),
      (''wal'', chain_to_json (dm_wal m)),
      (''ops_since_snapshot'', json_of_nat (dm_ops_since_snapshot m)),
      (''gc_watermark_generation'', json_of_nat (dm_gc_watermark_generation m))]"

text \<open>A missing field of an \<open>Option\<close> type is \<open>None\<close> with or without \<open>#[serde(default)]\<close>.\<close>

definition manifest_of_json :: "json \<Rightarrow> durable_manifest option" where
  "manifest_of_json v =
     Option.bind (struct_fields manifest_fields v) (\<lambda>get.
     Option.bind (field as_u32 get ''schema_version'') (\<lambda>version.
     Option.bind (field as_str get ''project_id'') (\<lambda>pid.
     Option.bind (field as_u64 get ''generation'') (\<lambda>gen.
     Option.bind (field_default as_u64 0 get ''previous_generation'') (\<lambda>prev.
     Option.bind (field_default (as_opt as_u64) None get ''fencing_token'') (\<lambda>token.
     Option.bind (field_default (as_opt as_str) None get ''owner_id'') (\<lambda>owner.
     Option.bind (field_default as_u64 0 get ''commit_seq'') (\<lambda>commits.
     Option.bind (field_default as_str [] get ''bookmark'') (\<lambda>bookmark.
     Option.bind (field as_str get ''updated_at'') (\<lambda>updated.
     Option.bind (field_default (as_opt as_str) None get ''reason'') (\<lambda>reason.
     Option.bind (field snapshot_of_json get ''snapshot'') (\<lambda>snap.
     Option.bind (field chain_of_json get ''wal'') (\<lambda>wal.
     Option.bind (field as_u64 get ''ops_since_snapshot'') (\<lambda>ops.
     map_option (\<lambda>gc.
       \<lparr>dm_schema_version = version, dm_project_id = pid, dm_generation = gen, dm_previous_generation = prev,
        dm_fencing_token = token, dm_owner_id = owner, dm_commit_seq = commits, dm_bookmark = bookmark,
        dm_updated_at = updated, dm_reason = reason, dm_snapshot = snap, dm_wal = wal,
        dm_ops_since_snapshot = ops, dm_gc_watermark_generation = gc\<rparr>)
     (field as_u64 get ''gc_watermark_generation'')))))))))))))))"

definition manifest_bytes :: "runtime \<Rightarrow> durable_manifest \<Rightarrow> bytes" where
  "manifest_bytes rt m = to_json_text_pretty (rt_serde rt) (manifest_to_json m)"

section \<open>Sequence and bookmark\<close>

definition manifest_commit_seq :: "durable_manifest option \<Rightarrow> nat" where
  "manifest_commit_seq manifest =
     (case manifest of
        None \<Rightarrow> 0
      | Some m \<Rightarrow> (case bookmark_to_seq (dm_bookmark m) of Inr n \<Rightarrow> n | Inl e \<Rightarrow> dm_commit_seq m))"

definition manifest_bookmark :: "durable_manifest \<Rightarrow> string" where
  "manifest_bookmark m = (if dm_bookmark m = [] then bookmark_for_seq (dm_commit_seq m) else dm_bookmark m)"

section \<open>The text of a manifest reads back\<close>

definition segment_small :: "wal_segment_manifest \<Rightarrow> bool" where
  "segment_small s \<longleftrightarrow> ws_id s \<le> u64_max \<and> ws_offset s \<le> u64_max \<and> ws_len s \<le> u64_max"

text \<open>The integers of the manifest fit their types.\<close>

definition manifest_small :: "durable_manifest \<Rightarrow> bool" where
  "manifest_small m \<longleftrightarrow> dm_schema_version m < 2 ^ 32 \<and> dm_generation m \<le> u64_max
     \<and> dm_previous_generation m \<le> u64_max \<and> (case dm_fencing_token m of None \<Rightarrow> True | Some n \<Rightarrow> n \<le> u64_max)
     \<and> dm_commit_seq m \<le> u64_max \<and> sm_bytes (dm_snapshot m) \<le> u64_max
     \<and> wc_durable_bytes (dm_wal m) \<le> u64_max \<and> list_all segment_small (wc_segments (dm_wal m))
     \<and> dm_ops_since_snapshot m \<le> u64_max \<and> dm_gc_watermark_generation m \<le> u64_max"

lemma snapshot_of_to_json [simp]: "snapshot_of_json (json_canon (snapshot_to_json s)) = Some s"
  by (simp add: snapshot_to_json_def snapshot_of_json_def field_def bt_get_def)

lemma segment_of_to_json [simp]: "segment_of_json (json_canon (segment_to_json s)) = Some s"
  by (simp add: segment_to_json_def segment_of_json_def field_def bt_get_def)

lemma segments_of_to_json [simp]:
  "as_list segment_of_json (JArray (map json_canon (map segment_to_json segs))) = Some segs"
  using those_map_Some [of segs segment_of_json "\<lambda>s. json_canon (segment_to_json s)"] by (simp add: comp_def)

lemma chain_of_to_json [simp]: "chain_of_json (json_canon (chain_to_json c)) = Some c"
  using segments_of_to_json [of "wc_segments c"]
  by (simp add: chain_to_json_def chain_of_json_def field_def bt_get_def del: segments_of_to_json)

lemma as_opt_json_opt [simp]:
  "as_opt as_u64 (json_canon (json_opt json_of_nat x)) = Some x"
  "as_opt as_str (json_canon (json_opt JString y)) = Some y"
  by (cases x; simp add: json_of_nat_def) (cases y; simp)

lemma manifest_of_to_json:
  "dm_schema_version m < 2 ^ 32 \<Longrightarrow> manifest_of_json (json_canon (manifest_to_json m)) = Some m"
  by (simp add: manifest_to_json_def manifest_of_json_def field_def field_default_def bt_get_def)

lemma manifest_printable: "manifest_small m \<Longrightarrow> json_printable (manifest_to_json m)"
  by (auto simp: manifest_to_json_def manifest_small_def snapshot_to_json_def chain_to_json_def json_opt_def
      segment_to_json_def segment_small_def list_all_iff u64_max_def split: option.splits)

definition read_manifest :: "runtime \<Rightarrow> bytes \<Rightarrow> durable_manifest option" where
  "read_manifest rt d = Option.bind (from_json_text (rt_serde rt) d) manifest_of_json"

lemma read_manifest_bytes:
  "serde_roundtrip (rt_serde rt) \<Longrightarrow> manifest_small m \<Longrightarrow> read_manifest rt (manifest_bytes rt m) = Some m"
  by (simp add: read_manifest_def manifest_bytes_def serde_canonD manifest_printable)
    (simp add: manifest_of_to_json manifest_small_def)

section \<open>What is recoverable\<close>

text \<open>An object with the length and the digest a manifest names.\<close>

definition verified :: "runtime \<Rightarrow> objects \<Rightarrow> string \<Rightarrow> nat \<Rightarrow> string \<Rightarrow> bytes option" where
  "verified rt objs key len sha =
     (case objs key of
        None \<Rightarrow> None
      | Some d \<Rightarrow> if length d = len \<and> hex_sha256 (rt_sha256 rt) d = sha then Some d else None)"

text \<open>
  The WAL of a chain: verified segments, each at the offset where the ones before it end, with
  consecutive ids.
\<close>

fun chain_bytes ::
    "runtime \<Rightarrow> objects \<Rightarrow> nat \<Rightarrow> nat option \<Rightarrow> wal_segment_manifest list \<Rightarrow> bytes option" where
  "chain_bytes rt objs off expected [] = Some []"
| "chain_bytes rt objs off expected (s # segs) =
     (if (case expected of Some i \<Rightarrow> ws_id s = i | None \<Rightarrow> True) \<and> ws_offset s = off
      then Option.bind (verified rt objs (ws_key s) (ws_len s) (ws_sha256 s)) (\<lambda>d.
           map_option (\<lambda>rest. d @ rest)
             (chain_bytes rt objs (wrapping_add off (ws_len s)) (Some (wrapping_add (ws_id s) 1)) segs))
      else None)"

fun chain_total :: "nat \<Rightarrow> wal_segment_manifest list \<Rightarrow> nat" where
  "chain_total off [] = off"
| "chain_total off (s # segs) = chain_total (wrapping_add off (ws_len s)) segs"

definition chain_recoverable :: "runtime \<Rightarrow> objects \<Rightarrow> wal_chain_manifest \<Rightarrow> bytes option" where
  "chain_recoverable rt objs c =
     (if chain_total 0 (wc_segments c) = wc_durable_bytes c then chain_bytes rt objs 0 None (wc_segments c)
      else None)"

text \<open>The database file and the WAL a manifest stands for, when every object of it is there.\<close>

definition recoverable_from :: "runtime \<Rightarrow> objects \<Rightarrow> durable_manifest \<Rightarrow> (bytes \<times> bytes) option" where
  "recoverable_from rt objs m =
     Option.bind (verified rt objs (sm_key (dm_snapshot m)) (sm_bytes (dm_snapshot m)) (sm_sha256 (dm_snapshot m)))
       (\<lambda>snap. map_option (Pair snap) (chain_recoverable rt objs (dm_wal m)))"

definition manifest_of :: "runtime \<Rightarrow> string \<Rightarrow> objects \<Rightarrow> durable_manifest option" where
  "manifest_of rt pid objs = Option.bind (objs (manifest_key pid)) (read_manifest rt)"

definition recoverable :: "runtime \<Rightarrow> string \<Rightarrow> objects \<Rightarrow> (bytes \<times> bytes) option" where
  "recoverable rt pid objs = Option.bind (manifest_of rt pid objs) (recoverable_from rt objs)"

lemma verified_Some:
  "verified rt objs key len sha = Some d \<longleftrightarrow>
     objs key = Some d \<and> length d = len \<and> hex_sha256 (rt_sha256 rt) d = sha"
  by (auto simp: verified_def split: option.splits)

lemma chain_bytes_Cons:
  "chain_bytes rt objs off i (s # segs) = Some d \<longleftrightarrow>
     (case i of Some n \<Rightarrow> ws_id s = n | None \<Rightarrow> True) \<and> ws_offset s = off
     \<and> (\<exists>a b. verified rt objs (ws_key s) (ws_len s) (ws_sha256 s) = Some a
          \<and> chain_bytes rt objs (wrapping_add off (ws_len s)) (Some (wrapping_add (ws_id s) 1)) segs = Some b
          \<and> d = a @ b)"
  by (auto simp: bind_eq_Some_conv)

definition next_id :: "nat option \<Rightarrow> wal_segment_manifest list \<Rightarrow> nat option" where
  "next_id i segs = (if segs = [] then i else Some (wrapping_add (ws_id (last segs)) 1))"

lemma next_id_Cons: "next_id (Some (wrapping_add (ws_id s) 1)) segs = next_id i (s # segs)"
  by (simp add: next_id_def)

lemma chain_bytes_append:
  "chain_bytes rt objs off i (xs @ ys) = Some d \<longleftrightarrow>
     (\<exists>a b. chain_bytes rt objs off i xs = Some a
        \<and> chain_bytes rt objs (chain_total off xs) (next_id i xs) ys = Some b \<and> d = a @ b)"
proof (induction xs arbitrary: off i d)
  case Nil
  then show ?case by (simp add: next_id_def)
next
  case (Cons x xs)
  note IH = Cons.IH [where off = "wrapping_add off (ws_len x)" and i = "Some (wrapping_add (ws_id x) 1)",
      unfolded next_id_Cons [where i = i]]
  show ?case (is "?l \<longleftrightarrow> ?r")
  proof
    assume ?l
    then obtain a b c where "case i of Some n \<Rightarrow> ws_id x = n | None \<Rightarrow> True" "ws_offset x = off"
      "verified rt objs (ws_key x) (ws_len x) (ws_sha256 x) = Some a"
      "chain_bytes rt objs (wrapping_add off (ws_len x)) (Some (wrapping_add (ws_id x) 1)) xs = Some b"
      and c: "chain_bytes rt objs (chain_total off (x # xs)) (next_id i (x # xs)) ys = Some c" "d = a @ b @ c"
      unfolding append_Cons chain_bytes_Cons IH chain_total.simps by blast
    then have "chain_bytes rt objs off i (x # xs) = Some (a @ b)" unfolding chain_bytes_Cons by blast
    with c show ?r by (intro exI [of _ "a @ b"] exI [of _ c]) simp
  next
    assume ?r
    then obtain a b c where "case i of Some n \<Rightarrow> ws_id x = n | None \<Rightarrow> True" "ws_offset x = off"
      "verified rt objs (ws_key x) (ws_len x) (ws_sha256 x) = Some a"
      "chain_bytes rt objs (wrapping_add off (ws_len x)) (Some (wrapping_add (ws_id x) 1)) xs = Some b"
      "chain_bytes rt objs (chain_total off (x # xs)) (next_id i (x # xs)) ys = Some c" "d = a @ b @ c"
      unfolding chain_bytes_Cons append_assoc [symmetric] by blast
    then show ?l unfolding append_Cons chain_bytes_Cons IH chain_total.simps by blast
  qed
qed

lemma chain_total_append: "chain_total off (xs @ ys) = chain_total (chain_total off xs) ys"
  by (induction xs arbitrary: off) auto

lemma chain_bytes_objs:
  "(\<And>s. s \<in> set segs \<Longrightarrow> objs' (ws_key s) = objs (ws_key s)) \<Longrightarrow>
    chain_bytes rt objs' off i segs = chain_bytes rt objs off i segs"
  by (induction segs arbitrary: off i) (auto simp: verified_def)

lemma chain_bytes_length: "chain_bytes rt objs off i segs = Some d \<Longrightarrow> length d = sum_list (map ws_len segs)"
  by (induction segs arbitrary: off i d) (auto simp: verified_Some split: if_splits bind_splits)

lemma chain_total_sum:
  "off + sum_list (map ws_len segs) \<le> u64_max \<Longrightarrow> chain_total off segs = off + sum_list (map ws_len segs)"
  by (induction segs arbitrary: off) (auto simp: wrapping_add_def)

end
