(* ===== verification/Project_Host.thy ===== *)
theory Project_Host
  imports Lease Manifest
begin

text \<open>
  What the durability methods of \<open>ProjectRuntime\<close> run on: the object store and the clock, the
  cache directory of the project (the database file, its WAL, temporary snapshots) on a disk
  that may fail, and the SQLite engine. The engine is a parameter, a record of the calls the
  sources make on a connection \<open>'c\<close>; its calls see and may change the two files of the cache.
  The \<open>-shm\<close> file, which SQLite rebuilds, and the crash injection of the tests are left out.
\<close>

record cache =
  c_db :: "bytes option"
  c_wal :: "bytes option"

record 'c engine =
  en_open_in_memory :: "string + 'c"
  en_open :: "string \<Rightarrow> cache \<Rightarrow> (string + 'c) \<times> cache" \<comment> \<open>open and the four pragmas, with the synchronous mode\<close>
  en_ensure_meta :: "'c \<Rightarrow> cache \<Rightarrow> (string + unit) \<times> 'c \<times> cache" \<comment> \<open>create the \<open>_sdb_\<close> and \<open>auth\<close> tables\<close>
  en_vacuum_into :: "'c \<Rightarrow> cache \<Rightarrow> string + bytes"
  en_close :: "'c \<Rightarrow> cache \<Rightarrow> cache"

text \<open>
  \<open>mc_disk n\<close> is the fault of the \<open>n\<close>-th operation on the cache directory: none, or its error
  and how many bytes a write wrote before it.
\<close>

record ('w, 'c) machine =
  mc_rt :: runtime
  mc_store :: "'w object_store"
  mc_clock :: "nat \<Rightarrow> nat"
  mc_engine :: "'c engine"
  mc_disk :: "nat \<Rightarrow> (string \<times> nat) option"
  mc_process_id :: nat

record 'w host =
  h_sys :: "'w sys"
  h_cache :: cache
  h_tmp :: "string \<Rightarrow> bytes option"
  h_disk_ops :: nat

record 'c project_state =
  ps_project_id :: string
  ps_conn :: 'c
  ps_generation :: nat
  ps_commit_seq :: nat
  ps_current_snapshot :: "snapshot_manifest option"
  ps_wal_segments :: "wal_segment_manifest list"
  ps_last_durable_wal_bytes :: nat
  ps_next_wal_segment_id :: nat
  ps_ops_since_snapshot :: nat
  ps_last_snapshot_at_ms :: nat
  ps_writer_lease_fencing_token :: "nat option"

record ('w, 'c) px =
  px_host :: "'w host"
  px_st :: "'c project_state"

type_synonym ('w, 'a) host_action = "('w host, api_error, 'a) action"
type_synonym ('w, 'c, 'a) px_action = "(('w, 'c) px, api_error, 'a) action"

section \<open>The store and the clock\<close>

definition on_store :: "('w, 'c) machine \<Rightarrow> 'a api_prog \<Rightarrow> ('w, 'a) host_action" where
  "on_store M p h =
     (case run_prog (mc_store M) (mc_clock M) p (h_sys h) of (r, s) \<Rightarrow> (r, h\<lparr>h_sys := s\<rparr>))"

text \<open>\<open>put_file\<close> of a temporary file.\<close>

definition store_put_file :: "('w, 'c) machine \<Rightarrow> string \<Rightarrow> string \<Rightarrow> ('w, unit) host_action" where
  "store_put_file M key tmp h =
     (case os_put_file (mc_store M) key (h_tmp h tmp) (sys_world (h_sys h)) of
        (r, w) \<Rightarrow> (rmap_err anyhow_api_error r, h\<lparr>h_sys := (h_sys h)\<lparr>sys_world := w\<rparr>\<rparr>))"

section \<open>The cache directory\<close>

definition disk_op :: "('w, 'c) machine \<Rightarrow> (nat \<Rightarrow> cache \<Rightarrow> cache) \<Rightarrow> (cache \<Rightarrow> cache) \<Rightarrow> ('w, unit) host_action" where
  "disk_op M partial full h =
     (let h' = h\<lparr>h_disk_ops := Suc (h_disk_ops h)\<rparr>
      in case mc_disk M (h_disk_ops h) of
           None \<Rightarrow> (Inr (), h'\<lparr>h_cache := full (h_cache h)\<rparr>)
         | Some (e, n) \<Rightarrow> (Inl (anyhow_api_error e), h'\<lparr>h_cache := partial n (h_cache h)\<rparr>))"

text \<open>An operation that leaves the files as they are: reading, directories, metadata, \<open>sync_all\<close>.\<close>

definition fs_touch :: "('w, 'c) machine \<Rightarrow> ('w, unit) host_action" where
  "fs_touch M = disk_op M (\<lambda>n c. c) (\<lambda>c. c)"

definition fs_write_db :: "('w, 'c) machine \<Rightarrow> bytes \<Rightarrow> ('w, unit) host_action" where
  "fs_write_db M data =
     disk_op M (\<lambda>n c. c\<lparr>c_db := Some (take n data)\<rparr>) (\<lambda>c. c\<lparr>c_db := Some data\<rparr>)"

definition fs_create_wal :: "('w, 'c) machine \<Rightarrow> ('w, unit) host_action" where
  "fs_create_wal M = disk_op M (\<lambda>n c. c) (\<lambda>c. c\<lparr>c_wal := Some []\<rparr>)"

definition fs_append_wal :: "('w, 'c) machine \<Rightarrow> bytes \<Rightarrow> ('w, unit) host_action" where
  "fs_append_wal M data =
     disk_op M (\<lambda>n c. c\<lparr>c_wal := map_option (\<lambda>w. w @ take n data) (c_wal c)\<rparr>)
       (\<lambda>c. c\<lparr>c_wal := map_option (\<lambda>w. w @ data) (c_wal c)\<rparr>)"

text \<open>Removals whose result is dropped with \<open>.ok()\<close>.\<close>

definition fs_remove_db :: "('w, 'c) machine \<Rightarrow> ('w, unit) host_action" where
  "fs_remove_db M = aignore (disk_op M (\<lambda>n c. c) (\<lambda>c. c\<lparr>c_db := None\<rparr>) :: ('w, unit) host_action)"

definition fs_remove_wal :: "('w, 'c) machine \<Rightarrow> ('w, unit) host_action" where
  "fs_remove_wal M = aignore (disk_op M (\<lambda>n c. c) (\<lambda>c. c\<lparr>c_wal := None\<rparr>) :: ('w, unit) host_action)"

text \<open>\<open>remove_dir_all\<close>: a failure may have removed either file.\<close>

definition fs_remove_dir :: "('w, 'c) machine \<Rightarrow> ('w, unit) host_action" where
  "fs_remove_dir M = aignore (disk_op M
     (\<lambda>n c. c\<lparr>c_db := (if odd n then None else c_db c), c_wal := (if odd (n div 2) then None else c_wal c)\<rparr>)
     (\<lambda>c. c\<lparr>c_db := None, c_wal := None\<rparr>) :: ('w, unit) host_action)"

section \<open>The engine\<close>

definition open_in_memory :: "('w, 'c) machine \<Rightarrow> ('w, 'c) host_action" where
  "open_in_memory M = alift (rmap_err sqlite_api_error (en_open_in_memory (mc_engine M)))"

definition drop_conn :: "('w, 'c) machine \<Rightarrow> 'c \<Rightarrow> ('w, unit) host_action" where
  "drop_conn M conn = amodify (\<lambda>h. h\<lparr>h_cache := en_close (mc_engine M) conn (h_cache h)\<rparr>)"

definition sync_modes :: "string list" where
  "sync_modes = [''OFF'', ''NORMAL'', ''FULL'', ''EXTRA'']"

definition open_project_connection :: "('w, 'c) machine \<Rightarrow> ('w, 'c) host_action" where
  "open_project_connection M =
     (let sync_mode = to_ascii_uppercase (sqlite_synchronous (rt_opts (mc_rt M)))
      in abind (fs_touch M) (\<lambda>_.
         if sync_mode \<notin> set sync_modes
         then athrow (api_err 400 (''unsupported sqlite synchronous mode: '' @ sync_mode))
         else (\<lambda>h. case en_open (mc_engine M) sync_mode (h_cache h) of
                     (r, c) \<Rightarrow> (rmap_err sqlite_api_error r, h\<lparr>h_cache := c\<rparr>))))"

text \<open>\<open>ensure_meta(&conn)\<close>, with the connection after it.\<close>

definition ensure_meta :: "('w, 'c) machine \<Rightarrow> 'c \<Rightarrow> 'w host \<Rightarrow> (unit api \<times> 'c) \<times> 'w host" where
  "ensure_meta M conn h =
     (case en_ensure_meta (mc_engine M) conn (h_cache h) of
        (r, conn', c) \<Rightarrow> ((rmap_err sqlite_api_error r, conn'), h\<lparr>h_cache := c\<rparr>))"

section \<open>Actions on a project's state\<close>

definition on_host :: "('w, 'a) host_action \<Rightarrow> ('w, 'c, 'a) px_action" where
  "on_host m p = (case m (px_host p) of (r, h) \<Rightarrow> (r, p\<lparr>px_host := h\<rparr>))"

definition set_state :: "('c project_state \<Rightarrow> 'c project_state) \<Rightarrow> ('w, 'c, unit) px_action" where
  "set_state f = amodify (\<lambda>p. p\<lparr>px_st := f (px_st p)\<rparr>)"

definition get_state :: "('w, 'c, 'c project_state) px_action" where
  "get_state = aget px_st"

definition ensure_meta_state :: "('w, 'c) machine \<Rightarrow> ('w, 'c, unit) px_action" where
  "ensure_meta_state M p =
     (case ensure_meta M (ps_conn (px_st p)) (px_host p) of
        ((r, conn), h) \<Rightarrow> (r, p\<lparr>px_host := h, px_st := (px_st p)\<lparr>ps_conn := conn\<rparr>\<rparr>))"

text \<open>\<open>replace(&mut state.conn, Connection::open_in_memory()?)\<close> and the drop of the old one.\<close>

definition detach_connection :: "('w, 'c) machine \<Rightarrow> ('w, 'c, unit) px_action" where
  "detach_connection M =
     abind (on_host (open_in_memory M)) (\<lambda>placeholder.
     abind get_state (\<lambda>st.
     abind (set_state (\<lambda>st. st\<lparr>ps_conn := placeholder\<rparr>)) (\<lambda>_.
     on_host (drop_conn M (ps_conn st)))))"

definition reopen_connection :: "('w, 'c) machine \<Rightarrow> ('w, 'c, unit) px_action" where
  "reopen_connection M =
     abind (on_host (open_project_connection M)) (\<lambda>conn.
     abind (set_state (\<lambda>st. st\<lparr>ps_conn := conn\<rparr>)) (\<lambda>_.
     ensure_meta_state M))"

definition p_utc_now :: "string api_prog" where
  "p_utc_now = ptry p_now (\<lambda>now. pok (iso_from_unix (int (now div 1000))))"

lemmas host_defs = on_host_def on_store_def disk_op_def fs_touch_def get_state_def set_state_def

end
