(* ===== verification/Durability.thy ===== *)
theory Durability
  imports Project_Host
begin

text \<open>
  Durability of a project: \<open>load_manifest\<close>, restoring from snapshot and WAL segments, opening a
  project, making a commit durable (\<open>durabilize_wal\<close>), snapshots (\<open>persist_snapshot\<close>), the
  manifest's generation check, reading at a bookmark, hibernation and eviction. Actions on the
  state of a project, the cache and the store, with every early return of \<open>runtime.rs\<close>.
\<close>

section \<open>Reading the store\<close>

definition check_manifest :: "string \<Rightarrow> durable_manifest \<Rightarrow> durable_manifest option api" where
  "check_manifest pid m =
     (if dm_schema_version m \<noteq> 1
      then Inl (api_err 503 (''unsupported durable manifest schema version: '' @ show_nat (dm_schema_version m)))
      else if dm_project_id m \<noteq> pid
      then Inl (api_err 503 (''durable manifest project mismatch: expected '' @ pid @ '', got '' @ dm_project_id m))
      else Inr (Some m))"

definition load_manifest :: "runtime \<Rightarrow> string \<Rightarrow> durable_manifest option api_prog" where
  "load_manifest rt pid =
     ptry (p_exists (manifest_key pid)) (\<lambda>there.
       if \<not> there then pok None
       else ptry (p_read (manifest_key pid)) (\<lambda>data.
            ptry (p_result (parse_or rt ''invalid durable manifest'' manifest_of_json data)) (\<lambda>m.
              p_result (check_manifest pid m))))"

definition read_verified_object :: "runtime \<Rightarrow> string \<Rightarrow> nat \<Rightarrow> string \<Rightarrow> string \<Rightarrow> bytes api_prog" where
  "read_verified_object rt key expected_len expected_sha256 label =
     ptry (Read key (\<lambda>r. Done (rmap_err (\<lambda>e.
             api_err 503 (''failed to read '' @ label @ '' '' @ key @ '': '' @ e)) r))) (\<lambda>data.
       if length data \<noteq> expected_len
       then perr 503 (label @ '' length mismatch for '' @ key @ '': expected '' @ show_nat expected_len
              @ '', got '' @ show_nat (length data))
       else let actual = hex_sha256 (rt_sha256 rt) data
            in if actual \<noteq> expected_sha256
               then perr 503 (label @ '' checksum mismatch for '' @ key @ '': expected '' @ expected_sha256
                      @ '', got '' @ actual)
               else pok data)"

section \<open>Restoring the cache\<close>

definition restore_snapshot :: "('w, 'c) machine \<Rightarrow> snapshot_manifest \<Rightarrow> ('w, unit) host_action" where
  "restore_snapshot M s =
     abind (on_store M (read_verified_object (mc_rt M) (sm_key s) (sm_bytes s) (sm_sha256 s) ''snapshot''))
       (fs_write_db M)"

text \<open>The loop of \<open>restore_manifest_wal\<close>; \<open>created\<close> is whether the WAL file is open.\<close>

definition check_offset :: "nat \<Rightarrow> wal_segment_manifest \<Rightarrow> unit api" where
  "check_offset off s =
     (if ws_offset s \<noteq> off
      then Inl (api_err 503 (''non-contiguous WAL segment offset: expected '' @ show_nat off @ '', got ''
             @ show_nat (ws_offset s)))
      else Inr ())"

definition check_segment :: "nat \<Rightarrow> nat option \<Rightarrow> wal_segment_manifest \<Rightarrow> unit api" where
  "check_segment off expected s =
     (case expected of
        Some i \<Rightarrow>
          if ws_id s \<noteq> i
          then Inl (api_err 503 (''non-contiguous WAL segment id: expected '' @ show_nat i @ '', got ''
                 @ show_nat (ws_id s)))
          else check_offset off s
      | None \<Rightarrow> check_offset off s)"

fun restore_segments ::
    "('w, 'c) machine \<Rightarrow> nat \<Rightarrow> nat option \<Rightarrow> bool \<Rightarrow> wal_segment_manifest list \<Rightarrow> ('w, nat \<times> bool) host_action" where
  "restore_segments M off expected created [] = aret (off, created)"
| "restore_segments M off expected created (s # segs) =
     abind (alift (check_segment off expected s)) (\<lambda>_.
     abind (on_store M (read_verified_object (mc_rt M) (ws_key s) (ws_len s) (ws_sha256 s) ''WAL segment'')) (\<lambda>data.
     abind (if created then aret () else fs_create_wal M) (\<lambda>_.
     abind (fs_append_wal M data) (\<lambda>_.
       restore_segments M (wrapping_add off (ws_len s)) (Some (wrapping_add (ws_id s) 1)) True segs))))"

definition restore_manifest_wal ::
    "('w, 'c) machine \<Rightarrow> durable_manifest \<Rightarrow> ('w, wal_segment_manifest list) host_action" where
  "restore_manifest_wal M m =
     abind (restore_segments M 0 None False (wc_segments (dm_wal m))) (\<lambda>(total, created).
       if total \<noteq> wc_durable_bytes (dm_wal m)
       then athrow (api_err 503 (''WAL manifest byte mismatch: segments sum to '' @ show_nat total
              @ '', manifest says '' @ show_nat (wc_durable_bytes (dm_wal m))))
       else abind (if created then fs_touch M else aret ()) (\<lambda>_.
            aret (wc_segments (dm_wal m))))"

text \<open>Before manifests existed, the segments were found by listing.\<close>

fun restore_legacy_loop ::
    "('w, 'c) machine \<Rightarrow> nat \<Rightarrow> bool \<Rightarrow> wal_segment_manifest list \<Rightarrow> object_meta list \<Rightarrow>
     ('w, wal_segment_manifest list \<times> bool) host_action" where
  "restore_legacy_loop M off created acc [] = aret (acc, created)"
| "restore_legacy_loop M off created acc (obj # objects) =
     abind (alift (ok_or (api_err 503 (''invalid legacy WAL segment key: '' @ meta_key obj))
              (wal_segment_id (meta_key obj)))) (\<lambda>i.
     abind (on_store M (p_read (meta_key obj))) (\<lambda>data.
       if length data \<noteq> meta_len obj
       then athrow (api_err 503 (''legacy WAL segment size mismatch for '' @ meta_key obj @ '': listed ''
              @ show_nat (meta_len obj) @ '', read '' @ show_nat (length data)))
       else abind (if created then aret () else fs_create_wal M) (\<lambda>_.
            abind (fs_append_wal M data) (\<lambda>_.
            restore_legacy_loop M (wrapping_add off (length data)) True
              (acc @ [\<lparr>ws_id = i, ws_key = meta_key obj, ws_offset = off, ws_len = length data,
                        ws_sha256 = hex_sha256 (rt_sha256 (mc_rt M)) data\<rparr>]) objects))))"

fun reoffset :: "nat \<Rightarrow> wal_segment_manifest list \<Rightarrow> wal_segment_manifest list" where
  "reoffset off [] = []"
| "reoffset off (s # segs) = s\<lparr>ws_offset := off\<rparr> # reoffset (wrapping_add off (ws_len s)) segs"

definition restore_legacy_wal_segments ::
    "('w, 'c) machine \<Rightarrow> string \<Rightarrow> ('w, wal_segment_manifest list) host_action" where
  "restore_legacy_wal_segments M pid =
     abind (on_store M (p_list (wal_prefix pid))) (\<lambda>segments.
     abind (restore_legacy_loop M 0 False [] segments) (\<lambda>(recovered, created).
     abind (if created then fs_touch M else aret ()) (\<lambda>_.
       aret (reoffset 0 (sort_key ws_id recovered)))))"

definition next_segment_id :: "wal_segment_manifest list \<Rightarrow> nat" where
  "next_segment_id segs = (if segs = [] then 0 else wrapping_add (fold max (map ws_id segs) 0) 1)"

section \<open>Writing the manifest\<close>

definition check_written :: "runtime \<Rightarrow> durable_manifest \<Rightarrow> unit api_prog" where
  "check_written rt m =
     pbind (load_manifest rt (dm_project_id m)) (\<lambda>after.
       case after of
         Inr (Some post_write) \<Rightarrow>
           if dm_generation post_write \<noteq> dm_generation m
           then perr 409 (''manifest generation conflict detected after write: expected=''
                  @ show_nat (dm_generation m) @ '', found='' @ show_nat (dm_generation post_write)
                  @ ''; concurrent writer detected'')
           else pok ()
       | _ \<Rightarrow> pok ())"

definition put_manifest :: "runtime \<Rightarrow> durable_manifest \<Rightarrow> unit api_prog" where
  "put_manifest rt m =
     (let write = ptry (p_put (manifest_key (dm_project_id m)) (manifest_bytes rt m)) (\<lambda>_. check_written rt m)
      in pbind (load_manifest rt (dm_project_id m)) (\<lambda>before.
       case before of
         Inr (Some existing) \<Rightarrow>
           if dm_generation m < dm_generation existing
           then perr 409 (''manifest generation regression: existing='' @ show_nat (dm_generation existing)
                  @ '', attempted='' @ show_nat (dm_generation m) @ ''; possible split-brain or stale writer'')
           else write
       | _ \<Rightarrow> write))"

text \<open>The manifest of a state with its snapshot and WAL, at an \<open>updated_at\<close>.\<close>

definition state_manifest ::
    "runtime \<Rightarrow> 'c project_state \<Rightarrow> snapshot_manifest \<Rightarrow> string option \<Rightarrow> string \<Rightarrow> durable_manifest" where
  "state_manifest rt st snapshot reason now =
     \<lparr>dm_schema_version = 1, dm_project_id = ps_project_id st, dm_generation = ps_generation st,
      dm_previous_generation = ps_generation st - 1, dm_fencing_token = ps_writer_lease_fencing_token st,
      dm_owner_id = Some (rt_id rt), dm_commit_seq = ps_commit_seq st,
      dm_bookmark = bookmark_for_seq (ps_commit_seq st), dm_updated_at = now, dm_reason = reason,
      dm_snapshot = snapshot,
      dm_wal = \<lparr>wc_prefix = wal_prefix (ps_project_id st), wc_durable_bytes = ps_last_durable_wal_bytes st,
                wc_segments = ps_wal_segments st\<rparr>,
      dm_ops_since_snapshot = ps_ops_since_snapshot st,
      dm_gc_watermark_generation = ps_generation st - 1\<rparr>"

definition write_manifest :: "runtime \<Rightarrow> 'c project_state \<Rightarrow> string option \<Rightarrow> unit api_prog" where
  "write_manifest rt st reason =
     (case ps_current_snapshot st of
        None \<Rightarrow> perr 500 ''cannot write durable manifest before snapshot is initialized''
      | Some snapshot \<Rightarrow> ptry p_utc_now (\<lambda>now. put_manifest rt (state_manifest rt st snapshot reason now)))"

definition append_change_log :: "runtime \<Rightarrow> 'c project_state \<Rightarrow> string \<Rightarrow> json_map \<Rightarrow> unit api_prog" where
  "append_change_log rt st reason extra =
     ptry p_utc_now (\<lambda>at.
     ptry p_now (\<lambda>now.
       p_put (change_log_key now (ps_project_id st) (ps_ops_since_snapshot st) reason)
         (to_json_text (rt_serde rt)
           (JObject (fold (\<lambda>(k, v). bt_insert k v) extra
             (bt_insert ''reason'' (JString reason) (bt_insert ''at'' (JString at) [])))))))"

section \<open>Leases and limits\<close>

definition ensure_writer_lease_for_state :: "('w, 'c) machine \<Rightarrow> ('w, 'c, unit) px_action" where
  "ensure_writer_lease_for_state M =
     abind get_state (\<lambda>st.
     abind (on_host (on_store M (ensure_writer_lease (mc_rt M) (ps_project_id st) (ps_writer_lease_fencing_token st))))
       (\<lambda>lease. case lease of
          Some l \<Rightarrow> set_state (\<lambda>st. st\<lparr>ps_writer_lease_fencing_token := Some (wl_fencing_token l)\<rparr>)
        | None \<Rightarrow> aret ()))"

definition should_write_metadata :: "runtime \<Rightarrow> 'c project_state \<Rightarrow> bool" where
  "should_write_metadata rt st \<longleftrightarrow>
     0 < metadata_every_ops (rt_opts rt) \<and> ps_ops_since_snapshot st mod metadata_every_ops (rt_opts rt) = 0"

text \<open>\<open>u128\<close> subtraction wraps when the clock went back. The clock is read only when needed.\<close>

definition should_snapshot :: "runtime \<Rightarrow> 'c project_state \<Rightarrow> bool api_prog" where
  "should_snapshot rt st =
     (if 0 < snapshot_every_ops (rt_opts rt) \<and> snapshot_every_ops (rt_opts rt) \<le> ps_ops_since_snapshot st
      then pok True
      else if snapshot_every_ms (rt_opts rt) = 0 then pok False
      else ptry p_now (\<lambda>now.
             pok (snapshot_every_ms (rt_opts rt) \<le> (now + 2 ^ 128 - ps_last_snapshot_at_ms st) mod 2 ^ 128)))"

section \<open>Snapshots\<close>

definition snapshot_tmp_name :: "('w, 'c) machine \<Rightarrow> nat \<Rightarrow> string" where
  "snapshot_tmp_name M now =
     ''snapshot-'' @ show_nat (mc_process_id M) @ ''-'' @ show_nat now @ ''.sqlite''"

definition remove_tmp :: "('w, 'c) machine \<Rightarrow> string \<Rightarrow> ('w, unit) host_action" where
  "remove_tmp M tmp = abind (fs_touch M) (\<lambda>_. amodify (\<lambda>h. h\<lparr>h_tmp := (h_tmp h)(tmp := None)\<rparr>))"

text \<open>\<open>VACUUM INTO\<close> the temporary file, its digest and its length.\<close>

definition vacuum_into :: "('w, 'c) machine \<Rightarrow> 'c \<Rightarrow> string \<Rightarrow> ('w, bytes) host_action" where
  "vacuum_into M conn tmp h =
     (case en_vacuum_into (mc_engine M) conn (h_cache h) of
        Inl e \<Rightarrow> (Inl (sqlite_api_error e), h)
      | Inr data \<Rightarrow> abind (fs_touch M) (\<lambda>_. abind (fs_touch M) (\<lambda>_. aret data))
          (h\<lparr>h_tmp := (h_tmp h)(tmp \<mapsto> data)\<rparr>))"

definition snapshot_manifest_for ::
    "runtime \<Rightarrow> 'c project_state \<Rightarrow> snapshot_manifest \<Rightarrow> string \<Rightarrow> string \<Rightarrow> durable_manifest" where
  "snapshot_manifest_for rt st snapshot reason now =
     (let next = wrapping_add (ps_generation st) 1 in
     \<lparr>dm_schema_version = 1, dm_project_id = ps_project_id st, dm_generation = next,
      dm_previous_generation = ps_generation st, dm_fencing_token = ps_writer_lease_fencing_token st,
      dm_owner_id = Some (rt_id rt), dm_commit_seq = ps_commit_seq st,
      dm_bookmark = bookmark_for_seq (ps_commit_seq st), dm_updated_at = now, dm_reason = Some reason,
      dm_snapshot = snapshot,
      dm_wal = \<lparr>wc_prefix = wal_prefix (ps_project_id st), wc_durable_bytes = 0, wc_segments = []\<rparr>,
      dm_ops_since_snapshot = 0, dm_gc_watermark_generation = next - 1\<rparr>)"

text \<open>Up to the new manifest: what makes the snapshot durable.\<close>

definition publish_snapshot :: "('w, 'c) machine \<Rightarrow> string \<Rightarrow> ('w, 'c, string \<times> snapshot_manifest) px_action" where
  "publish_snapshot M reason =
     abind get_state (\<lambda>st.
     abind (on_host (on_store M p_now)) (\<lambda>now.
     let tmp = snapshot_tmp_name M now in
     abind (aget (\<lambda>p. h_tmp (px_host p) tmp)) (\<lambda>there.
     abind (if there \<noteq> None then on_host (remove_tmp M tmp) else aret ()) (\<lambda>_.
     abind (on_host (vacuum_into M (ps_conn st) tmp)) (\<lambda>data.
     let key = snapshot_generation_key (ps_project_id st) (wrapping_add (ps_generation st) 1);
         snapshot = \<lparr>sm_key = key, sm_bytes = length data, sm_sha256 = hex_sha256 (rt_sha256 (mc_rt M)) data\<rparr> in
     abind (on_host (store_put_file M key tmp)) (\<lambda>_.
     abind (on_host (on_store M (ptry p_utc_now (\<lambda>now.
              put_manifest (mc_rt M) (snapshot_manifest_for (mc_rt M) st snapshot reason now))))) (\<lambda>_.
       aret (tmp, snapshot))))))))"

text \<open>\<open>fs::copy(&tmp, &state.db_path)\<close>.\<close>

definition copy_to_db :: "('w, 'c) machine \<Rightarrow> string \<Rightarrow> ('w, unit) host_action" where
  "copy_to_db M tmp =
     abind (aget (\<lambda>h. h_tmp h tmp)) (\<lambda>data.
     abind (alift (ok_or (anyhow_api_error ''No such file or directory (os error 2)'') data)) (fs_write_db M))"

text \<open>Then the cache is replaced by the snapshot and the old WAL objects go.\<close>

definition adopt_snapshot :: "('w, 'c) machine \<Rightarrow> string \<Rightarrow> string \<times> snapshot_manifest \<Rightarrow> ('w, 'c, unit) px_action" where
  "adopt_snapshot M reason = (\<lambda>(tmp, snapshot).
     abind (detach_connection M) (\<lambda>_.
     abind (on_host (copy_to_db M tmp)) (\<lambda>_.
     abind (on_host (fs_remove_wal M)) (\<lambda>_.
     abind (reopen_connection M) (\<lambda>_.
     abind (set_state (\<lambda>st. st\<lparr>ps_generation := wrapping_add (ps_generation st) 1,
              ps_current_snapshot := Some snapshot, ps_wal_segments := [], ps_last_durable_wal_bytes := 0,
              ps_next_wal_segment_id := 0, ps_ops_since_snapshot := 0\<rparr>)) (\<lambda>_.
     abind (on_host (on_store M p_now)) (\<lambda>now.
     abind (set_state (\<lambda>st. st\<lparr>ps_last_snapshot_at_ms := now\<rparr>)) (\<lambda>_.
     abind get_state (\<lambda>st.
     abind (on_host (on_store M (p_ignore (p_delete_prefix (wal_prefix (ps_project_id st)))))) (\<lambda>_.
     abind (on_host (aignore (remove_tmp M tmp))) (\<lambda>_.
       on_host (on_store M (append_change_log (mc_rt M) st reason
         [(''snapshot_sha256'', JString (sm_sha256 snapshot)), (''snapshot_bytes'', json_of_nat (sm_bytes snapshot)),
          (''durable_wal_bytes'', json_of_nat 0), (''wal_segment_count'', json_of_nat 0),
          (''ops_since_snapshot'', json_of_nat 0)])))))))))))))"

definition persist_snapshot :: "('w, 'c) machine \<Rightarrow> string \<Rightarrow> ('w, 'c, unit) px_action" where
  "persist_snapshot M reason = abind (publish_snapshot M reason) (adopt_snapshot M reason)"

section \<open>Making a commit durable\<close>

text \<open>The part of \<open>durabilize_wal\<close> up to the new manifest; it returns the length of the WAL file.\<close>

definition reset_shrunk_wal :: "('w, 'c) machine \<Rightarrow> nat \<Rightarrow> ('w, 'c, unit) px_action" where
  "reset_shrunk_wal M wal_bytes =
     abind get_state (\<lambda>st.
       if wal_bytes < ps_last_durable_wal_bytes st
       then abind (on_host (on_store M (p_delete_prefix (wal_prefix (ps_project_id st))))) (\<lambda>_.
            set_state (\<lambda>st. st\<lparr>ps_last_durable_wal_bytes := 0, ps_next_wal_segment_id := 0, ps_wal_segments := []\<rparr>))
       else aret ())"

text \<open>The state after the bytes of the file beyond the durable ones went into a new segment.\<close>

definition new_segment :: "runtime \<Rightarrow> 'c project_state \<Rightarrow> bytes \<Rightarrow> wal_segment_manifest" where
  "new_segment rt st data =
     \<lparr>ws_id = ps_next_wal_segment_id st, ws_key = wal_segment_key (ps_project_id st) (ps_next_wal_segment_id st),
      ws_offset = ps_last_durable_wal_bytes st, ws_len = length data, ws_sha256 = hex_sha256 (rt_sha256 rt) data\<rparr>"

definition push_segment :: "runtime \<Rightarrow> 'c project_state \<Rightarrow> bytes \<Rightarrow> 'c project_state" where
  "push_segment rt st data =
     st\<lparr>ps_wal_segments := ps_wal_segments st @ [new_segment rt st data],
        ps_next_wal_segment_id := wrapping_add (ps_next_wal_segment_id st) 1\<rparr>"

definition put_new_segment :: "('w, 'c) machine \<Rightarrow> nat \<Rightarrow> bytes \<Rightarrow> ('w, 'c, unit) px_action" where
  "put_new_segment M wal_bytes wal =
     abind get_state (\<lambda>st.
       if wal_bytes > ps_last_durable_wal_bytes st
       then abind (on_host (fs_touch M)) (\<lambda>_.
            let segment = read_file_range wal (ps_last_durable_wal_bytes st);
                key = wal_segment_key (ps_project_id st) (ps_next_wal_segment_id st) in
            if segment \<noteq> []
            then abind (on_host (on_store M (p_put key segment))) (\<lambda>_.
                 set_state (\<lambda>st. push_segment (mc_rt M) st segment))
            else aret ())
       else aret ())"

definition flush_wal :: "('w, 'c) machine \<Rightarrow> ('w, 'c, nat) px_action" where
  "flush_wal M =
     abind (aget (\<lambda>p. c_wal (h_cache (px_host p)))) (\<lambda>wal.
     case wal of
       None \<Rightarrow> aret 0
     | Some file \<Rightarrow>
         abind (on_host (fs_touch M)) (\<lambda>_.
         abind (reset_shrunk_wal M (length file)) (\<lambda>_.
         abind (put_new_segment M (length file) file) (\<lambda>_.
         abind (set_state (\<lambda>st. st\<lparr>ps_last_durable_wal_bytes := length file\<rparr>)) (\<lambda>_.
           aret (length file))))))"

definition commit_wal :: "('w, 'c) machine \<Rightarrow> string \<Rightarrow> nat \<Rightarrow> ('w, 'c, nat) px_action" where
  "commit_wal M reason committed_ops =
     abind (flush_wal M) (\<lambda>wal_bytes.
     abind (set_state (\<lambda>st. st\<lparr>ps_ops_since_snapshot := wrapping_add (ps_ops_since_snapshot st) (max committed_ops 1),
              ps_commit_seq := saturating_add (ps_commit_seq st) 1\<rparr>)) (\<lambda>_.
     abind get_state (\<lambda>st.
     abind (on_host (on_store M (write_manifest (mc_rt M) st (Some reason)))) (\<lambda>_.
       aret wal_bytes))))"

definition log_if_due :: "('w, 'c) machine \<Rightarrow> string \<Rightarrow> nat \<Rightarrow> ('w, 'c, unit) px_action" where
  "log_if_due M reason wal_bytes =
     abind get_state (\<lambda>st.
       if should_write_metadata (mc_rt M) st
       then on_host (on_store M (append_change_log (mc_rt M) st reason
              [(''durable_wal_bytes'', json_of_nat wal_bytes),
               (''wal_segment_count'', json_of_nat (length (ps_wal_segments st))),
               (''ops_since_snapshot'', json_of_nat (ps_ops_since_snapshot st))]))
       else aret ())"

definition compact_if_due :: "('w, 'c) machine \<Rightarrow> string \<Rightarrow> ('w, 'c, unit) px_action" where
  "compact_if_due M reason =
     abind get_state (\<lambda>st.
     abind (on_host (on_store M (should_snapshot (mc_rt M) st))) (\<lambda>due.
       if due
       then acatch (persist_snapshot M (''compact_after:'' @ reason)) (\<lambda>r.
         case r of
           Inr _ \<Rightarrow> aret ()
         | Inl e \<Rightarrow>
             abind get_state (\<lambda>st. aignore (on_host (on_store M (append_change_log (mc_rt M) st ''snapshot_failed''
               [(''error'', JString (err_message e)),
                (''durable_wal_bytes'', json_of_nat (ps_last_durable_wal_bytes st)),
                (''wal_segment_count'', json_of_nat (length (ps_wal_segments st))),
                (''ops_since_snapshot'', json_of_nat (ps_ops_since_snapshot st))])))))
       else aret ()))"

definition durabilize_wal :: "('w, 'c) machine \<Rightarrow> string \<Rightarrow> nat \<Rightarrow> ('w, 'c, unit) px_action" where
  "durabilize_wal M reason committed_ops =
     abind (commit_wal M reason committed_ops) (\<lambda>wal_bytes.
     abind (log_if_due M reason wal_bytes) (\<lambda>_.
       compact_if_due M reason))"

definition ensure_wal_budget :: "('w, 'c) machine \<Rightarrow> ('w, 'c, unit) px_action" where
  "ensure_wal_budget M =
     (let max_bytes = max_durable_wal_bytes (rt_opts (mc_rt M)) in
     abind get_state (\<lambda>st.
       if max_bytes = 0 \<or> ps_last_durable_wal_bytes st < max_bytes then aret ()
       else acatch (persist_snapshot M ''wal_budget'') (\<lambda>r.
         case r of
           Inr _ \<Rightarrow> aret ()
         | Inl e \<Rightarrow> abind get_state (\<lambda>st. athrow (api_err 507
             (''project durable WAL budget exceeded: durable_wal_bytes='' @ show_nat (ps_last_durable_wal_bytes st)
              @ '', max_durable_wal_bytes='' @ show_nat max_bytes @ '', compact_error='' @ err_message e))))))"

section \<open>Opening a project\<close>

definition rehydrate_state_from_manifest ::
    "('w, 'c) machine \<Rightarrow> durable_manifest \<Rightarrow> ('w, 'c, unit) px_action" where
  "rehydrate_state_from_manifest M m =
     abind (detach_connection M) (\<lambda>_.
     abind (on_host (fs_remove_db M)) (\<lambda>_.
     abind (on_host (fs_remove_wal M)) (\<lambda>_.
     abind (on_host (restore_snapshot M (dm_snapshot m))) (\<lambda>_.
     abind (on_host (restore_manifest_wal M m)) (\<lambda>segs.
     abind (reopen_connection M) (\<lambda>_.
     abind (set_state (\<lambda>st. st\<lparr>ps_generation := dm_generation m, ps_commit_seq := manifest_commit_seq (Some m),
              ps_current_snapshot := Some (dm_snapshot m), ps_last_durable_wal_bytes := chain_total 0 segs,
              ps_next_wal_segment_id := next_segment_id segs, ps_wal_segments := segs,
              ps_ops_since_snapshot := dm_ops_since_snapshot m\<rparr>)) (\<lambda>_.
     abind (on_host (on_store M p_now)) (\<lambda>now.
       set_state (\<lambda>st. st\<lparr>ps_last_snapshot_at_ms := now\<rparr>)))))))))"

definition refresh_replica_state :: "('w, 'c) machine \<Rightarrow> nat \<Rightarrow> ('w, 'c, bool) px_action" where
  "refresh_replica_state M requested_seq =
     (if \<not> read_replica (rt_opts (mc_rt M)) then aret False
      else abind get_state (\<lambda>st.
           abind (on_host (on_store M (load_manifest (mc_rt M) (ps_project_id st)))) (\<lambda>loaded.
           case loaded of
             None \<Rightarrow> aret False
           | Some m \<Rightarrow>
               let remote_seq = manifest_commit_seq (Some m) in
               if remote_seq \<le> ps_commit_seq st \<and> requested_seq \<le> ps_commit_seq st then aret False
               else if remote_seq \<le> ps_commit_seq st \<and> remote_seq < requested_seq then aret False
               else abind (rehydrate_state_from_manifest M m) (\<lambda>_. aret True))))"

text \<open>
  What \<open>ensure_project\<close> finds in the store: the generation, commit sequence, snapshot and WAL
  segments to start from, restored into the cache when a snapshot exists.
\<close>

record restored =
  rs_generation :: nat
  rs_commit_seq :: nat
  rs_snapshot :: "snapshot_manifest option"
  rs_segments :: "wal_segment_manifest list"
  rs_ops :: nat

definition restore_legacy :: "('w, 'c) machine \<Rightarrow> string \<Rightarrow> ('w, restored) host_action" where
  "restore_legacy M pid =
     abind (on_store M (p_read (snapshot_key pid))) (\<lambda>data.
     abind (fs_write_db M data) (\<lambda>_.
     abind (restore_legacy_wal_segments M pid) (\<lambda>segs.
       aret \<lparr>rs_generation = 0, rs_commit_seq = 0,
             rs_snapshot = Some \<lparr>sm_key = snapshot_key pid, sm_bytes = length data,
                             sm_sha256 = hex_sha256 (rt_sha256 (mc_rt M)) data\<rparr>,
             rs_segments = segs, rs_ops = 0\<rparr>)))"

definition restore_manifest :: "('w, 'c) machine \<Rightarrow> durable_manifest \<Rightarrow> ('w, restored) host_action" where
  "restore_manifest M m =
     abind (restore_snapshot M (dm_snapshot m)) (\<lambda>_.
     abind (restore_manifest_wal M m) (\<lambda>segs.
       aret \<lparr>rs_generation = dm_generation m, rs_commit_seq = manifest_commit_seq (Some m),
             rs_snapshot = Some (dm_snapshot m), rs_segments = segs, rs_ops = dm_ops_since_snapshot m\<rparr>))"

definition restore_project :: "('w, 'c) machine \<Rightarrow> string \<Rightarrow> ('w, restored) host_action" where
  "restore_project M pid =
     abind (on_store M (load_manifest (mc_rt M) pid)) (\<lambda>manifest.
     abind (if manifest \<noteq> None then aret True else on_store M (p_exists (snapshot_key pid))) (\<lambda>snapshot_exists.
       if read_replica (rt_opts (mc_rt M)) \<and> \<not> snapshot_exists
       then athrow (api_err 404 (''project is not available on read replica: '' @ pid))
       else if \<not> snapshot_exists
       then aret \<lparr>rs_generation = 0, rs_commit_seq = 0, rs_snapshot = None, rs_segments = [], rs_ops = 0\<rparr>
       else abind (fs_remove_db M) (\<lambda>_.
            abind (fs_remove_wal M) (\<lambda>_.
            case manifest of Some m \<Rightarrow> restore_manifest M m | None \<Rightarrow> restore_legacy M pid))))"

definition initial_state :: "string \<Rightarrow> 'c \<Rightarrow> restored \<Rightarrow> nat \<Rightarrow> 'c project_state" where
  "initial_state pid conn r now =
     \<lparr>ps_project_id = pid, ps_conn = conn, ps_generation = rs_generation r, ps_commit_seq = rs_commit_seq r,
      ps_current_snapshot = rs_snapshot r, ps_wal_segments = rs_segments r,
      ps_last_durable_wal_bytes = chain_total 0 (rs_segments r), ps_next_wal_segment_id = next_segment_id (rs_segments r),
      ps_ops_since_snapshot = rs_ops r, ps_last_snapshot_at_ms = now, ps_writer_lease_fencing_token = None\<rparr>"

definition init_state :: "('w, 'c) machine \<Rightarrow> ('w, 'c, unit) px_action" where
  "init_state M =
     abind (ensure_meta_state M) (\<lambda>_.
     abind get_state (\<lambda>st.
       if ps_current_snapshot st = None
       then abind (ensure_writer_lease_for_state M) (\<lambda>_. persist_snapshot M ''init'')
       else if 0 < ps_last_durable_wal_bytes st \<and> \<not> read_replica (rt_opts (mc_rt M))
       then on_host (on_store M (append_change_log (mc_rt M) st ''rehydrate_from_snapshot_and_wal''
              [(''durable_wal_bytes'', json_of_nat (ps_last_durable_wal_bytes st)),
               (''wal_segment_count'', json_of_nat (length (ps_wal_segments st)))]))
       else aret ()))"

text \<open>A project of the runtime: its cache and store, and its state when it is open.\<close>

record ('w, 'c) node =
  nd_host :: "'w host"
  nd_state :: "'c project_state option"

type_synonym ('w, 'c, 'a) node_action = "(('w, 'c) node, api_error, 'a) action"

definition node_host :: "('w, 'a) host_action \<Rightarrow> ('w, 'c, 'a) node_action" where
  "node_host m n = (case m (nd_host n) of (r, h) \<Rightarrow> (r, n\<lparr>nd_host := h\<rparr>))"

text \<open>A method on an open project's state; \<open>503\<close> stands for a handle that is gone, which no caller reaches.\<close>

definition node_state :: "('w, 'c, 'a) px_action \<Rightarrow> ('w, 'c, 'a) node_action" where
  "node_state m n =
     (case nd_state n of
        None \<Rightarrow> (Inl (api_err 503 ''project is not open''), n)
      | Some st \<Rightarrow> (case m \<lparr>px_host = nd_host n, px_st = st\<rparr> of
          (r, p) \<Rightarrow> (r, n\<lparr>nd_host := px_host p, nd_state := Some (px_st p)\<rparr>)))"

text \<open>Opening with a state that is kept only when all of it succeeds.\<close>

definition open_project :: "('w, 'c) machine \<Rightarrow> string \<Rightarrow> ('w, 'c, unit) node_action" where
  "open_project M pid =
     abind (node_host (fs_touch M)) (\<lambda>_.
     abind (node_host (restore_project M pid)) (\<lambda>r.
     abind (node_host (open_project_connection M)) (\<lambda>conn.
     abind (node_host (on_store M p_now)) (\<lambda>now.
       (\<lambda>n. case init_state M \<lparr>px_host = nd_host n, px_st = initial_state pid conn r now\<rparr> of
             (Inl e, p) \<Rightarrow> abind (node_host (drop_conn M (ps_conn (px_st p)))) (\<lambda>_. athrow e) (n\<lparr>nd_host := px_host p\<rparr>)
           | (Inr _, p) \<Rightarrow> (Inr (), n\<lparr>nd_host := px_host p, nd_state := Some (px_st p)\<rparr>))))))"

definition ensure_project :: "('w, 'c) machine \<Rightarrow> string \<Rightarrow> ('w, 'c, unit) node_action" where
  "ensure_project M project_id =
     abind (alift (safe_project_id project_id)) (\<lambda>pid.
     abind (aget nd_state) (\<lambda>open_state.
       case open_state of Some _ \<Rightarrow> aret () | None \<Rightarrow> open_project M pid))"

section \<open>Reading at a bookmark\<close>

definition evict_project_cache :: "('w, 'c) machine \<Rightarrow> ('w, 'c, unit) node_action" where
  "evict_project_cache M =
     abind (aget nd_state) (\<lambda>open_state.
     abind (case open_state of
              Some st \<Rightarrow> abind (amodify (\<lambda>n. n\<lparr>nd_state := None\<rparr>)) (\<lambda>_. node_host (drop_conn M (ps_conn st)))
            | None \<Rightarrow> aret ()) (\<lambda>_.
       node_host (fs_remove_dir M)))"

text \<open>
  The wait for a bookmark, as long as the timeout allows: the loop stops when the elapsed time,
  read from the clock, reaches it. \<open>fuel\<close> bounds the rounds; a clock that advances by the sleep
  of at least 10 ms needs at most a tenth of the timeout in rounds.
\<close>

fun wait_loop :: "nat \<Rightarrow> ('w, 'c) machine \<Rightarrow> nat \<Rightarrow> nat \<Rightarrow> ('w, 'c, unit) px_action" where
  "wait_loop 0 M started requested_seq = aret ()"
| "wait_loop (Suc fuel) M started requested_seq =
     abind (refresh_replica_state M requested_seq) (\<lambda>_.
     abind get_state (\<lambda>st.
       if requested_seq \<le> ps_commit_seq st then aret ()
       else abind (on_host (on_store M p_now)) (\<lambda>now.
         if replica_bookmark_wait_timeout_ms (rt_opts (mc_rt M)) \<le> now - started then aret ()
         else wait_loop fuel M started requested_seq)))"

definition wait_for_replica_bookmark :: "nat \<Rightarrow> ('w, 'c) machine \<Rightarrow> nat \<Rightarrow> ('w, 'c, unit) px_action" where
  "wait_for_replica_bookmark fuel M requested_seq =
     abind (on_host (on_store M p_now)) (\<lambda>started. wait_loop fuel M started requested_seq)"

definition ensure_project_for_read ::
    "nat \<Rightarrow> ('w, 'c) machine \<Rightarrow> string \<Rightarrow> string option \<Rightarrow> ('w, 'c, unit) node_action" where
  "ensure_project_for_read fuel M project_id min_bookmark =
     abind (alift (safe_project_id project_id)) (\<lambda>pid.
     case min_bookmark of
       None \<Rightarrow>
         abind (ensure_project M pid) (\<lambda>_.
           if read_replica (rt_opts (mc_rt M))
           then abind (node_state (refresh_replica_state M 0)) (\<lambda>_. aret ())
           else aret ())
     | Some requested_bookmark \<Rightarrow>
         abind (alift (bookmark_to_seq requested_bookmark)) (\<lambda>requested_seq.
         abind (ensure_project M pid) (\<lambda>_.
         abind (if read_replica (rt_opts (mc_rt M)) then node_state (wait_for_replica_bookmark fuel M requested_seq)
                else aret ()) (\<lambda>_.
         abind (node_state get_state) (\<lambda>st.
           if requested_seq \<le> ps_commit_seq st then aret ()
           else abind (evict_project_cache M) (\<lambda>_.
                abind (ensure_project M pid) (\<lambda>_.
                abind (node_state get_state) (\<lambda>st.
                  if requested_seq \<le> ps_commit_seq st then aret ()
                  else athrow (api_err 425
                    (''requested bookmark is not available yet: requested='' @ requested_bookmark
                     @ '', current='' @ bookmark_for_seq (ps_commit_seq st)))))))))))"

section \<open>Leaving a project\<close>

definition cache_removed_json :: "string \<Rightarrow> (string \<times> json) list \<Rightarrow> json" where
  "cache_removed_json pid extra = jobj ([(''project_id'', JString pid), (''cache_removed'', JBool True)] @ extra)"

definition hibernate :: "('w, 'c) machine \<Rightarrow> string \<Rightarrow> ('w, 'c, json) node_action" where
  "hibernate M project_id =
     abind (alift (safe_project_id project_id)) (\<lambda>pid.
       if read_replica (rt_opts (mc_rt M))
       then abind (evict_project_cache M) (\<lambda>_.
              aret (cache_removed_json pid [(''read_replica'', JBool True)]))
       else abind (aget nd_state) (\<lambda>open_state.
            abind (amodify (\<lambda>n. n\<lparr>nd_state := None\<rparr>)) (\<lambda>_.
            abind (case open_state of
                     None \<Rightarrow> aret ()
                   | Some st \<Rightarrow> (\<lambda>n.
                       case abind (ensure_writer_lease_for_state M) (\<lambda>_. persist_snapshot M ''hibernate'')
                              \<lparr>px_host = nd_host n, px_st = st\<rparr> of
                         (r, p) \<Rightarrow> (r, n\<lparr>nd_host := (px_host p)
                             \<lparr>h_cache := en_close (mc_engine M) (ps_conn (px_st p)) (h_cache (px_host p))\<rparr>\<rparr>))) (\<lambda>_.
            abind (node_host (fs_remove_dir M)) (\<lambda>_.
            abind (node_host (on_store M (p_ignore (release_writer_lease (mc_rt M) pid)))) (\<lambda>_.
              aret (cache_removed_json pid [])))))))"

definition crash_project :: "('w, 'c) machine \<Rightarrow> string \<Rightarrow> ('w, 'c, json) node_action" where
  "crash_project M project_id =
     abind (alift (safe_project_id project_id)) (\<lambda>pid.
     abind (evict_project_cache M) (\<lambda>_.
       aret (cache_removed_json pid [(''snapshot_forced'', JBool False)])))"

end
