(* ===== verification/Recovery.thy ===== *)
theory Recovery
  imports Durability
begin

text \<open>
  Correctness of durability: restoring gives exactly what the manifest and its objects stand
  for, or fails; making a commit durable and publishing a snapshot move the store from one
  recoverable database to another, whatever call fails; the generation of the manifest never
  goes back; a read at a bookmark sees at least that commit.
\<close>

section \<open>What a store program may write\<close>

text \<open>\<open>writes_only A p\<close>: the objects \<open>p\<close> may change are those of \<open>A\<close>.\<close>

primrec writes_only :: "(string \<Rightarrow> bool) \<Rightarrow> 'a prog \<Rightarrow> bool" where
  "writes_only A (Done x) = True"
| "writes_only A (Now f) = (\<forall>n. writes_only A (f n))"
| "writes_only A (Exists k f) = (\<forall>r. writes_only A (f r))"
| "writes_only A (Read k f) = (\<forall>r. writes_only A (f r))"
| "writes_only A (Put k d f) = (A k \<and> (\<forall>r. writes_only A (f r)))"
| "writes_only A (PutIfAbsent k d f) = (A k \<and> (\<forall>r. writes_only A (f r)))"
| "writes_only A (Delete k f) = (A k \<and> (\<forall>l. below k l \<longrightarrow> A l) \<and> (\<forall>r. writes_only A (f r)))"
| "writes_only A (DeletePrefix p f) =
     ((\<forall>k. prefix (trim_end_char (CHR ''/'') p) k \<longrightarrow> A k) \<and> (\<forall>r. writes_only A (f r)))"
| "writes_only A (ListPrefix k f) = (\<forall>r. writes_only A (f r))"

lemma writes_only_pbind: "writes_only A m \<Longrightarrow> (\<And>x. writes_only A (g x)) \<Longrightarrow> writes_only A (pbind m g)"
  by (induction m) auto

lemma writes_only_ptry: "writes_only A m \<Longrightarrow> (\<And>x. writes_only A (g x)) \<Longrightarrow> writes_only A (ptry m g)"
  unfolding ptry_def by (rule writes_only_pbind) (auto split: sum.split)

lemma writes_only_calls [simp]:
  "writes_only A (pok x)" "writes_only A (perr st msg)" "writes_only A (p_result r)" "writes_only A p_now"
  "writes_only A (p_exists k)" "writes_only A (p_read k)" "writes_only A (p_put k d) = A k"
  "writes_only A (p_put_if_absent k d) = A k" "writes_only A (p_list k)"
  "writes_only A (p_delete_prefix p) = (\<forall>k. prefix (trim_end_char (CHR ''/'') p) k \<longrightarrow> A k)"
  "writes_only A p_utc_now"
  by (simp_all add: prog_defs p_result_def p_utc_now_def)

lemma names_ok_more [simp]:
  "names_ok ok (p_list k)" "names_ok ok (p_delete_prefix p)" "names_ok ok p_utc_now"
  by (simp_all add: prog_defs p_utc_now_def)

lemma writes_only_ignore: "writes_only A m \<Longrightarrow> writes_only A (p_ignore m)"
  unfolding p_ignore_def by (rule writes_only_pbind) simp_all

lemmas prog_rules = writes_only_pbind writes_only_ptry writes_only_ignore names_ok_pbind names_ok_ptry names_ok_ignore

context object_store_contract
begin

lemma run_frame:
  assumes "run_prog st clock p s = (r, s')" and "names_ok key_ok p" and "writes_only A p" and "inv (sys_world s)"
  shows "inv (sys_world s') \<and> (\<forall>k. \<not> A k \<longrightarrow> objs (sys_world s') k = objs (sys_world s) k)"
  using assms
proof (induction p arbitrary: s)
  case (Now f)
  from Now.IH [OF rangeI, of "clock (sys_ticks s)" "s\<lparr>sys_ticks := Suc (sys_ticks s)\<rparr>"] Now.prems
  show ?case by simp
next
  case (Exists k f)
  from Exists.prems obtain r0 w where c: "os_exists st k (sys_world s) = (r0, w)"
    and run: "run_prog st clock (f r0) (s\<lparr>sys_world := w\<rparr>) = (r, s')" by (auto split: prod.splits)
  from Exists.IH [OF rangeI run] exists_law [OF c] Exists.prems show ?case by simp
next
  case (Read k f)
  from Read.prems obtain r0 w where c: "os_read_bytes st k (sys_world s) = (r0, w)"
    and run: "run_prog st clock (f r0) (s\<lparr>sys_world := w\<rparr>) = (r, s')" by (auto split: prod.splits)
  from Read.IH [OF rangeI run] read_law [OF c] Read.prems show ?case by simp
next
  case (Put k d f)
  from Put.prems obtain r0 w where c: "os_put_bytes st k d (sys_world s) = (r0, w)"
    and run: "run_prog st clock (f r0) (s\<lparr>sys_world := w\<rparr>) = (r, s')" by (auto split: prod.splits)
  from Put.IH [OF rangeI run] put_law [OF c] Put.prems show ?case by auto
next
  case (PutIfAbsent k d f)
  from PutIfAbsent.prems obtain r0 w where c: "os_put_bytes_if_absent st k d (sys_world s) = (r0, w)"
    and run: "run_prog st clock (f r0) (s\<lparr>sys_world := w\<rparr>) = (r, s')" by (auto split: prod.splits)
  from PutIfAbsent.IH [OF rangeI run] put_if_absent_law [OF c] PutIfAbsent.prems show ?case by auto
next
  case (Delete k f)
  from Delete.prems obtain r0 w where c: "os_delete st k (sys_world s) = (r0, w)"
    and run: "run_prog st clock (f r0) (s\<lparr>sys_world := w\<rparr>) = (r, s')" by (auto split: prod.splits)
  from delete_law [OF c] Delete.prems have "inv w" "\<forall>l. \<not> A l \<longrightarrow> objs w l = objs (sys_world s) l"
    by (fastforce simp: removed_only_def)+
  with Delete.IH [OF rangeI run] Delete.prems show ?case by simp
next
  case (DeletePrefix k f)
  from DeletePrefix.prems obtain r0 w where c: "os_delete_prefix st k (sys_world s) = (r0, w)"
    and run: "run_prog st clock (f r0) (s\<lparr>sys_world := w\<rparr>) = (r, s')" by (auto split: prod.splits)
  from delete_prefix_law [OF c] DeletePrefix.prems have "inv w" "\<forall>l. \<not> A l \<longrightarrow> objs w l = objs (sys_world s) l"
    by (fastforce simp: removed_only_def)+
  with DeletePrefix.IH [OF rangeI run] DeletePrefix.prems show ?case by simp
next
  case (ListPrefix k f)
  from ListPrefix.prems obtain r0 w where c: "os_list_prefix st k (sys_world s) = (r0, w)"
    and run: "run_prog st clock (f r0) (s\<lparr>sys_world := w\<rparr>) = (r, s')" by (auto split: prod.splits)
  from ListPrefix.IH [OF rangeI run] list_law [OF c] ListPrefix.prems show ?case by simp
qed auto

text \<open>A program that writes nothing leaves the objects as they are.\<close>

lemma run_reads:
  assumes "run_prog st clock p s = (r, s')" and "names_ok key_ok p" and "writes_only (\<lambda>_. False) p"
    and "inv (sys_world s)"
  shows "inv (sys_world s') \<and> objs (sys_world s') = objs (sys_world s)"
  using run_frame [OF assms] by auto

end

lemma load_manifest_reads [simp]:
  "ok (manifest_key pid) \<Longrightarrow> names_ok ok (load_manifest rt pid)" "writes_only A (load_manifest rt pid)"
  by (auto simp: load_manifest_def intro!: prog_rules)

lemma read_verified_reads [simp]:
  "ok k \<Longrightarrow> names_ok ok (read_verified_object rt k n sha lbl)" "writes_only A (read_verified_object rt k n sha lbl)"
  by (auto simp: read_verified_object_def Let_def intro!: prog_rules)

lemma check_written_reads [simp]:
  "ok (manifest_key (dm_project_id m)) \<Longrightarrow> names_ok ok (check_written rt m)" "writes_only A (check_written rt m)"
  by (auto simp: check_written_def split: sum.split option.split intro!: prog_rules)

section \<open>Objects read are verified\<close>

context object_store_contract
begin

lemma run_verified:
  assumes "run_prog st clock (read_verified_object rt k n sha lbl) s = (r, s')" and "key_ok k" and "inv (sys_world s)"
  shows "inv (sys_world s') \<and> objs (sys_world s') = objs (sys_world s)
    \<and> (\<forall>d. r = Inr d \<longrightarrow> verified rt (objs (sys_world s)) k n sha = Some d)"
proof -
  obtain r0 w where c: "os_read_bytes st k (sys_world s) = (r0, w)" by (cases "os_read_bytes st k (sys_world s)")
  from assms(1) have "r = Inr d \<Longrightarrow> r0 = Inr d \<and> length d = n \<and> hex_sha256 (rt_sha256 rt) d = sha" for d
    by (cases r0) (auto simp: read_verified_object_def run_ptry abind_def c Let_def split: if_splits)
  with read_law [OF c assms(2,3)] run_reads [OF assms(1) _ _ assms(3)] assms(2) show ?thesis
    by (auto simp: verified_Some)
qed

text \<open>The manifest loaded is the one in the store, with the right version and project.\<close>

lemma run_load_manifest:
  assumes "run_prog st clock (load_manifest rt pid) s = (r, s')" and "key_ok (manifest_key pid)" and "inv (sys_world s)"
  shows "inv (sys_world s') \<and> objs (sys_world s') = objs (sys_world s)
    \<and> (\<forall>m. r = Inr (Some m) \<longrightarrow> manifest_of rt pid (objs (sys_world s)) = Some m
          \<and> dm_schema_version m = 1 \<and> dm_project_id m = pid)
    \<and> (r = Inr None \<longrightarrow> objs (sys_world s) (manifest_key pid) = None)"
proof -
  have "(r = Inr (Some m) \<longrightarrow> manifest_of rt pid (objs (sys_world s)) = Some m \<and> dm_schema_version m = 1 \<and> dm_project_id m = pid)
    \<and> (r = Inr None \<longrightarrow> objs (sys_world s) (manifest_key pid) = None)" for m
    using assms(1) unfolding load_manifest_def run_ptry
  proof (cases rule: abind_elim)
    case (ok b s1)
    note ex = run_exists [OF ok(1) assms(2,3)]
    show ?thesis
    proof (cases b)
      case False
      with ok ex show ?thesis by auto
    next
      case True
      with ok(2) have "abind (run_prog st clock (p_read (manifest_key pid))) (\<lambda>data. run_prog st clock
          (ptry (p_result (parse_or rt ''invalid durable manifest'' manifest_of_json data)) (\<lambda>m.
              p_result (check_manifest pid m)))) s1 = (r, s')" by (simp add: run_ptry)
      then show ?thesis
      proof (cases rule: abind_elim)
        case (ok data s2)
        note rd = run_read [OF ok(1) assms(2)]
        from ok(2) have "r = Inr x \<Longrightarrow> \<exists>m. x = Some m \<and> read_manifest rt data = Some m
            \<and> dm_schema_version m = 1 \<and> dm_project_id m = pid" for x
          by (auto simp: run_ptry p_result_def abind_def parse_or_Inr read_manifest_def check_manifest_def
              split: sum.splits if_splits)
        with rd ex show ?thesis by (auto simp: manifest_of_def)
      qed auto
    qed
  qed auto
  with run_reads [OF assms(1) _ _ assms(3)] assms(2) show ?thesis by simp
qed

end

section \<open>Restoring\<close>

abbreviation host_world :: "'w host \<Rightarrow> 'w" where
  "host_world h \<equiv> sys_world (h_sys h)"

lemma on_store_run:
  "on_store M p h = (r, h') \<longleftrightarrow>
     (\<exists>s. run_prog (mc_store M) (mc_clock M) p (h_sys h) = (r, s) \<and> h' = h\<lparr>h_sys := s\<rparr>)"
  by (auto simp: on_store_def split: prod.split)

lemma disk_op_keeps:
  "disk_op M f g h = (r, h') \<Longrightarrow> h_sys h' = h_sys h \<and> h_tmp h' = h_tmp h"
  by (auto simp: disk_op_def Let_def split: option.splits)

lemma disk_op_Inr:
  "disk_op M f g h = (Inr u, h') \<Longrightarrow> h_cache h' = g (h_cache h)"
  by (auto simp: disk_op_def Let_def split: option.splits)

lemma fs_touch_keeps:
  "fs_touch M h = (r, h') \<Longrightarrow> h_sys h' = h_sys h \<and> h_tmp h' = h_tmp h \<and> h_cache h' = h_cache h"
  by (auto simp: fs_touch_def disk_op_def Let_def split: option.splits)

lemma check_segment_Inr [result_simps]:
  "check_segment off i s = Inr u \<longleftrightarrow> (case i of Some n \<Rightarrow> ws_id s = n | None \<Rightarrow> True) \<and> ws_offset s = off"
  by (auto simp: check_segment_def check_offset_def split: option.splits)

lemma created_wal:
  assumes "abind (if created then aret () else fs_create_wal M) (\<lambda>_. fs_append_wal M data) h = (Inr u, h')"
  shows "h_cache h' = (h_cache h)\<lparr>c_wal := (if created then map_option (\<lambda>w. w @ data) (c_wal (h_cache h)) else Some data)\<rparr>"
  using assms by (auto simp: fs_create_wal_def fs_append_wal_def act_simps dest!: disk_op_Inr split: if_splits)

lemma abind_assoc: "abind (abind m f) g = abind m (\<lambda>x. abind (f x) g)"
  by (auto simp: abind_def fun_eq_iff split: prod.split sum.split)

definition manifest_keys_ok :: "(string \<Rightarrow> bool) \<Rightarrow> durable_manifest \<Rightarrow> bool" where
  "manifest_keys_ok ok m \<longleftrightarrow> ok (sm_key (dm_snapshot m)) \<and> (\<forall>s \<in> set (wc_segments (dm_wal m)). ok (ws_key s))"

text \<open>A store whose reads do not fail, and a disk without faults.\<close>

definition reliable_reads :: "'w object_store \<Rightarrow> ('w \<Rightarrow> objects) \<Rightarrow> (string \<Rightarrow> bool) \<Rightarrow> ('w \<Rightarrow> bool) \<Rightarrow> bool" where
  "reliable_reads store objects ok winv \<longleftrightarrow>
     (\<forall>w k. winv w \<longrightarrow> ok k \<longrightarrow> fst (os_exists store k w) = Inr (objects w k \<noteq> None)
        \<and> (\<forall>d. objects w k = Some d \<longrightarrow> fst (os_read_bytes store k w) = Inr d))"

definition no_disk_faults :: "('w, 'c) machine \<Rightarrow> bool" where
  "no_disk_faults M \<longleftrightarrow> mc_disk M = (\<lambda>_. None)"

lemma disk_op_ok: "no_disk_faults M \<Longrightarrow> \<exists>h'. disk_op M f g h = (Inr (), h') \<and> h_sys h' = h_sys h"
  by (simp add: no_disk_faults_def disk_op_def Let_def)

lemma wal_ops_ok:
  assumes "no_disk_faults M"
  shows "\<exists>h'. fs_create_wal M h = (Inr (), h') \<and> h_sys h' = h_sys h"
    and "\<exists>h'. fs_append_wal M data h = (Inr (), h') \<and> h_sys h' = h_sys h"
  unfolding fs_create_wal_def fs_append_wal_def by (rule disk_op_ok [OF assms])+

context object_store_contract
begin

lemma restore_segments_sound:
  assumes "restore_segments M off i created segs h = (r, h')" and M: "mc_store M = st"
    and "\<forall>s \<in> set segs. key_ok (ws_key s)" and "inv (host_world h)"
  shows "inv (host_world h') \<and> objs (host_world h') = objs (host_world h) \<and> h_tmp h' = h_tmp h
    \<and> (\<forall>total cr. r = Inr (total, cr) \<longrightarrow> total = chain_total off segs \<and> cr = (created \<or> segs \<noteq> [])
         \<and> (\<exists>d. chain_bytes (mc_rt M) (objs (host_world h)) off i segs = Some d
              \<and> h_cache h' = (h_cache h)\<lparr>c_wal :=
                  (if segs = [] then c_wal (h_cache h)
                   else if created then map_option (\<lambda>w. w @ d) (c_wal (h_cache h)) else Some d)\<rparr>))"
  using assms
proof (induction segs arbitrary: off i created h)
  case (Cons s segs)
  note prems = Cons.prems
  let ?read = "read_verified_object (mc_rt M) (ws_key s) (ws_len s) (ws_sha256 s) ''WAL segment''"
  let ?open = "\<lambda>data. abind (if created then aret () else fs_create_wal M) (\<lambda>_. fs_append_wal M data)"
  let ?rest = "restore_segments M (wrapping_add off (ws_len s)) (Some (wrapping_add (ws_id s) 1)) True segs"
  from prems(1) have "abind (alift (check_segment off i s)) (\<lambda>_. abind (on_store M ?read) (\<lambda>data.
      abind (?open data) (\<lambda>_. ?rest))) h = (r, h')" by (simp add: abind_assoc)
  then show ?case
  proof (cases rule: abind_elim)
    case (err e)
    with prems show ?thesis by auto
  next
    case (ok u h0)
    then have chk: "check_segment off i s = Inr u" and h0: "h0 = h" by auto
    from ok(2) show ?thesis unfolding h0
    proof (cases rule: abind_elim)
      case (err e)
      then obtain s1 where "run_prog st (mc_clock M) ?read (h_sys h) = (Inl e, s1)" "h' = h\<lparr>h_sys := s1\<rparr>"
        using M by (auto simp: on_store_run)
      with run_verified [OF this(1)] prems err show ?thesis by auto
    next
      case (ok data h1)
      then obtain s1 where "run_prog st (mc_clock M) ?read (h_sys h) = (Inr data, s1)" and h1: "h1 = h\<lparr>h_sys := s1\<rparr>"
        using M by (auto simp: on_store_run)
      from run_verified [OF this(1)] prems have s1: "inv (sys_world s1)" "objs (sys_world s1) = objs (host_world h)"
        and ver: "verified (mc_rt M) (objs (host_world h)) (ws_key s) (ws_len s) (ws_sha256 s) = Some data" by auto
      have keeps: "(if created then aret () else fs_create_wal M) h1 = (r', h2) \<Longrightarrow> h_sys h2 = h_sys h1 \<and> h_tmp h2 = h_tmp h1"
        "fs_append_wal M data h2 = (r', h3) \<Longrightarrow> h_sys h3 = h_sys h2 \<and> h_tmp h3 = h_tmp h2"
        for r' :: "unit api" and h2 h3
        by (auto simp: fs_create_wal_def fs_append_wal_def dest: disk_op_keeps split: if_splits)
      have open_keeps: "h_sys h2 = h_sys h1 \<and> h_tmp h2 = h_tmp h1" if "?open data h1 = (r', h2)" for r' h2
        using that by (cases rule: abind_elim) (use keeps in fastforce)+
      from ok(2) show ?thesis
      proof (cases rule: abind_elim)
        case (err e)
        from open_keeps [OF err(1)] s1 h1 err(2) show ?thesis by auto
      next
        case (ok v h2)
        from open_keeps [OF ok(1)] s1 h1 have h2: "inv (host_world h2)" "objs (host_world h2) = objs (host_world h)"
          "h_tmp h2 = h_tmp h" by auto
        from created_wal [OF ok(1)] h1 have cache: "h_cache h2 = (h_cache h)\<lparr>c_wal :=
            (if created then map_option (\<lambda>w. w @ data) (c_wal (h_cache h)) else Some data)\<rparr>" by simp
        from Cons.IH [OF ok(2) M _ h2(1)] prems(3) h2
        have IH: "inv (host_world h')" "objs (host_world h') = objs (host_world h)" "h_tmp h' = h_tmp h"
          and res: "\<And>total cr. r = Inr (total, cr) \<Longrightarrow> total = chain_total (wrapping_add off (ws_len s)) segs \<and> cr
             \<and> (\<exists>d. chain_bytes (mc_rt M) (objs (host_world h)) (wrapping_add off (ws_len s)) (Some (wrapping_add (ws_id s) 1)) segs = Some d
                 \<and> h_cache h' = (h_cache h2)\<lparr>c_wal := (if segs = [] then c_wal (h_cache h2) else map_option (\<lambda>w. w @ d) (c_wal (h_cache h2)))\<rparr>)"
          by auto
        have "\<exists>d. chain_bytes (mc_rt M) (objs (host_world h)) off i (s # segs) = Some d
            \<and> h_cache h' = (h_cache h)\<lparr>c_wal := (if created then map_option (\<lambda>w. w @ d) (c_wal (h_cache h)) else Some d)\<rparr>"
          if "r = Inr (total, cr)" for total cr
        proof -
          from res [OF that] obtain d where d: "chain_bytes (mc_rt M) (objs (host_world h)) (wrapping_add off (ws_len s))
              (Some (wrapping_add (ws_id s) 1)) segs = Some d"
            and c: "h_cache h' = (h_cache h2)\<lparr>c_wal := (if segs = [] then c_wal (h_cache h2) else map_option (\<lambda>w. w @ d) (c_wal (h_cache h2)))\<rparr>"
            by blast
          have "segs = [] \<Longrightarrow> d = []" using d by simp
          then have "h_cache h' = (h_cache h)\<lparr>c_wal := (if created then map_option (\<lambda>w. w @ (data @ d)) (c_wal (h_cache h)) else Some (data @ d))\<rparr>"
            using c cache by (auto simp: option.map_comp comp_def)
          moreover have "chain_bytes (mc_rt M) (objs (host_world h)) off i (s # segs) = Some (data @ d)"
            unfolding chain_bytes_Cons using chk ver d by (auto simp: check_segment_Inr)
          ultimately show ?thesis by blast
        qed
        note ex = this
        show ?thesis
        proof (intro conjI allI impI)
          fix total cr
          assume r: "r = Inr (total, cr)"
          from res [OF r] show "total = chain_total off (s # segs)" "cr = (created \<or> s # segs \<noteq> [])" by simp_all
          from ex [OF r] show "\<exists>d. chain_bytes (mc_rt M) (objs (host_world h)) off i (s # segs) = Some d
              \<and> h_cache h' = (h_cache h)\<lparr>c_wal :=
                  (if s # segs = [] then c_wal (h_cache h)
                   else if created then map_option (\<lambda>w. w @ d) (c_wal (h_cache h)) else Some d)\<rparr>"
            by (simp del: chain_bytes.simps)
        qed (use IH in simp_all)
      qed
    qed
  qed
qed auto

lemma read_verified_complete:
  assumes "reliable_reads st objs key_ok inv" and "key_ok k" and "inv (sys_world s)"
    and "verified rt (objs (sys_world s)) k n sha = Some d"
  shows "\<exists>s'. run_prog st clock (read_verified_object rt k n sha lbl) s = (Inr d, s')
    \<and> inv (sys_world s') \<and> objs (sys_world s') = objs (sys_world s)"
proof -
  have "fst (os_read_bytes st k (sys_world s)) = Inr d"
    using assms by (auto simp: reliable_reads_def verified_Some)
  then obtain w where c: "os_read_bytes st k (sys_world s) = (Inr d, w)"
    by (cases "os_read_bytes st k (sys_world s)") simp
  with assms(4) have "run_prog st clock (read_verified_object rt k n sha lbl) s = (Inr d, s\<lparr>sys_world := w\<rparr>)"
    by (auto simp: read_verified_object_def run_ptry abind_def verified_Some Let_def)
  with read_law [OF c assms(2,3)] show ?thesis by auto
qed

lemma restore_segments_complete:
  assumes "reliable_reads st objs key_ok inv" and "no_disk_faults M" and "mc_store M = st"
    and "\<forall>s \<in> set segs. key_ok (ws_key s)" and "inv (host_world h)"
    and "chain_bytes (mc_rt M) (objs (host_world h)) off i segs = Some d"
  shows "\<exists>cr h'. restore_segments M off i created segs h = (Inr (chain_total off segs, cr), h')"
  using assms(4-)
proof (induction segs arbitrary: off i created h d)
  case (Cons s segs)
  from Cons.prems(3) obtain a b where chk: "check_segment off i s = Inr ()"
    and ver: "verified (mc_rt M) (objs (host_world h)) (ws_key s) (ws_len s) (ws_sha256 s) = Some a"
    and rest: "chain_bytes (mc_rt M) (objs (host_world h)) (wrapping_add off (ws_len s))
      (Some (wrapping_add (ws_id s) 1)) segs = Some b"
    unfolding chain_bytes_Cons by (auto simp: check_segment_Inr)
  from read_verified_complete [OF assms(1) _ Cons.prems(2) ver, of "mc_clock M" "''WAL segment''"] Cons.prems(1)
  obtain s1 where run: "run_prog st (mc_clock M) (read_verified_object (mc_rt M) (ws_key s) (ws_len s) (ws_sha256 s) ''WAL segment'')
      (h_sys h) = (Inr a, s1)" and s1: "inv (sys_world s1)" "objs (sys_world s1) = objs (host_world h)" by auto
  then have "on_store M (read_verified_object (mc_rt M) (ws_key s) (ws_len s) (ws_sha256 s) ''WAL segment'') h
      = (Inr a, h\<lparr>h_sys := s1\<rparr>)" using assms(3) by (simp add: on_store_run)
  moreover obtain h2 where h2: "(if created then aret () else fs_create_wal M) (h\<lparr>h_sys := s1\<rparr>) = (Inr (), h2)" "h_sys h2 = s1"
    using wal_ops_ok(1) [OF assms(2), of "h\<lparr>h_sys := s1\<rparr>"] by (cases created) auto
  moreover obtain h3 where h3: "fs_append_wal M a h2 = (Inr (), h3)" "h_sys h3 = s1"
    using wal_ops_ok(2) [OF assms(2), of a h2] h2(2) by auto
  ultimately have "restore_segments M off i created (s # segs) h
      = restore_segments M (wrapping_add off (ws_len s)) (Some (wrapping_add (ws_id s) 1)) True segs h3"
    using chk by (simp add: abind_def)
  moreover from Cons.IH [of h3 "wrapping_add off (ws_len s)" "Some (wrapping_add (ws_id s) 1)" b True] Cons.prems(1) s1 rest h3
  obtain cr h' where "restore_segments M (wrapping_add off (ws_len s)) (Some (wrapping_add (ws_id s) 1)) True segs h3
      = (Inr (chain_total (wrapping_add off (ws_len s)) segs, cr), h')" by auto
  ultimately show ?case by simp
qed auto

lemma restore_snapshot_sound:
  assumes "restore_snapshot M sm h = (r, h')" and M: "mc_store M = st"
    and "key_ok (sm_key sm)" and "inv (host_world h)"
  shows "inv (host_world h') \<and> objs (host_world h') = objs (host_world h)
    \<and> (r = Inr () \<longrightarrow> (\<exists>d. verified (mc_rt M) (objs (host_world h)) (sm_key sm) (sm_bytes sm) (sm_sha256 sm) = Some d
         \<and> h_cache h' = (h_cache h)\<lparr>c_db := Some d\<rparr>))"
  using assms(1) unfolding restore_snapshot_def
proof (cases rule: abind_elim)
  case (err e)
  then obtain s1 where "run_prog st (mc_clock M) (read_verified_object (mc_rt M) (sm_key sm) (sm_bytes sm) (sm_sha256 sm) ''snapshot'')
      (h_sys h) = (Inl e, s1)" "h' = h\<lparr>h_sys := s1\<rparr>" using M by (auto simp: on_store_run)
  with run_verified [OF this(1) assms(3,4)] err show ?thesis by simp
next
  case (ok d h1)
  then obtain s1 where "run_prog st (mc_clock M) (read_verified_object (mc_rt M) (sm_key sm) (sm_bytes sm) (sm_sha256 sm) ''snapshot'')
      (h_sys h) = (Inr d, s1)" "h1 = h\<lparr>h_sys := s1\<rparr>" using M by (auto simp: on_store_run)
  with run_verified [OF this(1) assms(3,4)] ok(2) show ?thesis
    by (auto simp: fs_write_db_def dest: disk_op_keeps disk_op_Inr)
qed

lemma restore_manifest_sound:
  assumes run: "restore_manifest M m h = (r, h')" and M: "mc_store M = st"
    and keys: "manifest_keys_ok key_ok m" and w: "inv (host_world h)"
  shows "inv (host_world h') \<and> objs (host_world h') = objs (host_world h)
    \<and> (\<forall>rs. r = Inr rs \<longrightarrow> (\<exists>snap wal. recoverable_from (mc_rt M) (objs (host_world h)) m = Some (snap, wal)
         \<and> h_cache h' = \<lparr>c_db = Some snap, c_wal = (if wc_segments (dm_wal m) = [] then c_wal (h_cache h) else Some wal)\<rparr>
         \<and> rs = \<lparr>rs_generation = dm_generation m, rs_commit_seq = manifest_commit_seq (Some m),
                 rs_snapshot = Some (dm_snapshot m), rs_segments = wc_segments (dm_wal m), rs_ops = dm_ops_since_snapshot m\<rparr>))"
  using run unfolding restore_manifest_def
proof (cases rule: abind_elim)
  case (err e)
  with restore_snapshot_sound [OF err(1) M _ w] keys show ?thesis by (auto simp: manifest_keys_ok_def)
next
  case (ok u h1)
  note snap = restore_snapshot_sound [OF ok(1) M _ w]
  from ok(2) show ?thesis
    unfolding restore_manifest_wal_def abind_assoc
  proof (cases rule: abind_elim)
    case (err e)
    with restore_segments_sound [OF err(1) M] snap keys show ?thesis by (auto simp: manifest_keys_ok_def)
  next
    case (ok tc h2)
    obtain total cr where tc: "tc = (total, cr)" by (cases tc)
    note segs = restore_segments_sound [OF ok(1) M]
    from ok(2) have "h_sys h' = h_sys h2 \<and> (\<forall>rs. r = Inr rs \<longrightarrow> total = wc_durable_bytes (dm_wal m) \<and> h_cache h' = h_cache h2
         \<and> rs = \<lparr>rs_generation = dm_generation m, rs_commit_seq = manifest_commit_seq (Some m),
                 rs_snapshot = Some (dm_snapshot m), rs_segments = wc_segments (dm_wal m), rs_ops = dm_ops_since_snapshot m\<rparr>)"
      by (auto simp: tc abind_def split: if_splits prod.splits sum.splits dest!: fs_touch_keeps)
    with snap segs keys tc show ?thesis
      by (auto simp: manifest_keys_ok_def recoverable_from_def chain_recoverable_def)
  qed
qed

lemma restore_manifest_complete:
  assumes reads: "reliable_reads st objs key_ok inv" and disk: "no_disk_faults M" and M: "mc_store M = st"
    and keys: "manifest_keys_ok key_ok m" and w: "inv (host_world h)"
    and rec: "recoverable_from (mc_rt M) (objs (host_world h)) m = Some (snap, wal)"
  shows "\<exists>rs h'. restore_manifest M m h = (Inr rs, h')"
proof -
  from rec have ver: "verified (mc_rt M) (objs (host_world h)) (sm_key (dm_snapshot m)) (sm_bytes (dm_snapshot m))
        (sm_sha256 (dm_snapshot m)) = Some snap"
    and total: "chain_total 0 (wc_segments (dm_wal m)) = wc_durable_bytes (dm_wal m)"
    and chain: "chain_bytes (mc_rt M) (objs (host_world h)) 0 None (wc_segments (dm_wal m)) = Some wal"
    by (auto simp: recoverable_from_def chain_recoverable_def bind_eq_Some_conv split: if_splits)
  from read_verified_complete [OF reads _ w ver, of "mc_clock M" "''snapshot''"] keys
  obtain s1 where s1: "run_prog st (mc_clock M) (read_verified_object (mc_rt M) (sm_key (dm_snapshot m))
      (sm_bytes (dm_snapshot m)) (sm_sha256 (dm_snapshot m)) ''snapshot'') (h_sys h) = (Inr snap, s1)"
    "inv (sys_world s1)" "objs (sys_world s1) = objs (host_world h)" by (auto simp: manifest_keys_ok_def)
  obtain h2 where "fs_write_db M snap (h\<lparr>h_sys := s1\<rparr>) = (Inr (), h2)" and h2: "h_sys h2 = s1"
    using disk_op_ok [OF disk] unfolding fs_write_db_def by (metis (no_types, lifting) host.select_convs(1) host.surjective host.update_convs(1))
  with s1 M have snap: "restore_snapshot M (dm_snapshot m) h = (Inr (), h2)"
    by (simp add: restore_snapshot_def abind_def on_store_def)
  from restore_segments_complete [OF reads disk M, of "wc_segments (dm_wal m)" h2 0 None wal False] keys s1 h2 chain
  obtain cr h3 where "restore_segments M 0 None False (wc_segments (dm_wal m)) h2
      = (Inr (chain_total 0 (wc_segments (dm_wal m)), cr), h3)" by (auto simp: manifest_keys_ok_def)
  moreover obtain h4 where "(if cr then fs_touch M else aret ()) h3 = (Inr (), h4)"
    using disk_op_ok [OF disk, of "\<lambda>n c. c" "\<lambda>c. c" h3] by (cases cr) (auto simp: fs_touch_def)
  ultimately show ?thesis
    using snap total by (simp add: restore_manifest_def restore_manifest_wal_def abind_def)
qed

end

section \<open>Writing the manifest\<close>

context object_store_contract
begin

lemma run_put_manifest:
  assumes "run_prog st clock (put_manifest rt m) s = (r, s')" and key: "key_ok (manifest_key (dm_project_id m))"
    and w: "inv (sys_world s)"
  shows "inv (sys_world s')
    \<and> (objs (sys_world s') = objs (sys_world s)
       \<or> objs (sys_world s') = (objs (sys_world s))(manifest_key (dm_project_id m) \<mapsto> manifest_bytes rt m))
    \<and> (is_ok r \<longrightarrow> objs (sys_world s') = (objs (sys_world s))(manifest_key (dm_project_id m) \<mapsto> manifest_bytes rt m))
    \<and> (objs (sys_world s') \<noteq> objs (sys_world s) \<longrightarrow>
       (\<forall>x s1. run_prog st clock (load_manifest rt (dm_project_id m)) s = (Inr (Some x), s1)
            \<longrightarrow> dm_generation x \<le> dm_generation m))"
proof -
  let ?wprog = "ptry (p_put (manifest_key (dm_project_id m)) (manifest_bytes rt m)) (\<lambda>_. check_written rt m)"
  obtain before s1 where ld: "run_prog st clock (load_manifest rt (dm_project_id m)) s = (before, s1)"
    by (cases "run_prog st clock (load_manifest rt (dm_project_id m)) s")
  note ldf = run_load_manifest [OF ld key w]
  from assms(1) ld have cases: "(\<exists>x e. before = Inr (Some x) \<and> dm_generation m < dm_generation x \<and> r = Inl e \<and> s' = s1)
      \<or> ((\<forall>x. before = Inr (Some x) \<longrightarrow> dm_generation x \<le> dm_generation m) \<and> run_prog st clock ?wprog s1 = (r, s'))"
    by (auto simp: put_manifest_def run_pbind Let_def split: sum.splits option.splits if_splits)
  then show ?thesis
  proof (elim disjE exE conjE)
    fix x e
    assume "r = Inl e" "s' = s1"
    with ldf show ?thesis by simp
  next
    assume gen: "\<forall>x. before = Inr (Some x) \<longrightarrow> dm_generation x \<le> dm_generation m"
      and run: "run_prog st clock ?wprog s1 = (r, s')"
    from run show ?thesis unfolding run_ptry
    proof (cases rule: abind_elim)
      case (err e)
      with run_put [OF err(1) key] ldf gen ld show ?thesis by auto
    next
      case (ok u s2)
      with run_put [OF ok(1) key] run_reads [OF ok(2)] key ldf gen ld show ?thesis by auto
    qed
  qed
qed

end

section \<open>The invariant of a durable project\<close>

text \<open>The integers of a state fit their types.\<close>

definition state_small :: "'c project_state \<Rightarrow> bool" where
  "state_small st \<longleftrightarrow> ps_generation st \<le> u64_max \<and> ps_commit_seq st \<le> u64_max
     \<and> ps_last_durable_wal_bytes st \<le> u64_max \<and> ps_next_wal_segment_id st \<le> u64_max
     \<and> ps_ops_since_snapshot st \<le> u64_max \<and> list_all segment_small (ps_wal_segments st)
     \<and> (case ps_writer_lease_fencing_token st of None \<Rightarrow> True | Some n \<Rightarrow> n \<le> u64_max)
     \<and> (case ps_current_snapshot st of None \<Rightarrow> True | Some sm \<Rightarrow> sm_bytes sm \<le> u64_max)"

text \<open>The segments of a state: each at the key of an id below the next one, ending at the next id.\<close>

definition segments_named :: "'c project_state \<Rightarrow> bool" where
  "segments_named st \<longleftrightarrow>
     (\<forall>s \<in> set (ps_wal_segments st). \<exists>n < ps_next_wal_segment_id st. ws_key s = wal_segment_key (ps_project_id st) n)
     \<and> (next_id None (ps_wal_segments st) = None
        \<or> next_id None (ps_wal_segments st) = Some (ps_next_wal_segment_id st))"

text \<open>Where snapshots are: the object of old projects, or one of a generation up to the manifest's.\<close>

definition snapshot_named :: "string \<Rightarrow> nat \<Rightarrow> string \<Rightarrow> bool" where
  "snapshot_named pid gen k \<longleftrightarrow> k = snapshot_key pid \<or> (\<exists>n \<le> gen. k = snapshot_generation_key pid n)"

text \<open>The third component of the key tells the kinds of objects of a project apart.\<close>

lemma snapshot_named_parts:
  assumes "CHR ''/'' \<notin> set pid" and "snapshot_named pid gen k"
  shows "\<exists>rest. split_on (CHR ''/'') k = ''projects'' # pid # ''database.sqlite'' # rest
    \<or> split_on (CHR ''/'') k = ''projects'' # pid # ''snapshots'' # rest"
  using assms(2) split_control_keys(3,5) [OF assms(1)] by (auto simp: snapshot_named_def)

lemma snapshot_named_other:
  assumes "CHR ''/'' \<notin> set pid" and "snapshot_named pid gen k"
  shows "k \<noteq> manifest_key pid" and "k \<noteq> wal_segment_key pid n"
  using snapshot_named_parts [OF assms] split_control_keys(1,6) [OF assms(1)] by auto

text \<open>
  \<open>durable_inv rt objects file st m\<close>: the manifest \<open>m\<close> is in the store and is the state's, up to
  segments written since; its snapshot is verified and is no WAL object; and the segments of
  the state hold a prefix of the WAL \<open>file\<close> of the cache.
\<close>

definition durable_inv ::
    "runtime \<Rightarrow> objects \<Rightarrow> bytes \<Rightarrow> 'c project_state \<Rightarrow> durable_manifest \<Rightarrow> bool" where
  "durable_inv rt objects file st m \<longleftrightarrow>
     manifest_of rt (ps_project_id st) objects = Some m
     \<and> ps_current_snapshot st = Some (dm_snapshot m)
     \<and> dm_generation m = ps_generation st
     \<and> verified rt objects (sm_key (dm_snapshot m)) (sm_bytes (dm_snapshot m)) (sm_sha256 (dm_snapshot m)) \<noteq> None
     \<and> snapshot_named (ps_project_id st) (ps_generation st) (sm_key (dm_snapshot m))
     \<and> (\<exists>n. wc_segments (dm_wal m) = take n (ps_wal_segments st))
     \<and> wc_durable_bytes (dm_wal m) = chain_total 0 (wc_segments (dm_wal m))
     \<and> chain_bytes rt objects 0 None (ps_wal_segments st) = Some (take (ps_last_durable_wal_bytes st) file)
     \<and> ps_last_durable_wal_bytes st \<le> length file \<and> length file \<le> u64_max
     \<and> segments_named st \<and> state_small st"

lemma durable_snapshot_key:
  assumes "durable_inv rt objects file st m" and "CHR ''/'' \<notin> set (ps_project_id st)"
  shows "sm_key (dm_snapshot m) \<noteq> wal_segment_key (ps_project_id st) n"
    and "sm_key (dm_snapshot m) \<noteq> manifest_key (ps_project_id st)"
proof -
  from assms(1) have "snapshot_named (ps_project_id st) (ps_generation st) (sm_key (dm_snapshot m))"
    by (simp add: durable_inv_def)
  from snapshot_named_other [OF assms(2) this]
  show "sm_key (dm_snapshot m) \<noteq> wal_segment_key (ps_project_id st) n"
    and "sm_key (dm_snapshot m) \<noteq> manifest_key (ps_project_id st)" by simp_all
qed

text \<open>What is recoverable under the invariant.\<close>

lemma chain_bytes_take:
  "chain_bytes rt objects 0 None segs = Some d \<Longrightarrow> chain_bytes rt objects 0 None (take n segs)
     = Some (take (sum_list (map ws_len (take n segs))) d)"
proof -
  assume "chain_bytes rt objects 0 None segs = Some d"
  then have "chain_bytes rt objects 0 None (take n segs @ drop n segs) = Some d" by simp
  then obtain a b where "chain_bytes rt objects 0 None (take n segs) = Some a" "d = a @ b"
    unfolding chain_bytes_append by blast
  with chain_bytes_length [OF this(1)] show ?thesis by simp
qed

lemma durable_recoverable:
  assumes "durable_inv rt objects file st m"
  shows "\<exists>snap. verified rt objects (sm_key (dm_snapshot m)) (sm_bytes (dm_snapshot m)) (sm_sha256 (dm_snapshot m)) = Some snap
    \<and> recoverable rt (ps_project_id st) objects
      = Some (snap, take (sum_list (map ws_len (wc_segments (dm_wal m)))) file)"
proof -
  from assms obtain snap n where
    snap: "verified rt objects (sm_key (dm_snapshot m)) (sm_bytes (dm_snapshot m)) (sm_sha256 (dm_snapshot m)) = Some snap"
    and n: "wc_segments (dm_wal m) = take n (ps_wal_segments st)"
    and chain: "chain_bytes rt objects 0 None (ps_wal_segments st) = Some (take (ps_last_durable_wal_bytes st) file)"
    and total: "wc_durable_bytes (dm_wal m) = chain_total 0 (wc_segments (dm_wal m))"
    and m: "manifest_of rt (ps_project_id st) objects = Some m"
    by (auto simp: durable_inv_def)
  let ?k = "sum_list (map ws_len (take n (ps_wal_segments st)))"
  have "?k \<le> sum_list (map ws_len (ps_wal_segments st))"
    by (subst (2) append_take_drop_id [of n, symmetric]) (simp only: map_append sum_list_append le_add1)
  also have "\<dots> \<le> ps_last_durable_wal_bytes st" using chain_bytes_length [OF chain] by simp
  finally have "take ?k (take (ps_last_durable_wal_bytes st) file) = take ?k file" by (simp add: min_absorb1)
  with chain_bytes_take [OF chain, of n] have "chain_bytes rt objects 0 None (wc_segments (dm_wal m)) = Some (take ?k file)"
    by (simp add: n)
  with snap total m n show ?thesis
    by (simp add: recoverable_def recoverable_from_def chain_recoverable_def)
qed

lemma manifest_not_segment: "CHR ''/'' \<notin> set pid \<Longrightarrow> manifest_key pid \<noteq> wal_segment_key pid n"
proof
  assume pid: "CHR ''/'' \<notin> set pid" and "manifest_key pid = wal_segment_key pid n"
  then have "split_on (CHR ''/'') (manifest_key pid) = split_on (CHR ''/'') (wal_segment_key pid n)" by simp
  with split_control_keys(1,6) [OF pid] show False by simp
qed

text \<open>Objects that the invariant does not mention may change.\<close>

lemma durable_inv_other:
  assumes inv: "durable_inv rt objects file st m" and pid: "CHR ''/'' \<notin> set (ps_project_id st)"
    and same: "\<And>k. k \<noteq> wal_segment_key (ps_project_id st) (ps_next_wal_segment_id st) \<Longrightarrow> objects' k = objects k"
  shows "durable_inv rt objects' file st m"
proof -
  let ?pid = "ps_project_id st"
  have "objects' (manifest_key ?pid) = objects (manifest_key ?pid)"
    by (intro same manifest_not_segment [OF pid])
  moreover have "objects' (sm_key (dm_snapshot m)) = objects (sm_key (dm_snapshot m))"
    by (intro same durable_snapshot_key [OF inv pid])
  moreover have "objects' (ws_key s) = objects (ws_key s)" if "s \<in> set (ps_wal_segments st)" for s
  proof (rule same)
    from inv that obtain n where "n < ps_next_wal_segment_id st" "ws_key s = wal_segment_key ?pid n"
      by (auto simp: durable_inv_def segments_named_def)
    moreover have "ps_next_wal_segment_id st \<le> u64_max" using inv by (simp add: durable_inv_def state_small_def)
    ultimately show "ws_key s \<noteq> wal_segment_key ?pid (ps_next_wal_segment_id st)"
      using wal_key.enc_inject [of n "ps_next_wal_segment_id st"] by auto
  qed
  ultimately show ?thesis
    using inv chain_bytes_objs [of "ps_wal_segments st" objects' objects]
    by (simp add: durable_inv_def manifest_of_def verified_def)
qed

lemma push_segment_inv:
  assumes inv: "durable_inv rt objects file st m" and pid: "CHR ''/'' \<notin> set (ps_project_id st)"
    and nxt: "ps_next_wal_segment_id st < u64_max"
    and objects': "objects' = objects(wal_segment_key (ps_project_id st) (ps_next_wal_segment_id st) \<mapsto> data)"
    and data: "data = drop (ps_last_durable_wal_bytes st) file"
  shows "durable_inv rt objects' file ((push_segment rt st data)\<lparr>ps_last_durable_wal_bytes := length file\<rparr>) m"
proof -
  let ?seg = "new_segment rt st data" and ?segs = "ps_wal_segments st" and ?last = "ps_last_durable_wal_bytes st"
  let ?pid = "ps_project_id st" and ?next = "ps_next_wal_segment_id st"
  have "durable_inv rt objects' file st m"
    by (rule durable_inv_other [OF inv pid]) (simp add: objects')
  then have chain: "chain_bytes rt objects' 0 None ?segs = Some (take ?last file)"
    and named: "segments_named st" and small: "state_small st" "?last \<le> length file" "length file \<le> u64_max"
    and rest: "manifest_of rt ?pid objects' = Some m" "ps_current_snapshot st = Some (dm_snapshot m)"
      "dm_generation m = ps_generation st"
      "verified rt objects' (sm_key (dm_snapshot m)) (sm_bytes (dm_snapshot m)) (sm_sha256 (dm_snapshot m)) \<noteq> None"
      "snapshot_named ?pid (ps_generation st) (sm_key (dm_snapshot m))"
      "\<exists>n. wc_segments (dm_wal m) = take n ?segs" "wc_durable_bytes (dm_wal m) = chain_total 0 (wc_segments (dm_wal m))"
    by (simp_all add: durable_inv_def)
  have sum: "sum_list (map ws_len ?segs) = ?last" using chain_bytes_length [OF chain] small by simp
  then have total: "chain_total 0 ?segs = ?last" using chain_total_sum [of 0 ?segs] small by simp
  have wrap: "wrapping_add ?next 1 = ?next + 1" using nxt by (rule wrapping_add_less)
  have "verified rt objects' (ws_key ?seg) (ws_len ?seg) (ws_sha256 ?seg) = Some data"
    by (simp add: verified_def new_segment_def objects')
  moreover have "next_id None ?segs = None \<or> next_id None ?segs = Some (ws_id ?seg)"
    using named by (simp add: segments_named_def new_segment_def)
  ultimately have "chain_bytes rt objects' ?last (next_id None ?segs) [?seg] = Some data"
    by (auto simp: new_segment_def)
  with chain total have "chain_bytes rt objects' 0 None (?segs @ [?seg]) = Some (take ?last file @ data)"
    unfolding chain_bytes_append by auto
  then have "chain_bytes rt objects' 0 None (?segs @ [?seg]) = Some file" by (simp add: data)
  moreover have "segments_named ((push_segment rt st data)\<lparr>ps_last_durable_wal_bytes := length file\<rparr>)"
    using named wrap by (auto simp: segments_named_def push_segment_def new_segment_def next_id_def less_Suc_eq)
  moreover have "state_small ((push_segment rt st data)\<lparr>ps_last_durable_wal_bytes := length file\<rparr>)"
    using small wrap nxt by (auto simp: state_small_def push_segment_def new_segment_def segment_small_def data)
  moreover have "\<exists>n. wc_segments (dm_wal m) = take n (?segs @ [?seg])"
  proof -
    from rest(6) obtain n where "wc_segments (dm_wal m) = take n ?segs" by blast
    then have "wc_segments (dm_wal m) = take (min n (length ?segs)) (?segs @ [?seg])" by (simp add: min_def)
    then show ?thesis by blast
  qed
  ultimately show ?thesis
    using rest small by (simp add: durable_inv_def push_segment_def)
qed

lemma on_host_run:
  "on_host m p = (r, p') \<longleftrightarrow> (\<exists>h. m (px_host p) = (r, h) \<and> p' = p\<lparr>px_host := h\<rparr>)"
  by (auto simp: on_host_def split: prod.split)

abbreviation px_world :: "('w, 'c) px \<Rightarrow> 'w" where
  "px_world p \<equiv> host_world (px_host p)"

text \<open>The WAL file of the cache, empty when there is none.\<close>

definition wal_file :: "('w, 'c) px \<Rightarrow> bytes" where
  "wal_file p = (case c_wal (h_cache (px_host p)) of Some f \<Rightarrow> f | None \<Rightarrow> [])"

definition project_keys_ok :: "(string \<Rightarrow> bool) \<Rightarrow> string \<Rightarrow> bool" where
  "project_keys_ok ok pid \<longleftrightarrow> ok (manifest_key pid) \<and> (\<forall>n. ok (wal_segment_key pid n))
     \<and> (\<forall>n. ok (snapshot_generation_key pid n)) \<and> (\<forall>now ops reason. ok (change_log_key now pid ops reason))"

context object_store_contract
begin

lemma put_new_segment_inv:
  assumes run: "put_new_segment M (length file) file p = (r, p')" and M: "mc_store M = st"
    and keys: "project_keys_ok key_ok (ps_project_id (px_st p))" and w: "inv (px_world p)"
    and dur: "durable_inv (mc_rt M) (objs (px_world p)) file (px_st p) m"
    and pid: "CHR ''/'' \<notin> set (ps_project_id (px_st p))" and nxt: "ps_next_wal_segment_id (px_st p) < u64_max"
  shows "inv (px_world p') \<and> h_cache (px_host p') = h_cache (px_host p) \<and> ps_project_id (px_st p') = ps_project_id (px_st p)
    \<and> (\<forall>k. k \<noteq> wal_segment_key (ps_project_id (px_st p)) (ps_next_wal_segment_id (px_st p)) \<longrightarrow> objs (px_world p') k = objs (px_world p) k)
    \<and> (if is_ok r then durable_inv (mc_rt M) (objs (px_world p')) file ((px_st p')\<lparr>ps_last_durable_wal_bytes := length file\<rparr>) m
       else durable_inv (mc_rt M) (objs (px_world p')) file (px_st p') m)"
proof (cases "length file > ps_last_durable_wal_bytes (px_st p)")
  case False
  then have "ps_last_durable_wal_bytes (px_st p) = length file" using dur by (simp add: durable_inv_def)
  then have "(px_st p)\<lparr>ps_last_durable_wal_bytes := length file\<rparr> = px_st p" by simp
  with False run w dur show ?thesis by (auto simp: put_new_segment_def get_state_def)
next
  case True
  let ?st = "px_st p" and ?last = "ps_last_durable_wal_bytes (px_st p)"
  let ?data = "drop ?last file" and ?key = "wal_segment_key (ps_project_id (px_st p)) (ps_next_wal_segment_id (px_st p))"
  have ne: "?data \<noteq> []" using True by simp
  from run True ne have "abind (on_host (fs_touch M)) (\<lambda>_. abind (on_host (on_store M (p_put ?key ?data))) (\<lambda>_.
      set_state (\<lambda>st. push_segment (mc_rt M) st ?data))) p = (r, p')"
    by (simp add: put_new_segment_def get_state_def read_file_range_def Let_def)
  then show ?thesis
  proof (cases rule: abind_elim)
    case (err e)
    with w dur show ?thesis by (auto simp: on_host_run dest: fs_touch_keeps)
  next
    case (ok u p1)
    then obtain h1 where h1: "p1 = p\<lparr>px_host := h1\<rparr>" "h_sys h1 = h_sys (px_host p)" "h_cache h1 = h_cache (px_host p)"
      by (auto simp: on_host_run dest: fs_touch_keeps)
    from ok(2) show ?thesis
    proof (cases rule: abind_elim)
      case (err e)
      then obtain s where "run_prog st (mc_clock M) (p_put ?key ?data) (h_sys (px_host p)) = (Inl e, s)"
        and p': "p' = p\<lparr>px_host := h1\<lparr>h_sys := s\<rparr>\<rparr>" using h1 M by (auto simp: on_host_run on_store_run)
      from run_put [OF this(1) _ w] keys have s: "inv (sys_world s)"
        "objs (sys_world s) = (objs (px_world p))(?key \<mapsto> ?data) \<or> objs (sys_world s) = objs (px_world p)"
        by (auto simp: project_keys_ok_def)
      then have "durable_inv (mc_rt M) (objs (sys_world s)) file ?st m"
        by (intro durable_inv_other [OF dur pid]) auto
      with s p' h1 err show ?thesis by auto
    next
      case (ok v p2)
      then obtain s where "run_prog st (mc_clock M) (p_put ?key ?data) (h_sys (px_host p)) = (Inr v, s)"
        and p2: "p2 = p\<lparr>px_host := h1\<lparr>h_sys := s\<rparr>\<rparr>" using h1 M by (auto simp: on_host_run on_store_run)
      from run_put [OF this(1) _ w] keys have s: "inv (sys_world s)"
        "objs (sys_world s) = (objs (px_world p))(?key \<mapsto> ?data)" by (auto simp: project_keys_ok_def)
      from push_segment_inv [OF dur pid nxt s(2) refl] ok(2) s h1 p2 show ?thesis
        by (auto simp: set_state_def) (simp_all add: push_segment_def)
    qed
  qed
qed

lemma flush_wal_inv:
  assumes run: "flush_wal M p = (r, p')" and M: "mc_store M = st"
    and keys: "project_keys_ok key_ok (ps_project_id (px_st p))" and w: "inv (px_world p)"
    and dur: "durable_inv (mc_rt M) (objs (px_world p)) (wal_file p) (px_st p) m"
    and pid: "CHR ''/'' \<notin> set (ps_project_id (px_st p))" and nxt: "ps_next_wal_segment_id (px_st p) < u64_max"
  shows "inv (px_world p') \<and> wal_file p' = wal_file p \<and> ps_project_id (px_st p') = ps_project_id (px_st p)
    \<and> (\<forall>k. k \<noteq> wal_segment_key (ps_project_id (px_st p)) (ps_next_wal_segment_id (px_st p)) \<longrightarrow> objs (px_world p') k = objs (px_world p) k)
    \<and> durable_inv (mc_rt M) (objs (px_world p')) (wal_file p) (px_st p') m
    \<and> (is_ok r \<longrightarrow> ps_last_durable_wal_bytes (px_st p') = length (wal_file p))"
proof (cases "c_wal (h_cache (px_host p))")
  case None
  with run dur w show ?thesis by (auto simp: flush_wal_def wal_file_def durable_inv_def)
next
  case (Some f)
  then have fl: "wal_file p = f" by (simp add: wal_file_def)
  from run Some have "abind (on_host (fs_touch M)) (\<lambda>_. abind (reset_shrunk_wal M (length f)) (\<lambda>_.
      abind (put_new_segment M (length f) f) (\<lambda>_.
      abind (set_state (\<lambda>st. st\<lparr>ps_last_durable_wal_bytes := length f\<rparr>)) (\<lambda>_. aret (length f))))) p = (r, p')"
    by (simp add: flush_wal_def)
  then show ?thesis
  proof (cases rule: abind_elim)
    case (err e)
    with w dur fl Some show ?thesis by (auto simp: on_host_run wal_file_def dest: fs_touch_keeps)
  next
    case (ok u p1)
    then obtain h1 where h1: "p1 = p\<lparr>px_host := h1\<rparr>" "h_sys h1 = h_sys (px_host p)" "h_cache h1 = h_cache (px_host p)"
      by (auto simp: on_host_run dest: fs_touch_keeps)
    have "reset_shrunk_wal M (length f) p1 = (Inr (), p1)"
      using dur by (simp add: reset_shrunk_wal_def get_state_def h1 durable_inv_def fl)
    with ok(2) have "abind (put_new_segment M (length f) f) (\<lambda>_.
      abind (set_state (\<lambda>st. st\<lparr>ps_last_durable_wal_bytes := length f\<rparr>)) (\<lambda>_. aret (length f))) p1 = (r, p')"
      by simp
    then show ?thesis
    proof (cases rule: abind_elim)
      case (err e)
      from put_new_segment_inv [OF err(1) M, of m] err(2) h1 keys w dur pid nxt Some fl show ?thesis
        by (auto simp: wal_file_def)
    next
      case (ok v p2)
      from put_new_segment_inv [OF ok(1) M, of m] ok(2) h1 keys w dur pid nxt Some fl show ?thesis
        by (auto simp: wal_file_def set_state_def)
    qed
  qed
qed

end

lemma state_manifest_small:
  "state_small st \<Longrightarrow> ps_current_snapshot st = Some sm \<Longrightarrow> manifest_small (state_manifest rt st sm reason now)"
  by (auto simp: state_small_def manifest_small_def state_manifest_def)

text \<open>Once its manifest is in the store, a state is the whole of what is recoverable.\<close>

lemma written_manifest_inv:
  assumes inv: "durable_inv rt objects file st m" and serde: "serde_roundtrip (rt_serde rt)"
    and pid: "CHR ''/'' \<notin> set (ps_project_id st)" and sm: "ps_current_snapshot st = Some sm"
    and m': "m' = state_manifest rt st sm reason now" and last: "ps_last_durable_wal_bytes st = length file"
  shows "durable_inv rt (objects(manifest_key (ps_project_id st) \<mapsto> manifest_bytes rt m')) file st m'
    \<and> recoverable rt (ps_project_id st) (objects(manifest_key (ps_project_id st) \<mapsto> manifest_bytes rt m'))
      = map_option (\<lambda>(snap, _). (snap, file)) (recoverable rt (ps_project_id st) objects)"
proof -
  let ?o = "objects(manifest_key (ps_project_id st) \<mapsto> manifest_bytes rt m')" and ?segs = "ps_wal_segments st"
  have snap: "dm_snapshot m' = dm_snapshot m" "dm_generation m' = ps_generation st" "wc_segments (dm_wal m') = ?segs"
    "wc_durable_bytes (dm_wal m') = length file"
    using inv sm last by (simp_all add: m' state_manifest_def durable_inv_def)
  have chain: "chain_bytes rt objects 0 None ?segs = Some file" using inv last by (simp add: durable_inv_def)
  have keys: "?o (ws_key s) = objects (ws_key s)" if "s \<in> set ?segs" for s
  proof -
    from inv that obtain n where "ws_key s = wal_segment_key (ps_project_id st) n"
      by (auto simp: durable_inv_def segments_named_def)
    with manifest_not_segment [OF pid, of n] show ?thesis by simp
  qed
  have "\<exists>n. wc_segments (dm_wal m') = take n ?segs"
    by (rule exI [of _ "length ?segs"]) (simp add: snap)
  moreover have "chain_total 0 ?segs = length file"
    using chain_total_sum [of 0 ?segs] chain_bytes_length [OF chain] inv by (simp add: durable_inv_def)
  moreover have "manifest_of rt (ps_project_id st) ?o = Some m'"
    using read_manifest_bytes [OF serde state_manifest_small [OF _ sm, of rt reason now]] inv
    by (simp add: manifest_of_def m' durable_inv_def)
  moreover have "verified rt ?o (sm_key (dm_snapshot m)) b c = verified rt objects (sm_key (dm_snapshot m)) b c" for b c
    using durable_snapshot_key(2) [OF inv pid] by (simp add: verified_def)
  moreover have "chain_bytes rt ?o 0 None ?segs = Some file"
    using chain chain_bytes_objs [of ?segs ?o objects, OF keys] by simp
  ultimately have new: "durable_inv rt ?o file st m'"
    using inv snap last by (simp add: durable_inv_def)
  from durable_recoverable [OF this] durable_recoverable [OF inv] chain_bytes_length [OF chain]
    \<open>verified rt ?o _ _ _ = _\<close> snap new show ?thesis by auto
qed

context object_store_contract
begin

lemma commit_wal_safe:
  fixes M :: "('w, 'c) machine"
  assumes run: "commit_wal M reason ops p = (r, p')" and M: "mc_store M = st"
    and serde: "serde_roundtrip (rt_serde (mc_rt M))"
    and keys: "project_keys_ok key_ok (ps_project_id (px_st p))" and w: "inv (px_world p)"
    and dur: "durable_inv (mc_rt M) (objs (px_world p)) (wal_file p) (px_st p) m"
    and pid: "CHR ''/'' \<notin> set (ps_project_id (px_st p))" and nxt: "ps_next_wal_segment_id (px_st p) < u64_max"
  shows "inv (px_world p') \<and> ps_project_id (px_st p') = ps_project_id (px_st p)
    \<and> (\<exists>m'. durable_inv (mc_rt M) (objs (px_world p')) (wal_file p') (px_st p') m')
    \<and> wal_file p' = wal_file p
    \<and> (let old = recoverable (mc_rt M) (ps_project_id (px_st p)) (objs (px_world p));
           new = map_option (\<lambda>(snap, _). (snap, wal_file p)) old
       in recoverable (mc_rt M) (ps_project_id (px_st p)) (objs (px_world p')) \<in> (if is_ok r then {new} else {old, new}))"
proof -
  let ?pid = "ps_project_id (px_st p)" and ?rt = "mc_rt M"
  have same: "recoverable ?rt (ps_project_id (px_st q)) (objs (px_world q)) = recoverable ?rt ?pid (objs (px_world p))"
    if "durable_inv ?rt (objs (px_world q)) f (px_st q) m"
      "\<And>k. k \<noteq> wal_segment_key ?pid n \<Longrightarrow> objs (px_world q) k = objs (px_world p) k" "f = wal_file p"
    for q :: "('w, 'c) px" and f n
  proof -
    have "objs (px_world q) (sm_key (dm_snapshot m)) = objs (px_world p) (sm_key (dm_snapshot m))"
      by (intro that(2) durable_snapshot_key [OF dur pid])
    with durable_recoverable [OF that(1)] durable_recoverable [OF dur] that(3) show ?thesis by (auto simp: verified_def)
  qed
  from run show ?thesis unfolding commit_wal_def
  proof (cases rule: abind_elim)
    case (err e)
    from flush_wal_inv [OF err(1) M keys w dur pid nxt] same [of p'] err(2) show ?thesis by (auto simp: Let_def)
  next
    case (ok n p1)
    note flush = flush_wal_inv [OF ok(1) M keys w dur pid nxt]
    let ?st1 = "(px_st p1)\<lparr>ps_ops_since_snapshot := wrapping_add (ps_ops_since_snapshot (px_st p1)) (max ops 1),
              ps_commit_seq := saturating_add (ps_commit_seq (px_st p1)) 1\<rparr>"
    have d1: "durable_inv ?rt (objs (px_world p1)) (wal_file p) ?st1 m"
      using flush by (auto simp: durable_inv_def state_small_def segments_named_def)
    then obtain sm where sm: "ps_current_snapshot ?st1 = Some sm" by (auto simp: durable_inv_def)
    from ok(2) have "abind (on_host (on_store M (write_manifest ?rt ?st1 (Some reason)))) (\<lambda>_. aret n)
        (p1\<lparr>px_st := ?st1\<rparr>) = (r, p')" by (simp add: set_state_def get_state_def)
    then obtain r0 s where wr: "run_prog st (mc_clock M) (write_manifest ?rt ?st1 (Some reason)) (h_sys (px_host p1)) = (r0, s)"
      and p': "p' = p1\<lparr>px_host := (px_host p1)\<lparr>h_sys := s\<rparr>, px_st := ?st1\<rparr>" and r: "is_ok r = is_ok r0"
      using M by (auto simp: abind_def on_host_def on_store_def split: prod.splits sum.splits)
    define now where "now = iso_from_unix (int (mc_clock M (sys_ticks (h_sys (px_host p1))) div 1000))"
    define m' where "m' = state_manifest ?rt ?st1 sm (Some reason) now"
    have "run_prog st (mc_clock M) (put_manifest ?rt m')
        (h_sys (px_host p1)\<lparr>sys_ticks := Suc (sys_ticks (h_sys (px_host p1)))\<rparr>) = (r0, s)"
      using wr sm by (simp add: write_manifest_def p_utc_now_def run_ptry abind_def m'_def now_def)
    from run_put_manifest [OF this] keys flush
    have s: "inv (sys_world s)" "objs (sys_world s) = objs (px_world p1)
        \<or> objs (sys_world s) = (objs (px_world p1))(manifest_key ?pid \<mapsto> manifest_bytes ?rt m')"
      "is_ok r0 \<Longrightarrow> objs (sys_world s) = (objs (px_world p1))(manifest_key ?pid \<mapsto> manifest_bytes ?rt m')"
      by (auto simp: project_keys_ok_def m'_def state_manifest_def)
    have full: "durable_inv ?rt ((objs (px_world p1))(manifest_key ?pid \<mapsto> manifest_bytes ?rt m')) (wal_file p) ?st1 m'
      \<and> recoverable ?rt ?pid ((objs (px_world p1))(manifest_key ?pid \<mapsto> manifest_bytes ?rt m'))
        = map_option (\<lambda>(snap, _). (snap, wal_file p)) (recoverable ?rt ?pid (objs (px_world p1)))"
      using written_manifest_inv [OF d1 serde _ sm m'_def] flush ok pid by simp
    have old: "recoverable ?rt ?pid (objs (px_world p1)) = recoverable ?rt ?pid (objs (px_world p))"
      using same [of p1 "wal_file p"] flush by auto
    have "wal_file p' = wal_file p" using flush by (simp add: p' wal_file_def)
    with s full d1 old r p' flush show ?thesis by (auto simp: Let_def)
  qed
qed

end

end
