(* ===== verification/Snapshot_Safety.thy ===== *)
theory Snapshot_Safety
  imports Recovery
begin

text \<open>
  Snapshots keep the project recoverable: publishing one moves the store from the recoverable
  database to the vacuumed one, and nothing after it (replacing the cache, removing the old
  WAL objects, logging) touches what is recoverable. With the commit of the WAL this gives the
  safety of \<open>durabilize_wal\<close> and \<open>ensure_wal_budget\<close> as a whole.
\<close>

lemma vacuum_into_run:
  assumes "vacuum_into M conn tmp h = (r, h')"
  shows "h_sys h' = h_sys h \<and> h_cache h' = h_cache h
    \<and> (\<forall>d. r = Inr d \<longrightarrow> en_vacuum_into (mc_engine M) conn (h_cache h) = Inr d \<and> h_tmp h' tmp = Some d)"
proof (cases "en_vacuum_into (mc_engine M) conn (h_cache h)")
  case (Inl e)
  with assms show ?thesis by (auto simp: vacuum_into_def)
next
  case (Inr d)
  with assms have "abind (fs_touch M) (\<lambda>_. abind (fs_touch M) (\<lambda>_. aret d)) (h\<lparr>h_tmp := (h_tmp h)(tmp \<mapsto> d)\<rparr>) = (r, h')"
    by (simp add: vacuum_into_def)
  then show ?thesis
    by (elim abind_elim) (auto simp: Inr dest!: fs_touch_keeps)
qed

lemma remove_tmp_run: "remove_tmp M tmp h = (r, h') \<Longrightarrow> h_sys h' = h_sys h \<and> h_cache h' = h_cache h"
  unfolding remove_tmp_def by (erule abind_elim) (auto dest: fs_touch_keeps)

lemma snapshot_manifest_small:
  "state_small st \<Longrightarrow> sm_bytes sm \<le> u64_max \<Longrightarrow> manifest_small (snapshot_manifest_for rt st sm reason now)"
  using wrapping_add_bound [of "ps_generation st" 1]
  by (auto simp: state_small_def manifest_small_def snapshot_manifest_for_def Let_def simp del: wrapping_add_bound)

lemma split_neq: "split_on c a \<noteq> split_on c b \<Longrightarrow> a \<noteq> b"
  by auto

lemma snapshot_key_other:
  assumes "CHR ''/'' \<notin> set pid"
  shows "snapshot_generation_key pid g \<noteq> manifest_key pid" and "snapshot_generation_key pid g \<noteq> wal_segment_key pid n"
    and "snapshot_generation_key pid g \<noteq> snapshot_key pid"
  using split_control_keys [OF assms] by (intro split_neq [of "CHR ''/''"]; simp)+

text \<open>The store holds a verified snapshot \<open>data\<close> and no WAL.\<close>

definition snapshot_only :: "runtime \<Rightarrow> string \<Rightarrow> objects \<Rightarrow> bytes \<Rightarrow> bool" where
  "snapshot_only rt pid objects data \<longleftrightarrow>
     (\<exists>m. manifest_of rt pid objects = Some m \<and> wc_segments (dm_wal m) = [] \<and> wc_durable_bytes (dm_wal m) = 0
        \<and> snapshot_named pid (dm_generation m) (sm_key (dm_snapshot m))
        \<and> verified rt objects (sm_key (dm_snapshot m)) (sm_bytes (dm_snapshot m)) (sm_sha256 (dm_snapshot m)) = Some data)"

lemma snapshot_only_recoverable: "snapshot_only rt pid objects data \<Longrightarrow> recoverable rt pid objects = Some (data, [])"
  by (auto simp: snapshot_only_def recoverable_def recoverable_from_def chain_recoverable_def)

text \<open>A new snapshot at the key of the next generation, and its manifest.\<close>

lemma published_recoverable:
  assumes serde: "serde_roundtrip (rt_serde rt)" and pid: "CHR ''/'' \<notin> set (ps_project_id st)"
    and small: "state_small st" "length data \<le> u64_max"
    and m': "m' = snapshot_manifest_for rt st
      \<lparr>sm_key = snapshot_generation_key (ps_project_id st) (wrapping_add (ps_generation st) 1), sm_bytes = length data, sm_sha256 = hex_sha256 (rt_sha256 rt) data\<rparr>
      reason now"
    and data: "objects (snapshot_generation_key (ps_project_id st) (wrapping_add (ps_generation st) 1)) = Some data"
  shows "snapshot_only rt (ps_project_id st) (objects(manifest_key (ps_project_id st) \<mapsto> manifest_bytes rt m')) data"
proof -
  have "manifest_small m'" unfolding m' by (rule snapshot_manifest_small) (use small in simp_all)
  from read_manifest_bytes [OF serde this]
  have "manifest_of rt (ps_project_id st) (objects(manifest_key (ps_project_id st) \<mapsto> manifest_bytes rt m')) = Some m'"
    by (simp add: manifest_of_def)
  then show ?thesis
    using data snapshot_key_other(1) [OF pid]
    by (auto simp: snapshot_only_def m' snapshot_manifest_for_def Let_def verified_def snapshot_named_def)
qed

text \<open>The key of the next generation is not used by the manifest in the store.\<close>

lemma durable_inv_new_snapshot:
  assumes inv: "durable_inv rt objects file st m" and pid: "CHR ''/'' \<notin> set (ps_project_id st)"
    and gen: "ps_generation st < u64_max"
  shows "recoverable rt (ps_project_id st)
      (objects(snapshot_generation_key (ps_project_id st) (wrapping_add (ps_generation st) 1) \<mapsto> data))
    = recoverable rt (ps_project_id st) objects"
    and "durable_inv rt (objects(snapshot_generation_key (ps_project_id st) (wrapping_add (ps_generation st) 1) \<mapsto> data)) file st m"
proof -
  let ?pid = "ps_project_id st" and ?key = "snapshot_generation_key (ps_project_id st) (wrapping_add (ps_generation st) 1)"
  note other = snapshot_key_other [OF pid, of "wrapping_add (ps_generation st) 1"]
  have "sm_key (dm_snapshot m) \<noteq> ?key"
  proof -
    from inv have "snapshot_named ?pid (ps_generation st) (sm_key (dm_snapshot m))" by (simp add: durable_inv_def)
    then consider "sm_key (dm_snapshot m) = snapshot_key ?pid"
      | n where "n \<le> ps_generation st" "sm_key (dm_snapshot m) = snapshot_generation_key ?pid n"
      by (auto simp: snapshot_named_def)
    then show ?thesis
    proof cases
      case 1
      then show ?thesis using other(3) by simp
    next
      case 2
      have "show_padded 20 n \<noteq> show_padded 20 (ps_generation st + 1)"
        using 2(1) by (auto dest: arg_cong [of _ _ "digits_val 0"])
      with 2 gen show ?thesis by (simp add: snapshot_generation_key_def wrapping_add_less [unfolded One_nat_def])
    qed
  qed
  moreover have segs: "ws_key s \<noteq> ?key" if "s \<in> set (ps_wal_segments st)" for s
  proof -
    from inv that obtain n where "ws_key s = wal_segment_key ?pid n" by (auto simp: durable_inv_def segments_named_def)
    with other(2) [of n] show ?thesis by simp
  qed
  ultimately have new: "durable_inv rt (objects(?key \<mapsto> data)) file st m"
    and same: "objects (sm_key (dm_snapshot m)) = (objects(?key \<mapsto> data)) (sm_key (dm_snapshot m))"
    using inv chain_bytes_objs [of "ps_wal_segments st" "objects(?key \<mapsto> data)" objects] other(1)
    by (simp_all add: durable_inv_def manifest_of_def verified_def)
  show "durable_inv rt (objects(?key \<mapsto> data)) file st m" by (rule new)
  from durable_recoverable [OF new] durable_recoverable [OF inv] same
  show "recoverable rt ?pid (objects(?key \<mapsto> data)) = recoverable rt ?pid objects" by (auto simp: verified_def)
qed

context object_store_contract
begin

lemma store_put_file_run:
  assumes "store_put_file M key tmp h = (r, h')" and M: "mc_store M = st" and "key_ok key" and "inv (host_world h)"
  shows "inv (host_world h') \<and> h_cache h' = h_cache h \<and> sys_ticks (h_sys h') = sys_ticks (h_sys h)
    \<and> ((\<exists>d. h_tmp h tmp = Some d \<and> objs (host_world h') = (objs (host_world h))(key \<mapsto> d))
       \<or> (is_ok r = False \<and> objs (host_world h') = objs (host_world h)))"
proof -
  obtain r0 w where c: "os_put_file st key (h_tmp h tmp) (sys_world (h_sys h)) = (r0, w)"
    by (cases "os_put_file st key (h_tmp h tmp) (sys_world (h_sys h))")
  from put_file_law [OF c assms(3,4)] assms(1) M c show ?thesis
    by (auto simp: store_put_file_def)
qed

lemma publish_snapshot_safe:
  fixes M :: "('w, 'c) machine"
  assumes run: "publish_snapshot M reason p = (r, p')" and M: "mc_store M = st"
    and serde: "serde_roundtrip (rt_serde (mc_rt M))"
    and keys: "project_keys_ok key_ok (ps_project_id (px_st p))" and w: "inv (px_world p)"
    and dur: "durable_inv (mc_rt M) (objs (px_world p)) file (px_st p) m"
    and pid: "CHR ''/'' \<notin> set (ps_project_id (px_st p))" and gen: "ps_generation (px_st p) < u64_max"
    and vac: "\<And>d. en_vacuum_into (mc_engine M) (ps_conn (px_st p)) (h_cache (px_host p)) = Inr d \<Longrightarrow> length d \<le> u64_max"
  shows "inv (px_world p') \<and> px_st p' = px_st p \<and> h_cache (px_host p') = h_cache (px_host p)
    \<and> (recoverable (mc_rt M) (ps_project_id (px_st p)) (objs (px_world p'))
         = recoverable (mc_rt M) (ps_project_id (px_st p)) (objs (px_world p)) \<and> \<not> is_ok r
         \<and> durable_inv (mc_rt M) (objs (px_world p')) file (px_st p) m
       \<or> (\<exists>d. en_vacuum_into (mc_engine M) (ps_conn (px_st p)) (h_cache (px_host p)) = Inr d
            \<and> snapshot_only (mc_rt M) (ps_project_id (px_st p)) (objs (px_world p')) d))"
proof -
  let ?st = "px_st p" and ?pid = "ps_project_id (px_st p)" and ?rt = "mc_rt M"
  let ?key = "snapshot_generation_key ?pid (wrapping_add (ps_generation ?st) 1)"
  let ?snap = "\<lambda>d. \<lparr>sm_key = ?key, sm_bytes = length d, sm_sha256 = hex_sha256 (rt_sha256 ?rt) d\<rparr>"
  let ?wprog = "\<lambda>d. ptry p_utc_now (\<lambda>now. put_manifest ?rt (snapshot_manifest_for ?rt ?st (?snap d) reason now))"
  define tmp where "tmp = snapshot_tmp_name M (mc_clock M (sys_ticks (h_sys (px_host p))))"
  define p1 where "p1 = p\<lparr>px_host := (px_host p)\<lparr>h_sys := (h_sys (px_host p))\<lparr>sys_ticks := Suc (sys_ticks (h_sys (px_host p)))\<rparr>\<rparr>\<rparr>"
  have now1: "on_host (on_store M p_now) p = (Inr (mc_clock M (sys_ticks (h_sys (px_host p)))), p1)"
    by (simp add: on_host_def on_store_def p1_def)
  from run have "abind (if h_tmp (px_host p1) tmp \<noteq> None then on_host (remove_tmp M tmp) else aret ()) (\<lambda>_.
      abind (on_host (vacuum_into M (ps_conn ?st) tmp)) (\<lambda>d.
      abind (on_host (store_put_file M ?key tmp)) (\<lambda>_.
      abind (on_host (on_store M (?wprog d))) (\<lambda>_. aret (tmp, ?snap d))))) p1 = (r, p')"
    by (simp add: publish_snapshot_def get_state_def now1 Let_def tmp_def [symmetric] cong: if_cong)
  then show ?thesis
  proof (cases rule: abind_elim)
    case (err e)
    with w dur show ?thesis by (auto simp: on_host_run p1_def split: if_splits dest!: remove_tmp_run)
  next
    case (ok u p2)
    then have p2: "px_st p2 = ?st" "h_cache (px_host p2) = h_cache (px_host p)" "px_world p2 = px_world p"
      by (auto simp: on_host_run p1_def split: if_splits dest!: remove_tmp_run)
    from ok(2) show ?thesis
    proof (cases rule: abind_elim)
      case (err e)
      with w p2 dur show ?thesis by (auto simp: on_host_run dest!: vacuum_into_run)
    next
      case (ok d p3)
      then have p3: "px_st p3 = ?st" "h_cache (px_host p3) = h_cache (px_host p)" "px_world p3 = px_world p"
        "h_tmp (px_host p3) tmp = Some d" and vd: "en_vacuum_into (mc_engine M) (ps_conn ?st) (h_cache (px_host p)) = Inr d"
        using p2 by (auto simp: on_host_run dest!: vacuum_into_run)
      from ok(2) show ?thesis
      proof (cases rule: abind_elim)
        case (err e)
        then obtain h where h: "store_put_file M ?key tmp (px_host p3) = (Inl e, h)" "p' = p3\<lparr>px_host := h\<rparr>" by (auto simp: on_host_run)
        from store_put_file_run [OF h(1) M] keys w p3 dur durable_inv_new_snapshot [OF dur pid gen, of d] h err show ?thesis
          by (auto simp: project_keys_ok_def)
      next
        case (ok v p4)
        then obtain h where h: "store_put_file M ?key tmp (px_host p3) = (Inr v, h)" "p4 = p3\<lparr>px_host := h\<rparr>" by (auto simp: on_host_run)
        from store_put_file_run [OF h(1) M] keys w p3 h have p4: "inv (px_world p4)" "px_st p4 = ?st"
          "h_cache (px_host p4) = h_cache (px_host p)" "objs (px_world p4) = (objs (px_world p))(?key \<mapsto> d)"
          by (auto simp: project_keys_ok_def)
        from ok(2) obtain r0 s where wr: "run_prog st (mc_clock M) (?wprog d) (h_sys (px_host p4)) = (r0, s)"
          and p': "p' = p4\<lparr>px_host := (px_host p4)\<lparr>h_sys := s\<rparr>\<rparr>" and r: "is_ok r = is_ok r0"
          using M by (auto simp: abind_def on_host_def on_store_def split: prod.splits sum.splits)
        define now where "now = iso_from_unix (int (mc_clock M (sys_ticks (h_sys (px_host p4))) div 1000))"
        define m' where "m' = snapshot_manifest_for ?rt ?st (?snap d) reason now"
        have "run_prog st (mc_clock M) (put_manifest ?rt m')
            (h_sys (px_host p4)\<lparr>sys_ticks := Suc (sys_ticks (h_sys (px_host p4)))\<rparr>) = (r0, s)"
          using wr by (simp add: p_utc_now_def run_ptry abind_def m'_def now_def)
        from run_put_manifest [OF this] keys p4
        have s: "inv (sys_world s)" "objs (sys_world s) = objs (px_world p4)
            \<or> objs (sys_world s) = (objs (px_world p4))(manifest_key ?pid \<mapsto> manifest_bytes ?rt m')"
          "is_ok r0 \<Longrightarrow> objs (sys_world s) = (objs (px_world p4))(manifest_key ?pid \<mapsto> manifest_bytes ?rt m')"
          by (auto simp: project_keys_ok_def m'_def snapshot_manifest_for_def Let_def)
        have "snapshot_only ?rt ?pid ((objs (px_world p4))(manifest_key ?pid \<mapsto> manifest_bytes ?rt m')) d"
          by (rule published_recoverable [OF serde pid _ vac [OF vd] m'_def]) (use dur p4 in \<open>simp_all add: durable_inv_def\<close>)
        with durable_inv_new_snapshot [OF dur pid gen, of d] s p4 p' r vd show ?thesis by auto
      qed
    qed
  qed
qed

end

section \<open>What follows a new manifest leaves it alone\<close>

text \<open>
  The order of states on which the steps that follow a manifest are monotone: the project
  stays, and only objects of \<open>A\<close> change.
\<close>

definition px_frame ::
    "('w \<Rightarrow> objects) \<Rightarrow> ('w \<Rightarrow> bool) \<Rightarrow> string \<Rightarrow> (string \<Rightarrow> bool) \<Rightarrow> ('w, 'c) px \<Rightarrow> ('w, 'c) px \<Rightarrow> bool" where
  "px_frame objects winv pid A p p' \<longleftrightarrow>
     (winv (px_world p) \<and> ps_project_id (px_st p) = pid \<longrightarrow>
        winv (px_world p') \<and> ps_project_id (px_st p') = pid
        \<and> (\<forall>k. \<not> A k \<longrightarrow> objects (px_world p') k = objects (px_world p) k))"

interpretation frame: step_order "px_frame objects winv pid A" for objects winv pid A
  by unfold_locales (auto simp: px_frame_def)

lemma frame_get_state:
  assumes "\<And>st. ps_project_id st = pid \<Longrightarrow> keeps (px_frame objects winv pid A) (f st)"
  shows "keeps (px_frame objects winv pid A) (abind get_state f)"
proof -
  have "px_frame objects winv pid A p (snd (abind get_state f p))" for p
  proof (cases "ps_project_id (px_st p) = pid")
    case True
    with assms [OF True] show ?thesis by (simp add: keeps_def get_state_def)
  qed (simp add: px_frame_def)
  then show ?thesis by (simp add: keeps_def)
qed

lemma frame_set_state: "(\<And>st. ps_project_id (f st) = ps_project_id st) \<Longrightarrow> keeps (px_frame objects winv pid A) (set_state f)"
  by (simp add: keeps_def set_state_def px_frame_def)

lemma frame_host: "(\<And>h. h_sys (snd (m h)) = h_sys h) \<Longrightarrow> keeps (px_frame objects winv pid A) (on_host m)"
  by (auto simp: keeps_def on_host_def px_frame_def split: prod.split) (metis snd_conv)+

lemma frame_ensure_meta: "keeps (px_frame objects winv pid A) (ensure_meta_state M)"
  by (auto simp: keeps_def ensure_meta_state_def ensure_meta_def px_frame_def split: prod.split)

lemma disk_sys [simp]: "h_sys (snd (disk_op M f g h)) = h_sys h"
  by (cases "disk_op M f g h") (use disk_op_keeps in fastforce)

lemma host_sys [simp]:
  "h_sys (snd (fs_touch M h)) = h_sys h" "h_sys (snd (fs_write_db M d h)) = h_sys h"
  "h_sys (snd (open_in_memory M h)) = h_sys h" "h_sys (snd (drop_conn M conn h)) = h_sys h"
  by (simp_all add: fs_touch_def fs_write_db_def open_in_memory_def drop_conn_def)

lemma host_sys_ignored [simp]:
  "h_sys (snd (fs_remove_wal M h)) = h_sys h" "h_sys (snd (aignore (remove_tmp M tmp) h)) = h_sys h"
proof -
  show "h_sys (snd (fs_remove_wal M h)) = h_sys h"
    by (auto simp: fs_remove_wal_def aignore_def acatch_def split: prod.split dest: disk_op_keeps)
  show "h_sys (snd (aignore (remove_tmp M tmp) h)) = h_sys h"
    using remove_tmp_run [of M tmp h] by (cases "remove_tmp M tmp h") (simp add: aignore_def acatch_def)
qed

lemma open_connection_sys [simp]: "h_sys (snd (open_project_connection M h)) = h_sys h"
proof -
  obtain r h1 where t: "fs_touch M h = (r, h1)" by (cases "fs_touch M h")
  then have "h_sys h1 = h_sys h" by (simp add: fs_touch_keeps)
  then show ?thesis
    by (cases r) (auto simp: open_project_connection_def Let_def abind_def t split: prod.split)
qed

lemma copy_to_db_sys [simp]: "h_sys (snd (copy_to_db M tmp h)) = h_sys h"
  by (auto simp: copy_to_db_def abind_def split: sum.split)

lemmas frame_rules = frame.keeps_bind frame.keeps_then frame.keeps_catch frame.keeps_ignore frame.keeps_pure
  frame_get_state frame_set_state frame_host frame_ensure_meta

definition log_object :: "string \<Rightarrow> string \<Rightarrow> bool" where
  "log_object pid k \<longleftrightarrow> (\<exists>now ops reason. k = change_log_key now pid ops reason)"

definition log_or_wal :: "string \<Rightarrow> string \<Rightarrow> bool" where
  "log_or_wal pid k \<longleftrightarrow> log_object pid k \<or> prefix (wal_prefix pid) k"

lemma log_objectI [simp]: "log_object pid (change_log_key now pid ops reason)" "log_or_wal pid (change_log_key now pid ops reason)"
  by (auto simp: log_object_def log_or_wal_def)

context object_store_contract
begin

lemma frame_on_store:
  fixes M :: "('w, 'c) machine"
  assumes "mc_store M = st" and "names_ok key_ok p" and "writes_only A p"
  shows "keeps (px_frame objs inv pid A) (on_host (on_store M p) :: ('w, 'c, 'a) px_action)"
proof -
  have "px_frame objs inv pid A q (snd (on_host (on_store M p) q))" for q :: "('w, 'c) px"
  proof -
    obtain r s where "run_prog st (mc_clock M) p (h_sys (px_host q)) = (r, s)"
      by (cases "run_prog st (mc_clock M) p (h_sys (px_host q))")
    with run_frame [OF this assms(2,3)] assms(1) show ?thesis
      by (simp add: px_frame_def on_host_def on_store_def)
  qed
  then show ?thesis by (simp add: keeps_def)
qed

end

lemma log_reads [simp]:
  "project_keys_ok ok (ps_project_id st) \<Longrightarrow> names_ok ok (append_change_log rt st reason extra)"
  "log_object (ps_project_id st) = A \<or> log_or_wal (ps_project_id st) = A \<Longrightarrow> writes_only A (append_change_log rt st reason extra)"
  by (auto simp: append_change_log_def project_keys_ok_def intro!: prog_rules)

section \<open>Persisting a snapshot\<close>

lemma wal_prefix_trim [simp]: "trim_end_char (CHR ''/'') (wal_prefix pid) = wal_prefix pid"
  by (simp add: wal_prefix_def trim_end_char_def)

lemma frame_detach: "keeps (px_frame objects winv pid A) (detach_connection M)"
  unfolding detach_connection_def by (intro frame_rules) simp_all

lemma frame_reopen: "keeps (px_frame objects winv pid A) (reopen_connection M)"
  unfolding reopen_connection_def by (intro frame_rules) simp_all

context object_store_contract
begin

lemma frame_adopt:
  fixes M :: "('w, 'c) machine"
  assumes "mc_store M = st" and "project_keys_ok key_ok pid"
  shows "keeps (px_frame objs inv pid (log_or_wal pid)) (adopt_snapshot M reason ts)"
proof -
  obtain tmp snapshot where ts: "ts = (tmp, snapshot)" by (cases ts)
  have log: "keeps (px_frame objs inv pid (log_or_wal pid))
      (on_host (on_store M (append_change_log (mc_rt M) st' reason extra)) :: ('w, 'c, unit) px_action)"
    if "ps_project_id st' = pid" for st' :: "'c project_state" and extra
    by (rule frame_on_store [OF assms(1)]) (use that assms(2) in simp_all)
  have now: "keeps (px_frame objs inv pid (log_or_wal pid)) (on_host (on_store M p_now) :: ('w, 'c, nat) px_action)"
    by (rule frame_on_store [OF assms(1)]) simp_all
  have wal: "keeps (px_frame objs inv pid (log_or_wal pid))
      (on_host (on_store M (p_ignore (p_delete_prefix (wal_prefix (ps_project_id st'))))) :: ('w, 'c, unit) px_action)"
    if "ps_project_id st' = pid" for st' :: "'c project_state"
    by (rule frame_on_store [OF assms(1)]) (auto simp: log_or_wal_def that intro!: prog_rules)
  show ?thesis
    unfolding adopt_snapshot_def ts prod.case
    by (rule frame_get_state now frame_detach frame_reopen frame_set_state frame.keeps_bind wal log frame_host | assumption | simp)+
qed

end

lemma change_log_parts:
  assumes "CHR ''/'' \<notin> set pid"
  shows "\<exists>rest. split_on (CHR ''/'') (change_log_key now pid ops reason) = ''projects'' # pid # ''change-log'' # rest"
  using split_projects [OF assms, of "''change-log'' @ CHR ''/'' # r" for r]
  by (simp add: change_log_key_def split_on_append)

lemma log_or_wal_other:
  assumes "CHR ''/'' \<notin> set pid"
  shows "\<not> log_or_wal pid (manifest_key pid)" and "snapshot_named pid g k \<Longrightarrow> \<not> log_or_wal pid k"
    and "\<not> log_object pid (wal_segment_key pid n)"
proof -
  have log: "log_object pid k \<Longrightarrow> \<exists>rest. split_on (CHR ''/'') k = ''projects'' # pid # ''change-log'' # rest" for k
    using change_log_parts [OF assms] by (auto simp: log_object_def)
  show "\<not> log_or_wal pid (manifest_key pid)"
    using log [of "manifest_key pid"] split_control_keys(1) [OF assms]
    by (auto simp: log_or_wal_def) (simp add: wal_prefix_def manifest_key_def)
  show "\<not> log_object pid (wal_segment_key pid n)"
    using log [of "wal_segment_key pid n"] split_control_keys(6) [OF assms] by auto
  assume k: "snapshot_named pid g k"
  then have "\<not> prefix (wal_prefix pid) k"
    by (auto simp: snapshot_named_def wal_prefix_def snapshot_key_def snapshot_generation_key_def)
  then show "\<not> log_or_wal pid k"
    using log [of k] snapshot_named_parts [OF assms k] by (auto simp: log_or_wal_def)
qed

lemma snapshot_only_frame:
  assumes "snapshot_only rt pid objects data" and "CHR ''/'' \<notin> set pid"
    and "\<And>k. \<not> log_or_wal pid k \<Longrightarrow> objects' k = objects k"
  shows "snapshot_only rt pid objects' data"
proof -
  from assms(1) obtain m where m: "manifest_of rt pid objects = Some m" "wc_segments (dm_wal m) = []"
    "wc_durable_bytes (dm_wal m) = 0" "snapshot_named pid (dm_generation m) (sm_key (dm_snapshot m))"
    "verified rt objects (sm_key (dm_snapshot m)) (sm_bytes (dm_snapshot m)) (sm_sha256 (dm_snapshot m)) = Some data"
    by (auto simp: snapshot_only_def)
  with assms(3) [OF log_or_wal_other(1) [OF assms(2)]] assms(3) [OF log_or_wal_other(2) [OF assms(2) m(4)]]
  show ?thesis by (auto simp: snapshot_only_def manifest_of_def verified_def)
qed

text \<open>Objects that are neither a manifest, nor a snapshot, nor a segment of the WAL.\<close>

definition spares_manifest :: "string \<Rightarrow> (string \<Rightarrow> bool) \<Rightarrow> bool" where
  "spares_manifest pid A \<longleftrightarrow>
     \<not> A (manifest_key pid) \<and> (\<forall>n. \<not> A (wal_segment_key pid n)) \<and> (\<forall>g k. snapshot_named pid g k \<longrightarrow> \<not> A k)"

lemma log_object_spares: "CHR ''/'' \<notin> set pid \<Longrightarrow> spares_manifest pid (log_object pid)"
  using log_or_wal_other(1,3) log_or_wal_other(2) [of pid] by (auto simp: spares_manifest_def log_or_wal_def)

lemma durable_inv_spared:
  assumes inv: "durable_inv rt objects file st m" and spares: "spares_manifest (ps_project_id st) A"
    and same: "\<And>k. \<not> A k \<Longrightarrow> objects' k = objects k"
  shows "durable_inv rt objects' file st m" and "recoverable rt (ps_project_id st) objects' = recoverable rt (ps_project_id st) objects"
proof -
  from inv have "snapshot_named (ps_project_id st) (ps_generation st) (sm_key (dm_snapshot m))" by (simp add: durable_inv_def)
  then have snap: "objects' (sm_key (dm_snapshot m)) = objects (sm_key (dm_snapshot m))"
    using spares by (intro same) (auto simp: spares_manifest_def)
  have "objects' (ws_key s) = objects (ws_key s)" if "s \<in> set (ps_wal_segments st)" for s
  proof -
    from inv that obtain n where "ws_key s = wal_segment_key (ps_project_id st) n" by (auto simp: durable_inv_def segments_named_def)
    then show ?thesis using spares by (intro same) (simp add: spares_manifest_def)
  qed
  moreover have "objects' (manifest_key (ps_project_id st)) = objects (manifest_key (ps_project_id st))"
    using spares by (intro same) (auto simp: spares_manifest_def)
  ultimately show new: "durable_inv rt objects' file st m"
    using inv snap chain_bytes_objs [of "ps_wal_segments st" objects' objects]
    by (simp add: durable_inv_def manifest_of_def verified_def)
  from durable_recoverable [OF new] durable_recoverable [OF inv] snap
  show "recoverable rt (ps_project_id st) objects' = recoverable rt (ps_project_id st) objects" by (auto simp: verified_def)
qed

lemma durable_inv_frame:
  assumes "durable_inv rt objects file st m" and "CHR ''/'' \<notin> set (ps_project_id st)"
    and "\<And>k. \<not> log_object (ps_project_id st) k \<Longrightarrow> objects' k = objects k"
  shows "durable_inv rt objects' file st m" and "recoverable rt (ps_project_id st) objects' = recoverable rt (ps_project_id st) objects"
  using durable_inv_spared [OF assms(1) log_object_spares [OF assms(2)] assms(3)] by auto

text \<open>A manifest that names no change log.\<close>

definition logless :: "runtime \<Rightarrow> string \<Rightarrow> objects \<Rightarrow> bool" where
  "logless rt pid objects \<longleftrightarrow>
     (\<exists>m. manifest_of rt pid objects = Some m \<and> \<not> log_object pid (sm_key (dm_snapshot m))
        \<and> (\<forall>s \<in> set (wc_segments (dm_wal m)). \<not> log_object pid (ws_key s)))"

lemma logless_frame:
  assumes "logless rt pid objects" and pid: "CHR ''/'' \<notin> set pid" and "\<And>k. \<not> log_object pid k \<Longrightarrow> objects' k = objects k"
  shows "recoverable rt pid objects' = recoverable rt pid objects"
proof -
  from assms(1) obtain m where m: "manifest_of rt pid objects = Some m" "\<not> log_object pid (sm_key (dm_snapshot m))"
    "\<And>s. s \<in> set (wc_segments (dm_wal m)) \<Longrightarrow> \<not> log_object pid (ws_key s)" by (auto simp: logless_def)
  have "\<not> log_object pid (manifest_key pid)" using log_or_wal_other(1) [OF pid] by (simp add: log_or_wal_def)
  then have "manifest_of rt pid objects' = Some m" using m(1) assms(3) by (simp add: manifest_of_def)
  moreover have "chain_bytes rt objects' 0 None (wc_segments (dm_wal m)) = chain_bytes rt objects 0 None (wc_segments (dm_wal m))"
    by (rule chain_bytes_objs) (use m(3) assms(3) in blast)
  ultimately show ?thesis
    using m(1) assms(3) [OF m(2)] by (simp add: recoverable_def recoverable_from_def chain_recoverable_def verified_def)
qed

lemma durable_inv_logless:
  assumes inv: "durable_inv rt objects file st m" and pid: "CHR ''/'' \<notin> set (ps_project_id st)"
  shows "logless rt (ps_project_id st) objects"
proof -
  from inv have "snapshot_named (ps_project_id st) (ps_generation st) (sm_key (dm_snapshot m))" by (simp add: durable_inv_def)
  then have "\<not> log_object (ps_project_id st) (sm_key (dm_snapshot m))"
    using log_or_wal_other(2) [OF pid] by (auto simp: log_or_wal_def)
  moreover have "\<not> log_object (ps_project_id st) (ws_key s)" if "s \<in> set (wc_segments (dm_wal m))" for s
  proof -
    from inv that have "s \<in> set (ps_wal_segments st)" by (auto simp: durable_inv_def dest: in_set_takeD)
    with inv obtain n where "ws_key s = wal_segment_key (ps_project_id st) n" by (auto simp: durable_inv_def segments_named_def)
    with log_or_wal_other(3) [OF pid, of n] show ?thesis by simp
  qed
  ultimately show ?thesis using inv by (auto simp: logless_def durable_inv_def)
qed

lemma snapshot_only_logless: "snapshot_only rt pid objects d \<Longrightarrow> CHR ''/'' \<notin> set pid \<Longrightarrow> logless rt pid objects"
  using log_or_wal_other(2) by (fastforce simp: snapshot_only_def logless_def log_or_wal_def)

text \<open>Nothing up to the commit touches the connection or the files of the cache.\<close>

definition same_db :: "('w, 'c) px \<Rightarrow> ('w, 'c) px \<Rightarrow> bool" where
  "same_db p p' \<longleftrightarrow> ps_conn (px_st p') = ps_conn (px_st p) \<and> h_cache (px_host p') = h_cache (px_host p)
     \<and> ps_generation (px_st p') = ps_generation (px_st p)"

interpretation same_db: step_order same_db
  by unfold_locales (auto simp: same_db_def)

lemma same_db_steps:
  "keeps same_db (on_host (on_store M p))" "keeps same_db (on_host (fs_touch M))" "keeps same_db get_state"
  "(\<And>st. ps_conn (f st) = ps_conn st \<and> ps_generation (f st) = ps_generation st) \<Longrightarrow> keeps same_db (set_state f)"
  by (auto simp: keeps_def same_db_def on_host_def on_store_def set_state_def get_state_def split: prod.split dest: fs_touch_keeps)

lemma same_db_flush: "keeps same_db (flush_wal M)"
  unfolding flush_wal_def reset_shrunk_wal_def put_new_segment_def Let_def push_segment_def
  by (auto split: option.split intro!: same_db.keeps_bind same_db_steps)

lemma same_db_commit: "keeps same_db (commit_wal M reason ops)"
  unfolding commit_wal_def by (intro same_db.keeps_bind same_db_steps same_db_flush) (auto intro: same_db_steps)

lemma same_db_log: "keeps same_db (log_if_due M reason n)"
  unfolding log_if_due_def by (auto intro!: same_db.keeps_bind same_db_steps)

text \<open>A database the engine may have vacuumed from the open connection.\<close>

definition vacuumed :: "('w, 'c) machine \<Rightarrow> ('w, 'c) px \<Rightarrow> bytes \<Rightarrow> bool" where
  "vacuumed M p d \<longleftrightarrow> en_vacuum_into (mc_engine M) (ps_conn (px_st p)) (h_cache (px_host p)) = Inr d"

context object_store_contract
begin

lemma persist_snapshot_run:
  fixes M :: "('w, 'c) machine"
  assumes run: "persist_snapshot M reason p = (r, p')" and M: "mc_store M = st"
    and serde: "serde_roundtrip (rt_serde (mc_rt M))"
    and keys: "project_keys_ok key_ok (ps_project_id (px_st p))" and w: "inv (px_world p)"
    and dur: "durable_inv (mc_rt M) (objs (px_world p)) file (px_st p) m"
    and pid: "CHR ''/'' \<notin> set (ps_project_id (px_st p))" and gen: "ps_generation (px_st p) < u64_max"
    and vac: "\<And>d. vacuumed M p d \<Longrightarrow> length d \<le> u64_max"
  shows "inv (px_world p') \<and> ps_project_id (px_st p') = ps_project_id (px_st p)
    \<and> logless (mc_rt M) (ps_project_id (px_st p)) (objs (px_world p'))
    \<and> (recoverable (mc_rt M) (ps_project_id (px_st p)) (objs (px_world p'))
         = recoverable (mc_rt M) (ps_project_id (px_st p)) (objs (px_world p)) \<and> \<not> is_ok r
       \<or> (\<exists>d. vacuumed M p d \<and> recoverable (mc_rt M) (ps_project_id (px_st p)) (objs (px_world p')) = Some (d, [])))"
  using run unfolding persist_snapshot_def
proof (cases rule: abind_elim)
  case (err e)
  from publish_snapshot_safe [OF err(1) M serde keys w dur pid gen vac [unfolded vacuumed_def]] err(2) show ?thesis
    using durable_inv_logless [OF _ pid] pid
    by (auto simp: vacuumed_def dest: snapshot_only_recoverable snapshot_only_logless)
next
  case (ok ts p1)
  from publish_snapshot_safe [OF ok(1) M serde keys w dur pid gen vac [unfolded vacuumed_def]]
  obtain d where p1: "inv (px_world p1)" "px_st p1 = px_st p" "vacuumed M p d"
    and only: "snapshot_only (mc_rt M) (ps_project_id (px_st p)) (objs (px_world p1)) d" by (auto simp: vacuumed_def)
  from frame_adopt [OF M keys, of reason ts] ok(2) p1 have "inv (px_world p')" "ps_project_id (px_st p') = ps_project_id (px_st p)"
    "\<And>k. \<not> log_or_wal (ps_project_id (px_st p)) k \<Longrightarrow> objs (px_world p') k = objs (px_world p1) k"
    by (auto simp: keeps_def px_frame_def dest!: spec [of _ p1])
  with snapshot_only_frame [OF only pid] p1 pid show ?thesis by (auto dest: snapshot_only_recoverable snapshot_only_logless)
qed

lemma log_frame:
  fixes M :: "('w, 'c) machine"
  assumes "mc_store M = st" and "project_keys_ok key_ok pid"
  shows "keeps (px_frame objs inv pid (log_object pid)) (log_if_due M reason n :: ('w, 'c, unit) px_action)"
  unfolding log_if_due_def
  by (rule frame_get_state) (use assms(2) in \<open>auto intro!: frame_on_store [OF assms(1)]\<close>)

end

section \<open>Safety of a commit\<close>

text \<open>
  What a project's methods rely on: the store keeps its contract, JSON reads back, the keys of
  the project are acceptable, the state is durable, and the sizes fit.
\<close>

definition durable_project ::
    "('w, 'c) machine \<Rightarrow> ('w \<Rightarrow> objects) \<Rightarrow> (string \<Rightarrow> bool) \<Rightarrow> ('w \<Rightarrow> bool) \<Rightarrow> ('w, 'c) px \<Rightarrow> bool" where
  "durable_project M objects ok winv p \<longleftrightarrow>
     object_store_contract (mc_store M) objects ok winv \<and> serde_roundtrip (rt_serde (mc_rt M))
     \<and> project_keys_ok ok (ps_project_id (px_st p)) \<and> winv (px_world p) \<and> CHR ''/'' \<notin> set (ps_project_id (px_st p))
     \<and> (\<exists>m. durable_inv (mc_rt M) (objects (px_world p)) (wal_file p) (px_st p) m)
     \<and> ps_generation (px_st p) < u64_max \<and> ps_next_wal_segment_id (px_st p) < u64_max
     \<and> (\<forall>d. vacuumed M p d \<longrightarrow> length d \<le> u64_max)"

definition px_recoverable :: "('w, 'c) machine \<Rightarrow> ('w \<Rightarrow> objects) \<Rightarrow> string \<Rightarrow> ('w, 'c) px \<Rightarrow> (bytes \<times> bytes) option" where
  "px_recoverable M objects pid p = recoverable (mc_rt M) pid (objects (px_world p))"

context object_store_contract
begin

lemma should_snapshot_run:
  "run_prog st clock (should_snapshot rt ps) s = (r, s') \<Longrightarrow> is_ok r \<and> sys_world s' = sys_world s"
  by (auto simp: should_snapshot_def run_ptry abind_def split: if_splits)

lemma compact_safe:
  fixes M :: "('w, 'c) machine"
  assumes run: "compact_if_due M reason p = (r, p')" and M: "mc_store M = st"
    and serde: "serde_roundtrip (rt_serde (mc_rt M))"
    and keys: "project_keys_ok key_ok (ps_project_id (px_st p))" and w: "inv (px_world p)"
    and dur: "durable_inv (mc_rt M) (objs (px_world p)) file (px_st p) m"
    and pid: "CHR ''/'' \<notin> set (ps_project_id (px_st p))" and gen: "ps_generation (px_st p) < u64_max"
    and vac: "\<And>d. vacuumed M p d \<Longrightarrow> length d \<le> u64_max"
  shows "is_ok r \<and> (px_recoverable M objs (ps_project_id (px_st p)) p' = px_recoverable M objs (ps_project_id (px_st p)) p
       \<or> (\<exists>d. vacuumed M p d \<and> px_recoverable M objs (ps_project_id (px_st p)) p' = Some (d, [])))"
proof -
  let ?pid = "ps_project_id (px_st p)"
  obtain due s where ss: "run_prog st (mc_clock M) (should_snapshot (mc_rt M) (px_st p)) (h_sys (px_host p)) = (due, s)"
    by (cases "run_prog st (mc_clock M) (should_snapshot (mc_rt M) (px_st p)) (h_sys (px_host p))")
  from should_snapshot_run [OF this] obtain b where b: "due = Inr b" and s: "sys_world s = px_world p" by (cases due) auto
  define p1 where "p1 = p\<lparr>px_host := (px_host p)\<lparr>h_sys := s\<rparr>\<rparr>"
  have p1: "px_st p1 = px_st p" "px_world p1 = px_world p" "vacuumed M p1 = vacuumed M p"
    by (auto simp: p1_def s vacuumed_def)
  have st1: "on_host (on_store M (should_snapshot (mc_rt M) (px_st p))) p = (Inr b, p1)"
    using ss M b by (simp add: on_host_def on_store_def p1_def)
  show ?thesis
  proof (cases b)
    case False
    with run st1 p1 show ?thesis by (auto simp: compact_if_due_def get_state_def px_recoverable_def)
  next
    case True
    obtain r2 p2 where ps: "persist_snapshot M (''compact_after:'' @ reason) p1 = (r2, p2)" by (cases "persist_snapshot M (''compact_after:'' @ reason) p1")
    have pers: "inv (px_world p2) \<and> ps_project_id (px_st p2) = ?pid \<and> logless (mc_rt M) ?pid (objs (px_world p2))
      \<and> (px_recoverable M objs ?pid p2 = px_recoverable M objs ?pid p \<or> (\<exists>d. vacuumed M p d \<and> px_recoverable M objs ?pid p2 = Some (d, [])))"
      using persist_snapshot_run [OF ps M serde, unfolded p1, OF keys w dur pid gen vac] by (auto simp: px_recoverable_def)
    show ?thesis
    proof (cases r2)
      case (Inr u)
      with run st1 True ps pers show ?thesis by (auto simp: compact_if_due_def get_state_def acatch_def)
    next
      case (Inl e)
      define logp where "logp = append_change_log (mc_rt M) (px_st p2) ''snapshot_failed''
           [(''error'', JString (err_message e)),
            (''durable_wal_bytes'', json_of_nat (ps_last_durable_wal_bytes (px_st p2))),
            (''wal_segment_count'', json_of_nat (length (ps_wal_segments (px_st p2)))),
            (''ops_since_snapshot'', json_of_nat (ps_ops_since_snapshot (px_st p2)))]"
      from run st1 True ps Inl have "aignore (on_host (on_store M logp)) p2 = (r, p')"
        by (simp add: compact_if_due_def get_state_def acatch_def logp_def)
      then have r: "is_ok r" and p': "p' = snd (on_host (on_store M logp) p2)"
        by (auto simp: aignore_def acatch_def split: prod.splits)
      have "keeps (px_frame objs inv ?pid (log_object ?pid)) (on_host (on_store M logp) :: ('w, 'c, unit) px_action)"
        by (rule frame_on_store [OF M]) (use pers keys in \<open>simp_all add: logp_def\<close>)
      with pers p' have "\<And>k. \<not> log_object ?pid k \<Longrightarrow> objs (px_world p') k = objs (px_world p2) k"
        by (auto simp: keeps_def px_frame_def dest!: spec [of _ p2])
      from logless_frame [OF _ pid this] pers r show ?thesis by (auto simp: px_recoverable_def)
    qed
  qed
qed

end

end
