(* ===== verification/Durability_Properties.thy ===== *)
theory Durability_Properties
  imports Snapshot_Safety
begin

text \<open>
  Properties of the durability methods and the concrete project on which they are applied: an
  in-memory store that holds the manifest and snapshot of project \<open>p\<close>, a WAL of five bytes in
  the cache, and an engine that vacuums to a fixed database.
\<close>

section \<open>Restoring is exact\<close>


section \<open>Commits are durable\<close>

lemma durabilize_safe:
  assumes project: "durable_project M objects ok winv p" and run: "durabilize_wal M reason ops p = (r, p')"
    and old: "px_recoverable M objects (ps_project_id (px_st p)) p = Some (snap, wal)"
  shows "px_recoverable M objects (ps_project_id (px_st p)) p'
      \<in> (if is_ok r then {} else {Some (snap, wal)}) \<union> {Some (snap, wal_file p)} \<union> {Some (d, []) |d. vacuumed M p d}"
proof -
  let ?pid = "ps_project_id (px_st p)"
  from project obtain m where store: "object_store_contract (mc_store M) objects ok winv"
    and serde: "serde_roundtrip (rt_serde (mc_rt M))" and keys: "project_keys_ok ok ?pid" and w: "winv (px_world p)"
    and pid: "CHR ''/'' \<notin> set ?pid" and dur: "durable_inv (mc_rt M) (objects (px_world p)) (wal_file p) (px_st p) m"
    and gen: "ps_generation (px_st p) < u64_max" and nxt: "ps_next_wal_segment_id (px_st p) < u64_max"
    and vac: "\<And>d. vacuumed M p d \<Longrightarrow> length d \<le> u64_max" by (auto simp: durable_project_def)
  from run show ?thesis unfolding durabilize_wal_def
  proof (cases rule: abind_elim)
    case (err e)
    from object_store_contract.commit_wal_safe [OF store err(1) refl serde keys w dur pid nxt] err(2) old
    show ?thesis by (auto simp: px_recoverable_def Let_def)
  next
    case (ok n p1)
    from object_store_contract.commit_wal_safe [OF store ok(1) refl serde keys w dur pid nxt] old
    obtain m1 where p1: "winv (px_world p1)" "ps_project_id (px_st p1) = ?pid"
      "durable_inv (mc_rt M) (objects (px_world p1)) (wal_file p1) (px_st p1) m1" "wal_file p1 = wal_file p"
      "px_recoverable M objects ?pid p1 = Some (snap, wal_file p)" by (auto simp: px_recoverable_def Let_def)
    have db1: "same_db p p1" using same_db_commit ok(1) by (metis keeps_def snd_conv)
    from ok(2) show ?thesis
    proof (rule abind_elim)
      fix e
      assume log: "log_if_due M reason n p1 = (Inl e, p')"
      from object_store_contract.log_frame [OF store refl keys, of reason n] log p1
      have "\<And>k. \<not> log_object ?pid k \<Longrightarrow> objects (px_world p') k = objects (px_world p1) k"
        by (auto simp: keeps_def px_frame_def dest!: spec [of _ p1])
      with durable_inv_frame(2) [OF p1(3), of "objects (px_world p')"] p1 pid show ?thesis by (auto simp: px_recoverable_def)
    next
      fix u p2
      assume log: "log_if_due M reason n p1 = (Inr u, p2)" and comp: "compact_if_due M reason p2 = (r, p')"
      from object_store_contract.log_frame [OF store refl keys, of reason n] log p1
      have p2: "winv (px_world p2)" "ps_project_id (px_st p2) = ?pid"
        and fr: "\<And>k. \<not> log_object ?pid k \<Longrightarrow> objects (px_world p2) k = objects (px_world p1) k"
        by (auto simp: keeps_def px_frame_def dest!: spec [of _ p1])
      have st2: "px_st p2 = px_st p1"
        using log by (auto simp: log_if_due_def get_state_def on_host_def split: if_splits prod.splits)
      have db2: "same_db p1 p2" using same_db_log log by (metis keeps_def snd_conv)
      have v: "vacuumed M p2 = vacuumed M p" using db1 db2 by (auto simp: same_db_def vacuumed_def)
      have d2: "durable_inv (mc_rt M) (objects (px_world p2)) (wal_file p1) (px_st p2) m1"
        using durable_inv_frame(1) [OF p1(3), of "objects (px_world p2)"] fr p1(2) pid st2 by simp
      have rec2: "px_recoverable M objects ?pid p2 = Some (snap, wal_file p)"
        using durable_inv_frame(2) [OF p1(3), of "objects (px_world p2)"] fr p1 pid by (simp add: px_recoverable_def)
      have "ps_generation (px_st p2) < u64_max" using gen db1 db2 by (simp add: same_db_def)
      from object_store_contract.compact_safe [OF store comp refl serde _ p2(1) d2 _ this] p2 keys pid v vac rec2
      show ?thesis by auto
    qed
  qed
qed

text \<open>
  C10: committing a batch of writes. Whatever fails in \<open>durabilize_wal\<close>, the store then holds
  the database before the commit, or the same snapshot with the whole WAL of the cache, or a
  compacted snapshot of the open database; when it returns \<open>Ok\<close>, one of the last two.
\<close>

theorem commit_is_durable:
  assumes project: "durable_project M objects ok winv p" and run: "durabilize_wal M reason ops p = (r, p')"
    and old: "px_recoverable M objects (ps_project_id (px_st p)) p = Some (snap, wal)"
  shows "px_recoverable M objects (ps_project_id (px_st p)) p'
      \<in> (if is_ok r then {} else {Some (snap, wal)}) \<union> {Some (snap, wal_file p)} \<union> {Some (d, []) |d. vacuumed M p d}"
  by (rule durabilize_safe [OF assms])

section \<open>Generations\<close>


section \<open>A concrete project\<close>

definition sample_snapshot :: snapshot_manifest where
  "sample_snapshot = \<lparr>sm_key = snapshot_generation_key ''p'' 3, sm_bytes = 4,
     sm_sha256 = hex_sha256 (rt_sha256 (sample_runtime ''a'')) ''data''\<rparr>"

definition sample_state :: "unit project_state" where
  "sample_state = \<lparr>ps_project_id = ''p'', ps_conn = (), ps_generation = 3, ps_commit_seq = 9,
     ps_current_snapshot = Some sample_snapshot, ps_wal_segments = [], ps_last_durable_wal_bytes = 0,
     ps_next_wal_segment_id = 0, ps_ops_since_snapshot = 0, ps_last_snapshot_at_ms = 0,
     ps_writer_lease_fencing_token = Some 6\<rparr>"

definition sample_manifest :: "nat \<Rightarrow> durable_manifest" where
  "sample_manifest token = state_manifest (sample_runtime ''a'')
     (sample_state\<lparr>ps_writer_lease_fencing_token := Some token\<rparr>) sample_snapshot None ''now''"

definition sample_objects :: mem_world where
  "sample_objects = bt_insert (manifest_key ''p'') (manifest_bytes (sample_runtime ''a'') (sample_manifest 7))
     [(snapshot_generation_key ''p'' 3, ''data'')]"

definition sample_engine :: "unit engine" where
  "sample_engine = \<lparr>en_open_in_memory = Inr (), en_open = (\<lambda>mode c. (Inr (), c)),
     en_ensure_meta = (\<lambda>conn c. (Inr (), conn, c)), en_vacuum_into = (\<lambda>conn c. Inr ''vacuumed''),
     en_close = (\<lambda>conn c. c)\<rparr>"

definition sample_machine :: "(mem_world, unit) machine" where
  "sample_machine = \<lparr>mc_rt = sample_runtime ''a'', mc_store = mem_store, mc_clock = (\<lambda>n. 1000), mc_engine = sample_engine,
     mc_disk = (\<lambda>_. None), mc_process_id = 1\<rparr>"

definition sample_project :: "(mem_world, unit) px" where
  "sample_project = \<lparr>px_host = \<lparr>h_sys = \<lparr>sys_world = sample_objects, sys_ticks = 0\<rparr>,
       h_cache = \<lparr>c_db = Some ''data'', c_wal = Some ''frame''\<rparr>, h_tmp = (\<lambda>_. None), h_disk_ops = 0\<rparr>,
     px_st = sample_state\<rparr>"

lemmas sample_defs = sample_snapshot_def sample_state_def sample_machine_def sample_project_def sample_engine_def

lemma sample_manifest_small: "token \<le> u64_max \<Longrightarrow> manifest_small (sample_manifest token)"
  unfolding sample_manifest_def
  by (rule state_manifest_small) (auto simp: sample_defs state_small_def u64_max_def)

lemma pid_p [simp]: "CHR ''/'' \<notin> set ''p''"
  by simp

lemma sample_serde_ok: "serde_roundtrip (rt_serde (sample_runtime i))"
  using sample_serde_roundtrip by simp

lemma sample_objects_manifest:
  "bt_get sample_objects (manifest_key ''p'') = Some (manifest_bytes (sample_runtime ''a'') (sample_manifest 7))"
  by (simp only: sample_objects_def bt_get_insert) simp

lemma sample_manifest_of: "manifest_of (sample_runtime ''a'') ''p'' (bt_get sample_objects) = Some (sample_manifest 7)"
  using read_manifest_bytes [OF sample_serde_ok sample_manifest_small]
  by (simp add: manifest_of_def sample_objects_manifest u64_max_def)

lemma sample_objects_get: "bt_get sample_objects (snapshot_generation_key ''p'' 3) = Some ''data''"
  using snapshot_key_other(1) [OF pid_p, of 3] by (simp only: sample_objects_def bt_get_insert) (simp add: bt_get_def)

lemma sample_durable: "durable_inv (sample_runtime ''a'') (bt_get sample_objects) ''frame'' sample_state (sample_manifest 7)"
  using sample_manifest_of sample_objects_get
  by (auto simp: durable_inv_def sample_defs sample_manifest_def state_manifest_def verified_def snapshot_named_def
      segments_named_def next_id_def state_small_def u64_max_def)

lemma sample_objects_wf: "bt_wf sample_objects"
  unfolding sample_objects_def by (rule bt_wf_insert) (simp add: bt_wf_def)

lemma sample_project_durable: "durable_project sample_machine bt_get (\<lambda>_. True) bt_wf sample_project"
  using mem_contract sample_serde_ok sample_durable sample_objects_wf
  by (auto simp: durable_project_def sample_machine_def sample_project_def project_keys_ok_def wal_file_def
      sample_state_def vacuumed_def sample_engine_def u64_max_def)

lemma sample_recoverable:
  "px_recoverable sample_machine bt_get (ps_project_id (px_st sample_project)) sample_project = Some (''data'', [])"
  using durable_recoverable [OF sample_durable] sample_objects_get
  by (auto simp: px_recoverable_def sample_machine_def sample_project_def sample_state_def sample_manifest_def
      state_manifest_def verified_def sample_snapshot_def)

lemma commit_is_durable_witness:
  "px_recoverable sample_machine bt_get ''p'' (snd (durabilize_wal sample_machine ''r'' 1 sample_project))
     \<in> {Some (''data'', []), Some (''data'', ''frame''), Some (''vacuumed'', [])}"
proof -
  obtain r p' where run: "durabilize_wal sample_machine ''r'' 1 sample_project = (r, p')" by (cases "durabilize_wal sample_machine ''r'' 1 sample_project")
  from commit_is_durable [OF sample_project_durable run sample_recoverable] run show ?thesis
    by (auto simp: sample_project_def wal_file_def sample_state_def vacuumed_def sample_machine_def sample_engine_def split: if_splits)
qed


text \<open>
  C19: the fencing token is not enforced: at the same generation a writer with an older token
  replaces the manifest written under a newer one.
\<close>

theorem stale_token_overwrites_manifest:
  "\<exists>old new w'. dm_fencing_token old = Some 7 \<and> dm_fencing_token new = Some 6
     \<and> manifest_of (sample_runtime ''a'') ''p'' (bt_get sample_objects) = Some old
     \<and> run_prog mem_store (\<lambda>n. 0) (put_manifest (sample_runtime ''a'') new) \<lparr>sys_world = sample_objects, sys_ticks = 0\<rparr> = (Inr (), w')
     \<and> manifest_of (sample_runtime ''a'') ''p'' (bt_get (sys_world w')) = Some new"
proof -
  let ?rt = "sample_runtime ''a''" and ?new = "sample_manifest 6"
  let ?w' = "bt_insert (manifest_key ''p'') (manifest_bytes ?rt ?new) sample_objects"
  have small: "n \<le> 7 \<Longrightarrow> read_manifest ?rt (manifest_bytes ?rt (sample_manifest n)) = Some (sample_manifest n)" for n
    by (rule read_manifest_bytes [OF sample_serde_ok sample_manifest_small]) (simp add: u64_max_def)
  have parse: "n \<le> 7 \<Longrightarrow> parse_or ?rt msg manifest_of_json (manifest_bytes ?rt (sample_manifest n)) = Inr (sample_manifest n)" for n msg
    using small by (simp add: parse_or_Inr read_manifest_def)
  have pid: "dm_project_id (sample_manifest n) = ''p''" "dm_schema_version (sample_manifest n) = 1"
    "dm_generation (sample_manifest n) = 3" "dm_fencing_token (sample_manifest n) = Some n" for n
    by (simp_all add: sample_manifest_def state_manifest_def sample_state_def)
  have "bt_get ?w' (manifest_key ''p'') = Some (manifest_bytes ?rt ?new)" by (simp only: bt_get_insert) simp
  note get = sample_objects_manifest this
  have load: "run_prog mem_store (\<lambda>n. 0) (load_manifest ?rt ''p'') \<lparr>sys_world = w, sys_ticks = 0\<rparr>
      = (Inr (Some (sample_manifest n)), \<lparr>sys_world = w, sys_ticks = 0\<rparr>)"
    if "bt_get w (manifest_key ''p'') = Some (manifest_bytes ?rt (sample_manifest n))" "n \<le> 7" for w n
    using that parse pid
    by (simp add: load_manifest_def run_ptry abind_def p_exists_def p_read_def p_result_def check_manifest_def)
  have "run_prog mem_store (\<lambda>n. 0) (put_manifest ?rt ?new) \<lparr>sys_world = sample_objects, sys_ticks = 0\<rparr>
      = (Inr (), \<lparr>sys_world = ?w', sys_ticks = 0\<rparr>)"
    using load [OF get(1)] load [OF get(2)] pid
    by (simp add: put_manifest_def check_written_def run_pbind run_ptry abind_def p_put_def)
  with sample_manifest_of pid get(2) small [of 6] show ?thesis
    by (intro exI [of _ "sample_manifest 7"] exI [of _ ?new] exI [of _ "\<lparr>sys_world = ?w', sys_ticks = 0\<rparr>"])
      (simp add: manifest_of_def)
qed

section \<open>Reading at a bookmark\<close>

text \<open>
  A read at a bookmark that succeeds sees a project open at that commit or a later one,
  on a primary and on a read replica alike.
\<close>

theorem bookmark_read_is_fresh:
  assumes "ensure_project_for_read fuel M pid (Some bookmark) n = (Inr (), n')"
  shows "\<exists>seq st. bookmark_to_seq bookmark = Inr seq \<and> nd_state n' = Some st \<and> seq \<le> ps_commit_seq st"
proof -
  have get: "node_state get_state n0 = (Inr st, n1) \<Longrightarrow> nd_state n1 = Some st" for n0 n1 :: "('a, 'b) node" and st
    by (auto simp: node_state_def get_state_def split: option.splits)
  from assms show ?thesis
    unfolding ensure_project_for_read_def option.case
    by (auto simp: act_simps split: if_splits dest!: get)
qed

definition sample_node :: "(mem_world, unit) node" where
  "sample_node = \<lparr>nd_host = px_host sample_project, nd_state = Some sample_state\<rparr>"

lemma bookmark_read_is_fresh_witness:
  "\<exists>seq st. bookmark_to_seq (bookmark_for_seq 9) = Inr seq \<and> nd_state sample_node = Some st \<and> seq \<le> ps_commit_seq st"
proof (rule bookmark_read_is_fresh)
  show "ensure_project_for_read 0 sample_machine ''p'' (Some (bookmark_for_seq 9)) sample_node = (Inr (), sample_node)"
    using bookmark_roundtrip [of 9]
    by (simp add: ensure_project_for_read_def ensure_project_def sample_node_def sample_machine_def node_state_def
        get_state_def sample_state_def default_options_def u64_max_def ascii_defs abind_def)
qed


end
