(* ===== verification/Replica.thy ===== *)
theory Replica
  imports Durability_Properties
begin

text \<open>
  A read replica: the refresh from the manifest and the loop of its worker thread
  (\<open>replica_loop\<close>). The state of the replica moves to the commit the manifest names, never back, and
  where a refresh fails only the connection may have changed.
\<close>

section \<open>The worker\<close>

text \<open>
  One timeout of \<open>stop.recv_timeout\<close>; the result is whether the readers of the change stream are
  notified. \<open>others\<close> is what the other runtimes do to the store before each timeout; the loop ends
  when the channel is closed.
\<close>

definition replica_tick :: "('w, 'c) machine \<Rightarrow> ('w, 'c, bool) px_action" where
  "replica_tick M = acatch (refresh_replica_state M 0) (\<lambda>refreshed. aret (refreshed = Inr True))"

definition others_act :: "('w \<Rightarrow> 'w) \<Rightarrow> ('w, 'c, unit) px_action" where
  "others_act f = amodify (\<lambda>p. p\<lparr>px_host := (px_host p)\<lparr>h_sys := (h_sys (px_host p))\<lparr>sys_world := f (px_world p)\<rparr>\<rparr>\<rparr>)"

fun replica_loop :: "('w, 'c) machine \<Rightarrow> ('w \<Rightarrow> 'w) list \<Rightarrow> ('w, 'c, nat) px_action" where
  "replica_loop M [] = aret 0"
| "replica_loop M (f # others) =
     abind (others_act f) (\<lambda>_.
     abind (replica_tick M) (\<lambda>notified.
     abind (replica_loop M others) (\<lambda>n. aret (if notified then Suc n else n))))"

section \<open>Actions that fail as if nothing had happened\<close>

text \<open>\<open>m\<close> either fails, with the states related by \<open>R\<close>, or succeeds, with the states related by \<open>Q\<close>.\<close>

definition settles :: "('s \<Rightarrow> 's \<Rightarrow> bool) \<Rightarrow> ('s \<Rightarrow> 's \<Rightarrow> bool) \<Rightarrow> ('s, 'e, 'a) action \<Rightarrow> bool" where
  "settles R Q m \<longleftrightarrow> (\<forall>s. if is_ok (fst (m s)) then Q s (snd (m s)) else R s (snd (m s)))"

lemma settles_run: "settles R Q m \<Longrightarrow> m s = (r, s') \<Longrightarrow> if is_ok r then Q s s' else R s s'"
  by (metis fst_conv settles_def snd_conv)

context step_order
begin

lemma settles_bind:
  assumes m: "keeps R m" and f: "\<And>x. settles R Q (f x)" and absorb: "\<And>s t u. R s t \<Longrightarrow> Q t u \<Longrightarrow> Q s u"
  shows "settles R Q (abind m f)"
  unfolding settles_def
proof
  fix s
  obtain r t where run: "m s = (r, t)" by fastforce
  with m have st: "R s t" by (metis keeps_def snd_conv)
  show "if is_ok (fst (abind m f s)) then Q s (snd (abind m f s)) else R s (snd (abind m f s))"
  proof (cases r)
    case (Inr x)
    with settles_run [OF f, of x t] show ?thesis
      by (cases "f x t") (auto simp: run abind_def intro: trans [OF st] absorb [OF st] split: if_splits)
  qed (simp add: run abind_def st)
qed

end

section \<open>Only the connection\<close>

definition same_but_conn :: "('w, 'c) px \<Rightarrow> ('w, 'c) px \<Rightarrow> bool" where
  "same_but_conn p p' \<longleftrightarrow> (\<exists>c. px_st p' = (px_st p)\<lparr>ps_conn := c\<rparr>)"

lemma same_but_connI: "px_st p' = px_st p \<Longrightarrow> same_but_conn p p'"
  unfolding same_but_conn_def by (intro exI [of _ "ps_conn (px_st p)"]) simp

interpretation conn: step_order same_but_conn
proof unfold_locales
  show "same_but_conn p p" for p :: "('w, 'c) px" by (rule same_but_connI) simp
qed (auto simp: same_but_conn_def)

lemma same_but_conn_steps [simp]:
  "keeps same_but_conn (on_host m)" "keeps same_but_conn get_state"
  "keeps same_but_conn (set_state (\<lambda>st. st\<lparr>ps_conn := c\<rparr>))" "keeps same_but_conn (ensure_meta_state M)"
  by (auto simp: keeps_def on_host_def get_state_def set_state_def ensure_meta_state_def
      same_but_conn_def [of _ "_\<lparr>px_st := _\<rparr>"] same_but_conn_def [of _ "_\<lparr>px_host := _, px_st := _\<rparr>"]
      intro: same_but_connI split: prod.split)

lemma detach_same: "keeps same_but_conn (detach_connection M)"
  unfolding detach_connection_def by (intro conn.keeps_bind) simp_all

lemma reopen_same: "keeps same_but_conn (reopen_connection M)"
  unfolding reopen_connection_def by (intro conn.keeps_bind) simp_all

text \<open>The commit a state stands at.\<close>

definition at_manifest :: "durable_manifest \<Rightarrow> 'c project_state \<Rightarrow> bool" where
  "at_manifest m st \<longleftrightarrow> ps_generation st = dm_generation m \<and> ps_commit_seq st = manifest_commit_seq (Some m)
     \<and> ps_current_snapshot st = Some (dm_snapshot m) \<and> ps_ops_since_snapshot st = dm_ops_since_snapshot m"

definition moved_to :: "durable_manifest \<Rightarrow> ('w, 'c) px \<Rightarrow> ('w, 'c) px \<Rightarrow> bool" where
  "moved_to m p p' \<longleftrightarrow> at_manifest m (px_st p') \<and> ps_project_id (px_st p') = ps_project_id (px_st p)"

lemma same_then_moved: "same_but_conn p q \<Longrightarrow> moved_to m q p' \<Longrightarrow> moved_to m p p'"
  by (auto simp: same_but_conn_def moved_to_def)

lemma last_steps_settle:
  assumes "\<And>st. at_manifest m (f st) \<and> ps_project_id (f st) = ps_project_id st"
  shows "settles same_but_conn (moved_to m) (abind (set_state f) (\<lambda>_. abind (on_host (on_store M p_now)) (\<lambda>now.
    set_state (\<lambda>st. st\<lparr>ps_last_snapshot_at_ms := now\<rparr>))))"
  using assms
  by (simp add: settles_def set_state_def on_host_def on_store_def p_now_def moved_to_def at_manifest_def)

lemma rehydrate_settles: "settles same_but_conn (moved_to m) (rehydrate_state_from_manifest M m)"
proof -
  note bind = conn.settles_bind [OF _ _ same_then_moved]
  show ?thesis
    unfolding rehydrate_state_from_manifest_def
    by (rule bind [OF detach_same] bind [OF same_but_conn_steps(1)] bind [OF reopen_same]
        last_steps_settle | assumption | simp add: at_manifest_def)+
qed


section \<open>A refresh moves forward\<close>



section \<open>The loop\<close>

lemma refresh_forward:
  assumes "refresh_replica_state M requested_seq p = (r, p')"
  shows "if r = Inr True
    then ps_commit_seq (px_st p) < ps_commit_seq (px_st p') \<and> ps_project_id (px_st p') = ps_project_id (px_st p)
    else same_but_conn p p'"
proof (cases "read_replica (rt_opts (mc_rt M))")
  case True
  let ?load = "on_host (on_store M (load_manifest (mc_rt M) (ps_project_id (px_st p))))"
  obtain r1 p1 where load: "?load p = (r1, p1)" by fastforce
  then have st: "px_st p1 = px_st p" by (auto simp: on_host_def split: prod.splits)
  show ?thesis
  proof (cases "\<exists>m. r1 = Inr (Some m) \<and> ps_commit_seq (px_st p) < manifest_commit_seq (Some m)")
    case moves: True
    then obtain m where m: "r1 = Inr (Some m)" "ps_commit_seq (px_st p) < manifest_commit_seq (Some m)" by blast
    then obtain r2 where re: "rehydrate_state_from_manifest M m p1 = (r2, p')" and r: "r = rmap (\<lambda>_. True) r2"
      using assms True load
      by (cases "rehydrate_state_from_manifest M m p1"; cases "fst (rehydrate_state_from_manifest M m p1)")
        (auto simp: refresh_replica_state_def get_state_def abind_def)
    from settles_run [OF rehydrate_settles re] m(2) r show ?thesis
      by (cases r2) (auto simp: moved_to_def at_manifest_def same_but_conn_def st)
  next
    case False
    with assms True load have "p' = p1" "r \<noteq> Inr True"
      by (auto simp: refresh_replica_state_def get_state_def abind_def Let_def not_less
          split: sum.splits option.splits if_splits)
    with st same_but_connI [of p' p] show ?thesis by auto
  qed
next
  case False
  with assms same_but_connI [of p' p] show ?thesis by (auto simp: refresh_replica_state_def)
qed

text \<open>
  The worker never ends by an error, whatever happens to the store; every notification it gives
  stands for a later commit, and the state never goes back.
\<close>

lemma replica_loop_forward:
  "\<exists>n p'. replica_loop M others p = (Inr n, p') \<and> ps_commit_seq (px_st p) + n \<le> ps_commit_seq (px_st p')
     \<and> ps_project_id (px_st p') = ps_project_id (px_st p) \<and> n \<le> length others"
proof (induction others arbitrary: p)
  case (Cons f others)
  obtain p0 where p0: "others_act f p = (Inr (), p0)" "px_st p0 = px_st p" by (simp add: others_act_def)
  obtain r p1 where refresh: "refresh_replica_state M 0 p0 = (r, p1)" by fastforce
  obtain n p' where rest: "replica_loop M others p1 = (Inr n, p')" "ps_commit_seq (px_st p1) + n \<le> ps_commit_seq (px_st p')"
    "ps_project_id (px_st p') = ps_project_id (px_st p1)" "n \<le> length others"
    using Cons.IH by blast
  have "ps_commit_seq (px_st p) + (if r = Inr True then 1 else 0) \<le> ps_commit_seq (px_st p1)
      \<and> ps_project_id (px_st p1) = ps_project_id (px_st p)"
    using refresh_forward [OF refresh] p0(2) by (auto simp: same_but_conn_def split: if_splits)
  with rest p0(1) refresh show ?case by (auto simp: replica_tick_def acatch_def abind_def)
qed simp

lemma wait_loop_forward:
  "wait_loop fuel M started requested_seq p = (r, p') \<Longrightarrow>
   ps_commit_seq (px_st p) \<le> ps_commit_seq (px_st p') \<and> ps_project_id (px_st p') = ps_project_id (px_st p)"
proof (induction fuel arbitrary: p)
  case (Suc fuel)
  obtain r1 p1 where refresh: "refresh_replica_state M requested_seq p = (r1, p1)" by fastforce
  have one: "ps_commit_seq (px_st p) \<le> ps_commit_seq (px_st p1) \<and> ps_project_id (px_st p1) = ps_project_id (px_st p)"
    using refresh_forward [OF refresh] by (auto simp: same_but_conn_def split: if_splits)
  obtain now p2 where now: "on_host (on_store M p_now) p1 = (Inr now, p2)" "px_st p2 = px_st p1"
    by (auto simp: on_host_def on_store_def p_now_def)
  show ?case
  proof (cases r1)
    case (Inr b)
    with Suc.prems refresh now one Suc.IH [of p2] show ?thesis
      by (auto simp: abind_def get_state_def split: if_splits)
  qed (use Suc.prems refresh one in \<open>auto simp: abind_def\<close>)
qed simp


section \<open>A replica behind its primary\<close>

definition replica_machine :: "(mem_world, unit) machine" where
  "replica_machine = sample_machine\<lparr>mc_rt := (sample_runtime ''a'')\<lparr>rt_opts := default_options\<lparr>read_replica := True\<rparr>\<rparr>\<rparr>"

definition replica_project :: "(mem_world, unit) px" where
  "replica_project = sample_project\<lparr>px_st := sample_state\<lparr>ps_commit_seq := 4\<rparr>\<rparr>"


end
