(* ===== verification/Launch.thy ===== *)
theory Launch
  imports Runtime_Base
begin

text \<open>
  \<open>main.rs\<close>: from the command line to the options of the runtime and the choice of its object store.
  The parsing of the arguments themselves, the listener and the server are not modelled; \<open>args\<close> is what
  the argument parser delivers, \<open>default_args\<close> its value when no argument is given.
\<close>

record args =
  arg_host :: string
  arg_port :: nat
  arg_runtime_dir :: string
  arg_object_store :: string
  arg_s3_bucket :: "string option"
  arg_s3_prefix :: string
  arg_s3_endpoint :: "string option"
  arg_s3_region :: "string option"
  arg_s3_force_path_style :: bool
  arg_snapshot_every_ops :: nat
  arg_snapshot_every_ms :: nat
  arg_metadata_every_ops :: nat
  arg_group_commit_max_ops :: nat
  arg_group_commit_delay_ms :: nat
  arg_writer_queue_capacity :: nat
  arg_max_durable_wal_bytes :: nat
  arg_writer_lease_ttl_ms :: nat
  arg_read_replica :: bool
  arg_replica_refresh_interval_ms :: nat
  arg_replica_bookmark_wait_timeout_ms :: nat
  arg_primary_url :: "string option"
  arg_routing_region :: "string option"
  arg_routing_endpoints :: "string list"
  arg_forward_connect_timeout_ms :: nat
  arg_forward_request_timeout_ms :: nat
  arg_forward_max_attempts :: nat
  arg_forward_retry_backoff_ms :: nat
  arg_routing_endpoint_failure_threshold :: nat
  arg_routing_endpoint_cooldown_ms :: nat
  arg_sqlite_synchronous :: string
  arg_supabase_project_id :: string

definition default_args :: args where
  "default_args =
     \<lparr>arg_host = ''127.0.0.1'', arg_port = 8765, arg_runtime_dir = ''.runtime-rust'', arg_object_store = ''local'',
      arg_s3_bucket = None, arg_s3_prefix = ''serverless-db'', arg_s3_endpoint = None, arg_s3_region = None,
      arg_s3_force_path_style = False, arg_snapshot_every_ops = 1000, arg_snapshot_every_ms = 60000,
      arg_metadata_every_ops = 100, arg_group_commit_max_ops = 64, arg_group_commit_delay_ms = 2,
      arg_writer_queue_capacity = 1024, arg_max_durable_wal_bytes = 64 * 1024 * 1024,
      arg_writer_lease_ttl_ms = 30000, arg_read_replica = False, arg_replica_refresh_interval_ms = 1000,
      arg_replica_bookmark_wait_timeout_ms = 5000, arg_primary_url = None, arg_routing_region = None,
      arg_routing_endpoints = [], arg_forward_connect_timeout_ms = 1000, arg_forward_request_timeout_ms = 5000,
      arg_forward_max_attempts = 3, arg_forward_retry_backoff_ms = 25, arg_routing_endpoint_failure_threshold = 2,
      arg_routing_endpoint_cooldown_ms = 1000, arg_sqlite_synchronous = ''NORMAL'', arg_supabase_project_id = ''demo''\<rparr>"

definition parse_routing_endpoint :: "string \<Rightarrow> string + routing_endpoint" where
  "parse_routing_endpoint v =
     (case splitn_on 3 (CHR '','') v of
        [a, b, c] \<Rightarrow>
          (let role = trim a; region = trim b; url = trim c
           in if role \<notin> set [''primary'', ''replica''] then Inl ''routing endpoint role must be primary or replica''
              else if url = [] then Inl ''routing endpoint url is required''
              else Inr \<lparr>ep_role = role, ep_region = (if region = [] \<or> region = ''-'' then None else Some region), ep_url = url\<rparr>)
      | _ \<Rightarrow> Inl ''--routing-endpoint must use role,region,url, for example primary,wnam,http://127.0.0.1:8765'')"

definition parse_routing_endpoints :: "string list \<Rightarrow> string + routing_endpoint list" where
  "parse_routing_endpoints = collect_map parse_routing_endpoint"

definition options_of_args :: "args \<Rightarrow> string + runtime_options" where
  "options_of_args a =
     rmap (\<lambda>endpoints.
       \<lparr>snapshot_every_ops = arg_snapshot_every_ops a, snapshot_every_ms = arg_snapshot_every_ms a,
        metadata_every_ops = arg_metadata_every_ops a, group_commit_max_ops = arg_group_commit_max_ops a,
        group_commit_delay_ms = arg_group_commit_delay_ms a, writer_queue_capacity = arg_writer_queue_capacity a,
        max_durable_wal_bytes = arg_max_durable_wal_bytes a, writer_lease_ttl_ms = arg_writer_lease_ttl_ms a,
        read_replica = arg_read_replica a, replica_refresh_interval_ms = arg_replica_refresh_interval_ms a,
        replica_bookmark_wait_timeout_ms = arg_replica_bookmark_wait_timeout_ms a,
        opt_primary_url = arg_primary_url a, routing_region = arg_routing_region a, routing_endpoints = endpoints,
        forward_connect_timeout_ms = arg_forward_connect_timeout_ms a,
        forward_request_timeout_ms = arg_forward_request_timeout_ms a,
        forward_max_attempts_opt = arg_forward_max_attempts a,
        forward_retry_backoff_ms = arg_forward_retry_backoff_ms a,
        routing_endpoint_failure_threshold = arg_routing_endpoint_failure_threshold a,
        routing_endpoint_cooldown_ms = arg_routing_endpoint_cooldown_ms a,
        sqlite_synchronous = arg_sqlite_synchronous a, opt_supabase_project_id = arg_supabase_project_id a\<rparr>)
     (parse_routing_endpoints (arg_routing_endpoints a))"

datatype store_choice =
  LocalDir string
| S3Bucket string string "string option" "string option" bool

text \<open>\<open>with_s3\<close>: the program is built with the feature \<open>s3\<close>.\<close>

definition build_s3_runtime :: "bool \<Rightarrow> args \<Rightarrow> string + store_choice" where
  "build_s3_runtime with_s3 a =
     (if \<not> with_s3 then Inl ''S3 object store requires building with --features s3''
      else case arg_s3_bucket a of
        None \<Rightarrow> Inl ''--s3-bucket is required when --object-store=s3''
      | Some bucket \<Rightarrow> Inr (S3Bucket bucket (arg_s3_prefix a) (arg_s3_endpoint a) (arg_s3_region a) (arg_s3_force_path_style a)))"

definition launch :: "bool \<Rightarrow> args \<Rightarrow> string + (runtime_options \<times> store_choice)" where
  "launch with_s3 a =
     rbind (options_of_args a) (\<lambda>options.
       rmap (Pair options)
         (if arg_object_store a = ''local'' then Inr (LocalDir (arg_runtime_dir a @ ''/object_store''))
          else if arg_object_store a = ''s3'' then build_s3_runtime with_s3 a
          else Inl ''--object-store must be local or s3''))"

text \<open>The defaults of the command line are the defaults of the library.\<close>

lemma default_launch: "launch with_s3 default_args = Inr (default_options, LocalDir ''.runtime-rust/object_store'')"
  by (simp add: launch_def options_of_args_def default_args_def default_options_def parse_routing_endpoints_def)

text \<open>An endpoint as it is written on the command line.\<close>

definition show_endpoint :: "routing_endpoint \<Rightarrow> string" where
  "show_endpoint e = join '','' [ep_role e, (case ep_region e of None \<Rightarrow> ''-'' | Some r \<Rightarrow> r), ep_url e]"

definition endpoint_ok :: "routing_endpoint \<Rightarrow> bool" where
  "endpoint_ok e \<longleftrightarrow> ep_role e \<in> set [''primary'', ''replica''] \<and> ep_url e \<noteq> [] \<and> trim (ep_url e) = ep_url e
     \<and> (case ep_region e of None \<Rightarrow> True | Some r \<Rightarrow> r \<noteq> [] \<and> r \<noteq> ''-'' \<and> trim r = r \<and> CHR '','' \<notin> set r)"

lemma splitn_three:
  assumes "CHR '','' \<notin> set a" "CHR '','' \<notin> set b"
  shows "splitn_on 3 (CHR '','') (a @ '','' @ b @ '','' @ c) = [a, b, c]"
proof -
  have "takeWhile (\<lambda>x. x \<noteq> CHR '','') (s @ '','' @ t) = s" "dropWhile (\<lambda>x. x \<noteq> CHR '','') (s @ '','' @ t) = '','' @ t"
    if "CHR '','' \<notin> set s" for s t
    using that by (auto simp: takeWhile_append dropWhile_append)
  with assms show ?thesis by (simp add: numeral_3_eq_3)
qed

lemma trim_words: "trim ''primary'' = ''primary''" "trim ''replica'' = ''replica''" "trim ''-'' = ''-''"
proof -
  show "trim ''primary'' = ''primary''" "trim ''replica'' = ''replica''"
    by (rule trim_alnum_ends; simp add: ascii_defs)+
  have ends: "list_all (\<lambda>p. hd p \<noteq> CHR ''-'' \<and> hd (rev p) \<noteq> CHR ''-'') unicode_whitespace"
    by (simp add: unicode_whitespace_def char_of_def)
  have "trim_start_matches unicode_whitespace ''-'' = ''-''"
    by (rule trim_start_matches_id) (use ends in \<open>auto simp: list_all_iff prefix_Cons\<close>)
  moreover have "trim_start_matches (map rev unicode_whitespace) ''-'' = ''-''"
    by (rule trim_start_matches_id) (use ends in \<open>auto simp: list_all_iff prefix_Cons\<close>)
  ultimately show "trim ''-'' = ''-''" by (simp add: trim_def trim_start_def trim_end_def)
qed

text \<open>Every endpoint can be given on the command line, commas in its address included.\<close>

lemma endpoints_roundtrip:
  "\<forall>e \<in> set es. endpoint_ok e \<Longrightarrow> parse_routing_endpoints (map show_endpoint es) = Inr es"
proof (induction es)
  case (Cons e es)
  let ?region = "case ep_region e of None \<Rightarrow> ''-'' | Some r \<Rightarrow> r"
  note trims = trim_words
  have ok: "endpoint_ok e" using Cons.prems by simp
  then have role: "trim (ep_role e) = ep_role e" "CHR '','' \<notin> set (ep_role e)" "ep_role e \<in> set [''primary'', ''replica'']"
    using trims by (auto simp: endpoint_ok_def)
  have region: "trim ?region = ?region" "CHR '','' \<notin> set ?region"
    "(if ?region = [] \<or> ?region = ''-'' then None else Some ?region) = ep_region e"
    using ok trims by (auto simp: endpoint_ok_def split: option.splits)
  have "splitn_on 3 (CHR '','') (show_endpoint e) = [ep_role e, ?region, ep_url e]"
    using splitn_three [OF role(2) region(2)] by (simp add: show_endpoint_def)
  then have "parse_routing_endpoint (show_endpoint e) = Inr e"
    using ok role region by (auto simp: parse_routing_endpoint_def endpoint_ok_def Let_def)
  with Cons show ?case by (simp add: parse_routing_endpoints_def)
qed (simp add: parse_routing_endpoints_def)

end
