(* ===== verification/Storage.thy ===== *)
theory Storage
  imports Sql_Db Auth Object_Store Runtime_Utils
begin

text \<open>
  Object storage of a project (the bucket and object methods of \<open>runtime.rs\<close>): metadata rows in
  \<open>_sdb_buckets\<close> and \<open>_sdb_objects\<close>, the events of \<open>_sdb_outbox\<close>, and the bytes in the object
  store. An upload writes the bytes, then its row; a delete marks the row, removes the bytes, then
  removes the row; \<open>reconcile_storage_gc\<close> finishes what a failure left half done. A statement of the
  engine and an operation of the store may fail at any point.
\<close>

section \<open>Tables\<close>

datatype object_status = Committed | Pending | Deleting

record bucket_row =
  bk_name :: string
  bk_created_at :: string

record object_row =
  ob_bucket :: string
  ob_key :: string
  ob_size :: int
  ob_content_type :: string
  ob_etag :: string
  ob_owner :: "string option"
  ob_state :: object_status
  ob_created_at :: string
  ob_updated_at :: string

record outbox_row =
  ox_id :: int
  ox_created_at :: string
  ox_table :: string
  ox_operation :: string
  ox_row_json :: string
  ox_actor_sub :: "string option"
  ox_actor_role :: string

record storage_tables =
  st_buckets :: "bucket_row list"
  st_objects :: "object_row list"
  st_outbox :: "outbox_row list"
  st_outbox_seq :: int

text \<open>The project, \<open>utc_now()\<close>, \<open>datetime('now')\<close> and the packages.\<close>

record storage_env =
  se_project :: string
  se_utc_now :: string
  se_sql_now :: string
  se_serde :: serde
  se_sha256 :: "bytes \<Rightarrow> bytes"

record 'w storage_sys =
  ss_db :: "storage_tables sql_db"
  ss_world :: 'w

type_synonym ('w, 'a) storage_action = "('w storage_sys, api_error, 'a) action"
type_synonym 'a storage_tx = "(storage_tables, api_error, 'a) db_action"

fun sql_api_error :: "sql_failure \<Rightarrow> api_error" where
  "sql_api_error (ConstraintViolation e) = sqlite_api_error e"
| "sql_api_error (SqlFailure e) = sqlite_api_error e"

definition sql_stmt :: "(storage_tables, sql_failure, 'a) db_action \<Rightarrow> 'a storage_tx" where
  "sql_stmt = amap_err sql_api_error"

definition on_db :: "'a storage_tx \<Rightarrow> ('w, 'a) storage_action" where
  "on_db m s = (case m (ss_db s) of (r, d) \<Rightarrow> (r, s\<lparr>ss_db := d\<rparr>))"

definition on_blobs :: "('w, string, 'a) action \<Rightarrow> ('w, 'a) storage_action" where
  "on_blobs m s = (case m (ss_world s) of (r, w) \<Rightarrow> (rmap_err anyhow_api_error r, s\<lparr>ss_world := w\<rparr>))"

definition ob_id :: "object_row \<Rightarrow> string \<times> string" where
  "ob_id o1 = (ob_bucket o1, ob_key o1)"

definition find_object :: "storage_tables \<Rightarrow> string \<Rightarrow> string \<Rightarrow> object_row option" where
  "find_object d bucket key = find (\<lambda>o1. ob_id o1 = (bucket, key)) (st_objects d)"

definition find_bucket :: "storage_tables \<Rightarrow> string \<Rightarrow> bucket_row option" where
  "find_bucket d bucket = find (\<lambda>b. bk_name b = bucket) (st_buckets d)"

section \<open>Statements\<close>

definition insert_bucket :: "string \<Rightarrow> string \<Rightarrow> storage_tables \<Rightarrow> sql_failure + nat \<times> storage_tables" where
  "insert_bucket now name d =
     (if find_bucket d name \<noteq> None then Inr (0, d)
      else Inr (1, d\<lparr>st_buckets := st_buckets d @ [\<lparr>bk_name = name, bk_created_at = now\<rparr>]\<rparr>))"

definition upsert_object :: "object_row \<Rightarrow> storage_tables \<Rightarrow> sql_failure + nat \<times> storage_tables" where
  "upsert_object r d =
     (if find_object d (ob_bucket r) (ob_key r) \<noteq> None
      then Inr (1, d\<lparr>st_objects := snd (update_rows (\<lambda>o1. ob_id o1 = ob_id r)
             (\<lambda>o1. o1\<lparr>ob_size := ob_size r, ob_content_type := ob_content_type r, ob_etag := ob_etag r,
                 ob_owner := ob_owner r, ob_state := Committed, ob_updated_at := ob_updated_at r\<rparr>)
             (st_objects d))\<rparr>)
      else if find_bucket d (ob_bucket r) = None then Inl (ConstraintViolation ''FOREIGN KEY constraint failed'')
      else Inr (1, d\<lparr>st_objects := st_objects d @ [r]\<rparr>))"

definition mark_deleting ::
    "string \<Rightarrow> string \<Rightarrow> string \<Rightarrow> storage_tables \<Rightarrow> sql_failure + nat \<times> storage_tables" where
  "mark_deleting now bucket key d =
     (let (n, rows) = update_rows (\<lambda>o1. ob_id o1 = (bucket, key))
            (\<lambda>o1. o1\<lparr>ob_state := Deleting, ob_updated_at := now\<rparr>) (st_objects d)
      in Inr (n, d\<lparr>st_objects := rows\<rparr>))"

definition delete_in_state ::
    "object_status \<Rightarrow> string \<Rightarrow> string \<Rightarrow> storage_tables \<Rightarrow> sql_failure + nat \<times> storage_tables" where
  "delete_in_state status bucket key d =
     (let gone = (\<lambda>o1. ob_id o1 = (bucket, key) \<and> ob_state o1 = status)
      in Inr (length (filter gone (st_objects d)), d\<lparr>st_objects := filter (\<lambda>o1. \<not> gone o1) (st_objects d)\<rparr>))"

text \<open>\<open>ON DELETE CASCADE\<close> removes the rows of the bucket's objects, whatever their state.\<close>

definition delete_bucket_row :: "string \<Rightarrow> storage_tables \<Rightarrow> sql_failure + nat \<times> storage_tables" where
  "delete_bucket_row name d =
     Inr (length (filter (\<lambda>b. bk_name b = name) (st_buckets d)),
          if find_bucket d name = None then d
          else d\<lparr>st_buckets := filter (\<lambda>b. bk_name b \<noteq> name) (st_buckets d),
                 st_objects := filter (\<lambda>o1. ob_bucket o1 \<noteq> name) (st_objects d)\<rparr>)"

definition insert_event ::
    "storage_env \<Rightarrow> string \<Rightarrow> string \<Rightarrow> json_map \<Rightarrow> actor \<Rightarrow> storage_tables \<Rightarrow> sql_failure + nat \<times> storage_tables" where
  "insert_event E table operation row actor d =
     Inr (1, d\<lparr>st_outbox_seq := st_outbox_seq d + 1, st_outbox := st_outbox d @
        [\<lparr>ox_id = st_outbox_seq d + 1, ox_created_at = se_sql_now E, ox_table = table, ox_operation = operation,
          ox_row_json = to_json_text (se_serde E) (JObject row), ox_actor_sub = actor_sub actor,
          ox_actor_role = actor_role actor\<rparr>]\<rparr>)"

text \<open>The columns every read of an object selects, as \<open>row_to_json_map\<close> returns them.\<close>

definition object_meta_json :: "object_row \<Rightarrow> json_map" where
  "object_meta_json o1 =
     fold (\<lambda>(k, v). bt_insert k v)
       [(''bucket'', JString (ob_bucket o1)), (''key'', JString (ob_key o1)), (''size'', json_of_int (ob_size o1)),
        (''content_type'', JString (ob_content_type o1)), (''etag'', JString (ob_etag o1)),
        (''owner_id'', jopt (ob_owner o1)), (''created_at'', JString (ob_created_at o1)),
        (''updated_at'', JString (ob_updated_at o1))] []"

definition bucket_json :: "bucket_row \<Rightarrow> json_map" where
  "bucket_json b =
     fold (\<lambda>(k, v). bt_insert k v)
       [(''name'', JString (bk_name b)), (''created_at'', JString (bk_created_at b))] []"

section \<open>Access\<close>

definition require_storage_actor :: "actor \<Rightarrow> unit api" where
  "require_storage_actor actor =
     (if is_anon actor \<or> actor_sub actor = None
      then Inl (api_err 403 ''storage access requires authenticated or service_role'')
      else Inr ())"

definition meta_owner :: "json_map \<Rightarrow> string" where
  "meta_owner meta = (case Option.bind (bt_get meta ''owner_id'') as_str of None \<Rightarrow> [] | Some o1 \<Rightarrow> o1)"

definition authorize_storage_object :: "json_map \<Rightarrow> actor \<Rightarrow> unit api" where
  "authorize_storage_object meta actor =
     rbind (require_storage_actor actor) (\<lambda>_.
       if is_admin actor then Inr ()
       else (let owner = meta_owner meta
             in case actor_sub actor of
                  Some sub \<Rightarrow> if owner \<noteq> [] \<and> sub = owner then Inr ()
                              else Inl (api_err 403 ''access denied: object not owned by actor'')
                | None \<Rightarrow> Inl (api_err 403 ''access denied: object not owned by actor'')))"

definition storage_object_visible :: "json_map \<Rightarrow> actor \<Rightarrow> bool" where
  "storage_object_visible meta actor \<longleftrightarrow>
     is_admin actor
     \<or> (case actor_sub actor of None \<Rightarrow> False | Some sub \<Rightarrow> meta_owner meta \<noteq> [] \<and> sub = meta_owner meta)"

definition require_bucket :: "string \<Rightarrow> unit storage_tx" where
  "require_bucket bucket =
     abind (sql_stmt (query (\<lambda>d. find_bucket d bucket))) (\<lambda>found.
       alift (ok_or (api_err 404 (''bucket not found: '' @ bucket)) (map_option (\<lambda>_. ()) found)))"

definition record_event ::
    "storage_env \<Rightarrow> string \<Rightarrow> string \<Rightarrow> json_map \<Rightarrow> actor \<Rightarrow> unit storage_tx" where
  "record_event E table operation row actor =
     abind (sql_stmt (execute (insert_event E table operation row actor))) (\<lambda>_. aret ())"

text \<open>\<open>query_row(...).optional()?.ok_or_else(404)\<close> on the objects in some states.\<close>

definition object_meta_in :: "object_status list \<Rightarrow> string \<Rightarrow> string \<Rightarrow> json_map storage_tx" where
  "object_meta_in states bucket key =
     abind (sql_stmt (query (\<lambda>d. find_object d bucket key))) (\<lambda>found.
       alift (ok_or (api_err 404 ''object not found'')
         (Option.bind found (\<lambda>o1. if ob_state o1 \<in> set states then Some (object_meta_json o1) else None))))"

section \<open>Writing\<close>

definition execute_create_bucket :: "storage_env \<Rightarrow> string \<Rightarrow> ('w, json) storage_action" where
  "execute_create_bucket E name =
     abind (alift (assert_user_ident name)) (\<lambda>bucket.
     abind (on_db (sql_stmt (execute (insert_bucket (se_sql_now E) bucket)))) (\<lambda>_.
       aret (jobj [(''bucket'', JString bucket)])))"

definition uploaded_row ::
    "storage_env \<Rightarrow> string \<Rightarrow> string \<Rightarrow> bytes \<Rightarrow> string \<Rightarrow> actor \<Rightarrow> object_row" where
  "uploaded_row E bucket key data content_type actor =
     \<lparr>ob_bucket = bucket, ob_key = key, ob_size = int (length data), ob_content_type = content_type,
      ob_etag = hex_sha256 (se_sha256 E) data, ob_owner = actor_sub actor, ob_state = Committed,
      ob_created_at = se_utc_now E, ob_updated_at = se_utc_now E\<rparr>"

definition put_object_tx :: "storage_env \<Rightarrow> object_row \<Rightarrow> actor \<Rightarrow> json_map storage_tx" where
  "put_object_tx E r actor =
     transaction sql_api_error
       (abind (sql_stmt (execute (upsert_object r))) (\<lambda>_.
        abind (sql_stmt (query (\<lambda>d. find_object d (ob_bucket r) (ob_key r)))) (\<lambda>found.
        abind (alift (ok_or (sqlite_api_error ''Query returned no rows'') found)) (\<lambda>row.
        abind (record_event E ''_sdb_objects'' ''storage_put'' (object_meta_json row) actor) (\<lambda>_.
          aret (object_meta_json row))))))"

definition execute_put_object ::
    "storage_env \<Rightarrow> 'w object_store \<Rightarrow> string \<Rightarrow> string \<Rightarrow> bytes \<Rightarrow> string \<Rightarrow> actor \<Rightarrow> ('w, json) storage_action" where
  "execute_put_object E store bucket key data content_type actor =
     abind (alift (require_storage_actor actor)) (\<lambda>_.
     abind (alift (assert_user_ident bucket)) (\<lambda>bucket.
     abind (alift (safe_object_key key)) (\<lambda>key.
     abind (on_db (require_bucket bucket)) (\<lambda>_.
     abind (on_blobs (os_put_bytes store (storage_key (se_project E) bucket key) data)) (\<lambda>_.
     abind (on_db (put_object_tx E (uploaded_row E bucket key data content_type actor) actor)) (\<lambda>meta.
       aret (jobj [(''object'', JObject meta)])))))))"

definition mark_deleting_tx ::
    "storage_env \<Rightarrow> string \<Rightarrow> string \<Rightarrow> json_map \<Rightarrow> actor \<Rightarrow> unit storage_tx" where
  "mark_deleting_tx E bucket key meta actor =
     transaction sql_api_error
       (abind (sql_stmt (execute (mark_deleting (se_sql_now E) bucket key))) (\<lambda>_.
          record_event E ''_sdb_objects'' ''storage_delete'' meta actor))"

definition finish_delete_tx :: "string \<Rightarrow> string \<Rightarrow> unit storage_tx" where
  "finish_delete_tx bucket key =
     transaction sql_api_error
       (abind (sql_stmt (execute (delete_in_state Deleting bucket key))) (\<lambda>_. aret ()))"

definition execute_delete_object ::
    "storage_env \<Rightarrow> 'w object_store \<Rightarrow> string \<Rightarrow> string \<Rightarrow> actor \<Rightarrow> ('w, json \<times> bool) storage_action" where
  "execute_delete_object E store bucket key actor =
     abind (alift (assert_user_ident bucket)) (\<lambda>bucket.
     abind (alift (safe_object_key key)) (\<lambda>key.
     abind (on_db (object_meta_in [Committed, Pending] bucket key)) (\<lambda>meta.
     abind (alift (authorize_storage_object meta actor)) (\<lambda>_.
     abind (on_db (mark_deleting_tx E bucket key meta actor)) (\<lambda>_.
     abind (on_blobs (os_delete store (storage_key (se_project E) bucket key))) (\<lambda>_.
     abind (on_db (finish_delete_tx bucket key)) (\<lambda>_.
       aret (jobj [(''deleted'', JBool True)], True))))))))"

text \<open>The arm \<open>DeleteBucket\<close> of \<open>execute_write_kind\<close>.\<close>

definition execute_delete_bucket :: "string \<Rightarrow> ('w, json) storage_action" where
  "execute_delete_bucket name =
     abind (alift (assert_user_ident name)) (\<lambda>bucket.
     on_db (transaction sql_api_error
       (abind (sql_stmt (query (\<lambda>d. length (filter (\<lambda>o1. ob_bucket o1 = bucket \<and> ob_state o1 = Committed)
                 (st_objects d))))) (\<lambda>count.
          if 0 < count then athrow (api_err 409 ''bucket not empty'')
          else abind (sql_stmt (execute (delete_bucket_row bucket))) (\<lambda>_.
               aret (jobj [(''deleted'', JBool True)]))))))"

section \<open>Reading\<close>

definition list_buckets :: "('w, json) storage_action" where
  "list_buckets =
     abind (on_db (sql_stmt (query (\<lambda>d. sort_key bk_name (st_buckets d))))) (\<lambda>rows.
       aret (JArray (map (\<lambda>b. JObject (bucket_json b)) rows)))"

definition get_bucket :: "string \<Rightarrow> ('w, json) storage_action" where
  "get_bucket name =
     abind (alift (assert_user_ident name)) (\<lambda>bucket.
     abind (on_db (sql_stmt (query (\<lambda>d. find_bucket d bucket)))) (\<lambda>found.
       alift (rmap (\<lambda>b. JObject (bucket_json b)) (ok_or (api_err 404 ''bucket not found'') found))))"

text \<open>
  \<open>object_key LIKE pattern\<close> on UTF-8: \<open>%\<close> any sequence, \<open>_\<close> any one character, letters
  without case.
\<close>

definition utf8_continuation :: "char \<Rightarrow> bool" where
  "utf8_continuation c \<longleftrightarrow> 128 \<le> (of_char c :: nat) \<and> (of_char c :: nat) < 192"

function sql_like :: "string \<Rightarrow> string \<Rightarrow> bool" where
  "sql_like [] s = (s = [])"
| "sql_like (p # ps) s =
     (if p = CHR ''%'' then sql_like ps s \<or> (if s = [] then False else sql_like (p # ps) (tl s))
      else if s = [] then False
      else if p = CHR ''_'' then sql_like ps (dropWhile utf8_continuation (tl s))
      else ascii_lower_char p = ascii_lower_char (hd s) \<and> sql_like ps (tl s))"
  by pat_completeness auto
termination
proof (relation "measure (\<lambda>(ps, s). length ps + length s)", goal_cases)
  case (4 p ps s)
  then show ?case using length_dropWhile_le [of utf8_continuation "tl s"] by simp
qed auto

definition object_page ::
    "string \<Rightarrow> string option \<Rightarrow> int \<Rightarrow> int \<Rightarrow> storage_tables \<Rightarrow> object_row list" where
  "object_page bucket prefix_opt limit offset d =
     take (nat limit) (drop (nat offset) (sort_key ob_key
       (filter (\<lambda>o1. ob_bucket o1 = bucket \<and> ob_state o1 = Committed
          \<and> (case prefix_opt of None \<Rightarrow> True | Some p \<Rightarrow> sql_like (p @ ''%'') (ob_key o1))) (st_objects d))))"

definition list_objects ::
    "string \<Rightarrow> string option \<Rightarrow> int \<Rightarrow> int \<Rightarrow> actor \<Rightarrow> ('w, json) storage_action" where
  "list_objects bucket prefix_opt limit offset actor =
     abind (alift (require_storage_actor actor)) (\<lambda>_.
     abind (alift (assert_user_ident bucket)) (\<lambda>bucket.
     abind (on_db (sql_stmt (query (object_page bucket prefix_opt (max 1 (min limit 1000)) (max offset 0))))) (\<lambda>rows.
       aret (JArray (map JObject (filter (\<lambda>meta. storage_object_visible meta actor)
              (map object_meta_json rows)))))))"

definition get_object ::
    "storage_env \<Rightarrow> 'w object_store \<Rightarrow> string \<Rightarrow> string \<Rightarrow> actor \<Rightarrow> ('w, json_map \<times> bytes) storage_action" where
  "get_object E store bucket key actor =
     abind (alift (assert_user_ident bucket)) (\<lambda>bucket.
     abind (alift (safe_object_key key)) (\<lambda>key.
     abind (on_db (object_meta_in [Committed] bucket key)) (\<lambda>meta.
     abind (alift (authorize_storage_object meta actor)) (\<lambda>_.
     abind (on_blobs (os_read_bytes store (storage_key (se_project E) bucket key))) (\<lambda>data.
       aret (meta, data))))))"

definition event_json :: "storage_env \<Rightarrow> outbox_row \<Rightarrow> json" where
  "event_json E e =
     jobj [(''id'', json_of_int (ox_id e)), (''created_at'', JString (ox_created_at e)),
           (''table'', JString (ox_table e)), (''operation'', JString (ox_operation e)),
           (''row'', case from_json_text (se_serde E) (ox_row_json e) of None \<Rightarrow> JNull | Some v \<Rightarrow> v),
           (''actor_sub'', jopt (ox_actor_sub e)), (''actor_role'', JString (ox_actor_role e))]"

definition events_after :: "int \<Rightarrow> int \<Rightarrow> storage_tables \<Rightarrow> outbox_row list" where
  "events_after since limit d =
     take (nat (max 1 (min limit 1000))) (sort_key ox_id (filter (\<lambda>e. since < ox_id e) (st_outbox d)))"

definition events :: "storage_env \<Rightarrow> nat \<Rightarrow> int \<Rightarrow> int \<Rightarrow> ('w, json) storage_action" where
  "events E commit_seq since limit =
     abind (on_db (sql_stmt (query (events_after since limit)))) (\<lambda>rows.
       aret (with_bookmark (jobj [(''events'', JArray (map (event_json E) rows))]) (bookmark_for_seq commit_seq)))"

section \<open>Finishing half-done deletes\<close>

definition objects_in_state :: "object_status \<Rightarrow> storage_tables \<Rightarrow> (string \<times> string) list" where
  "objects_in_state status d = map ob_id (filter (\<lambda>o1. ob_state o1 = status) (st_objects d))"

definition gc_deleting ::
    "storage_env \<Rightarrow> 'w object_store \<Rightarrow> string \<times> string \<Rightarrow> nat \<Rightarrow> ('w, nat) storage_action" where
  "gc_deleting E store = (\<lambda>(bucket, key) cleaned.
     acatch (on_blobs (os_delete store (storage_key (se_project E) bucket key))) (\<lambda>r.
       if is_ok r
       then abind (on_db (sql_stmt (execute (delete_in_state Deleting bucket key)))) (\<lambda>_. aret (cleaned + 1))
       else aret cleaned))"

definition gc_pending :: "string \<times> string \<Rightarrow> nat \<Rightarrow> ('w, nat) storage_action" where
  "gc_pending = (\<lambda>(bucket, key) purged.
     abind (on_db (sql_stmt (execute (delete_in_state Pending bucket key)))) (\<lambda>_. aret (purged + 1)))"

definition reconcile_storage_gc :: "storage_env \<Rightarrow> 'w object_store \<Rightarrow> ('w, json) storage_action" where
  "reconcile_storage_gc E store =
     abind (on_db (sql_stmt (query (objects_in_state Deleting)))) (\<lambda>stale.
     abind (afold (gc_deleting E store) stale 0) (\<lambda>cleaned.
     abind (on_db (sql_stmt (query (objects_in_state Pending)))) (\<lambda>orphaned.
     abind (afold gc_pending orphaned 0) (\<lambda>purged.
       aret (jobj [(''cleaned_deleting'', json_of_nat cleaned), (''purged_pending'', json_of_nat purged)])))))"

end
