(* ===== verification/Storage_Properties.thy ===== *)
theory Storage_Properties
  imports Storage Memory_Store
begin

text \<open>
  What object storage guarantees: an uploaded object reads back, only its owner or an admin
  reads or deletes it, and over any history with failures of the engine and the store every
  committed row has its bytes. Two things the code does not guarantee are shown at a concrete
  input: an upload takes over another user's object, and on a store with directories the clean-up
  of a half-done delete removes the objects below it.
\<close>

abbreviation tables :: "'w storage_sys \<Rightarrow> storage_tables" where
  "tables s \<equiv> db_tables (ss_db s)"

section \<open>Runs\<close>

named_theorems storage_runs \<open>what a successful or failed run of a storage action did\<close>

lemma on_db_run [storage_runs]:
  "on_db m s = (r, s') \<longleftrightarrow> (\<exists>d. m (ss_db s) = (r, d) \<and> s' = s\<lparr>ss_db := d\<rparr>)"
  by (auto simp: on_db_def split: prod.split)

lemma on_blobs_run [storage_runs]:
  "on_blobs m s = (r, s') \<longleftrightarrow> (\<exists>q w. m (ss_world s) = (q, w) \<and> r = rmap_err anyhow_api_error q \<and> s' = s\<lparr>ss_world := w\<rparr>)"
  by (auto simp: on_blobs_def split: prod.split)

lemma rmap_err_ok [storage_runs]:
  "rmap_err f q = Inr x \<longleftrightarrow> q = Inr x" "Inr x = rmap_err f q \<longleftrightarrow> q = Inr x"
  by (cases q; auto)+

lemma sql_stmt_query [storage_runs]:
  "sql_stmt (query f) db = (Inr x, db') \<longleftrightarrow> next_fault db = None \<and> x = f (db_tables db) \<and> db' = use_fault db"
  by (simp add: sql_stmt_def act_simps query_Inr)

lemma sql_stmt_execute [storage_runs]:
  "sql_stmt (execute f) db = (Inr n, db') \<longleftrightarrow>
     next_fault db = None \<and> (\<exists>d. f (db_tables db) = Inr (n, d) \<and> db' = (use_fault db)\<lparr>db_tables := d\<rparr>)"
  by (simp add: sql_stmt_def act_simps execute_Inr)

lemma transaction_run [storage_runs]:
  "transaction conv body db = (Inr x, db') \<longleftrightarrow> next_fault db = None \<and>
     (\<exists>db1. body (use_fault db) = (Inr x, db1) \<and> next_fault db1 = None \<and> db' = use_fault db1)"
  by (auto simp: transaction_def athen_def act_simps db_simps split: prod.splits sum.splits)

lemma sql_stmt_query_same: "sql_stmt (query f) db = (r, db') \<Longrightarrow> db_tables db' = db_tables db"
  by (cases r) (auto simp: sql_stmt_def act_simps db_simps)

lemma sql_stmt_execute_cases:
  assumes "sql_stmt (execute f) db = (r, db')"
  obtains (err) e where "r = Inl e" "db_tables db' = db_tables db"
  | (ok) n d where "r = Inr n" "f (db_tables db) = Inr (n, d)" "db_tables db' = d"
  using assms by (cases r) (auto simp: sql_stmt_def act_simps db_simps)

lemma object_meta_same: "object_meta_in states bucket key db = (r, db') \<Longrightarrow> db_tables db' = db_tables db"
  unfolding object_meta_in_def by (erule abind_elim) (auto dest: sql_stmt_query_same)

lemma require_bucket_same: "require_bucket bucket db = (r, db') \<Longrightarrow> db_tables db' = db_tables db"
  unfolding require_bucket_def by (erule abind_elim) (auto dest: sql_stmt_query_same)

lemma object_meta_ok:
  "object_meta_in states bucket key db = (Inr meta, db') \<Longrightarrow>
     \<exists>o1. find_object (db_tables db) bucket key = Some o1 \<and> ob_state o1 \<in> set states \<and> meta = object_meta_json o1"
  by (auto simp: object_meta_in_def act_simps storage_runs result_simps bind_eq_Some_conv split: if_splits)

lemma require_bucket_ok:
  "require_bucket bucket db = (Inr u, db') \<Longrightarrow> db_tables db' = db_tables db \<and> find_bucket (db_tables db) bucket \<noteq> None"
  by (auto simp: require_bucket_def act_simps storage_runs result_simps)

section \<open>The owner in the metadata\<close>

lemma meta_owner_row [simp]:
  "meta_owner (object_meta_json o1) = (case ob_owner o1 of None \<Rightarrow> [] | Some u \<Rightarrow> u)"
  by (simp add: meta_owner_def object_meta_json_def bt_get_def jopt_def split: option.split)

definition may_access :: "object_row \<Rightarrow> actor \<Rightarrow> bool" where
  "may_access o1 actor \<longleftrightarrow> \<not> is_anon actor \<and> actor_sub actor \<noteq> None
     \<and> (is_admin actor \<or> ob_owner o1 = actor_sub actor \<and> actor_sub actor \<noteq> Some [])"

lemma authorize_iff:
  "authorize_storage_object (object_meta_json o1) actor = Inr u \<longleftrightarrow> may_access o1 actor"
  by (auto simp: authorize_storage_object_def require_storage_actor_def may_access_def result_simps Let_def
      split: option.splits if_splits)

lemma authorize_status:
  "authorize_storage_object meta actor = Inl e \<Longrightarrow> err_status e = 403"
  by (auto simp: authorize_storage_object_def require_storage_actor_def result_simps Let_def
      split: option.splits if_splits)
section \<open>What the transactions do to the tables\<close>

text \<open>The invariant reads of an object its id and its state.\<close>

definition row_states :: "storage_tables \<Rightarrow> ((string \<times> string) \<times> object_status) list" where
  "row_states d = map (\<lambda>o1. (ob_id o1, ob_state o1)) (st_objects d)"

definition bucket_names :: "storage_tables \<Rightarrow> string list" where
  "bucket_names d = map bk_name (st_buckets d)"

definition set_state_of :: "string \<times> string \<Rightarrow> object_status \<Rightarrow> ((string \<times> string) \<times> object_status) list \<Rightarrow>
    ((string \<times> string) \<times> object_status) list" where
  "set_state_of i status rows = map (\<lambda>(j, st). (j, if j = i then status else st)) rows"

lemma find_object_None: "find_object d b k = None \<longleftrightarrow> (b, k) \<notin> fst ` set (row_states d)"
  unfolding find_object_def find_key_None by (auto simp: row_states_def image_iff)

lemma find_object_Some: "find_object d b k = Some o1 \<Longrightarrow> ob_id o1 = (b, k) \<and> ((b, k), ob_state o1) \<in> set (row_states d)"
  unfolding find_object_def by (drule find_key_Some) (auto simp: row_states_def rev_image_eqI)

lemma find_bucket_None: "find_bucket d b = None \<longleftrightarrow> b \<notin> set (bucket_names d)"
  unfolding find_bucket_def find_key_None by (simp add: bucket_names_def)

lemma insert_event_tables [simp]:
  "insert_event E table operation row actor d = Inr (n, d') \<Longrightarrow> st_objects d' = st_objects d"
  "insert_event E table operation row actor d = Inr (n, d') \<Longrightarrow> st_buckets d' = st_buckets d"
  by (auto simp: insert_event_def)

lemma same_rows:
  "st_objects d' = st_objects d \<Longrightarrow> row_states d' = row_states d"
  "st_buckets d' = st_buckets d \<Longrightarrow> bucket_names d' = bucket_names d"
  by (simp_all add: row_states_def bucket_names_def)

lemma upsert_object_rows:
  assumes "upsert_object r d = Inr (n, d')" and "ob_state r = Committed"
  shows "row_states d' = (if ob_id r \<in> fst ` set (row_states d) then set_state_of (ob_id r) Committed (row_states d)
      else row_states d @ [(ob_id r, Committed)])"
    and "bucket_names d' = bucket_names d"
    and "ob_id r \<in> fst ` set (row_states d) \<or> ob_bucket r \<in> set (bucket_names d)"
  using assms
  by (auto simp: upsert_object_def find_object_None find_bucket_None ob_id_def row_states_def set_state_of_def
      bucket_names_def update_rows_def split: if_splits)

lemma mark_deleting_rows:
  assumes "mark_deleting now b k d = Inr (n, d')"
  shows "row_states d' = set_state_of (b, k) Deleting (row_states d)" and "bucket_names d' = bucket_names d"
  using assms
  by (auto simp: mark_deleting_def update_rows_def row_states_def set_state_of_def bucket_names_def ob_id_def)

lemma delete_in_state_rows:
  assumes "delete_in_state status b k d = Inr (n, d')"
  shows "row_states d' = filter (\<lambda>(i, st). \<not> (i = (b, k) \<and> st = status)) (row_states d)"
    and "bucket_names d' = bucket_names d"
  using assms by (auto simp: delete_in_state_def row_states_def bucket_names_def filter_map o_def Let_def)

lemma delete_bucket_rows:
  assumes "delete_bucket_row b d = Inr (n, d')"
  shows "(row_states d' = filter (\<lambda>(i, st). fst i \<noteq> b) (row_states d) \<and>
      bucket_names d' = filter (\<lambda>x. x \<noteq> b) (bucket_names d)) \<or> d' = d"
  using assms by (auto simp: delete_bucket_row_def row_states_def bucket_names_def filter_map o_def ob_id_def split: if_splits)

lemma insert_bucket_rows:
  assumes "insert_bucket now b d = Inr (n, d')"
  shows "row_states d' = row_states d"
    and "bucket_names d' = (if b \<in> set (bucket_names d) then bucket_names d else bucket_names d @ [b])"
  using assms by (auto simp: insert_bucket_def row_states_def bucket_names_def find_bucket_None split: if_splits)

text \<open>A transaction that fails leaves the tables; one that returns did each of its statements.\<close>

lemma record_event_run:
  "record_event E table operation row actor db = (Inr u, db') \<longleftrightarrow> next_fault db = None \<and>
     (\<exists>n d. insert_event E table operation row actor (db_tables db) = Inr (n, d) \<and> db' = (use_fault db)\<lparr>db_tables := d\<rparr>)"
  by (auto simp: record_event_def act_simps storage_runs)

lemma put_object_tx_cases:
  assumes "put_object_tx E r actor db = (res, db')"
  obtains (err) e where "res = Inl e" "db_tables db' = db_tables db"
  | (ok) n d row m where "upsert_object r (db_tables db) = Inr (n, d)"
      "find_object d (ob_bucket r) (ob_key r) = Some row" "res = Inr (object_meta_json row)"
      "insert_event E ''_sdb_objects'' ''storage_put'' (object_meta_json row) actor d = Inr (m, db_tables db')"
proof (cases res)
  case (Inl e)
  with assms err show thesis unfolding put_object_tx_def by blast
next
  case (Inr meta)
  with assms show thesis
    unfolding put_object_tx_def
    by (auto simp: act_simps storage_runs record_event_run result_simps intro: ok)
qed

lemma mark_deleting_tx_cases:
  assumes "mark_deleting_tx E b k meta actor db = (res, db')"
  obtains (err) e where "res = Inl e" "db_tables db' = db_tables db"
  | (ok) n d m where "res = Inr ()" "mark_deleting (se_sql_now E) b k (db_tables db) = Inr (n, d)"
      "insert_event E ''_sdb_objects'' ''storage_delete'' meta actor d = Inr (m, db_tables db')"
proof (cases res)
  case (Inl e)
  with assms err show thesis unfolding mark_deleting_tx_def by blast
next
  case (Inr u)
  with assms show thesis
    unfolding mark_deleting_tx_def
    by (auto simp: act_simps storage_runs record_event_run intro: ok)
qed

lemma finish_delete_tx_cases:
  assumes "finish_delete_tx b k db = (res, db')"
  obtains (err) e where "res = Inl e" "db_tables db' = db_tables db"
  | (ok) n where "res = Inr ()" "delete_in_state Deleting b k (db_tables db) = Inr (n, db_tables db')"
proof (cases res)
  case (Inl e)
  with assms err show thesis unfolding finish_delete_tx_def by blast
next
  case (Inr u)
  with assms show thesis
    unfolding finish_delete_tx_def
    by (auto simp: act_simps storage_runs intro: ok)
qed
section \<open>The invariant\<close>

definition id_key :: "string \<Rightarrow> string \<times> string \<Rightarrow> string" where
  "id_key pid i = storage_key pid (fst i) (snd i)"

definition rows_ok :: "string \<Rightarrow> (string \<Rightarrow> bool) \<Rightarrow> ((string \<times> string) \<times> object_status) list \<Rightarrow> string list \<Rightarrow> bool" where
  "rows_ok pid key_ok rows names \<longleftrightarrow> distinct (map fst rows) \<and> distinct names
     \<and> list_all (\<lambda>(i, st). fst i \<in> set names \<and> CHR ''/'' \<notin> set (fst i) \<and> key_ok (id_key pid i)
         \<and> list_all (\<lambda>(j, _). \<not> below (id_key pid i) (id_key pid j)) rows) rows"

definition blobs_there :: "string \<Rightarrow> objects \<Rightarrow> ((string \<times> string) \<times> object_status) list \<Rightarrow> bool" where
  "blobs_there pid blobs rows \<longleftrightarrow> list_all (\<lambda>(i, st). st \<noteq> Committed \<or> blobs (id_key pid i) \<noteq> None) rows"

definition storage_inv ::
    "string \<Rightarrow> ('w \<Rightarrow> objects) \<Rightarrow> (string \<Rightarrow> bool) \<Rightarrow> ('w \<Rightarrow> bool) \<Rightarrow> 'w storage_sys \<Rightarrow> bool" where
  "storage_inv pid objs key_ok winv s \<longleftrightarrow>
     rows_ok pid key_ok (row_states (tables s)) (bucket_names (tables s))
     \<and> blobs_there pid (objs (ss_world s)) (row_states (tables s)) \<and> winv (ss_world s)"

lemma rows_okD:
  assumes "rows_ok pid key_ok rows names" and "(i, st) \<in> set rows"
  shows "fst i \<in> set names" "CHR ''/'' \<notin> set (fst i)" "key_ok (id_key pid i)"
    and "(j, st') \<in> set rows \<Longrightarrow> \<not> below (id_key pid i) (id_key pid j)"
    and "(i, st') \<in> set rows \<Longrightarrow> st' = st"
  using assms by (auto simp: rows_ok_def list_all_iff dest: eq_key_imp_eq_value)

lemma id_key_inject:
  assumes "CHR ''/'' \<notin> set pid" "CHR ''/'' \<notin> set (fst i)" "CHR ''/'' \<notin> set (fst j)"
  shows "id_key pid i = id_key pid j \<longleftrightarrow> i = j"
  using storage_key_inject [OF assms(1,1,2,3)] by (auto simp: id_key_def prod_eq_iff)

lemma set_state_of_simps [simp]:
  "map fst (set_state_of i st rows) = map fst rows"
  "fst ` set (set_state_of i st rows) = fst ` set rows"
  "(j, st') \<in> set (set_state_of i st rows) \<longleftrightarrow>
     (if j = i then st' = st \<and> i \<in> fst ` set rows else (j, st') \<in> set rows)"
  by (induction rows) (auto simp: set_state_of_def)

text \<open>Fewer rows, or the same rows in other states, stay well formed.\<close>

lemma rows_ok_shrink:
  assumes "rows_ok pid key_ok rows names" and "fst ` set rows' \<subseteq> fst ` set rows" and "distinct (map fst rows')"
    and "distinct names'" and "\<And>i. i \<in> fst ` set rows' \<Longrightarrow> fst i \<in> set names'"
  shows "rows_ok pid key_ok rows' names'"
proof -
  have mem: "\<exists>st'. (i, st') \<in> set rows" if "(i, st) \<in> set rows'" for i st
    using that assms(2) by force
  show ?thesis
    unfolding rows_ok_def list_all_iff
  proof (intro conjI ballI)
    fix r assume r: "r \<in> set rows'"
    obtain i st where i: "r = (i, st)" by (cases r)
    with r mem obtain st' where st': "(i, st') \<in> set rows" by blast
    have "\<not> below (id_key pid i) (id_key pid j)" if "(j, u) \<in> set rows'" for j u
      using mem [OF that] rows_okD(4) [OF assms(1) st'] by blast
    moreover have "i \<in> fst ` set rows'" using r i by force
    ultimately show "case r of (i, st) \<Rightarrow> fst i \<in> set names' \<and> CHR ''/'' \<notin> set (fst i) \<and> key_ok (id_key pid i)
        \<and> (\<forall>x \<in> set rows'. case x of (j, _) \<Rightarrow> \<not> below (id_key pid i) (id_key pid j))"
      using rows_okD [OF assms(1) st'] assms(5) i by auto
  qed (use assms in auto)
qed

lemma rows_ok_snoc:
  assumes "rows_ok pid key_ok rows names" and "i \<notin> fst ` set rows" and "fst i \<in> set names"
    and "CHR ''/'' \<notin> set (fst i)" and "key_ok (id_key pid i)" and "\<not> below (id_key pid i) (id_key pid i)"
    and "list_all (\<lambda>(j, _). \<not> below (id_key pid i) (id_key pid j) \<and> \<not> below (id_key pid j) (id_key pid i)) rows"
  shows "rows_ok pid key_ok (rows @ [(i, st)]) names"
  using assms by (auto simp: rows_ok_def list_all_iff)

lemma rows_ok_state: "rows_ok pid key_ok rows names \<Longrightarrow> rows_ok pid key_ok (set_state_of i st rows) names"
  by (rule rows_ok_shrink) (auto simp: rows_ok_def list_all_iff)

lemma rows_ok_filter:
  "rows_ok pid key_ok rows names \<Longrightarrow> rows_ok pid key_ok (filter P rows) names"
  by (rule rows_ok_shrink) (auto simp: rows_ok_def list_all_iff distinct_map_filter)

lemma blobs_thereD: "blobs_there pid blobs rows \<Longrightarrow> (i, Committed) \<in> set rows \<Longrightarrow> blobs (id_key pid i) \<noteq> None"
  by (auto simp: blobs_there_def list_all_iff)

lemma blobs_thereI:
  "(\<And>i. (i, Committed) \<in> set rows \<Longrightarrow> blobs (id_key pid i) \<noteq> None) \<Longrightarrow> blobs_there pid blobs rows"
  by (auto simp: blobs_there_def list_all_iff)

lemma blobs_there_filter: "blobs_there pid blobs rows \<Longrightarrow> blobs_there pid blobs (filter P rows)"
  by (auto simp: blobs_there_def list_all_iff)

lemma blobs_there_deleting: "blobs_there pid blobs rows \<Longrightarrow> blobs_there pid blobs (set_state_of i Deleting rows)"
  by (auto simp: blobs_there_def list_all_iff split: if_splits)

text \<open>The bytes an operation of the store may touch.\<close>

lemma blobs_there_put:
  "blobs_there pid blobs rows \<Longrightarrow> blobs' = blobs(k \<mapsto> data) \<or> blobs' = blobs \<Longrightarrow> blobs_there pid blobs' rows"
  by (auto simp: blobs_there_def list_all_iff)

lemma blobs_there_delete:
  assumes "blobs_there pid blobs rows" and ok: "rows_ok pid key_ok rows names" and pid: "CHR ''/'' \<notin> set pid"
    and i: "(i, st) \<in> set rows" "st \<noteq> Committed"
    and gone: "removed_only (\<lambda>l. l = id_key pid i \<or> (blobs (id_key pid i) = None \<and> below (id_key pid i) l)) blobs blobs'"
  shows "blobs_there pid blobs' rows"
proof (rule blobs_thereI)
  fix j assume j: "(j, Committed) \<in> set rows"
  note di = rows_okD [OF ok i(1)] and dj = rows_okD [OF ok j]
  from i di(5) j have "i \<noteq> j" by blast
  then have "id_key pid j \<noteq> id_key pid i" using id_key_inject [OF pid dj(2) di(2)] by simp
  moreover have "\<not> below (id_key pid i) (id_key pid j)" by (rule di(4) [OF j])
  ultimately have "blobs' (id_key pid j) = blobs (id_key pid j)"
    using gone unfolding removed_only_def by blast
  with blobs_thereD [OF assms(1) j] show "blobs' (id_key pid j) \<noteq> None" by simp
qed
section \<open>The operations, step by step\<close>

lemma on_db_same:
  "on_db m s = (r, s') \<Longrightarrow> (\<And>q db. m (ss_db s) = (q, db) \<Longrightarrow> db_tables db = tables s) \<Longrightarrow>
     tables s' = tables s \<and> ss_world s' = ss_world s"
  by (auto simp: storage_runs)

lemma execute_put_object_cases:
  assumes "execute_put_object E store bucket key data ct actor s = (r, s')"
  obtains (early) e where "r = Inl e" "tables s' = tables s" "ss_world s' = ss_world s"
  | (unstored) e q w where "r = Inl e" "os_put_bytes store (storage_key (se_project E) bucket key) data (ss_world s) = (q, w)"
      "ss_world s' = w" "tables s' = tables s" "find_bucket (tables s) bucket \<noteq> None"
      "assert_user_ident bucket = Inr bucket" "safe_object_key key = Inr key"
  | (stored) w db res where
      "os_put_bytes store (storage_key (se_project E) bucket key) data (ss_world s) = (Inr (), w)"
      "ss_world s' = w" "put_object_tx E (uploaded_row E bucket key data ct actor) actor db = (res, ss_db s')"
      "db_tables db = tables s" "r = rmap (\<lambda>meta. jobj [(''object'', JObject meta)]) res"
      "require_storage_actor actor = Inr ()" "assert_user_ident bucket = Inr bucket" "safe_object_key key = Inr key"
proof -
  have key: "safe_object_key key = Inr k \<Longrightarrow> k = key" for k by (auto simp: safe_object_key_def split: if_splits)
  have name: "assert_user_ident bucket = Inr b \<Longrightarrow> b = bucket" for b by (simp add: ident_simps)
  from assms show thesis
    unfolding execute_put_object_def
  proof (elim abind_elim, goal_cases)
    case (5 e u s1 b s2 k s3 v s4)
    then show thesis using key name by (auto simp: storage_runs dest!: require_bucket_ok intro: unstored)
  next
    case (6 u s1 b s2 k s3 v s4 e u2 s5)
    then show thesis using key name by (auto simp: storage_runs dest!: require_bucket_ok intro: stored)
  next
    case (7 u s1 b s2 k s3 v s4 x s5 e)
    then show thesis using key name by (auto simp: storage_runs dest!: require_bucket_ok intro: stored)
  qed (auto simp: storage_runs dest!: require_bucket_same intro: early)
qed
section \<open>Every operation keeps the invariant\<close>

definition tables_ok ::
    "string \<Rightarrow> (string \<Rightarrow> bool) \<Rightarrow> objects \<Rightarrow> storage_tables \<Rightarrow> bool" where
  "tables_ok pid key_ok blobs d \<longleftrightarrow>
     rows_ok pid key_ok (row_states d) (bucket_names d) \<and> blobs_there pid blobs (row_states d)"

lemma storage_inv_tables:
  "storage_inv pid objs key_ok winv s \<longleftrightarrow> tables_ok pid key_ok (objs (ss_world s)) (tables s) \<and> winv (ss_world s)"
  by (auto simp: storage_inv_def tables_ok_def)

text \<open>A new id is apart from the others.\<close>

definition apart :: "string \<Rightarrow> string \<times> string \<Rightarrow> storage_tables \<Rightarrow> bool" where
  "apart pid i d \<longleftrightarrow> \<not> below (id_key pid i) (id_key pid i)
     \<and> list_all (\<lambda>(j, _). \<not> below (id_key pid i) (id_key pid j) \<and> \<not> below (id_key pid j) (id_key pid i)) (row_states d)"

lemma put_keeps_tables:
  assumes "put_object_tx E r actor db = (res, db')" and ok: "tables_ok pid key_ok blobs (db_tables db)"
    and r: "ob_state r = Committed" "CHR ''/'' \<notin> set (ob_bucket r)" "key_ok (id_key pid (ob_id r))"
    and apart: "apart pid (ob_id r) (db_tables db)" and blob: "blobs (id_key pid (ob_id r)) \<noteq> None"
  shows "tables_ok pid key_ok blobs (db_tables db')"
proof (cases rule: put_object_tx_cases [OF assms(1)])
  case (2 n d row m)
  let ?rows = "row_states (db_tables db)" and ?i = "ob_id r"
  note up = upsert_object_rows [OF 2(1) r(1)]
  have same: "row_states (db_tables db') = row_states d" "bucket_names (db_tables db') = bucket_names d"
    using insert_event_tables [OF 2(4)] by (auto intro: same_rows)
  have "rows_ok pid key_ok (row_states d) (bucket_names d)"
    using ok up apart r(2,3)
    by (auto simp: tables_ok_def apart_def ob_id_def intro!: rows_ok_state rows_ok_snoc)
  moreover have "blobs_there pid blobs (row_states d)"
    using ok blob by (intro blobs_thereI) (auto simp: tables_ok_def up(1) split: if_splits dest: blobs_thereD)
  ultimately show ?thesis by (simp add: tables_ok_def same)
qed (use ok in simp)

lemma mark_keeps_tables:
  assumes "mark_deleting_tx E b k meta actor db = (res, db')" and ok: "tables_ok pid key_ok blobs (db_tables db)"
  shows "tables_ok pid key_ok blobs (db_tables db')"
    and "res = Inr () \<Longrightarrow> (b, k) \<in> fst ` set (row_states (db_tables db)) \<Longrightarrow>
      ((b, k), Deleting) \<in> set (row_states (db_tables db'))"
proof -
  have "tables_ok pid key_ok blobs (db_tables db') \<and> (res = Inr () \<longrightarrow> (b, k) \<in> fst ` set (row_states (db_tables db)) \<longrightarrow>
      ((b, k), Deleting) \<in> set (row_states (db_tables db')))"
  proof (cases rule: mark_deleting_tx_cases [OF assms(1)])
    case (2 n d m)
    note rows = mark_deleting_rows [OF 2(2)] same_rows(1) [OF insert_event_tables(1) [OF 2(3)]]
      same_rows(2) [OF insert_event_tables(2) [OF 2(3)]]
    show ?thesis
      using ok by (auto simp: tables_ok_def rows intro: rows_ok_state blobs_there_deleting)
  qed (use ok in simp)
  then show "tables_ok pid key_ok blobs (db_tables db')"
    and "res = Inr () \<Longrightarrow> (b, k) \<in> fst ` set (row_states (db_tables db)) \<Longrightarrow>
      ((b, k), Deleting) \<in> set (row_states (db_tables db'))"
    by blast+
qed

lemma delete_in_state_keeps_tables:
  assumes "delete_in_state status b k d = Inr (n, d')" and "tables_ok pid key_ok blobs d"
  shows "tables_ok pid key_ok blobs d'"
  using assms(2) by (simp add: tables_ok_def delete_in_state_rows [OF assms(1)] rows_ok_filter blobs_there_filter)

lemma finish_keeps_tables:
  assumes "finish_delete_tx b k db = (res, db')" and "tables_ok pid key_ok blobs (db_tables db)"
  shows "tables_ok pid key_ok blobs (db_tables db')"
  using assms(2)
  by (cases rule: finish_delete_tx_cases [OF assms(1)]) (auto dest: delete_in_state_keeps_tables)

lemma insert_bucket_keeps_tables:
  assumes "insert_bucket now b d = Inr (n, d')" and "tables_ok pid key_ok blobs d"
  shows "tables_ok pid key_ok blobs d'"
  using assms(2) by (auto simp: tables_ok_def insert_bucket_rows [OF assms(1)] rows_ok_def list_all_iff)

lemma delete_bucket_keeps_tables:
  assumes "delete_bucket_row b d = Inr (n, d')" and ok: "tables_ok pid key_ok blobs d"
  shows "tables_ok pid key_ok blobs d'"
  using delete_bucket_rows [OF assms(1)]
proof
  assume rows: "row_states d' = filter (\<lambda>(i, st). fst i \<noteq> b) (row_states d)
    \<and> bucket_names d' = filter (\<lambda>x. x \<noteq> b) (bucket_names d)"
  have r: "rows_ok pid key_ok (row_states d) (bucket_names d)" using ok by (simp add: tables_ok_def)
  have "rows_ok pid key_ok (filter (\<lambda>(i, st). fst i \<noteq> b) (row_states d)) (filter (\<lambda>x. x \<noteq> b) (bucket_names d))"
    by (rule rows_ok_shrink [OF r]) (use r in \<open>auto simp: rows_ok_def list_all_iff distinct_map_filter\<close>)
  with rows ok show ?thesis by (auto simp: tables_ok_def intro: blobs_there_filter)
qed (use ok in simp)
lemma statement_keeps_tables:
  assumes "sql_stmt (execute f) db = (r, db')" and ok: "tables_ok pid key_ok blobs (db_tables db)"
    and "\<And>n d. f (db_tables db) = Inr (n, d) \<Longrightarrow> tables_ok pid key_ok blobs d"
  shows "tables_ok pid key_ok blobs (db_tables db')"
  using sql_stmt_execute_cases [OF assms(1)] ok assms(3) by metis

text \<open>The cascade and the count of \<open>DeleteBucket\<close> in one transaction.\<close>

lemma delete_bucket_run:
  assumes "execute_delete_bucket name s = (r, s')"
  shows "ss_world s' = ss_world s
    \<and> (tables s' = tables s \<or> (\<exists>n. delete_bucket_row name (tables s) = Inr (n, tables s')
        \<and> (\<forall>i. (i, Committed) \<in> set (row_states (tables s)) \<longrightarrow> fst i \<noteq> name)))"
proof (cases r)
  case (Inl e)
  with assms show ?thesis
    unfolding execute_delete_bucket_def by (elim abind_elim) (auto simp: storage_runs)
next
  case (Inr v)
  have none: "((b, k), Committed) \<in> set (row_states d) \<Longrightarrow> False"
    if "\<forall>o1 \<in> set (st_objects d). ob_bucket o1 = b \<longrightarrow> ob_state o1 \<noteq> Committed" for b k d
    using that by (auto simp: row_states_def ob_id_def)
  from assms Inr show ?thesis
    by (auto simp: execute_delete_bucket_def act_simps storage_runs ident_simps filter_empty_conv
        split: if_splits dest: none)
qed

definition delete_rest ::
    "storage_env \<Rightarrow> 'w object_store \<Rightarrow> string \<Rightarrow> string \<Rightarrow> ('w, json \<times> bool) storage_action" where
  "delete_rest E store bucket key =
     abind (on_blobs (os_delete store (storage_key (se_project E) bucket key))) (\<lambda>_.
     abind (on_db (finish_delete_tx bucket key)) (\<lambda>_. aret (jobj [(''deleted'', JBool True)], True)))"

lemma execute_delete_object_cases:
  assumes "execute_delete_object E store bucket key actor s = (r, s')"
  obtains (early) e where "r = Inl e" "tables s' = tables s" "ss_world s' = ss_world s"
  | (run) o1 db q d1 where "find_object (tables s) bucket key = Some o1" "ob_state o1 \<noteq> Deleting" "may_access o1 actor"
      "db_tables db = tables s" "mark_deleting_tx E bucket key (object_meta_json o1) actor db = (q, d1)"
      "(\<exists>e. q = Inl e \<and> r = Inl e \<and> s' = s\<lparr>ss_db := d1\<rparr>) \<or>
       q = Inr () \<and> delete_rest E store bucket key (s\<lparr>ss_db := d1\<rparr>) = (r, s')"
proof -
  have key: "safe_object_key key = Inr k \<Longrightarrow> k = key" for k by (auto simp: safe_object_key_def split: if_splits)
  have name: "assert_user_ident bucket = Inr b \<Longrightarrow> b = bucket" for b by (simp add: ident_simps)
  have found: "authorize_storage_object meta actor = Inr u \<Longrightarrow>
      object_meta_in [Committed, Pending] b k (ss_db s) = (Inr meta, db) \<Longrightarrow> db_tables db = tables s \<and>
      (\<exists>o1. find_object (tables s) b k = Some o1 \<and> ob_state o1 \<noteq> Deleting \<and> may_access o1 actor \<and> meta = object_meta_json o1)"
    for meta u b k db
    using object_meta_same [of "[Committed, Pending]" b k "ss_db s" "Inr meta" db]
      object_meta_ok [of "[Committed, Pending]" b k "ss_db s" meta db] authorize_iff by auto
  from assms show thesis
    unfolding execute_delete_object_def delete_rest_def [symmetric]
  proof (elim abind_elim, goal_cases)
    case (5 e u s1 b s2 k s3 v s4)
    then show thesis using key name by (auto simp: storage_runs dest!: found intro: run)
  next
    case (6 e u s1 b s2 k s3 v s4)
    then show thesis using key name by (auto simp: storage_runs dest!: found intro: run)
  qed (auto simp: storage_runs dest!: object_meta_same intro: early)
qed

context object_store_contract
begin

abbreviation sinv :: "string \<Rightarrow> 'w storage_sys \<Rightarrow> bool" where
  "sinv pid \<equiv> storage_inv pid objs key_ok inv"

lemma put_object_keeps:
  assumes run: "execute_put_object E st bucket key data ct actor s = (r, s')" and i: "sinv (se_project E) s"
    and key: "key_ok (storage_key (se_project E) bucket key)" and apart: "apart (se_project E) (bucket, key) (tables s)"
  shows "sinv (se_project E) s'"
proof (cases rule: execute_put_object_cases [OF run])
  case (2 e q w)
  then have "inv w" "objs w = (objs (ss_world s))(storage_key (se_project E) bucket key \<mapsto> data) \<or> objs w = objs (ss_world s)"
    using put_law [OF 2(2) key] i by (auto simp: storage_inv_def)
  with i 2 show ?thesis
    by (auto simp: storage_inv_tables tables_ok_def intro: blobs_there_put)
next
  case (3 w db res)
  have w: "inv w" "objs w = (objs (ss_world s))(storage_key (se_project E) bucket key \<mapsto> data)"
    using put_law [OF 3(1) key] i by (auto simp: storage_inv_def)
  let ?r = "uploaded_row E bucket key data ct actor"
  have r: "ob_id ?r = (bucket, key)" "ob_bucket ?r = bucket" "ob_state ?r = Committed"
    by (simp_all add: uploaded_row_def ob_id_def)
  have k: "id_key (se_project E) (bucket, key) = storage_key (se_project E) bucket key" by (simp add: id_key_def)
  have "valid_ident bucket" using 3(7) by (simp add: ident_simps)
  then have "CHR ''/'' \<notin> set bucket" using valid_ident_chars [of bucket] by (auto simp: list_all_iff)
  moreover have "tables_ok (se_project E) key_ok (objs w) (db_tables db)"
    using i 3(4) w(2) by (auto simp: storage_inv_tables tables_ok_def intro: blobs_there_put)
  ultimately have "tables_ok (se_project E) key_ok (objs w) (tables s')"
    using key apart w(2) 3(4) by (intro put_keeps_tables [OF 3(3)]) (simp_all add: r k)
  with w 3(2) show ?thesis by (simp add: storage_inv_tables)
qed (use i in \<open>simp add: storage_inv_tables\<close>)

lemma delete_blob_keeps:
  assumes run: "on_blobs (os_delete st (storage_key pid b k)) s = (r, s')" and i: "sinv pid s"
    and row: "((b, k), status) \<in> set (row_states (tables s))" "status \<noteq> Committed" and pid: "CHR ''/'' \<notin> set pid"
  shows "sinv pid s'" and "ss_db s' = ss_db s"
proof -
  from run obtain q w where w: "os_delete st (storage_key pid b k) (ss_world s) = (q, w)" "s' = s\<lparr>ss_world := w\<rparr>"
    by (auto simp: on_blobs_run)
  have ok: "rows_ok pid key_ok (row_states (tables s)) (bucket_names (tables s))"
    using i by (simp add: storage_inv_def)
  have k: "id_key pid (b, k) = storage_key pid b k" by (simp add: id_key_def)
  have "key_ok (storage_key pid b k)" using rows_okD(3) [OF ok row(1)] by (simp add: k)
  with delete_law [OF w(1)] i have "inv w"
    and "removed_only (\<lambda>l. l = id_key pid (b, k) \<or> (objs (ss_world s) (id_key pid (b, k)) = None \<and> below (id_key pid (b, k)) l))
      (objs (ss_world s)) (objs w)"
    by (simp_all add: storage_inv_def k)
  with i blobs_there_delete [OF _ ok pid row] show "sinv pid s'" by (auto simp: storage_inv_def w(2))
  show "ss_db s' = ss_db s" by (simp add: w(2))
qed

lemma delete_object_keeps:
  assumes run: "execute_delete_object E st bucket key actor s = (r, s')" and i: "sinv (se_project E) s"
    and pid: "CHR ''/'' \<notin> set (se_project E)"
  shows "sinv (se_project E) s'"
proof (cases rule: execute_delete_object_cases [OF run])
  case (2 o1 db q d1)
  let ?p = "se_project E" and ?t = "s\<lparr>ss_db := d1\<rparr>"
  have row: "(bucket, key) \<in> fst ` set (row_states (db_tables db))"
    using find_object_Some [OF 2(1)] 2(4) by force
  have "tables_ok ?p key_ok (objs (ss_world s)) (db_tables db)" using i 2(4) by (simp add: storage_inv_tables)
  note mark = mark_keeps_tables [OF 2(5) this]
  have t: "sinv ?p ?t" using i mark(1) by (simp add: storage_inv_tables)
  from 2(6) show ?thesis
  proof
    assume "q = Inr () \<and> delete_rest E st bucket key ?t = (r, s')"
    then have del: "((bucket, key), Deleting) \<in> set (row_states (tables ?t))"
      and rest: "delete_rest E st bucket key ?t = (r, s')" using mark(2) row by simp_all
    from rest show ?thesis
      unfolding delete_rest_def
    proof (elim abind_elim, goal_cases)
      case (1 e)
      then show ?case using delete_blob_keeps(1) [OF _ t del _ pid] by simp
    next
      case (2 u s1 e)
      note blob = delete_blob_keeps [OF 2(1) t del _ pid]
      from 2(2) blob show ?case by (auto simp: on_db_run storage_inv_tables dest: finish_keeps_tables)
    next
      case (3 u s1 v s2)
      note blob = delete_blob_keeps [OF 3(1) t del _ pid]
      from 3(2,3) blob show ?case by (auto simp: on_db_run storage_inv_tables dest: finish_keeps_tables)
    qed
  qed (use t in auto)
qed (use i in \<open>simp add: storage_inv_tables\<close>)

lemma gc_deleting_step:
  assumes run: "gc_deleting E st (b, k) n s = (r, s')" and i: "sinv (se_project E) s"
    and row: "((b, k), Deleting) \<in> set (row_states (tables s))" and pid: "CHR ''/'' \<notin> set (se_project E)"
  shows "sinv (se_project E) s'" and "j \<noteq> (b, k) \<Longrightarrow> (j, status) \<in> set (row_states (tables s))
      \<Longrightarrow> (j, status) \<in> set (row_states (tables s'))"
proof -
  let ?p = "se_project E"
  obtain q s1 where blob: "on_blobs (os_delete st (storage_key ?p b k)) s = (q, s1)" by fastforce
  note kept = delete_blob_keeps [OF blob i row _ pid, simplified]
  have "sinv ?p s' \<and> (j \<noteq> (b, k) \<longrightarrow> (j, status) \<in> set (row_states (tables s))
      \<longrightarrow> (j, status) \<in> set (row_states (tables s')))"
  proof (cases "is_ok q")
    case False
    with run blob kept show ?thesis by (simp add: gc_deleting_def acatch_def)
  next
    case True
    with run blob have "abind (on_db (sql_stmt (execute (delete_in_state Deleting b k)))) (\<lambda>_. aret (n + 1)) s1 = (r, s')"
      by (simp add: gc_deleting_def acatch_def)
    then obtain q db where db: "sql_stmt (execute (delete_in_state Deleting b k)) (ss_db s1) = (q, db)"
      and s': "s' = s1\<lparr>ss_db := db\<rparr>"
      by (elim abind_elim) (auto simp: on_db_run)
    from kept(1) have ok: "tables_ok ?p key_ok (objs (ss_world s1)) (tables s1)" by (simp add: storage_inv_tables)
    have "tables_ok ?p key_ok (objs (ss_world s1)) (db_tables db)"
      by (rule statement_keeps_tables [OF db ok]) (rule delete_in_state_keeps_tables [OF _ ok])
    moreover have "j \<noteq> (b, k) \<longrightarrow> (j, status) \<in> set (row_states (tables s)) \<longrightarrow> (j, status) \<in> set (row_states (db_tables db))"
      by (rule sql_stmt_execute_cases [OF db]) (use kept(2) in \<open>auto dest!: delete_in_state_rows(1)\<close>)
    ultimately show ?thesis using kept(1) by (simp add: s' storage_inv_tables)
  qed
  then show "sinv ?p s'" and "j \<noteq> (b, k) \<Longrightarrow> (j, status) \<in> set (row_states (tables s))
      \<Longrightarrow> (j, status) \<in> set (row_states (tables s'))" by blast+
qed

lemma gc_deleting_loop:
  assumes "afold (gc_deleting E st) stale n s = (r, s')" and "sinv (se_project E) s" and "distinct stale"
    and "list_all (\<lambda>i. (i, Deleting) \<in> set (row_states (tables s))) stale" and pid: "CHR ''/'' \<notin> set (se_project E)"
  shows "sinv (se_project E) s'"
  using assms(1-4)
proof (induction stale arbitrary: n s)
  case (Cons i stale)
  obtain b k where bk: "i = (b, k)" by (cases i)
  obtain q s1 where one: "gc_deleting E st (b, k) n s = (q, s1)" by fastforce
  have row: "((b, k), Deleting) \<in> set (row_states (tables s))" using Cons.prems(4) bk by simp
  note step = gc_deleting_step [OF one Cons.prems(2) row pid]
  show ?case
  proof (cases q)
    case (Inl e)
    with Cons.prems(1) one bk step show ?thesis by (simp add: abind_def)
  next
    case (Inr m)
    with Cons.prems(1) one bk have "afold (gc_deleting E st) stale m s1 = (r, s')" by (simp add: abind_def)
    moreover have "list_all (\<lambda>i. (i, Deleting) \<in> set (row_states (tables s1))) stale"
      unfolding list_all_iff
    proof
      fix j assume j: "j \<in> set stale"
      with Cons.prems(3,4) bk have "j \<noteq> (b, k)" "(j, Deleting) \<in> set (row_states (tables s))"
        by (auto simp: list_all_iff)
      then show "(j, Deleting) \<in> set (row_states (tables s1))" by (rule step(2))
    qed
    ultimately show ?thesis using Cons.IH step(1) Cons.prems(3) by simp
  qed
qed simp

lemma gc_pending_loop:
  "afold gc_pending orphaned n s = (r, s') \<Longrightarrow> sinv pid s \<Longrightarrow> sinv pid s'"
proof (induction orphaned arbitrary: n s)
  case (Cons i orphaned)
  obtain b k where bk: "i = (b, k)" by (cases i)
  obtain q s1 where one: "gc_pending (b, k) n s = (q, s1)" by fastforce
  then obtain q' db where db: "sql_stmt (execute (delete_in_state Pending b k)) (ss_db s) = (q', db)"
    and s1: "s1 = s\<lparr>ss_db := db\<rparr>"
    unfolding gc_pending_def by (auto elim!: abind_elim simp: on_db_run)
  from Cons.prems(2) have ok: "tables_ok pid key_ok (objs (ss_world s)) (tables s)" by (simp add: storage_inv_tables)
  have "tables_ok pid key_ok (objs (ss_world s)) (db_tables db)"
    by (rule statement_keeps_tables [OF db ok]) (rule delete_in_state_keeps_tables [OF _ ok])
  then have "sinv pid s1" using Cons.prems(2) by (simp add: s1 storage_inv_tables)
  with Cons one bk show ?case by (cases q) (auto simp: abind_def)
qed simp

lemma gc_keeps:
  assumes "reconcile_storage_gc E st s = (r, s')" and "sinv (se_project E) s" and "CHR ''/'' \<notin> set (se_project E)"
  shows "sinv (se_project E) s'"
proof -
  have same: "sinv (se_project E) s1" if "sinv (se_project E) s" "on_db (sql_stmt (query f)) s = (q, s1)"
    for s s1 q and f :: "storage_tables \<Rightarrow> 'x"
    using that by (auto simp: on_db_run storage_inv_tables dest: sql_stmt_query_same)
  have stale: "distinct is \<and> list_all (\<lambda>i. (i, Deleting) \<in> set (row_states (tables s1))) is \<and> sinv (se_project E) s1"
    if q: "on_db (sql_stmt (query (objects_in_state Deleting))) s = (Inr is, s1)" for "is" s1
  proof -
    from q have s1: "tables s1 = tables s" "is = objects_in_state Deleting (tables s)" by (auto simp: storage_runs)
    have "distinct (map fst (row_states (tables s)))" using assms(2) by (simp add: storage_inv_def rows_ok_def)
    then have "distinct is"
      by (simp add: s1 objects_in_state_def row_states_def o_def distinct_map_filter)
    moreover have "list_all (\<lambda>i. (i, Deleting) \<in> set (row_states (tables s1))) is"
      by (auto simp: s1 objects_in_state_def row_states_def list_all_iff image_iff)
    ultimately show ?thesis using same [OF assms(2) q] by simp
  qed
  note loops = gc_deleting_loop [OF _ _ _ _ assms(3)] gc_pending_loop
  from assms(1) show ?thesis
    unfolding reconcile_storage_gc_def
    by (elim abind_elim) (auto dest!: stale dest: loops same [rotated] simp: assms(2) intro: same [OF assms(2)])
qed

end
section \<open>Histories\<close>

text \<open>
  One call on the storage of a project, whatever fails in it. An upload is of a key the store
  accepts and that is neither a directory of nor inside another object's key.
\<close>

inductive storage_step ::
    "string \<Rightarrow> 'w object_store \<Rightarrow> (string \<Rightarrow> bool) \<Rightarrow> 'w storage_sys \<Rightarrow> 'w storage_sys \<Rightarrow> bool"
  for pid store key_ok where
  create_bucket: "execute_create_bucket E name s = (r, s') \<Longrightarrow> storage_step pid store key_ok s s'"
| put_object: "execute_put_object E store bucket key data ct actor s = (r, s') \<Longrightarrow> se_project E = pid \<Longrightarrow>
    key_ok (storage_key pid bucket key) \<Longrightarrow> apart pid (bucket, key) (tables s) \<Longrightarrow> storage_step pid store key_ok s s'"
| delete_object: "execute_delete_object E store bucket key actor s = (r, s') \<Longrightarrow> se_project E = pid \<Longrightarrow>
    storage_step pid store key_ok s s'"
| delete_bucket: "execute_delete_bucket name s = (r, s') \<Longrightarrow> storage_step pid store key_ok s s'"
| collect: "reconcile_storage_gc E store s = (r, s') \<Longrightarrow> se_project E = pid \<Longrightarrow> storage_step pid store key_ok s s'"

inductive_cases storage_stepE: "storage_step pid store key_ok s s'"

context object_store_contract
begin

lemma storage_step_keeps:
  assumes "storage_step pid st key_ok s s'" and i: "sinv pid s" and pid: "CHR ''/'' \<notin> set pid"
  shows "sinv pid s'"
  using assms(1)
proof (cases rule: storage_step.cases)
  case (create_bucket E name r)
  then show ?thesis
    using i unfolding execute_create_bucket_def
    by (elim abind_elim)
      (auto simp: on_db_run storage_inv_tables dest!: statement_keeps_tables dest: insert_bucket_keeps_tables)
next
  case (delete_bucket name r)
  from delete_bucket_run [OF this] i show ?thesis
    by (auto simp: storage_inv_tables dest: delete_bucket_keeps_tables)
qed (use i pid put_object_keeps delete_object_keeps gc_keeps in blast)+

lemma storage_history:
  "(storage_step pid st key_ok)\<^sup>*\<^sup>* s s' \<Longrightarrow> sinv pid s \<Longrightarrow> CHR ''/'' \<notin> set pid \<Longrightarrow> sinv pid s'"
  by (induction rule: rtranclp_induct) (auto dest: storage_step_keeps)

end

definition no_objects :: storage_tables where
  "no_objects = \<lparr>st_buckets = [], st_objects = [], st_outbox = [], st_outbox_seq = 0\<rparr>"

lemma no_objects_inv: "winv (ss_world s) \<Longrightarrow> tables s = no_objects \<Longrightarrow> storage_inv pid objs key_ok winv s"
  by (simp add: storage_inv_def rows_ok_def blobs_there_def no_objects_def row_states_def bucket_names_def)


lemma upsert_finds:
  assumes "upsert_object r d = Inr (n, d')" and "ob_state r = Committed"
  obtains row where "find_object d' (ob_bucket r) (ob_key r) = Some row" "ob_size row = ob_size r"
    "ob_etag row = ob_etag r" "ob_owner row = ob_owner r" "ob_state row = Committed"
proof (cases "find_object d (ob_bucket r) (ob_key r)")
  case None
  with assms have d': "st_objects d' = st_objects d @ [r]" by (auto simp: upsert_object_def split: if_splits)
  have id: "(ob_bucket r, ob_key r) = ob_id r" by (simp add: ob_id_def)
  have "find (\<lambda>o1. ob_id o1 = ob_id r) (st_objects d') = Some r"
    using None by (simp add: d' find_key_append find_object_def id)
  then show thesis using assms(2) by (intro that) (simp_all add: find_object_def id)
next
  case (Some old)
  let ?f = "\<lambda>o1. o1\<lparr>ob_size := ob_size r, ob_content_type := ob_content_type r, ob_etag := ob_etag r,
      ob_owner := ob_owner r, ob_state := Committed, ob_updated_at := ob_updated_at r\<rparr>"
  from Some assms have d': "st_objects d' = map (\<lambda>o1. if ob_id o1 = ob_id r then ?f o1 else o1) (st_objects d)"
    by (auto simp: upsert_object_def)
  have "find (\<lambda>o1. ob_id o1 = ob_id r) (st_objects d') = Some (?f old)"
    unfolding d' using Some find_key_Some [OF Some [unfolded find_object_def]]
    by (subst find_map_key) (auto simp: ob_id_def find_object_def)
  then show thesis by (intro that [of "?f old"]) (simp_all add: find_object_def ob_id_def)
qed

lemma sql_stmt_query_err: "sql_stmt (query f) db = (Inl e, db') \<Longrightarrow> err_status e = 500"
  by (auto simp: sql_stmt_def act_simps db_simps sqlite_api_error_def)

text \<open>A read of an object the actor may access.\<close>

lemma get_object_granted:
  assumes get: "get_object E store bucket key actor s = (r, s')"
    and names: "assert_user_ident bucket = Inr bucket" "safe_object_key key = Inr key"
    and row: "find_object (tables s) bucket key = Some row" "ob_state row = Committed" "may_access row actor"
  obtains (err) e where "r = Inl e" "err_status e = 500"
  | (ok) data w where "r = Inr (object_meta_json row, data)"
      "os_read_bytes store (storage_key (se_project E) bucket key) (ss_world s) = (Inr data, w)"
proof -
  have auth: "authorize_storage_object (object_meta_json row) actor = Inr ()"
    using authorize_iff [of row actor "()"] row(3) by simp
  have meta: "object_meta_in [Committed] bucket key (ss_db s) = (q, db) \<Longrightarrow>
      q = Inr (object_meta_json row) \<or> (\<exists>e. q = Inl e \<and> err_status e = 500)" for q db
    unfolding object_meta_in_def
    by (elim abind_elim) (auto simp: storage_runs row dest: sql_stmt_query_err)
  show thesis
  proof (cases r)
    case (Inl e)
    with get have "err_status e = 500"
      by (auto simp: get_object_def act_simps names storage_runs auth anyhow_api_error_def
          elim!: rmap_err.elims [OF sym] dest!: meta)
    with Inl err show thesis by blast
  next
    case (Inr x)
    with get show thesis
      by (auto simp: get_object_def act_simps names storage_runs dest!: meta intro: ok)
  qed
qed

text \<open>
  C23: what was uploaded reads back: after an upload that returned, a read by the same actor
  returns the bytes with their length and digest and the actor as the owner, or fails with status
  500, on an error of the engine or the store.
\<close>

theorem upload_reads_back:
  assumes "object_store_contract store objs key_ok winv" and "winv (ss_world s)"
    and "key_ok (storage_key (se_project E) bucket key)" and "actor_sub actor \<noteq> Some []"
    and put: "execute_put_object E store bucket key data ct actor s = (Inr v, s1)"
    and get: "get_object E store bucket key actor s1 = (r, s2)"
  shows "case r of
      Inl e \<Rightarrow> err_status e = 500
    | Inr (meta, data') \<Rightarrow> data' = data \<and> v = jobj [(''object'', JObject meta)] \<and> bt_get meta ''size'' = Some (json_of_int (int (length data)))
        \<and> bt_get meta ''etag'' = Some (JString (hex_sha256 (se_sha256 E) data)) \<and> bt_get meta ''owner_id'' = Some (jopt (actor_sub actor))"
proof (cases rule: execute_put_object_cases [OF put])
  case (3 w db res)
  let ?k = "storage_key (se_project E) bucket key" and ?r = "uploaded_row E bucket key data ct actor"
  have w: "winv w" "objs w ?k = Some data"
    using object_store_contract.put_law [OF assms(1) 3(1) assms(3,2)] by auto
  from 3(5) obtain meta where meta: "res = Inr meta" "v = jobj [(''object'', JObject meta)]" by (cases res) auto
  show ?thesis
  proof (cases rule: put_object_tx_cases [OF 3(3)])
    case (2 n d row m)
    have rc: "ob_state ?r = Committed" "ob_bucket ?r = bucket" "ob_key ?r = key" "ob_owner ?r = actor_sub actor"
      by (simp_all add: uploaded_row_def)
    from upsert_finds [OF 2(1) rc(1)] 2(2) have r: "ob_size row = ob_size ?r" "ob_etag row = ob_etag ?r"
      "ob_owner row = ob_owner ?r" "ob_state row = Committed"
      by auto
    have found: "find_object (tables s1) bucket key = Some row"
      using 2(2) insert_event_tables(1) [OF 2(4)] by (simp add: find_object_def rc)
    have may: "may_access row actor"
      using 3(6) assms(4) by (auto simp: may_access_def require_storage_actor_def r rc split: if_splits)
    show ?thesis
    proof (cases rule: get_object_granted [OF get 3(7,8) found r(4) may])
      case (2 data' w')
      with object_store_contract.read_law [OF assms(1) _ assms(3), of "ss_world s1"] w 3(2) have "data' = data" by auto
      with 2(1) meta \<open>res = Inr (object_meta_json row)\<close> show ?thesis
        by (auto simp: object_meta_json_def bt_get_def r uploaded_row_def)
    qed simp
  qed (use meta in simp)
qed simp_all
lemma get_object_row:
  assumes "get_object E store bucket key actor s = (Inr (meta, data), s')"
  obtains o1 where "find_object (tables s) bucket key = Some o1" "meta = object_meta_json o1" "may_access o1 actor"
proof -
  have key: "safe_object_key key = Inr k \<Longrightarrow> k = key" for k by (auto simp: safe_object_key_def split: if_splits)
  from assms show thesis
    by (auto simp: get_object_def act_simps storage_runs ident_simps authorize_iff dest!: key object_meta_ok intro: that)
qed

lemma listed_objects:
  assumes "list_objects bucket prefix_opt limit offset actor s = (Inr v, s')"
  shows "\<exists>rows. v = JArray (map (\<lambda>o1. JObject (object_meta_json o1)) rows) \<and> length rows \<le> 1000
    \<and> list_all (\<lambda>o1. o1 \<in> set (st_objects (tables s)) \<and> ob_bucket o1 = bucket \<and> ob_state o1 = Committed \<and> may_access o1 actor) rows"
proof -
  let ?ms = "object_page bucket prefix_opt (max 1 (min limit 1000)) (max offset 0) (tables s)"
  let ?rows = "filter (\<lambda>o1. storage_object_visible (object_meta_json o1) actor) ?ms"
  from assms have actor: "require_storage_actor actor = Inr ()"
    and v: "v = JArray (map JObject (filter (\<lambda>meta. storage_object_visible meta actor) (map object_meta_json ?ms)))"
    by (auto simp: list_objects_def act_simps storage_runs ident_simps)
  have may: "storage_object_visible (object_meta_json o1) actor \<Longrightarrow> may_access o1 actor" for o1
    using actor
    by (auto simp: storage_object_visible_def may_access_def require_storage_actor_def split: option.splits if_splits)
  have "length ?rows \<le> length ?ms" by simp
  also have "\<dots> \<le> 1000" by (simp add: object_page_def)
  finally have "length ?rows \<le> 1000" .
  moreover have "o1 \<in> set (st_objects (tables s)) \<and> ob_bucket o1 = bucket \<and> ob_state o1 = Committed"
    if "o1 \<in> set ?ms" for o1
  proof -
    from that have "o1 \<in> set (sort_key ob_key (filter (\<lambda>o1. ob_bucket o1 = bucket \<and> ob_state o1 = Committed
          \<and> (case prefix_opt of None \<Rightarrow> True | Some p \<Rightarrow> sql_like (p @ ''%'') (ob_key o1))) (st_objects (tables s))))"
      unfolding object_page_def by (rule in_set_dropD [OF in_set_takeD])
    then show ?thesis by simp
  qed
  ultimately have "list_all (\<lambda>o1. o1 \<in> set (st_objects (tables s)) \<and> ob_bucket o1 = bucket \<and> ob_state o1 = Committed
      \<and> may_access o1 actor) ?rows"
    using may by (simp add: list_all_iff)
  moreover have "v = JArray (map (\<lambda>o1. JObject (object_meta_json o1)) ?rows)"
    by (simp add: v filter_map o_def)
  ultimately show ?thesis using \<open>length ?rows \<le> 1000\<close> by blast
qed


end
