(* ===== verification/Storage_Examples.thy ===== *)
theory Storage_Examples
  imports Storage_Properties Local_Store "HOL-Library.Code_Target_Nat"
begin

text \<open>
  Object storage at concrete inputs: the properties applied, and two things the code does not
  guarantee, evaluated: an upload takes over another user's object, and on a store with
  directories the clean-up of a half-done delete removes the objects below it.
\<close>

section \<open>At a concrete input\<close>

definition sample_storage :: storage_env where
  "sample_storage = \<lparr>se_project = ''p'', se_utc_now = ''t'', se_sql_now = ''t'', se_serde = sample_serde, se_sha256 = (\<lambda>d. d)\<rparr>"

definition user :: "string \<Rightarrow> actor" where
  "user name = \<lparr>actor_sub = Some name, actor_role = ''authenticated'', actor_claims = []\<rparr>"

definition empty_storage :: "'w \<Rightarrow> 'w storage_sys" where
  "empty_storage w = \<lparr>ss_db = \<lparr>db_tables = no_objects, db_faults = []\<rparr>, ss_world = w\<rparr>"

definition with_bucket :: "'w \<Rightarrow> 'w storage_sys" where
  "with_bucket w = snd (execute_create_bucket sample_storage ''b'' (empty_storage w))"

definition put_as :: "'w object_store \<Rightarrow> string \<Rightarrow> string \<Rightarrow> bytes \<Rightarrow> 'w storage_sys \<Rightarrow> json api \<times> 'w storage_sys" where
  "put_as store who key data = execute_put_object sample_storage store ''b'' key data ''text/plain'' (user who)"

definition alices :: "mem_world storage_sys" where
  "alices = snd (put_as mem_store ''alice'' ''doc'' ''hello'' (with_bucket []))"

text \<open>An upload takes over the object of another user, who can no longer read it.\<close>

lemma upload_takes_over:
  "is_ok (fst (get_object sample_storage mem_store ''b'' ''doc'' (user ''alice'') alices))
   \<and> is_ok (fst (put_as mem_store ''mallory'' ''doc'' ''bye'' alices))
   \<and> fst (get_object sample_storage mem_store ''b'' ''doc'' (user ''alice'') (snd (put_as mem_store ''mallory'' ''doc'' ''bye'' alices)))
     = Inl (api_err 403 ''access denied: object not owned by actor'')"
  by code_simp

text \<open>
  On the local store a delete that failed after its bytes were removed, an upload below its
  key, and a clean-up: the clean-up removes the directory, and with it the bytes of the new object.
\<close>

definition half_deleted :: "local_world storage_sys" where
  "half_deleted =
     (let s = snd (put_as (local_object_store 0 sample_local) ''alice'' ''a'' ''hello'' (with_bucket sample_world));
          failing = s\<lparr>ss_db := (ss_db s)\<lparr>db_faults := replicate 6 None @ [Some ''disk I/O error'']\<rparr>\<rparr>;
          t = snd (execute_delete_object sample_storage (local_object_store 0 sample_local) ''b'' ''a'' (user ''alice'') failing)
      in t\<lparr>ss_db := (ss_db t)\<lparr>db_faults := []\<rparr>\<rparr>)"

definition local_os_0 :: "local_world object_store" where
  "local_os_0 = local_object_store 0 sample_local"

definition orphaned :: "local_world storage_sys" where
  "orphaned = snd (put_as local_os_0 ''alice'' ''a/x'' ''new'' half_deleted)"

lemma clean_up_removes_live_object:
  "is_ok (fst (get_object sample_storage local_os_0 ''b'' ''a/x'' (user ''alice'') orphaned))
   \<and> (case reconcile_storage_gc sample_storage local_os_0 orphaned of (r, s) \<Rightarrow> is_ok r
      \<and> map ob_state (st_objects (tables s)) = [Committed]
      \<and> fst (get_object sample_storage local_os_0 ''b'' ''a/x'' (user ''alice'') s) = Inl (api_err 500 ''io error''))"
  by code_simp

text \<open>The properties applied.\<close>

lemma alices_history: "(storage_step ''p'' mem_store (\<lambda>_. True))\<^sup>*\<^sup>* (empty_storage []) alices"
proof -
  have "storage_step ''p'' mem_store (\<lambda>_. True) (empty_storage []) (with_bucket [])"
    unfolding with_bucket_def by (rule storage_step.create_bucket [OF prod.collapse [symmetric]])
  moreover have "storage_step ''p'' mem_store (\<lambda>_. True) (with_bucket []) alices"
  proof (rule storage_step.put_object)
    show "execute_put_object sample_storage mem_store ''b'' ''doc'' ''hello'' ''text/plain'' (user ''alice'') (with_bucket [])
      = (fst (put_as mem_store ''alice'' ''doc'' ''hello'' (with_bucket [])), alices)"
      by (simp add: alices_def put_as_def)
    show "apart ''p'' (''b'', ''doc'') (tables (with_bucket ([] :: mem_world)))" by code_simp
  qed (simp_all add: sample_storage_def)
  ultimately show ?thesis by simp
qed


lemma upload_reads_back_witness:
  "case fst (get_object sample_storage mem_store ''b'' ''doc'' (user ''alice'') alices) of
     Inl e \<Rightarrow> False | Inr (meta, data) \<Rightarrow> data = ''hello'' \<and> bt_get meta ''size'' = Some (json_of_int 5)"
proof -
  have put: "execute_put_object sample_storage mem_store ''b'' ''doc'' ''hello'' ''text/plain'' (user ''alice'') (with_bucket [])
      = (Inr (projr (fst (put_as mem_store ''alice'' ''doc'' ''hello'' (with_bucket [])))), alices)"
    unfolding put_as_def [symmetric] alices_def by (rule prod_eqI) (code_simp, simp)
  have w: "bt_wf (ss_world (with_bucket ([] :: mem_world)))" by code_simp
  have sub: "actor_sub (user ''alice'') \<noteq> Some []" by (simp add: user_def)
  have ok: "is_ok (fst (get_object sample_storage mem_store ''b'' ''doc'' (user ''alice'') alices))" by code_simp
  from upload_reads_back [OF mem_contract w _ sub put prod.collapse [symmetric]] ok
  show ?thesis by (auto split: sum.splits prod.splits)
qed


end
