(* ===== verification/Table_Writes.thy ===== *)
theory Table_Writes
  imports Storage Auth_Store Postgrest
begin

text \<open>
  The tables of the users (\<open>execute_create_table\<close> to \<open>execute_delete_postgrest\<close>, the selects
  and the schema of \<open>runtime.rs\<close>): which statements the runtime sends to SQLite, under which
  policies, in which transaction, and the event each change records. The SQL engine on the users'
  tables is a parameter \<open>table_engine\<close> on a state \<open>'u\<close>; the runtime's own tables, the
  policies and the outbox among them, are rows.
\<close>

section \<open>The database of a project\<close>

record policy_row =
  pr_id :: int
  pr_table :: string
  pr_operation :: string
  pr_name :: string
  pr_rule_json :: string
  pr_updated_at :: string

record idempotency_row =
  ir_key :: string
  ir_request_hash :: string
  ir_response_json :: string
  ir_bookmark :: string

record 'u project_tables =
  pt_user :: 'u
  pt_policies :: "policy_row list"
  pt_policy_seq :: int
  pt_storage :: storage_tables
  pt_auth :: auth_tables
  pt_idempotency :: "idempotency_row list"

record column_info =
  ci_cid :: int
  ci_name :: string
  ci_type :: string
  ci_not_null :: bool
  ci_default :: "string option"
  ci_primary_key :: bool

record 'u table_engine =
  te_execute :: "string \<Rightarrow> sql_value list \<Rightarrow> 'u \<Rightarrow> sql_failure + 'u"
  te_query :: "string \<Rightarrow> sql_value list \<Rightarrow> 'u \<Rightarrow> sql_failure + sql_row list"
  te_last_rowid :: "'u \<Rightarrow> int"
  te_tables :: "'u \<Rightarrow> string list" \<comment> \<open>the names in \<open>sqlite_master\<close>\<close>
  te_table_info :: "string \<Rightarrow> 'u \<Rightarrow> sql_failure + column_info list"
  te_base64 :: "bytes \<Rightarrow> string"

type_synonym ('u, 'a) table_tx = "('u project_tables, api_error, 'a) db_action"

text \<open>An action on a part of the tables.\<close>

definition zoom :: "('d \<Rightarrow> 't) \<Rightarrow> ('t \<Rightarrow> 'd \<Rightarrow> 'd) \<Rightarrow> ('t, 'e, 'a) db_action \<Rightarrow> ('d, 'e, 'a) db_action" where
  "zoom get put m s =
     (case m \<lparr>db_tables = get (db_tables s), db_faults = db_faults s\<rparr> of
        (r, t) \<Rightarrow> (r, \<lparr>db_tables = put (db_tables t) (db_tables s), db_faults = db_faults t\<rparr>))"

definition put_storage :: "storage_tables \<Rightarrow> 'u project_tables \<Rightarrow> 'u project_tables" where
  "put_storage t d = d\<lparr>pt_storage := t\<rparr>"

definition put_auth :: "auth_tables \<Rightarrow> 'u project_tables \<Rightarrow> 'u project_tables" where
  "put_auth t d = d\<lparr>pt_auth := t\<rparr>"

definition in_storage :: "'a storage_tx \<Rightarrow> ('u, 'a) table_tx" where
  "in_storage = zoom pt_storage put_storage"

definition pt_stmt :: "('u project_tables, sql_failure, 'a) db_action \<Rightarrow> ('u, 'a) table_tx" where
  "pt_stmt = amap_err sql_api_error"

definition user_execute :: "'u table_engine \<Rightarrow> string \<Rightarrow> sql_value list \<Rightarrow> ('u, nat) table_tx" where
  "user_execute T sql params =
     pt_stmt (execute (\<lambda>d. rmap (\<lambda>u. (1, d\<lparr>pt_user := u\<rparr>)) (te_execute T sql params (pt_user d))))"

definition user_read :: "('u \<Rightarrow> sql_failure + 'a) \<Rightarrow> ('u, 'a) table_tx" where
  "user_read f = pt_stmt (statement (\<lambda>d. rmap (\<lambda>x. (x, d)) (f (pt_user d))))"

text \<open>\<open>query_map(params, row_to_json_map)\<close> and \<open>query_row\<close>.\<close>

definition user_query :: "'u table_engine \<Rightarrow> string \<Rightarrow> sql_value list \<Rightarrow> ('u, json_map list) table_tx" where
  "user_query T sql params =
     user_read (\<lambda>u. rmap (map (row_to_json_map (te_base64 T))) (te_query T sql params u))"

definition user_query_row :: "'u table_engine \<Rightarrow> string \<Rightarrow> sql_value list \<Rightarrow> ('u, json_map) table_tx" where
  "user_query_row T sql params =
     abind (user_query T sql params) (\<lambda>rows.
       alift (ok_or (sqlite_api_error ''Query returned no rows'') (case rows of [] \<Rightarrow> None | r # _ \<Rightarrow> Some r)))"

definition lift_policy :: "policy_error + 'a \<Rightarrow> 'a api" where
  "lift_policy = rmap_err policy_api_error"

section \<open>Schema\<close>

definition type_map :: "(string \<times> string) list" where
  "type_map =
     [(''text'', ''TEXT''), (''integer'', ''INTEGER''), (''real'', ''REAL''), (''numeric'', ''NUMERIC''),
      (''blob'', ''BLOB''), (''boolean'', ''INTEGER''), (''json'', ''TEXT''), (''timestamp'', ''TEXT'')]"

text \<open>\<open>str::to_lowercase\<close> maps Unicode letters too; no letter outside ASCII becomes one of a type name.\<close>

definition sql_type :: "string \<Rightarrow> string api" where
  "sql_type name =
     ok_or (api_err 400 (''unsupported column type: '' @ name)) (map_of type_map (to_ascii_lowercase name))"

record column_spec =
  cs_name :: string
  cs_type :: string
  cs_primary_key :: bool
  cs_auto_increment :: bool
  cs_not_null :: bool

record table_spec =
  ts_name :: string
  ts_columns :: "column_spec list"

record policy_spec =
  ps_table :: string
  ps_operation :: string
  ps_name :: "string option"
  ps_rule :: json

definition column_def :: "column_spec \<Rightarrow> string \<Rightarrow> string api" where
  "column_def c name =
     rbind (sql_type (cs_type c)) (\<lambda>ty.
     rbind (lift_policy (quote_ident name)) (\<lambda>quoted.
       Inr (join '' ''
         ([quoted, ty]
          @ (if cs_primary_key c
             then [''PRIMARY KEY''] @ (if ty = ''INTEGER'' \<and> cs_auto_increment c then [''AUTOINCREMENT''] else [])
             else [])
          @ (if cs_not_null c then [''NOT NULL''] else [])))))"

text \<open>The loop over the columns: the names seen and the definitions so far.\<close>

fun column_defs :: "column_spec list \<Rightarrow> string list \<Rightarrow> string list \<Rightarrow> (string list \<times> string list) api" where
  "column_defs [] names defs = Inr (names, defs)"
| "column_defs (c # cs) names defs =
     rbind (assert_user_ident (cs_name c)) (\<lambda>name.
       if name \<in> set names then Inl (api_err 400 (''duplicate column: '' @ name))
       else rbind (column_def c name) (\<lambda>def.
         column_defs cs (name # names) (defs @ [def])))"

definition create_table_sql :: "table_spec \<Rightarrow> (string \<times> string) api" where
  "create_table_sql spec =
     rbind (assert_user_ident (ts_name spec)) (\<lambda>table.
     rbind (column_defs (ts_columns spec) [] []) (\<lambda>(names, defs).
     let defs = (if list_ex cs_primary_key (ts_columns spec) \<or> ''id'' \<in> set names then defs
                 else (quoted ''id'' @ '' INTEGER PRIMARY KEY AUTOINCREMENT'') # defs)
     in rbind (lift_policy (quote_ident table)) (\<lambda>qt.
        Inr (table, ''CREATE TABLE IF NOT EXISTS '' @ qt @ '' ('' @ join '', '' defs @ '')''))))"

definition column_json :: "column_info \<Rightarrow> json" where
  "column_json c =
     jobj [(''cid'', json_of_int (ci_cid c)), (''name'', JString (ci_name c)), (''type'', JString (ci_type c)),
           (''not_null'', JBool (ci_not_null c)), (''default'', jopt (ci_default c)),
           (''primary_key'', JBool (ci_primary_key c))]"

definition table_columns :: "'u table_engine \<Rightarrow> string \<Rightarrow> ('u, json list) table_tx" where
  "table_columns T table =
     abind (alift (lift_policy (quote_ident table))) (\<lambda>_.
     abind (user_read (te_table_info T table)) (\<lambda>cols. aret (map column_json cols)))"

definition table_primary_key_columns :: "'u table_engine \<Rightarrow> string \<Rightarrow> ('u, string list) table_tx" where
  "table_primary_key_columns T table =
     abind (table_columns T table) (\<lambda>cols.
       aret (filter_map (\<lambda>c. if jget_with as_bool c ''primary_key'' = Some True then jget_with as_str c ''name'' else None) cols))"

definition execute_create_table :: "'u table_engine \<Rightarrow> table_spec \<Rightarrow> ('u, json) table_tx" where
  "execute_create_table T spec =
     abind (alift (create_table_sql spec)) (\<lambda>(table, sql).
     abind (user_execute T sql []) (\<lambda>_.
     abind (table_columns T table) (\<lambda>cols.
       aret (jobj [(''table'', JString table), (''columns'', JArray cols)]))))"

text \<open>In \<open>LIKE\<close> the underscores of \<open>_sdb_%\<close> and \<open>sqlite_%\<close> stand for any character.\<close>

definition user_tables :: "'u table_engine \<Rightarrow> 'u \<Rightarrow> string list" where
  "user_tables T u = filter (\<lambda>t. \<not> sql_like ''_sdb_%'' t \<and> \<not> sql_like ''sqlite_%'' t) (te_tables T u)"

definition require_table :: "'u table_engine \<Rightarrow> string \<Rightarrow> ('u, unit) table_tx" where
  "require_table T table =
     abind (user_read (\<lambda>u. Inr (table \<in> set (user_tables T u)))) (\<lambda>found.
       if found then aret () else athrow (api_err 404 (''table not found: '' @ table)))"

definition schema :: "'u table_engine \<Rightarrow> string \<Rightarrow> nat \<Rightarrow> ('u, json) table_tx" where
  "schema T pid commit_seq =
     abind (user_read (\<lambda>u. Inr (sort (user_tables T u)))) (\<lambda>names.
     abind (afold (\<lambda>table acc.
         abind (table_columns T table) (\<lambda>cols.
           aret (acc @ [jobj [(''name'', JString table), (''columns'', JArray cols)]]))) names []) (\<lambda>tables.
       aret (with_bookmark (jobj [(''project_id'', JString pid), (''tables'', JArray tables)])
               (bookmark_for_seq commit_seq))))"
section \<open>Policies\<close>

definition parse_rule :: "serde \<Rightarrow> string \<Rightarrow> json" where
  "parse_rule sd raw = (case from_json_text sd raw of None \<Rightarrow> JNull | Some v \<Rightarrow> v)"

definition rules_for :: "serde \<Rightarrow> 'u project_tables \<Rightarrow> string \<Rightarrow> string \<Rightarrow> json list" where
  "rules_for sd d table operation =
     map (\<lambda>p. parse_rule sd (pr_rule_json p)) (sort_key pr_id
       (filter (\<lambda>p. pr_table p = table \<and> (pr_operation p = operation \<or> pr_operation p = ''all'')) (pt_policies d)))"

definition policy_rules :: "storage_env \<Rightarrow> string \<Rightarrow> string \<Rightarrow> ('u, json list) table_tx" where
  "policy_rules E table operation = pt_stmt (query (\<lambda>d. rules_for (se_serde E) d table operation))"

definition upsert_policy ::
    "string \<Rightarrow> string \<Rightarrow> string \<Rightarrow> string \<Rightarrow> string \<Rightarrow> 'u project_tables \<Rightarrow> sql_failure + nat \<times> 'u project_tables" where
  "upsert_policy now table operation name rule d =
     (let same = (\<lambda>p. pr_table p = table \<and> pr_operation p = operation \<and> pr_name p = name)
      in if list_ex same (pt_policies d)
         then Inr (1, d\<lparr>pt_policies := map (\<lambda>p. if same p then p\<lparr>pr_rule_json := rule, pr_updated_at := now\<rparr> else p)
                (pt_policies d)\<rparr>)
         else Inr (1, d\<lparr>pt_policy_seq := pt_policy_seq d + 1, pt_policies := pt_policies d @
                [\<lparr>pr_id = pt_policy_seq d + 1, pr_table = table, pr_operation = operation, pr_name = name,
                  pr_rule_json = rule, pr_updated_at = now\<rparr>]\<rparr>))"

definition policy_operations :: "string list" where
  "policy_operations = [''select'', ''insert'', ''update'', ''delete'', ''all'']"

definition execute_set_policy :: "storage_env \<Rightarrow> 'u table_engine \<Rightarrow> policy_spec \<Rightarrow> ('u, json) table_tx" where
  "execute_set_policy E T spec =
     abind (alift (assert_user_ident (ps_table spec))) (\<lambda>table.
       if ps_operation spec \<notin> set policy_operations
       then athrow (api_err 400 ''operation must be one of select, insert, update, delete, all'')
       else abind (require_table T table) (\<lambda>_.
         let name = (case ps_name spec of Some n \<Rightarrow> n | None \<Rightarrow> ps_operation spec @ ''_policy'')
         in abind (pt_stmt (execute (upsert_policy (se_sql_now E) table (ps_operation spec) name
                      (to_json_text (se_serde E) (ps_rule spec))))) (\<lambda>_.
              aret (jobj [(''table'', JString table), (''operation'', JString (ps_operation spec)),
                          (''name'', JString name), (''rule'', ps_rule spec)]))))"

definition policy_json :: "storage_env \<Rightarrow> policy_row \<Rightarrow> json" where
  "policy_json E p =
     jobj [(''table'', JString (pr_table p)), (''operation'', JString (pr_operation p)), (''name'', JString (pr_name p)),
           (''rule'', parse_rule (se_serde E) (pr_rule_json p)), (''updated_at'', JString (pr_updated_at p))]"

definition list_policies :: "storage_env \<Rightarrow> nat \<Rightarrow> ('u, json) table_tx" where
  "list_policies E commit_seq =
     abind (pt_stmt (query (\<lambda>d. sort_key pr_table (sort_key pr_operation (sort_key pr_name (pt_policies d)))))) (\<lambda>rows.
       aret (with_bookmark (jobj [(''policies'', JArray (map (policy_json E) rows))]) (bookmark_for_seq commit_seq)))"

text \<open>A rejection of the policies, with its message, or an error of a rule.\<close>

definition require_policy :: "json list \<Rightarrow> json_map \<Rightarrow> actor \<Rightarrow> string \<Rightarrow> unit api" where
  "require_policy rules row actor message =
     rbind (lift_policy (evaluate_policies rules row actor)) (\<lambda>ok.
       if ok then Inr () else Inl (api_err 403 message))"

definition where_clause ::
    "storage_env \<Rightarrow> string \<Rightarrow> string \<Rightarrow> (json list api \<Rightarrow> actor \<Rightarrow> (string \<times> sql_value list) api) \<Rightarrow> actor \<Rightarrow>
     ('u, string \<times> sql_value list) table_tx" where
  "where_clause E table operation compile actor =
     acatch (policy_rules E table operation) (\<lambda>rules. alift (compile rules actor))"

section \<open>Reading rows\<close>

definition rows_json :: "nat \<Rightarrow> json_map list \<Rightarrow> json" where
  "rows_json commit_seq rows =
     with_bookmark (jobj [(''rows'', JArray (map JObject rows))]) (bookmark_for_seq commit_seq)"

definition select_rows ::
    "storage_env \<Rightarrow> 'u table_engine \<Rightarrow> nat \<Rightarrow> string \<Rightarrow> (string \<times> string) list \<Rightarrow> actor \<Rightarrow> nat \<Rightarrow> ('u, json) table_tx" where
  "select_rows E T commit_seq table filters actor limit =
     abind (alift (assert_user_ident table)) (\<lambda>table.
     abind (require_table T table) (\<lambda>_.
     abind (where_clause E table ''select'' (\<lambda>rules. where_for_operation rules filters) actor) (\<lambda>(where_sql, params).
     abind (alift (lift_policy (quote_ident table))) (\<lambda>qt.
     abind (user_query T (''SELECT * FROM '' @ qt @ '' WHERE '' @ where_sql @ '' LIMIT ?'')
              (params @ [SqlInteger (int (clamp 1 1000 limit))])) (\<lambda>rows.
       aret (rows_json commit_seq rows))))))"

definition select_rows_postgrest ::
    "storage_env \<Rightarrow> 'u table_engine \<Rightarrow> nat \<Rightarrow> string \<Rightarrow> select_query \<Rightarrow> actor \<Rightarrow> ('u, json) table_tx" where
  "select_rows_postgrest E T commit_seq table q actor =
     abind (alift (assert_user_ident table)) (\<lambda>table.
     abind (require_table T table) (\<lambda>_.
     abind (policy_rules E table ''select'') (\<lambda>rules.
     abind (alift (rmap_err parse_api_error (build_select_sql table q rules actor))) (\<lambda>(sql, params).
     abind (user_query T sql params) (\<lambda>rows. aret (rows_json commit_seq rows))))))"

section \<open>Inserting\<close>

text \<open>The columns of a row body are its keys, checked; a value missing from the body is \<open>null\<close>.\<close>

definition row_columns :: "json_map \<Rightarrow> string list api" where
  "row_columns row = collect_map assert_user_ident (bt_keys row)"

definition column_param :: "serde \<Rightarrow> json_map \<Rightarrow> string \<Rightarrow> sql_value" where
  "column_param sd row column = json_to_sql_value sd (case bt_get row column of None \<Rightarrow> JNull | Some v \<Rightarrow> v)"

definition quoted_columns :: "string list \<Rightarrow> string list api" where
  "quoted_columns columns = collect_map (\<lambda>c. lift_policy (quote_ident c)) columns"

definition marks :: "'a list \<Rightarrow> string" where
  "marks xs = join '','' (map (\<lambda>_. ''?'') xs)"

definition insert_sql :: "string \<Rightarrow> string list \<Rightarrow> string api" where
  "insert_sql table columns =
     rbind (lift_policy (quote_ident table)) (\<lambda>qt.
     rbind (quoted_columns columns) (\<lambda>qcs.
       Inr (''INSERT INTO '' @ qt @ '' ('' @ join '','' qcs @ '') VALUES ('' @ marks columns @ '')'')))"

definition select_rowid :: "'u table_engine \<Rightarrow> string \<Rightarrow> int \<Rightarrow> ('u, json_map) table_tx" where
  "select_rowid T table rowid =
     abind (alift (lift_policy (quote_ident table))) (\<lambda>qt.
       user_query_row T (''SELECT * FROM '' @ qt @ '' WHERE rowid=?'') [SqlInteger rowid])"

definition last_insert_rowid :: "'u table_engine \<Rightarrow> ('u, int) table_tx" where
  "last_insert_rowid T = aget (\<lambda>s. te_last_rowid T (pt_user (db_tables s)))"

definition insert_tx ::
    "storage_env \<Rightarrow> 'u table_engine \<Rightarrow> string \<Rightarrow> json_map \<Rightarrow> string list \<Rightarrow> actor \<Rightarrow> ('u, json_map) table_tx" where
  "insert_tx E T table row columns actor =
     transaction sql_api_error
       (abind (alift (insert_sql table columns)) (\<lambda>sql.
        abind (user_execute T sql (map (column_param (se_serde E) row) columns)) (\<lambda>_.
        abind (last_insert_rowid T) (\<lambda>rowid.
        abind (select_rowid T table rowid) (\<lambda>inserted.
        abind (in_storage (record_event E table ''insert'' inserted actor)) (\<lambda>_.
          aret inserted))))))"

definition execute_insert ::
    "storage_env \<Rightarrow> 'u table_engine \<Rightarrow> string \<Rightarrow> json \<Rightarrow> actor \<Rightarrow> ('u, json) table_tx" where
  "execute_insert E T table data actor =
     abind (alift (assert_user_ident table)) (\<lambda>table.
     abind (require_table T table) (\<lambda>_.
     abind (alift (normalize_row_payload (se_serde E) data)) (\<lambda>row.
     abind (policy_rules E table ''insert'') (\<lambda>rules.
     abind (alift (require_policy rules row actor ''insert rejected by policy'')) (\<lambda>_.
     abind (alift (row_columns row)) (\<lambda>columns.
     abind (insert_tx E T table row columns actor) (\<lambda>inserted.
       aret (jobj [(''row'', JObject inserted)]))))))))"

section \<open>Upserting\<close>

definition existing_rowid_sql :: "string \<Rightarrow> string list \<Rightarrow> string api" where
  "existing_rowid_sql table pks =
     rbind (quoted_columns pks) (\<lambda>qpks.
     rbind (lift_policy (quote_ident table)) (\<lambda>qt.
       Inr (''SELECT rowid FROM '' @ qt @ '' WHERE '' @ join '' AND '' (map (\<lambda>q. q @ '' = ?'') qpks) @ '' LIMIT 1'')))"

text \<open>The first column of the first row as an \<open>i64\<close>, if there is a row.\<close>

definition rowid_of :: "sql_row list \<Rightarrow> sql_failure + int option" where
  "rowid_of rows =
     (case rows of
        [] \<Rightarrow> Inr None
      | row # _ \<Rightarrow>
          (case row of
             (c, SqlInteger i) # _ \<Rightarrow> Inr (Some i)
           | _ \<Rightarrow> Inl (SqlFailure ''Invalid column type'')))"

definition existing_rowid ::
    "'u table_engine \<Rightarrow> string \<Rightarrow> string list \<Rightarrow> sql_value list \<Rightarrow> ('u, int option) table_tx" where
  "existing_rowid T table pks params =
     abind (alift (existing_rowid_sql table pks)) (\<lambda>sql.
       user_read (\<lambda>u. rbind (te_query T sql params u) rowid_of))"

definition upsert_sql :: "string \<Rightarrow> string list \<Rightarrow> string list \<Rightarrow> string api" where
  "upsert_sql table columns pks =
     rbind (quoted_columns pks) (\<lambda>conflict_target.
     rbind (collect_map (\<lambda>c. rmap (\<lambda>q. q @ ''=excluded.'' @ q) (lift_policy (quote_ident c)))
             (filter (\<lambda>c. c \<notin> set pks) columns)) (\<lambda>update_set.
     rbind (insert_sql table columns) (\<lambda>ins.
       Inr (ins @ '' ON CONFLICT('' @ join '', '' conflict_target @ '') ''
            @ (if update_set = [] then ''DO NOTHING'' else ''DO UPDATE SET '' @ join '', '' update_set)))))"

definition upsert_tx ::
    "storage_env \<Rightarrow> 'u table_engine \<Rightarrow> string \<Rightarrow> json_map \<Rightarrow> string list \<Rightarrow> string list \<Rightarrow> json list \<Rightarrow> actor \<Rightarrow>
     ('u, json_map) table_tx" where
  "upsert_tx E T table row columns pks update_rules actor =
     transaction sql_api_error
       (abind (existing_rowid T table pks (map (column_param (se_serde E) row) pks)) (\<lambda>existing.
        abind (if existing \<noteq> None then alift (require_policy update_rules row actor ''update rejected by policy'')
               else aret ()) (\<lambda>_.
        abind (alift (upsert_sql table columns pks)) (\<lambda>sql.
        abind (user_execute T sql (map (column_param (se_serde E) row) columns)) (\<lambda>_.
        abind (case existing of Some rowid \<Rightarrow> aret rowid | None \<Rightarrow> last_insert_rowid T) (\<lambda>rowid.
        abind (select_rowid T table rowid) (\<lambda>result.
        abind (in_storage (record_event E table (if existing \<noteq> None then ''update'' else ''insert'') result actor)) (\<lambda>_.
          aret result))))))))"

definition execute_upsert ::
    "storage_env \<Rightarrow> 'u table_engine \<Rightarrow> string \<Rightarrow> json \<Rightarrow> actor \<Rightarrow> ('u, json) table_tx" where
  "execute_upsert E T table data actor =
     abind (alift (assert_user_ident table)) (\<lambda>table.
     abind (require_table T table) (\<lambda>_.
     abind (alift (normalize_row_payload (se_serde E) data)) (\<lambda>row.
     abind (table_primary_key_columns T table) (\<lambda>pks.
       if pks = [] then athrow (api_err 400 ''upsert requires a primary key on the table'')
       else
         abind (policy_rules E table ''insert'') (\<lambda>insert_rules.
         abind (policy_rules E table ''update'') (\<lambda>update_rules.
         abind (alift (require_policy insert_rules row actor ''insert rejected by policy'')) (\<lambda>_.
         abind (alift (row_columns row)) (\<lambda>columns.
         abind (upsert_tx E T table row columns pks update_rules actor) (\<lambda>result.
           aret (jobj [(''row'', JObject result)]))))))))))"
section \<open>Updating and deleting\<close>

definition matching_rows ::
    "'u table_engine \<Rightarrow> string \<Rightarrow> string \<times> sql_value list \<Rightarrow> ('u, json_map list) table_tx" where
  "matching_rows T table = (\<lambda>(where_sql, params).
     abind (alift (lift_policy (quote_ident table))) (\<lambda>qt.
       user_query T (''SELECT rowid AS _rowid, * FROM '' @ qt @ '' WHERE '' @ where_sql) params))"

definition without_rowid :: "json_map \<Rightarrow> json_map" where
  "without_rowid row = bt_remove ''_rowid'' row"

text \<open>\<open>item.get("_rowid").and_then(Value::as_i64).unwrap_or_default()\<close>.\<close>

definition rowid_value :: "json_map \<Rightarrow> int" where
  "rowid_value row = (case Option.bind (bt_get row ''_rowid'') as_i64 of None \<Rightarrow> 0 | Some i \<Rightarrow> i)"

definition merged_row :: "json_map \<Rightarrow> json_map \<Rightarrow> json_map" where
  "merged_row patch row = fold (\<lambda>(k, v). bt_insert k v) patch (without_rowid row)"

text \<open>The rows whose merged form the policies accept.\<close>

fun accepted_rowids :: "json list \<Rightarrow> json_map \<Rightarrow> actor \<Rightarrow> json_map list \<Rightarrow> int list api" where
  "accepted_rowids rules patch actor [] = Inr []"
| "accepted_rowids rules patch actor (row # rows) =
     rbind (lift_policy (evaluate_policies rules (merged_row patch row) actor)) (\<lambda>ok.
     rmap (\<lambda>ids. if ok then rowid_value row # ids else ids) (accepted_rowids rules patch actor rows))"

definition in_rowids :: "int list \<Rightarrow> string" where
  "in_rowids ids = ''rowid IN ('' @ marks ids @ '')''"

definition update_sql :: "string \<Rightarrow> string list \<Rightarrow> int list \<Rightarrow> string api" where
  "update_sql table updates ids =
     rbind (lift_policy (quote_ident table)) (\<lambda>qt.
     rbind (collect_map (\<lambda>c. rmap (\<lambda>q. q @ ''=?'') (lift_policy (quote_ident c))) updates) (\<lambda>sets.
       Inr (''UPDATE '' @ qt @ '' SET '' @ join '','' sets @ '' WHERE '' @ in_rowids ids)))"

definition record_each ::
    "storage_env \<Rightarrow> string \<Rightarrow> string \<Rightarrow> actor \<Rightarrow> json_map list \<Rightarrow> ('u, unit) table_tx" where
  "record_each E table operation actor rows =
     afold (\<lambda>row _. in_storage (record_event E table operation row actor)) rows ()"

definition apply_patch ::
    "storage_env \<Rightarrow> 'u table_engine \<Rightarrow> string \<Rightarrow> json_map \<Rightarrow> string list \<Rightarrow> int list \<Rightarrow> actor \<Rightarrow> ('u, json_map list) table_tx" where
  "apply_patch E T table patch updates ids actor =
     (if ids = [] then aret []
      else abind (alift (update_sql table updates ids)) (\<lambda>sql.
           abind (user_execute T sql (map (column_param (se_serde E) patch) updates @ map SqlInteger ids)) (\<lambda>_.
           abind (alift (lift_policy (quote_ident table))) (\<lambda>qt.
           abind (user_query T (''SELECT * FROM '' @ qt @ '' WHERE '' @ in_rowids ids) (map SqlInteger ids)) (\<lambda>updated.
           abind (record_each E table ''update'' actor updated) (\<lambda>_.
             aret updated))))))"

definition update_tx ::
    "storage_env \<Rightarrow> 'u table_engine \<Rightarrow> string \<Rightarrow> string \<times> sql_value list \<Rightarrow> json_map \<Rightarrow> string list \<Rightarrow> json list \<Rightarrow>
     actor \<Rightarrow> ('u, json_map list) table_tx" where
  "update_tx E T table where_part patch updates rules actor =
     transaction sql_api_error
       (abind (matching_rows T table where_part) (\<lambda>matched.
        abind (alift (accepted_rowids rules patch actor matched)) (\<lambda>ids.
          if matched \<noteq> [] \<and> ids = [] then athrow (api_err 403 ''update rejected by policy'')
          else apply_patch E T table patch updates ids actor)))"

definition affected_json :: "json_map list \<Rightarrow> json" where
  "affected_json rows = jobj [(''affected'', json_of_nat (length rows)), (''rows'', JArray (map JObject rows))]"

text \<open>The two updates differ in how the filter becomes text.\<close>

definition update_with ::
    "storage_env \<Rightarrow> 'u table_engine \<Rightarrow> string \<Rightarrow> (json list api \<Rightarrow> actor \<Rightarrow> (string \<times> sql_value list) api) \<Rightarrow>
     json \<Rightarrow> actor \<Rightarrow> ('u, json \<times> bool) table_tx" where
  "update_with E T table compile data actor =
     abind (alift (assert_user_ident table)) (\<lambda>table.
     abind (require_table T table) (\<lambda>_.
     abind (alift (normalize_row_payload (se_serde E) data)) (\<lambda>patch.
     abind (alift (row_columns patch)) (\<lambda>updates.
     abind (where_clause E table ''update'' compile actor) (\<lambda>where_part.
     abind (policy_rules E table ''update'') (\<lambda>rules.
     abind (update_tx E T table where_part patch updates rules actor) (\<lambda>updated.
       aret (affected_json updated, updated \<noteq> []))))))))"

definition execute_update ::
    "storage_env \<Rightarrow> 'u table_engine \<Rightarrow> string \<Rightarrow> (string \<times> string) list \<Rightarrow> json \<Rightarrow> actor \<Rightarrow> ('u, json \<times> bool) table_tx" where
  "execute_update E T table filters = update_with E T table (\<lambda>rules. where_for_operation rules filters)"

definition execute_update_postgrest ::
    "storage_env \<Rightarrow> 'u table_engine \<Rightarrow> string \<Rightarrow> filter_expr \<Rightarrow> json \<Rightarrow> actor \<Rightarrow> ('u, json \<times> bool) table_tx" where
  "execute_update_postgrest E T table filters =
     update_with E T table (\<lambda>rules. where_for_operation_postgrest rules filters)"

definition delete_sql :: "string \<Rightarrow> int list \<Rightarrow> string api" where
  "delete_sql table ids =
     rmap (\<lambda>qt. ''DELETE FROM '' @ qt @ '' WHERE '' @ in_rowids ids) (lift_policy (quote_ident table))"

definition delete_tx ::
    "storage_env \<Rightarrow> 'u table_engine \<Rightarrow> string \<Rightarrow> string \<times> sql_value list \<Rightarrow> actor \<Rightarrow> ('u, json_map list) table_tx" where
  "delete_tx E T table where_part actor =
     transaction sql_api_error
       (abind (matching_rows T table where_part) (\<lambda>rows.
        let ids = map rowid_value rows
        in abind (if ids = [] then aret ()
                  else abind (alift (delete_sql table ids)) (\<lambda>sql.
                       abind (user_execute T sql (map SqlInteger ids)) (\<lambda>_.
                         record_each E table ''delete'' actor (map without_rowid rows)))) (\<lambda>_.
             aret (map without_rowid rows))))"

definition delete_with ::
    "storage_env \<Rightarrow> 'u table_engine \<Rightarrow> string \<Rightarrow> (json list api \<Rightarrow> actor \<Rightarrow> (string \<times> sql_value list) api) \<Rightarrow>
     actor \<Rightarrow> ('u, json \<times> bool) table_tx" where
  "delete_with E T table compile actor =
     abind (alift (assert_user_ident table)) (\<lambda>table.
     abind (require_table T table) (\<lambda>_.
     abind (where_clause E table ''delete'' compile actor) (\<lambda>where_part.
     abind (delete_tx E T table where_part actor) (\<lambda>rows.
       aret (affected_json rows, rows \<noteq> [])))))"

definition execute_delete ::
    "storage_env \<Rightarrow> 'u table_engine \<Rightarrow> string \<Rightarrow> (string \<times> string) list \<Rightarrow> actor \<Rightarrow> ('u, json \<times> bool) table_tx" where
  "execute_delete E T table filters = delete_with E T table (\<lambda>rules. where_for_operation rules filters)"

definition execute_delete_postgrest ::
    "storage_env \<Rightarrow> 'u table_engine \<Rightarrow> string \<Rightarrow> filter_expr \<Rightarrow> actor \<Rightarrow> ('u, json \<times> bool) table_tx" where
  "execute_delete_postgrest E T table filters =
     delete_with E T table (\<lambda>rules. where_for_operation_postgrest rules filters)"

end
