(* ===== verification/Table_Properties.thy ===== *)
theory Table_Properties
  imports Table_Writes
begin

text \<open>
  What the writes on users' tables guarantee: a failed write leaves the database as it was, an
  insert is let through by the policies and is one statement and one event, an update changes only
  rows that the policies matched before and accept after. Whatever the SQL engine does.
\<close>

section \<open>Runs\<close>

named_theorems table_runs \<open>what a run of a table action did\<close>

abbreviation unchanged :: "'u project_tables sql_db \<Rightarrow> 'u project_tables sql_db \<Rightarrow> bool" where
  "unchanged s s' \<equiv> db_tables s' = db_tables s"

lemma pt_stmt_query [table_runs]:
  "pt_stmt (query f) s = (Inr x, s') \<longleftrightarrow> next_fault s = None \<and> x = f (db_tables s) \<and> s' = use_fault s"
  by (simp add: pt_stmt_def act_simps query_Inr)

lemma pt_stmt_query_same: "pt_stmt (query f) s = (r, s') \<Longrightarrow> unchanged s s'"
  by (cases r) (auto simp: pt_stmt_def act_simps db_simps)

lemma user_read_run [table_runs]:
  "user_read f s = (Inr x, s') \<longleftrightarrow> next_fault s = None \<and> f (pt_user (db_tables s)) = Inr x \<and> s' = use_fault s"
  by (cases s) (auto simp: user_read_def pt_stmt_def act_simps statement_Inr result_simps use_fault_def)

lemma user_read_same: "user_read f s = (r, s') \<Longrightarrow> unchanged s s'"
  by (cases r) (auto simp: user_read_def pt_stmt_def act_simps statement_Inr statement_Inl result_simps use_fault_def)

lemma user_execute_run [table_runs]:
  "user_execute T sql params s = (Inr n, s') \<longleftrightarrow> next_fault s = None \<and> n = 1 \<and>
     (\<exists>u. te_execute T sql params (pt_user (db_tables s)) = Inr u
       \<and> s' = (use_fault s)\<lparr>db_tables := (db_tables s)\<lparr>pt_user := u\<rparr>\<rparr>)"
  by (auto simp: user_execute_def pt_stmt_def act_simps execute_Inr result_simps)

lemma user_query_run [table_runs]:
  "user_query T sql params s = (Inr rows, s') \<longleftrightarrow> next_fault s = None \<and>
     (\<exists>rs. te_query T sql params (pt_user (db_tables s)) = Inr rs \<and> rows = map (row_to_json_map (te_base64 T)) rs)
     \<and> s' = use_fault s"
  by (auto simp: user_query_def table_runs result_simps)

lemma event_inserted:
  "in_storage (record_event E table operation row actor) s = (Inr u, s') \<longleftrightarrow> next_fault s = None \<and>
     (\<exists>n t. insert_event E table operation row actor (pt_storage (db_tables s)) = Inr (n, t)
        \<and> s' = (use_fault s)\<lparr>db_tables := (db_tables s)\<lparr>pt_storage := t\<rparr>\<rparr>)"
  by (cases s)
    (auto simp: in_storage_def zoom_def record_event_def act_simps sql_stmt_def execute_Inr next_fault_def
      use_fault_def put_storage_def split: prod.splits)

lemma transaction_Inr [table_runs]:
  "transaction conv body s = (Inr x, s') \<longleftrightarrow> next_fault s = None \<and>
     (\<exists>s1. body (use_fault s) = (Inr x, s1) \<and> next_fault s1 = None \<and> s' = use_fault s1)"
  by (auto simp: transaction_def athen_def act_simps db_simps split: prod.splits sum.splits)

lemma require_table_run [table_runs]:
  "require_table T table s = (Inr u, s') \<longleftrightarrow>
     next_fault s = None \<and> table \<in> set (user_tables T (pt_user (db_tables s))) \<and> s' = use_fault s"
  by (auto simp: require_table_def act_simps table_runs split: if_splits)

lemma require_policy_ok [result_simps]:
  "require_policy rules row actor msg = Inr u \<longleftrightarrow> evaluate_policies rules row actor = Inr True"
  by (cases "evaluate_policies rules row actor")
    (auto simp: require_policy_def lift_policy_def result_simps)

lemma idents_unchanged: "collect_map assert_user_ident ks = Inr cs \<Longrightarrow> cs = ks"
  by (induction ks arbitrary: cs) (auto simp: ident_simps split: sum.splits)

lemma row_columns_ok: "row_columns row = Inr cs \<Longrightarrow> cs = bt_keys row"
  unfolding row_columns_def by (rule idents_unchanged)

section \<open>Failed writes\<close>

text \<open>A read of a statement's inputs changes nothing; \<open>reads\<close> collects such actions.\<close>

definition reads :: "('u, 'a) table_tx \<Rightarrow> bool" where
  "reads m \<longleftrightarrow> (\<forall>s r s'. m s = (r, s') \<longrightarrow> unchanged s s')"

lemma readsD: "reads m \<Longrightarrow> m s = (r, s') \<Longrightarrow> db_tables s' = db_tables s"
  by (simp add: reads_def)

named_theorems reads_intros \<open>actions that change no table\<close>

lemma reads_basic [reads_intros]: "reads (alift r)" "reads (aret x)" "reads (athrow e)" "reads (aget f)"
  by (simp_all add: reads_def)

lemma reads_bind [reads_intros]: "reads m \<Longrightarrow> (\<And>x. reads (f x)) \<Longrightarrow> reads (abind m f)"
proof -
  assume m: "reads m" and f: "\<And>x. reads (f x)"
  have "unchanged s s'" if "abind m f s = (r, s')" for s r s'
    by (rule abind_elim [OF that]) (use readsD [OF m] readsD [OF f] in simp_all)
  then show ?thesis by (simp add: reads_def)
qed

lemma reads_statements [reads_intros]:
  "reads (user_read f)" "reads (pt_stmt (query g))"
  by (auto simp: reads_def dest: user_read_same pt_stmt_query_same)

lemma reads_calls [reads_intros]:
  "reads (user_query T sql params)" "reads (policy_rules E table operation)" "reads (require_table T table)"
  "reads (table_columns T table)" "reads (table_primary_key_columns T table)"
  unfolding user_query_def policy_rules_def require_table_def table_columns_def table_primary_key_columns_def
  by (auto intro!: reads_intros)

lemma reads_where [reads_intros]: "reads (where_clause E table operation compile actor)"
  using reads_calls(2) [of E table operation]
  by (auto simp: where_clause_def acatch_def reads_def split: prod.splits)

text \<open>What either returns, or leaves the tables as they were.\<close>

definition atomic :: "('u, 'a) table_tx \<Rightarrow> bool" where
  "atomic m \<longleftrightarrow> (\<forall>s e s'. m s = (Inl e, s') \<longrightarrow> unchanged s s')"

lemma atomicD: "atomic m \<Longrightarrow> m s = (Inl e, s') \<Longrightarrow> db_tables s' = db_tables s"
  by (simp add: atomic_def)

lemma atomic_transaction: "atomic (transaction conv body)"
  by (auto simp: atomic_def)

lemma atomic_reads: "reads m \<Longrightarrow> atomic m"
  by (auto simp: atomic_def reads_def)

lemma atomic_bind: "reads m \<Longrightarrow> (\<And>x. atomic (f x)) \<Longrightarrow> atomic (abind m f)"
proof -
  assume m: "reads m" and f: "\<And>x. atomic (f x)"
  have "unchanged s s'" if "abind m f s = (Inl e, s')" for s e s'
    by (rule abind_elim [OF that]) (use readsD [OF m] atomicD [OF f] in simp_all)
  then show ?thesis by (simp add: atomic_def)
qed

lemma atomic_if: "atomic m \<Longrightarrow> atomic n \<Longrightarrow> atomic (if b then m else n)"
  by simp

lemma atomic_last: "atomic m \<Longrightarrow> atomic (abind m (\<lambda>x. aret (f x)))"
  unfolding atomic_def by (auto simp: act_simps)

lemmas atomic_intros = atomic_bind atomic_last atomic_transaction atomic_reads

lemma update_with_atomic: "atomic (update_with E T table compile data actor)"
  unfolding update_with_def update_tx_def by (intro atomic_bind atomic_last atomic_transaction reads_intros)

lemma delete_with_atomic: "atomic (delete_with E T table compile actor)"
  unfolding delete_with_def delete_tx_def by (intro atomic_bind atomic_last atomic_transaction reads_intros)

lemma insert_atomic: "atomic (execute_insert E T table data actor)"
  unfolding execute_insert_def insert_tx_def by (intro atomic_bind atomic_last atomic_transaction reads_intros)

lemma upsert_atomic: "atomic (execute_upsert E T table data actor)"
  unfolding execute_upsert_def upsert_tx_def
  by (intro atomic_bind atomic_if atomic_last atomic_transaction atomic_reads reads_intros)

lemma unchanged_error: "atomic m \<Longrightarrow> is_ok (fst (m s)) \<or> unchanged s (snd (m s))"
  by (cases "m s"; cases "fst (m s)") (auto simp: atomic_def)

section \<open>What a write did\<close>

definition event_of :: "outbox_row \<Rightarrow> string \<times> string \<times> string \<times> string option \<times> string" where
  "event_of e = (ox_table e, ox_operation e, ox_row_json e, ox_actor_sub e, ox_actor_role e)"

definition events_of :: "'u project_tables \<Rightarrow> (string \<times> string \<times> string \<times> string option \<times> string) list" where
  "events_of d = map event_of (st_outbox (pt_storage d))"

definition new_event ::
    "storage_env \<Rightarrow> string \<Rightarrow> string \<Rightarrow> actor \<Rightarrow> json_map \<Rightarrow> string \<times> string \<times> string \<times> string option \<times> string" where
  "new_event E table operation actor row =
     (table, operation, to_json_text (se_serde E) (JObject row), actor_sub actor, actor_role actor)"

text \<open>Only the users' tables and the outbox changed.\<close>

definition same_meta :: "'u project_tables \<Rightarrow> 'u project_tables \<Rightarrow> bool" where
  "same_meta d d' \<longleftrightarrow> pt_policies d' = pt_policies d \<and> pt_auth d' = pt_auth d \<and> pt_idempotency d' = pt_idempotency d
     \<and> st_buckets (pt_storage d') = st_buckets (pt_storage d) \<and> st_objects (pt_storage d') = st_objects (pt_storage d)"

lemma same_meta_refl [simp]: "same_meta d d"
  by (simp add: same_meta_def)

lemma same_meta_trans: "same_meta d d1 \<Longrightarrow> same_meta d1 d2 \<Longrightarrow> same_meta d d2"
  by (simp add: same_meta_def)

lemma event_recorded:
  assumes "in_storage (record_event E table operation row actor) s = (Inr u, s')"
  shows "pt_user (db_tables s') = pt_user (db_tables s)" and "same_meta (db_tables s) (db_tables s')"
    and "events_of (db_tables s') = events_of (db_tables s) @ [new_event E table operation actor row]"
  using assms
  by (auto simp: event_inserted insert_event_def same_meta_def events_of_def event_of_def new_event_def)

lemma events_recorded:
  "record_each E table operation actor rows s = (Inr u, s') \<Longrightarrow>
     pt_user (db_tables s') = pt_user (db_tables s) \<and> same_meta (db_tables s) (db_tables s')
     \<and> events_of (db_tables s') = events_of (db_tables s) @ map (new_event E table operation actor) rows"
proof (induction rows arbitrary: s)
  case (Cons row rows)
  from Cons.prems obtain s1 where "in_storage (record_event E table operation row actor) s = (Inr (), s1)"
    and "record_each E table operation actor rows s1 = (Inr u, s')"
    by (auto simp: record_each_def act_simps)
  from event_recorded [OF this(1)] Cons.IH [OF this(2)] show ?case
    by (auto intro: same_meta_trans)
qed (simp add: record_each_def)

lemma insert_tx_run:
  assumes "insert_tx E T table row columns actor s = (Inr inserted, s')"
  obtains sql where "insert_sql table columns = Inr sql"
    and "te_execute T sql (map (column_param (se_serde E) row) columns) (pt_user (db_tables s)) = Inr (pt_user (db_tables s'))"
    and "same_meta (db_tables s) (db_tables s')"
    and "events_of (db_tables s') = events_of (db_tables s) @ [new_event E table ''insert'' actor inserted]"
proof -
  from assms obtain sql rowid n s1 s2 s3 where sql: "insert_sql table columns = Inr sql"
    and ex: "user_execute T sql (map (column_param (se_serde E) row) columns) (use_fault s) = (Inr n, s1)"
    and sel: "select_rowid T table rowid s1 = (Inr inserted, s2)"
    and ev: "in_storage (record_event E table ''insert'' inserted actor) s2 = (Inr (), s3)"
    and s': "s' = use_fault s3"
    unfolding insert_tx_def transaction_Inr by (auto simp: act_simps last_insert_rowid_def)
  have "db_tables s2 = db_tables s1"
    using sel by (auto simp: select_rowid_def user_query_row_def act_simps table_runs)
  moreover from ex have "te_execute T sql (map (column_param (se_serde E) row) columns) (pt_user (db_tables s)) = Inr (pt_user (db_tables s1))"
    and "same_meta (db_tables s) (db_tables s1)" and "events_of (db_tables s1) = events_of (db_tables s)"
    by (auto simp: user_execute_run same_meta_def events_of_def)
  ultimately show thesis
    using event_recorded [OF ev] sql by (intro that) (auto simp: s' intro: same_meta_trans)
qed

text \<open>
  C6: an insert that returns was let through: the body is a row whose columns are user
  identifiers, the policies for inserts accept it, the one statement that changed the users'
  tables is the insert of its values as parameters, the outbox has one event more, of the
  inserted row and the actor, and nothing else changed.
\<close>

theorem insert_is_policed:
  assumes "execute_insert E T table data actor s = (Inr v, s')"
  shows "\<exists>row sql inserted. normalize_row_payload (se_serde E) data = Inr row
    \<and> assert_user_ident table = Inr table \<and> list_all (\<lambda>c. assert_user_ident c = Inr c) (bt_keys row)
    \<and> evaluate_policies (rules_for (se_serde E) (db_tables s) table ''insert'') row actor = Inr True
    \<and> insert_sql table (bt_keys row) = Inr sql
    \<and> te_execute T sql (map (column_param (se_serde E) row) (bt_keys row)) (pt_user (db_tables s)) = Inr (pt_user (db_tables s'))
    \<and> events_of (db_tables s') = events_of (db_tables s) @ [new_event E table ''insert'' actor inserted]
    \<and> v = jobj [(''row'', JObject inserted)] \<and> same_meta (db_tables s) (db_tables s')"
proof -
  from assms obtain row columns inserted s1 where table: "assert_user_ident table = Inr table"
    and row: "normalize_row_payload (se_serde E) data = Inr row"
    and pol: "evaluate_policies (rules_for (se_serde E) (db_tables s) table ''insert'') row actor = Inr True"
    and cols: "row_columns row = Inr columns"
    and tx: "insert_tx E T table row columns actor s1 = (Inr inserted, s')" and s1: "db_tables s1 = db_tables s"
    and v: "v = jobj [(''row'', JObject inserted)]"
    by (auto simp: execute_insert_def act_simps table_runs result_simps policy_rules_def ident_simps)
  have c: "columns = bt_keys row" by (rule row_columns_ok [OF cols])
  have "list_all (\<lambda>c. assert_user_ident c = Inr c) (bt_keys row)"
    using cols idents_unchanged [OF cols [unfolded row_columns_def]]
    by (auto simp: row_columns_def list_all_iff ident_simps dest: collect_map_each)
  note cols_ok = this
  show ?thesis
  proof (rule insert_tx_run [OF tx])
    fix sql
    assume "insert_sql table columns = Inr sql" "same_meta (db_tables s1) (db_tables s')"
      "te_execute T sql (map (column_param (se_serde E) row) columns) (pt_user (db_tables s1)) = Inr (pt_user (db_tables s'))"
      "events_of (db_tables s') = events_of (db_tables s1) @ [new_event E table ''insert'' actor inserted]"
    then show ?thesis
      using table row pol v cols_ok c s1
      by (intro exI [of _ row] exI [of _ sql] exI [of _ inserted]) simp
  qed
qed
lemma accepted_rowids_ok:
  "accepted_rowids rules patch actor rows = Inr ids \<Longrightarrow>
     ids = map rowid_value (filter (\<lambda>r. evaluate_policies rules (merged_row patch r) actor = Inr True) rows)"
proof (induction rows arbitrary: ids)
  case (Cons row rows)
  then show ?case
    by (cases "evaluate_policies rules (merged_row patch row) actor")
      (auto simp: lift_policy_def result_simps split: if_splits)
qed simp

definition matching_sql :: "string \<Rightarrow> string \<Rightarrow> string" where
  "matching_sql table where_sql = ''SELECT rowid AS _rowid, * FROM '' @ quoted table @ '' WHERE '' @ where_sql"

lemma lift_quote [simp]: "lift_policy (quote_ident t) = Inr q \<longleftrightarrow> valid_ident t \<and> q = quoted t"
  by (auto simp: lift_policy_def result_simps ident_simps quoted_def)

lemma matching_rows_run [table_runs]:
  "matching_rows T table (where_sql, params) s = (Inr rows, s') \<longleftrightarrow> valid_ident table \<and> next_fault s = None \<and>
     (\<exists>raw. te_query T (matching_sql table where_sql) params (pt_user (db_tables s)) = Inr raw
       \<and> rows = map (row_to_json_map (te_base64 T)) raw) \<and> s' = use_fault s"
  by (auto simp: matching_rows_def act_simps table_runs matching_sql_def)

lemma apply_patch_run:
  assumes "apply_patch E T table patch updates ids actor s = (Inr updated, s')" and "ids \<noteq> []"
  obtains sql where "update_sql table updates ids = Inr sql"
    and "te_execute T sql (map (column_param (se_serde E) patch) updates @ map SqlInteger ids) (pt_user (db_tables s))
      = Inr (pt_user (db_tables s'))"
    and "events_of (db_tables s') = events_of (db_tables s) @ map (new_event E table ''update'' actor) updated"
    and "same_meta (db_tables s) (db_tables s')"
proof -
  from assms obtain sql n s1 s2 where sql: "update_sql table updates ids = Inr sql"
    and ex: "user_execute T sql (map (column_param (se_serde E) patch) updates @ map SqlInteger ids) s = (Inr n, s1)"
    and rd: "\<exists>q. user_query T q (map SqlInteger ids) s1 = (Inr updated, s2)"
    and ev: "record_each E table ''update'' actor updated s2 = (Inr (), s')"
    by (simp add: apply_patch_def act_simps) blast
  have s2: "db_tables s2 = db_tables s1" using rd readsD [OF reads_calls(1)] by blast
  from ex have "te_execute T sql (map (column_param (se_serde E) patch) updates @ map SqlInteger ids) (pt_user (db_tables s))
      = Inr (pt_user (db_tables s1))"
    and "same_meta (db_tables s) (db_tables s1)" and "events_of (db_tables s1) = events_of (db_tables s)"
    by (auto simp: user_execute_run same_meta_def events_of_def)
  with events_recorded [OF ev] sql s2 show thesis by (intro that) (auto intro: same_meta_trans)
qed

text \<open>What an update may have done, given the rows the where part matched.\<close>

definition update_did ::
    "storage_env \<Rightarrow> 'u table_engine \<Rightarrow> string \<Rightarrow> json_map \<Rightarrow> json list \<Rightarrow> actor \<Rightarrow> json_map list \<Rightarrow> json_map list \<Rightarrow>
     'u project_tables \<Rightarrow> 'u project_tables \<Rightarrow> bool" where
  "update_did E T table patch rules actor matched updated d d' \<longleftrightarrow>
     (let ids = map rowid_value (filter (\<lambda>r. evaluate_policies rules (merged_row patch r) actor = Inr True) matched)
      in if ids = [] then matched = [] \<and> updated = [] \<and> d' = d
         else (\<exists>sql. update_sql table (bt_keys patch) ids = Inr sql
           \<and> te_execute T sql (map (column_param (se_serde E) patch) (bt_keys patch) @ map SqlInteger ids) (pt_user d) = Inr (pt_user d')
           \<and> events_of d' = events_of d @ map (new_event E table ''update'' actor) updated \<and> same_meta d d'))"

lemma update_tx_run:
  assumes "update_tx E T table (where_sql, params) patch (bt_keys patch) rules actor s = (Inr updated, s')"
  shows "\<exists>raw. te_query T (matching_sql table where_sql) params (pt_user (db_tables s)) = Inr raw
    \<and> update_did E T table patch rules actor (map (row_to_json_map (te_base64 T)) raw) updated (db_tables s) (db_tables s')"
proof -
  from assms obtain before ids s1 s2 where
    m: "matching_rows T table (where_sql, params) (use_fault s) = (Inr before, s1)"
    and ids: "accepted_rowids rules patch actor before = Inr ids"
    and body: "(if before \<noteq> [] \<and> ids = [] then athrow (api_err 403 ''update rejected by policy'')
        else apply_patch E T table patch (bt_keys patch) ids actor) s1 = (Inr updated, s2)" and s': "s' = use_fault s2"
    by (auto simp: update_tx_def transaction_Inr abind_Inr simp del: de_Morgan_conj)
  from body have some: "\<not> (before \<noteq> [] \<and> ids = [])"
    and ap: "apply_patch E T table patch (bt_keys patch) ids actor s1 = (Inr updated, s2)"
    by (auto split: if_splits)
  from m obtain raw where q: "te_query T (matching_sql table where_sql) params (pt_user (db_tables s)) = Inr raw"
    and raw: "before = map (row_to_json_map (te_base64 T)) raw" and s1: "db_tables s1 = db_tables s"
    by (auto simp: matching_rows_run)
  note ids' = accepted_rowids_ok [OF ids]
  show ?thesis
  proof (cases "ids = []")
    case True
    with ap have "updated = []" "s2 = s1" by (simp_all add: apply_patch_def)
    with True some q s1 s' ids' raw show ?thesis by (auto simp: update_did_def Let_def)
  next
    case False
    show ?thesis
    proof (rule apply_patch_run [OF ap False])
      fix sql
      assume "update_sql table (bt_keys patch) ids = Inr sql"
        "te_execute T sql (map (column_param (se_serde E) patch) (bt_keys patch) @ map SqlInteger ids) (pt_user (db_tables s1))
          = Inr (pt_user (db_tables s2))"
        "events_of (db_tables s2) = events_of (db_tables s1) @ map (new_event E table ''update'' actor) updated"
        "same_meta (db_tables s1) (db_tables s2)"
      then have "update_did E T table patch rules actor before updated (db_tables s) (db_tables s')"
        using False by (simp add: update_did_def Let_def ids' [symmetric] s1 s')
      with q raw show ?thesis by auto
    qed
  qed
qed

lemma where_clause_run:
  assumes "where_clause E table operation compile actor s = (Inr w, s')"
  shows "unchanged s s'"
    and "compile (Inr (rules_for (se_serde E) (db_tables s) table operation)) actor = Inr w
      \<or> (\<exists>e. compile (Inl e) actor = Inr w)"
  using assms readsD [OF reads_where assms]
  by (auto simp: where_clause_def acatch_def policy_rules_def table_runs split: prod.splits)
    (metis old.sum.exhaust pt_stmt_query)
text \<open>The same for a delete.\<close>

definition delete_did ::
    "storage_env \<Rightarrow> 'u table_engine \<Rightarrow> string \<Rightarrow> actor \<Rightarrow> json_map list \<Rightarrow> 'u project_tables \<Rightarrow> 'u project_tables \<Rightarrow> bool" where
  "delete_did E T table actor matched d d' \<longleftrightarrow>
     (if matched = [] then d' = d
      else (\<exists>sql. delete_sql table (map rowid_value matched) = Inr sql
        \<and> te_execute T sql (map SqlInteger (map rowid_value matched)) (pt_user d) = Inr (pt_user d')
        \<and> events_of d' = events_of d @ map (new_event E table ''delete'' actor) (map without_rowid matched)
        \<and> same_meta d d'))"

lemma delete_tx_run:
  assumes "delete_tx E T table (where_sql, params) actor s = (Inr deleted, s')"
  shows "\<exists>raw. te_query T (matching_sql table where_sql) params (pt_user (db_tables s)) = Inr raw
    \<and> deleted = map without_rowid (map (row_to_json_map (te_base64 T)) raw)
    \<and> delete_did E T table actor (map (row_to_json_map (te_base64 T)) raw) (db_tables s) (db_tables s')"
proof -
  define del where "del rows = (if map rowid_value rows = [] then aret ()
      else abind (alift (delete_sql table (map rowid_value rows))) (\<lambda>sql.
           abind (user_execute T sql (map SqlInteger (map rowid_value rows))) (\<lambda>_.
             record_each E table ''delete'' actor (map without_rowid rows))))" for rows
  from assms obtain rows s1 s2 where m: "matching_rows T table (where_sql, params) (use_fault s) = (Inr rows, s1)"
    and d: "del rows s1 = (Inr (), s2)" and s': "s' = use_fault s2" and out: "deleted = map without_rowid rows"
    by (auto simp: delete_tx_def transaction_Inr abind_Inr Let_def del_def)
  from m obtain raw where q: "te_query T (matching_sql table where_sql) params (pt_user (db_tables s)) = Inr raw"
    and raw: "rows = map (row_to_json_map (te_base64 T)) raw" and s1: "db_tables s1 = db_tables s"
    by (auto simp: matching_rows_run)
  have "delete_did E T table actor rows (db_tables s) (db_tables s')"
  proof (cases "rows = []")
    case True
    with d s1 s' show ?thesis by (simp add: del_def delete_did_def)
  next
    case False
    with d obtain sql n s3 where sql: "delete_sql table (map rowid_value rows) = Inr sql"
      and ex: "user_execute T sql (map SqlInteger (map rowid_value rows)) s1 = (Inr n, s3)"
      and ev: "record_each E table ''delete'' actor (map without_rowid rows) s3 = (Inr (), s2)"
      by (auto simp: del_def act_simps)
    from ex have "te_execute T sql (map SqlInteger (map rowid_value rows)) (pt_user (db_tables s)) = Inr (pt_user (db_tables s3))"
      and "same_meta (db_tables s) (db_tables s3)" and "events_of (db_tables s3) = events_of (db_tables s)"
      by (auto simp: user_execute_run same_meta_def events_of_def s1)
    with events_recorded [OF ev] sql False s' show ?thesis
      by (auto simp: delete_did_def intro: same_meta_trans)
  qed
  with q raw out show ?thesis by auto
qed

lemma update_with_run:
  assumes "update_with E T table compile data actor s = (Inr (v, b), s')"
    and strict: "\<And>e. is_ok (compile (Inl e) actor) = False"
  shows "\<exists>patch where_sql params raw updated. normalize_row_payload (se_serde E) data = Inr patch
    \<and> compile (Inr (rules_for (se_serde E) (db_tables s) table ''update'')) actor = Inr (where_sql, params)
    \<and> te_query T (matching_sql table where_sql) params (pt_user (db_tables s)) = Inr raw
    \<and> update_did E T table patch (rules_for (se_serde E) (db_tables s) table ''update'') actor
        (map (row_to_json_map (te_base64 T)) raw) updated (db_tables s) (db_tables s')
    \<and> v = affected_json updated \<and> b = (updated \<noteq> [])"
proof -
  from assms(1) obtain patch cols w s2 updated where row: "normalize_row_payload (se_serde E) data = Inr patch"
    and cols: "row_columns patch = Inr cols"
    and w: "where_clause E table ''update'' compile actor (use_fault s) = (Inr w, s2)"
    and tx: "update_tx E T table w patch cols (rules_for (se_serde E) (db_tables s2) table ''update'') actor (use_fault s2)
      = (Inr updated, s')"
    and v: "(v, b) = (affected_json updated, updated \<noteq> [])"
    by (simp add: update_with_def abind_Inr require_table_run policy_rules_def pt_stmt_query ident_simps) blast
  obtain where_sql params where wp: "w = (where_sql, params)" by (cases w)
  have s2: "db_tables s2 = db_tables s" using where_clause_run(1) [OF w] by simp
  have c: "compile (Inr (rules_for (se_serde E) (db_tables s) table ''update'')) actor = Inr (where_sql, params)"
    using where_clause_run(2) [OF w] strict wp by (metis is_ok.simps(2) use_fault_tables)
  from update_tx_run [OF tx [unfolded wp row_columns_ok [OF cols]]] row c v show ?thesis
    unfolding s2 use_fault_tables by blast
qed

lemma delete_with_run:
  assumes "delete_with E T table compile actor s = (Inr (v, b), s')"
    and strict: "\<And>e. is_ok (compile (Inl e) actor) = False"
  shows "\<exists>where_sql params raw.
    compile (Inr (rules_for (se_serde E) (db_tables s) table ''delete'')) actor = Inr (where_sql, params)
    \<and> te_query T (matching_sql table where_sql) params (pt_user (db_tables s)) = Inr raw
    \<and> delete_did E T table actor (map (row_to_json_map (te_base64 T)) raw) (db_tables s) (db_tables s')
    \<and> v = affected_json (map without_rowid (map (row_to_json_map (te_base64 T)) raw)) \<and> b = (raw \<noteq> [])"
proof -
  from assms(1) obtain w s2 deleted where w: "where_clause E table ''delete'' compile actor (use_fault s) = (Inr w, s2)"
    and tx: "delete_tx E T table w actor s2 = (Inr deleted, s')" and v: "(v, b) = (affected_json deleted, deleted \<noteq> [])"
    by (simp add: delete_with_def abind_Inr require_table_run ident_simps) blast
  obtain where_sql params where wp: "w = (where_sql, params)" by (cases w)
  have s2: "db_tables s2 = db_tables s" using where_clause_run(1) [OF w] by simp
  have c: "compile (Inr (rules_for (se_serde E) (db_tables s) table ''delete'')) actor = Inr (where_sql, params)"
    using where_clause_run(2) [OF w] strict wp by (metis is_ok.simps(2) use_fault_tables)
  from delete_tx_run [OF tx [unfolded wp]] c v show ?thesis
    unfolding s2 by auto
qed

lemma where_for_operation_strict:
  "is_ok (where_for_operation_postgrest (Inl e) filters actor) = False"
  "is_ok (where_for_operation (Inl e) pairs actor) = False"
  by (auto simp: where_for_operation_postgrest_def where_for_operation_def is_ok_iff result_simps)


end
