(* ===== verification/Table_Examples.thy ===== *)
theory Table_Examples
  imports Table_Properties "HOL-Library.Code_Target_Nat"
begin

text \<open>
  The writes on users' tables at concrete inputs, on an engine that keeps one table of notes
  and understands the statements the runtime sends for it: the properties applied, and two
  things the code does not guarantee, evaluated: an upsert overwrites another user's row that an
  update would not reach, and a table the schema accepts may be unreachable afterwards.
\<close>

type_synonym note_rows = "(int \<times> string \<times> string) list"

definition note_row :: "int \<times> string \<times> string \<Rightarrow> sql_row" where
  "note_row = (\<lambda>(i, owner, body). [(''id'', SqlInteger i), (''owner'', SqlText owner), (''body'', SqlText body)])"

definition integers :: "sql_value list \<Rightarrow> int list" where
  "integers params = filter_map (\<lambda>p. case p of SqlInteger i \<Rightarrow> Some i | _ \<Rightarrow> None) params"

definition notes_execute :: "string \<Rightarrow> sql_value list \<Rightarrow> note_rows \<Rightarrow> sql_failure + note_rows" where
  "notes_execute sql params rows =
     (if starts_with sql ''INSERT'' then
        (case params of
           [SqlText body, SqlInteger i, SqlText owner] \<Rightarrow>
             if i \<notin> fst ` set rows then Inr (rows @ [(i, owner, body)])
             else if last sql = CHR '')'' then Inl (ConstraintViolation ''UNIQUE constraint failed'')
             else Inr (map (\<lambda>r. if fst r = i then (i, owner, body) else r) rows)
         | _ \<Rightarrow> Inl (SqlFailure ''bad parameters''))
      else if starts_with sql ''UPDATE'' then
        (case params of
           SqlText body # ids \<Rightarrow> Inr (map (\<lambda>(i, owner, b). (i, owner, if i \<in> set (integers ids) then body else b)) rows)
         | _ \<Rightarrow> Inl (SqlFailure ''bad parameters''))
      else Inr (filter (\<lambda>r. fst r \<notin> set (integers params)) rows))"

definition notes_query :: "string \<Rightarrow> sql_value list \<Rightarrow> note_rows \<Rightarrow> sql_failure + sql_row list" where
  "notes_query sql params rows =
     (if starts_with sql ''SELECT rowid FROM'' then
        Inr (map (\<lambda>r. [(''rowid'', SqlInteger (fst r))]) (filter (\<lambda>r. fst r \<in> set (integers params)) rows))
      else if starts_with sql ''SELECT rowid AS _rowid'' then
        Inr (map (\<lambda>r. (''_rowid'', SqlInteger (fst r)) # note_row r)
          (filter (\<lambda>(i, owner, body). list_all (\<lambda>p. p = SqlText owner) params) rows))
      else Inr (map note_row (filter (\<lambda>r. fst r \<in> set (integers params)) rows)))"

definition notes_engine :: "note_rows table_engine" where
  "notes_engine =
     \<lparr>te_execute = notes_execute, te_query = notes_query,
      te_last_rowid = (\<lambda>rows. if rows = [] then 0 else fst (last rows)),
      te_tables = (\<lambda>_. [''notes'', ''asdb_x'', ''_sdb_policies'']),
      te_table_info = (\<lambda>_ _. Inr [\<lparr>ci_cid = 0, ci_name = ''id'', ci_type = ''INTEGER'', ci_not_null = False,
         ci_default = None, ci_primary_key = True\<rparr>]),
      te_base64 = (\<lambda>b. b)\<rparr>"

definition notes_env :: storage_env where
  "notes_env = \<lparr>se_project = ''p'', se_utc_now = ''t'', se_sql_now = ''t'', se_serde = sample_serde, se_sha256 = (\<lambda>d. d)\<rparr>"

definition member :: "string \<Rightarrow> actor" where
  "member name = \<lparr>actor_sub = Some name, actor_role = ''authenticated'', actor_claims = []\<rparr>"

text \<open>The notes of two users under a policy for all operations: a row is its owner's.\<close>

definition owner_policy :: policy_row where
  "owner_policy = \<lparr>pr_id = 1, pr_table = ''notes'', pr_operation = ''all'', pr_name = ''all_policy'',
     pr_rule_json = to_json_text sample_serde owner_rule, pr_updated_at = ''t''\<rparr>"

definition notes_db :: "note_rows project_tables sql_db" where
  "notes_db = \<lparr>db_tables = \<lparr>pt_user = [(1, ''ada'', ''mine''), (2, ''bob'', ''his'')], pt_policies = [owner_policy],
      pt_policy_seq = 1,
      pt_storage = \<lparr>st_buckets = [], st_objects = [], st_outbox = [], st_outbox_seq = 0\<rparr>,
      pt_auth = \<lparr>at_users = [], at_tokens = [], at_sessions = []\<rparr>, pt_idempotency = []\<rparr>, db_faults = []\<rparr>"

definition note_body :: "int \<Rightarrow> string \<Rightarrow> string \<Rightarrow> json" where
  "note_body i owner body = jobj [(''id'', json_of_int i), (''owner'', JString owner), (''body'', JString body)]"
text \<open>
  An upsert on the key of another user's row: the policies are asked about the new row only, so
  the row changes hands; the update under the same policy does not reach it.
\<close>

lemma upsert_takes_over_row:
  "(case execute_upsert notes_env notes_engine ''notes'' (note_body 2 ''ada'' ''taken'') (member ''ada'') notes_db of
      (r, s) \<Rightarrow> is_ok r \<and> pt_user (db_tables s) = [(1, ''ada'', ''mine''), (2, ''ada'', ''taken'')])
   \<and> (case execute_update notes_env notes_engine ''notes'' [(''id'', ''2'')] (jobj [(''body'', JString ''taken'')]) (member ''carl'') notes_db of
      (r, s) \<Rightarrow> r = Inr (affected_json [], False) \<and> db_tables s = db_tables notes_db)"
  by code_simp

text \<open>
  A name the schema accepts and \<open>require_table\<close> does not: the underscores of its \<open>LIKE\<close> pattern
  match any character.
\<close>

lemma created_but_not_found:
  "is_ok (fst (execute_create_table notes_engine \<lparr>ts_name = ''asdb_x'', ts_columns = []\<rparr> notes_db))
   \<and> ''asdb_x'' \<in> set (te_tables notes_engine (pt_user (db_tables notes_db)))
   \<and> fst (require_table notes_engine ''asdb_x'' notes_db) = Inl (api_err 404 ''table not found: asdb_x'')"
  by code_simp

lemma insert_is_policed_witness:
  "\<exists>row. normalize_row_payload sample_serde (note_body 3 ''ada'' ''new'') = Inr row
    \<and> evaluate_policies (rules_for sample_serde (db_tables notes_db) ''notes'' ''insert'') row (member ''ada'') = Inr True"
proof -
  let ?run = "execute_insert notes_env notes_engine ''notes'' (note_body 3 ''ada'' ''new'') (member ''ada'') notes_db"
  have "?run = (Inr (projr (fst ?run)), snd ?run)" by (rule prod_eqI) (code_simp, simp)
  from insert_is_policed [OF this] show ?thesis by (auto simp: notes_env_def)
qed

definition no_filter :: filter_expr where
  "no_filter = AndAll []"


end
