(* ===== verification/Write_Pipeline.thy ===== *)
theory Write_Pipeline
  imports Table_Writes Durability
begin

text \<open>
  The single writer of a project (\<open>submit_write\<close> to \<open>execute_write_kind\<close> of \<open>runtime.rs\<close>): the
  bounded queue, the batches taken from it, the lease and the WAL budget checked before a batch,
  its jobs run one after the other, each under its idempotency key, and one flush for all of them
  before any is answered. A job is any of the seventeen write kinds of the program.
\<close>

section \<open>Jobs\<close>

datatype write_kind =
  CreateTable table_spec
| SetPolicy policy_spec
| Insert string json actor
| Upsert string json actor
| Update string "(string \<times> string) list" json actor
| Delete string "(string \<times> string) list" actor
| UpdatePostgrest string filter_expr json actor
| DeletePostgrest string filter_expr actor
| CreateBucket string
| PutObject string string bytes string actor
| DeleteObject string string actor
| DeleteBucket string
| AuthCreateUser json
| AuthIssueRefreshToken string string string int int
| AuthRotateRefreshToken string string int int
| AuthRevokeSessions string "string option" logout_scope int
| AuthUpdateUser string user_patch

record write_idempotency =
  wi_key :: string
  wi_request_hash :: string

record write_job =
  wj_kind :: write_kind
  wj_idempotency :: "write_idempotency option"

text \<open>
  What the writer runs on: the machine, the engine of the users' tables, and how a connection \<open>'c\<close>
  holds the tables: \<open>wr_view\<close> reads them, \<open>wr_commit\<close> is what SQLite makes of the connection and
  of the cache (the frames appended to the WAL file) when statements have left them changed.
\<close>

record ('w, 'c, 'u) writer =
  wr_machine :: "('w, 'c) machine"
  wr_tables :: "'u table_engine"
  wr_view :: "'c \<Rightarrow> 'u project_tables sql_db"
  wr_commit :: "'u project_tables sql_db \<Rightarrow> 'c \<Rightarrow> cache \<Rightarrow> 'c \<times> cache"
  wr_sql_now :: "nat \<Rightarrow> string"

definition writer_env :: "('w, 'c, 'u) writer \<Rightarrow> ('w, 'c) px \<Rightarrow> storage_env" where
  "writer_env W p =
     (let M = wr_machine W; ticks = sys_ticks (h_sys (px_host p))
      in \<lparr>se_project = ps_project_id (px_st p), se_utc_now = iso_from_unix (int (mc_clock M ticks div 1000)),
          se_sql_now = wr_sql_now W ticks, se_serde = rt_serde (mc_rt M), se_sha256 = rt_sha256 (mc_rt M)\<rparr>)"

definition save_conn :: "('w, 'c, 'u) writer \<Rightarrow> 'u project_tables sql_db \<Rightarrow> ('w, 'c) px \<Rightarrow> ('w, 'c) px" where
  "save_conn W db p =
     (case wr_commit W db (ps_conn (px_st p)) (h_cache (px_host p)) of
        (conn, cache) \<Rightarrow> p\<lparr>px_host := (px_host p)\<lparr>h_cache := cache\<rparr>, px_st := (px_st p)\<lparr>ps_conn := conn\<rparr>\<rparr>)"

definition on_conn :: "('w, 'c, 'u) writer \<Rightarrow> ('u, 'a) table_tx \<Rightarrow> ('w, 'c, 'a) px_action" where
  "on_conn W m p = (case m (wr_view W (ps_conn (px_st p))) of (r, db) \<Rightarrow> (r, save_conn W db p))"

text \<open>Storage works on its part of the tables and on the objects.\<close>

definition on_storage :: "('w, 'c, 'u) writer \<Rightarrow> ('w, 'a) storage_action \<Rightarrow> ('w, 'c, 'a) px_action" where
  "on_storage W m p =
     (let db = wr_view W (ps_conn (px_st p)); h = px_host p
      in case m \<lparr>ss_db = \<lparr>db_tables = pt_storage (db_tables db), db_faults = db_faults db\<rparr>, ss_world = sys_world (h_sys h)\<rparr> of
           (r, s) \<Rightarrow> (r, save_conn W
              \<lparr>db_tables = put_storage (db_tables (ss_db s)) (db_tables db), db_faults = db_faults (ss_db s)\<rparr>
              (p\<lparr>px_host := h\<lparr>h_sys := (h_sys h)\<lparr>sys_world := ss_world s\<rparr>\<rparr>\<rparr>)))"

text \<open>\<open>From<AuthStoreError> for ApiError\<close>; the text of a JSON error is the package's.\<close>

fun auth_api_error :: "auth_store_error \<Rightarrow> api_error" where
  "auth_api_error UserAlreadyRegistered = api_err 400 ''User already registered''"
| "auth_api_error UserNotFound = api_err 404 ''User not found''"
| "auth_api_error InvalidRefreshToken = api_err 401 ''Invalid refresh token''"
| "auth_api_error SessionRequired = api_err 400 ''Session id is required''"
| "auth_api_error (AuthSqlite e) = sql_api_error e"
| "auth_api_error (AuthJson (MalformedJson e)) = json_api_error e"
| "auth_api_error (AuthJson (MissingField f)) = json_api_error (''missing field `'' @ f @ ''`'')"

definition on_auth :: "('w, 'c, 'u) writer \<Rightarrow> 'a auth_action \<Rightarrow> ('w, 'c, 'a) px_action" where
  "on_auth W m = on_conn W (zoom pt_auth put_auth (amap_err auth_api_error m))"

definition committing :: "('s, 'e, 'a) action \<Rightarrow> ('s, 'e, 'a \<times> bool) action" where
  "committing m = abind m (\<lambda>v. aret (v, True))"

definition issued_json :: "string \<Rightarrow> string \<Rightarrow> string \<Rightarrow> int \<Rightarrow> int \<Rightarrow> json" where
  "issued_json token uid sid created expires =
     jobj [(''token'', JString token), (''user_id'', JString uid), (''session_id'', JString sid),
           (''created_at'', json_of_int created), (''expires_at'', json_of_int expires)]"

text \<open>The result of a write kind and whether it committed.\<close>

fun run_write_kind :: "('w, 'c, 'u) writer \<Rightarrow> storage_env \<Rightarrow> write_kind \<Rightarrow> ('w, 'c, json \<times> bool) px_action" where
  "run_write_kind W E (CreateTable spec) = committing (on_conn W (execute_create_table (wr_tables W) spec))"
| "run_write_kind W E (SetPolicy spec) = committing (on_conn W (execute_set_policy E (wr_tables W) spec))"
| "run_write_kind W E (Insert table data actor) = committing (on_conn W (execute_insert E (wr_tables W) table data actor))"
| "run_write_kind W E (Upsert table data actor) = committing (on_conn W (execute_upsert E (wr_tables W) table data actor))"
| "run_write_kind W E (Update table filters data actor) =
     on_conn W (execute_update E (wr_tables W) table filters data actor)"
| "run_write_kind W E (Delete table filters actor) = on_conn W (execute_delete E (wr_tables W) table filters actor)"
| "run_write_kind W E (UpdatePostgrest table filters data actor) =
     on_conn W (execute_update_postgrest E (wr_tables W) table filters data actor)"
| "run_write_kind W E (DeletePostgrest table filters actor) =
     on_conn W (execute_delete_postgrest E (wr_tables W) table filters actor)"
| "run_write_kind W E (CreateBucket name) = committing (on_storage W (execute_create_bucket E name))"
| "run_write_kind W E (PutObject bucket key data content_type actor) =
     committing (on_storage W (execute_put_object E (mc_store (wr_machine W)) bucket key data content_type actor))"
| "run_write_kind W E (DeleteObject bucket key actor) =
     on_storage W (execute_delete_object E (mc_store (wr_machine W)) bucket key actor)"
| "run_write_kind W E (DeleteBucket name) = committing (on_storage W (execute_delete_bucket name))"
| "run_write_kind W E (AuthCreateUser user) = committing (on_auth W (create_user (se_serde E) user))"
| "run_write_kind W E (AuthIssueRefreshToken token uid sid created expires) =
     committing (abind (on_auth W (issue_refresh_token token uid sid created expires)) (\<lambda>_.
       aret (issued_json token uid sid created expires)))"
| "run_write_kind W E (AuthRotateRefreshToken old_token new_token created expires) =
     committing (on_auth W (rotate_refresh_token (se_serde E) old_token new_token created expires))"
| "run_write_kind W E (AuthRevokeSessions uid current scope revoked_at) =
     abind (on_auth W (revoke_sessions uid current scope revoked_at)) (\<lambda>revoked.
       aret (jobj [(''revoked_sessions'', json_of_nat revoked)], 0 < revoked))"
| "run_write_kind W E (AuthUpdateUser uid patch) = committing (on_auth W (update_user (se_serde E) uid patch))"

definition execute_write_kind ::
    "('w, 'c, 'u) writer \<Rightarrow> write_kind \<Rightarrow> ('w, 'c) px \<Rightarrow> (json api \<times> bool) \<times> ('w, 'c) px" where
  "execute_write_kind W kind p =
     (case run_write_kind W (writer_env W p) kind p of
        (Inl e, p') \<Rightarrow> ((Inl e, False), p')
      | (Inr (v, committed), p') \<Rightarrow> ((Inr v, committed), p'))"

section \<open>Idempotency keys\<close>

definition idempotency_marks :: string where
  "idempotency_marks = [CHR ''-'', CHR ''_'', CHR ''.'', CHR '':'']"

definition idempotency_key_char :: "char \<Rightarrow> bool" where
  "idempotency_key_char c \<longleftrightarrow> is_ascii_alphanumeric c \<or> c \<in> set idempotency_marks"

definition validate_idempotency :: "write_idempotency \<Rightarrow> unit api" where
  "validate_idempotency i =
     (let key = trim (wi_key i)
      in if key = [] \<or> 256 < length key then Inl (api_err 400 ''idempotency key must be 1..256 bytes'')
         else if \<not> list_all idempotency_key_char key
         then Inl (api_err 400 (''idempotency key may contain only ASCII letters, digits, ''
                @ join '', '' (map (\<lambda>c. [CHR 39, c, CHR 39]) idempotency_marks)))
         else if length (wi_request_hash i) \<noteq> 64 \<or> \<not> list_all is_ascii_hexdigit (wi_request_hash i)
         then Inl (api_err 400 ''idempotency request hash must be a SHA-256 hex string'')
         else Inr ())"

definition find_idempotency :: "'u project_tables \<Rightarrow> string \<Rightarrow> idempotency_row option" where
  "find_idempotency d key = find (\<lambda>r. ir_key r = key) (pt_idempotency d)"

definition replay_record :: "runtime \<Rightarrow> nat \<Rightarrow> write_idempotency \<Rightarrow> idempotency_row \<Rightarrow> json option api" where
  "replay_record rt commit_seq i r =
     (if ir_request_hash r \<noteq> wi_request_hash i
      then Inl (api_err 409 ''idempotency key was already used with a different request'')
      else rbind (bookmark_to_seq (ir_bookmark r)) (\<lambda>seq.
        if commit_seq < seq
        then Inl (api_err 425 (''idempotent write result is pending durable commit: requested='' @ ir_bookmark r
               @ '', current='' @ bookmark_for_seq commit_seq))
        else rmap Some (ok_or (json_api_error (rt_json_error rt (ir_response_json r)))
               (from_json_text (rt_serde rt) (ir_response_json r)))))"

definition load_idempotency_record ::
    "('w, 'c, 'u) writer \<Rightarrow> write_idempotency \<Rightarrow> ('w, 'c, json option) px_action" where
  "load_idempotency_record W i =
     abind get_state (\<lambda>st.
     abind (on_conn W (pt_stmt (query (\<lambda>d. find_idempotency d (wi_key i))))) (\<lambda>existing.
       case existing of
         None \<Rightarrow> aret None
       | Some r \<Rightarrow> alift (replay_record (mc_rt (wr_machine W)) (ps_commit_seq st) i r)))"

definition insert_idempotency :: "idempotency_row \<Rightarrow> 'u project_tables \<Rightarrow> sql_failure + nat \<times> 'u project_tables" where
  "insert_idempotency r d =
     (if find_idempotency d (ir_key r) \<noteq> None then Inl (ConstraintViolation ''UNIQUE constraint failed'')
      else Inr (1, d\<lparr>pt_idempotency := pt_idempotency d @ [r]\<rparr>))"

definition store_idempotency_record ::
    "('w, 'c, 'u) writer \<Rightarrow> write_idempotency \<Rightarrow> string \<Rightarrow> json \<Rightarrow> ('w, 'c, nat) px_action" where
  "store_idempotency_record W i bookmark response =
     on_conn W (pt_stmt (execute (insert_idempotency
       \<lparr>ir_key = wi_key i, ir_request_hash = wi_request_hash i,
        ir_response_json = to_json_text (rt_serde (mc_rt (wr_machine W))) response, ir_bookmark = bookmark\<rparr>)))"

definition execute_idempotent_write_kind ::
    "('w, 'c, 'u) writer \<Rightarrow> write_kind \<Rightarrow> write_idempotency \<Rightarrow> string \<Rightarrow> ('w, 'c) px \<Rightarrow> (json api \<times> bool) \<times> ('w, 'c) px" where
  "execute_idempotent_write_kind W kind i pending p =
     (case validate_idempotency i of
        Inl e \<Rightarrow> ((Inl e, False), p)
      | Inr _ \<Rightarrow>
          (case load_idempotency_record W i p of
             (Inl e, p1) \<Rightarrow> ((Inl e, False), p1)
           | (Inr (Some v), p1) \<Rightarrow> ((Inr v, False), p1)
           | (Inr None, p1) \<Rightarrow>
               (case execute_write_kind W kind p1 of
                  ((Inl e, _), p2) \<Rightarrow> ((Inl e, False), p2)
                | ((Inr v, _), p2) \<Rightarrow>
                    (let response = with_bookmark v pending
                     in case store_idempotency_record W i pending response p2 of
                          (Inl e, p3) \<Rightarrow> ((Inl e, True), p3)
                        | (Inr _, p3) \<Rightarrow> ((Inr response, True), p3)))))"

definition execute_write_job ::
    "('w, 'c, 'u) writer \<Rightarrow> write_job \<Rightarrow> string \<Rightarrow> ('w, 'c) px \<Rightarrow> (json api \<times> bool) \<times> ('w, 'c) px" where
  "execute_write_job W job pending =
     (case wj_idempotency job of
        Some i \<Rightarrow> execute_idempotent_write_kind W (wj_kind job) i pending
      | None \<Rightarrow> execute_write_kind W (wj_kind job))"

section \<open>Batches\<close>

fun run_jobs ::
    "('w, 'c, 'u) writer \<Rightarrow> write_job list \<Rightarrow> ('w, 'c) px \<Rightarrow> (json api \<times> bool) list \<times> ('w, 'c) px" where
  "run_jobs W [] p = ([], p)"
| "run_jobs W (job # jobs) p =
     (case execute_write_job W job (bookmark_for_seq (saturating_add (ps_commit_seq (px_st p)) 1)) p of
        (slot, p1) \<Rightarrow> (case run_jobs W jobs p1 of (slots, p2) \<Rightarrow> (slot # slots, p2)))"

definition committed_ops :: "(json api \<times> bool) list \<Rightarrow> nat" where
  "committed_ops slots = length (filter snd slots)"

definition flush_batch :: "('w, 'c, 'u) writer \<Rightarrow> nat \<Rightarrow> ('w, 'c, unit) px_action" where
  "flush_batch W n =
     abind (ensure_writer_lease_for_state (wr_machine W)) (\<lambda>_.
       durabilize_wal (wr_machine W) (''group_commit:'' @ show_nat n @ ''_ops'') n)"

text \<open>The answer to a slot, given what the flush returned.\<close>

fun answer_slot :: "string api \<Rightarrow> json api \<times> bool \<Rightarrow> json api" where
  "answer_slot (Inl e) (Inr v, True) = Inl e"
| "answer_slot (Inr bookmark) (Inr v, True) = Inr (with_bookmark v bookmark)"
| "answer_slot flushed (r, committed) = r"

definition prepare_batch :: "('w, 'c, 'u) writer \<Rightarrow> ('w, 'c, unit) px_action" where
  "prepare_batch W =
     abind (ensure_writer_lease_for_state (wr_machine W)) (\<lambda>_. ensure_wal_budget (wr_machine W))"

text \<open>The answers, and whether the readers waiting for events are woken.\<close>

definition execute_write_batch ::
    "('w, 'c, 'u) writer \<Rightarrow> write_job list \<Rightarrow> ('w, 'c) px \<Rightarrow> (json api list \<times> bool) \<times> ('w, 'c) px" where
  "execute_write_batch W batch p =
     (case prepare_batch W p of
        (Inl e, p1) \<Rightarrow> ((map (\<lambda>_. Inl e) batch, False), p1)
      | (Inr _, p1) \<Rightarrow>
          (case run_jobs W batch p1 of
             (slots, p2) \<Rightarrow>
               if committed_ops slots = 0 then ((map fst slots, False), p2)
               else (case flush_batch W (committed_ops slots) p2 of
                       (Inl e, p3) \<Rightarrow> ((map (answer_slot (Inl e)) slots, False), p3)
                     | (Inr _, p3) \<Rightarrow>
                         ((map (answer_slot (Inr (bookmark_for_seq (ps_commit_seq (px_st p3))))) slots, True), p3))))"

section \<open>The queue\<close>

definition ensure_primary_write_allowed :: "runtime \<Rightarrow> string \<Rightarrow> unit api" where
  "ensure_primary_write_allowed rt operation =
     (if read_replica (rt_opts rt)
      then Inl (api_err 405 (''read replica cannot accept '' @ operation @ ''; forward the request to the primary''))
      else Inr ())"

text \<open>
  The writer thread with its channel: the jobs in it, numbered by arrival, the batch the thread
  is gathering and the answers given. A submission may be refused. The thread takes jobs while
  the batch is not full, and runs the batch when it is full, when its delay ends, or when the
  channel is empty; the model allows it at any time the batch is not empty.
\<close>

record ('w, 'c) writer_queue =
  wq_next :: nat
  wq_channel :: "(nat \<times> write_job) list"
  wq_batch :: "(nat \<times> write_job) list"
  wq_answers :: "(nat \<times> json api) list"
  wq_px :: "('w, 'c) px"

definition submit_write ::
    "('w, 'c, 'u) writer \<Rightarrow> write_job \<Rightarrow> ('w, 'c) writer_queue \<Rightarrow> nat api \<times> ('w, 'c) writer_queue" where
  "submit_write W job q =
     (let rt = mc_rt (wr_machine W)
      in case ensure_primary_write_allowed rt ''write'' of
           Inl e \<Rightarrow> (Inl e, q)
         | Inr _ \<Rightarrow>
             if max 1 (writer_queue_capacity (rt_opts rt)) \<le> length (wq_channel q)
             then (Inl (api_err 429 ''project writer queue is full''), q)
             else (Inr (wq_next q), q\<lparr>wq_next := wq_next q + 1, wq_channel := wq_channel q @ [(wq_next q, job)]\<rparr>))"

definition run_batch :: "('w, 'c, 'u) writer \<Rightarrow> ('w, 'c) writer_queue \<Rightarrow> ('w, 'c) writer_queue" where
  "run_batch W q =
     (case execute_write_batch W (map snd (wq_batch q)) (wq_px q) of
        ((answers, woken), p) \<Rightarrow>
          q\<lparr>wq_batch := [], wq_answers := wq_answers q @ zip (map fst (wq_batch q)) answers, wq_px := p\<rparr>)"

inductive writer_step :: "('w, 'c, 'u) writer \<Rightarrow> ('w, 'c) writer_queue \<Rightarrow> ('w, 'c) writer_queue \<Rightarrow> bool" for W where
  submit: "submit_write W job q = (r, q') \<Longrightarrow> writer_step W q q'"
| take: "wq_channel q = job # jobs \<Longrightarrow> length (wq_batch q) < max 1 (group_commit_max_ops (rt_opts (mc_rt (wr_machine W)))) \<Longrightarrow>
    writer_step W q (q\<lparr>wq_channel := jobs, wq_batch := wq_batch q @ [job]\<rparr>)"
| run: "wq_batch q \<noteq> [] \<Longrightarrow> writer_step W q (run_batch W q)"

inductive_cases writer_stepE: "writer_step W q q'"

end
