(* ===== verification/Write_Pipeline_Properties.thy ===== *)
theory Write_Pipeline_Properties
  imports Write_Pipeline Durability_Properties
begin

text \<open>
  What the writer of a project guarantees: every accepted job is answered once and in order,
  an answer that acknowledges a write comes after the flush that made it durable, a writer without
  the lease runs nothing, and a request repeated under its idempotency key is not run again.
\<close>

section \<open>The queue\<close>

lemma run_jobs_length: "run_jobs W jobs p = (slots, p') \<Longrightarrow> length slots = length jobs"
  by (induction jobs arbitrary: p slots) (auto split: prod.splits)

lemma batch_answers_length:
  "length (fst (fst (execute_write_batch W jobs p))) = length jobs"
  by (auto simp: execute_write_batch_def run_jobs_length split: prod.split sum.split)

definition queue_inv :: "('w, 'c, 'u) writer \<Rightarrow> ('w, 'c) writer_queue \<Rightarrow> bool" where
  "queue_inv W q \<longleftrightarrow>
     map fst (wq_answers q) @ map fst (wq_batch q) @ map fst (wq_channel q) = [0..<wq_next q]
     \<and> length (wq_channel q) \<le> max 1 (writer_queue_capacity (rt_opts (mc_rt (wr_machine W))))
     \<and> length (wq_batch q) \<le> max 1 (group_commit_max_ops (rt_opts (mc_rt (wr_machine W))))"

lemma run_batch_inv: "queue_inv W q \<Longrightarrow> queue_inv W (run_batch W q)"
  using batch_answers_length [of W "map snd (wq_batch q)" "wq_px q"]
  by (auto simp: run_batch_def queue_inv_def split: prod.split)

lemma writer_step_inv: "writer_step W q q' \<Longrightarrow> queue_inv W q \<Longrightarrow> queue_inv W q'"
proof (induction rule: writer_step.induct)
  case (submit job q r q')
  then show ?case
    by (auto simp: submit_write_def queue_inv_def Let_def split: sum.splits if_splits)
next
  case (take q job jobs)
  then show ?case by (auto simp: queue_inv_def)
qed (rule run_batch_inv)

lemma writer_history: "(writer_step W)\<^sup>*\<^sup>* q q' \<Longrightarrow> queue_inv W q \<Longrightarrow> queue_inv W q'"
  by (induction rule: rtranclp_induct) (auto dest: writer_step_inv)

text \<open>The thread can always work the queue off.\<close>

lemma queue_drains:
  "\<exists>q'. (writer_step W)\<^sup>*\<^sup>* q q' \<and> wq_channel q' = [] \<and> wq_batch q' = [] \<and> wq_next q' = wq_next q"
proof (induction "length (wq_channel q)" arbitrary: q rule: less_induct)
  case less
  define q1 where "q1 = (if wq_batch q = [] then q else run_batch W q)"
  have q1: "(writer_step W)\<^sup>*\<^sup>* q q1" "wq_batch q1 = []" "wq_channel q1 = wq_channel q" "wq_next q1 = wq_next q"
    using writer_step.run [of q W] by (auto simp: q1_def run_batch_def split: prod.split)
  show ?case
  proof (cases "wq_channel q1")
    case Nil
    with q1 show ?thesis by (intro exI [of _ q1]) auto
  next
    case (Cons job jobs)
    let ?q2 = "q1\<lparr>wq_channel := jobs, wq_batch := wq_batch q1 @ [job]\<rparr>"
    have "writer_step W q1 ?q2" by (rule writer_step.take [OF Cons]) (simp add: q1)
    moreover obtain q3 where "(writer_step W)\<^sup>*\<^sup>* ?q2 q3" "wq_channel q3 = []" "wq_batch q3 = []" "wq_next q3 = wq_next ?q2"
      using less [of ?q2] Cons q1(3) by auto
    ultimately show ?thesis using q1 by (intro exI [of _ q3]) auto
  qed
qed

definition empty_queue :: "('w, 'c) px \<Rightarrow> ('w, 'c) writer_queue" where
  "empty_queue p = \<lparr>wq_next = 0, wq_channel = [], wq_batch = [], wq_answers = [], wq_px = p\<rparr>"

text \<open>
  C9: every accepted job is answered exactly once and in the order of arrival: at any time the
  answered jobs, the batch and the channel are the accepted jobs in order; the channel and the
  batch keep their bounds; and the thread can always answer all that is accepted.
\<close>

theorem jobs_answered_once_in_order:
  assumes "(writer_step W)\<^sup>*\<^sup>* (empty_queue p) q"
  shows "map fst (wq_answers q) @ map fst (wq_batch q) @ map fst (wq_channel q) = [0..<wq_next q]
    \<and> length (wq_channel q) \<le> max 1 (writer_queue_capacity (rt_opts (mc_rt (wr_machine W))))
    \<and> length (wq_batch q) \<le> max 1 (group_commit_max_ops (rt_opts (mc_rt (wr_machine W))))
    \<and> (\<exists>q'. (writer_step W)\<^sup>*\<^sup>* q q' \<and> map fst (wq_answers q') = [0..<wq_next q])"
proof -
  have inv: "queue_inv W q" by (rule writer_history [OF assms]) (simp add: queue_inv_def empty_queue_def)
  obtain q' where q': "(writer_step W)\<^sup>*\<^sup>* q q'" "wq_channel q' = []" "wq_batch q' = []" "wq_next q' = wq_next q"
    using queue_drains by blast
  with writer_history [OF q'(1) inv] have "map fst (wq_answers q') = [0..<wq_next q]" by (simp add: queue_inv_def)
  with q'(1) inv show ?thesis unfolding queue_inv_def by blast
qed

section \<open>What the jobs of a batch keep\<close>

text \<open>
  A reflexive and transitive relation that every write kind of \<open>P\<close> keeps, and every statement on
  the idempotency records, is kept by a job of \<open>P\<close> and by all the jobs of a batch of them.
\<close>

locale job_order = step_order R for R :: "('w, 'c) px \<Rightarrow> ('w, 'c) px \<Rightarrow> bool" +
  fixes W :: "('w, 'c, 'u) writer"
    and P :: "write_kind \<Rightarrow> bool"
  assumes kind_kept: "P kind \<Longrightarrow> R p (snd (run_write_kind W (writer_env W p) kind p))"
    and load_kept: "keeps R (load_idempotency_record W i)"
    and store_kept: "keeps R (store_idempotency_record W i bookmark v)"
begin

lemma kind_step: "execute_write_kind W kind p = (r, p') \<Longrightarrow> P kind \<Longrightarrow> R p p'"
  using kind_kept [of kind p] by (auto simp: execute_write_kind_def split: prod.splits sum.splits)

lemma load_step: "load_idempotency_record W i p = (r, p') \<Longrightarrow> R p p'"
  using load_kept [of i] by (metis keeps_def snd_conv)

lemma store_step: "store_idempotency_record W i bookmark v p = (r, p') \<Longrightarrow> R p p'"
  using store_kept [of i bookmark v] by (metis keeps_def snd_conv)

lemma job_step: "execute_write_job W job pending p = (r, p') \<Longrightarrow> P (wj_kind job) \<Longrightarrow> R p p'"
  by (auto simp: execute_write_job_def execute_idempotent_write_kind_def Let_def refl
      split: option.splits sum.splits prod.splits dest!: load_step kind_step store_step intro: trans)

lemma jobs_step: "run_jobs W jobs p = (slots, p') \<Longrightarrow> list_all (\<lambda>job. P (wj_kind job)) jobs \<Longrightarrow> R p p'"
  by (induction jobs arbitrary: p slots)
    (auto simp: refl split: prod.splits dest!: job_step intro: trans)

end

section \<open>Idempotency\<close>

text \<open>What the view of a connection promises: it shows the tables that were committed to it.\<close>

definition view_faithful :: "('w, 'c, 'u) writer \<Rightarrow> bool" where
  "view_faithful W \<longleftrightarrow> (\<forall>db conn cache. db_tables (wr_view W (fst (wr_commit W db conn cache))) = db_tables db)"

definition tables_of :: "('w, 'c, 'u) writer \<Rightarrow> ('w, 'c) px \<Rightarrow> 'u project_tables" where
  "tables_of W p = db_tables (wr_view W (ps_conn (px_st p)))"

lemma tables_of_save [simp]: "view_faithful W \<Longrightarrow> tables_of W (save_conn W db p) = db_tables db"
  by (simp add: tables_of_def save_conn_def view_faithful_def split: prod.split)
    (metis fst_conv)

lemma save_conn_state [simp]: "ps_commit_seq (px_st (save_conn W db p)) = ps_commit_seq (px_st p)"
  by (simp add: save_conn_def split: prod.split)

lemma on_conn_tables:
  assumes "on_conn W m p = (r, p')" and "view_faithful W"
  shows "\<exists>db. m (wr_view W (ps_conn (px_st p))) = (r, db) \<and> tables_of W p' = db_tables db"
    and "ps_commit_seq (px_st p') = ps_commit_seq (px_st p)"
  using assms by (auto simp: on_conn_def split: prod.splits)

text \<open>No write kind touches the idempotency records.\<close>

definition same_records :: "'u project_tables sql_db \<Rightarrow> 'u project_tables sql_db \<Rightarrow> bool" where
  "same_records s s' \<longleftrightarrow> pt_idempotency (db_tables s') = pt_idempotency (db_tables s)"

interpretation records: step_order same_records
  by unfold_locales (simp_all add: same_records_def)

named_theorems keeps_intros \<open>actions that leave the idempotency records\<close>

lemmas [keeps_intros] = records.keeps_pure records.keeps_bind records.keeps_map_err records.keeps_catch records.keeps_fold

lemma keeps_statement [keeps_intros]:
  "(\<And>d x d'. f d = Inr (x, d') \<Longrightarrow> pt_idempotency d' = pt_idempotency d) \<Longrightarrow> keeps same_records (statement f)"
  by (auto simp: keeps_def same_records_def statement_def split: option.split sum.split prod.split)

lemma keeps_query [keeps_intros]: "keeps same_records (query f)"
  unfolding query_def by (rule keeps_statement) simp

lemma keeps_zoom [keeps_intros]:
  "(\<And>t d. pt_idempotency (put t d) = pt_idempotency d) \<Longrightarrow> keeps same_records (zoom get put m)"
  by (auto simp: keeps_def same_records_def zoom_def split: prod.splits)

lemma keeps_transaction [keeps_intros]: "keeps same_records m \<Longrightarrow> keeps same_records (transaction conv m)"
proof -
  assume m: "keeps same_records m"
  have "same_records s (snd (transaction conv m s))" for s
  proof (cases "transaction conv m s")
    case (Pair r s')
    show ?thesis
    proof (cases r)
      case (Inl e)
      with Pair show ?thesis by (auto simp: same_records_def)
    next
      case (Inr x)
      with Pair obtain s2 where "m (use_fault s) = (Inr x, s2)" "s' = use_fault s2"
        by (auto elim: transaction_ok)
      with m Pair show ?thesis by (auto simp: keeps_def same_records_def dest: spec [of _ "use_fault s"])
    qed
  qed
  then show ?thesis by (simp add: keeps_def)
qed

lemma keeps_if [keeps_intros]:
  "keeps same_records m \<Longrightarrow> keeps same_records n \<Longrightarrow> keeps same_records (if b then m else n)"
  "(\<And>x. keeps same_records (g x)) \<Longrightarrow> keeps same_records n \<Longrightarrow>
     keeps same_records (case y of Some x \<Rightarrow> g x | None \<Rightarrow> n)"
  "(\<And>a b. keeps same_records (h a b)) \<Longrightarrow> keeps same_records (case z of (a, b) \<Rightarrow> h a b)"
  by (auto split: option.split prod.split)

lemma keeps_user [keeps_intros]:
  "keeps same_records (user_execute T sql params)" "keeps same_records (user_read f)"
  "keeps same_records (pt_stmt (query g))" "keeps same_records (in_storage m')"
  "keeps same_records (pt_stmt (execute (upsert_policy now table operation name rule)))"
  unfolding user_execute_def user_read_def pt_stmt_def in_storage_def execute_def
  by (auto intro!: keeps_intros simp: result_simps upsert_policy_def put_storage_def Let_def split: if_splits)

lemma keeps_reads [keeps_intros]:
  "keeps same_records (user_query T sql params)" "keeps same_records (user_query_row T sql params)"
  "keeps same_records (policy_rules E table operation)" "keeps same_records (require_table T table)"
  "keeps same_records (table_columns T table)" "keeps same_records (table_primary_key_columns T table)"
  unfolding user_query_row_def user_query_def policy_rules_def require_table_def table_columns_def
    table_primary_key_columns_def
  by (intro keeps_intros)+

lemma keeps_helpers [keeps_intros]:
  "keeps same_records (where_clause E table operation compile actor)" "keeps same_records (select_rowid T table rowid)"
  "keeps same_records (last_insert_rowid T)" "keeps same_records (existing_rowid T table pks params)"
  "keeps same_records (matching_rows T table w)" "keeps same_records (record_each E table operation actor rows)"
  unfolding where_clause_def select_rowid_def last_insert_rowid_def existing_rowid_def matching_rows_def record_each_def
  by (intro keeps_intros)+

lemma keeps_transactions [keeps_intros]:
  "keeps same_records (insert_tx E T table row columns actor)"
  "keeps same_records (upsert_tx E T table row columns pks rules actor)"
  "keeps same_records (update_tx E T table w patch updates rules actor)"
  "keeps same_records (delete_tx E T table w actor)"
  unfolding insert_tx_def upsert_tx_def update_tx_def apply_patch_def delete_tx_def Let_def
  by (intro keeps_intros)+

lemma keeps_table_writes [keeps_intros]:
  "keeps same_records (execute_create_table T spec)" "keeps same_records (execute_set_policy E T policy)"
  "keeps same_records (execute_insert E T table data actor)" "keeps same_records (execute_upsert E T table data actor)"
  "keeps same_records (update_with E T table compile data actor)" "keeps same_records (delete_with E T table compile actor)"
  unfolding execute_create_table_def execute_set_policy_def execute_insert_def execute_upsert_def update_with_def
    delete_with_def Let_def
  by (intro keeps_intros)+
text \<open>A job on the connection may add a record; it neither changes nor removes one.\<close>

definition records_kept :: "('w, 'c, 'u) writer \<Rightarrow> ('w, 'c) px \<Rightarrow> ('w, 'c) px \<Rightarrow> bool" where
  "records_kept W p p' \<longleftrightarrow>
     (view_faithful W \<longrightarrow> (\<exists>new. pt_idempotency (tables_of W p') = pt_idempotency (tables_of W p) @ new))"

interpretation kept: step_order "records_kept W" for W
proof
  fix s t u
  show "records_kept W s s" by (simp add: records_kept_def)
  show "records_kept W s t \<Longrightarrow> records_kept W t u \<Longrightarrow> records_kept W s u"
    by (fastforce simp: records_kept_def)
qed

lemma keeps_on_conn:
  fixes W :: "('w, 'c, 'u) writer"
  assumes "keeps same_records m"
  shows "keeps (records_kept W) (on_conn W m)"
  unfolding keeps_def
proof
  fix p :: "('w, 'c) px"
  obtain r db where m: "m (wr_view W (ps_conn (px_st p))) = (r, db)" by (cases "m (wr_view W (ps_conn (px_st p)))")
  with assms have "same_records (wr_view W (ps_conn (px_st p))) db" by (metis keeps_def snd_conv)
  with m show "records_kept W p (snd (on_conn W m p))"
    by (simp add: on_conn_def records_kept_def same_records_def) (simp add: tables_of_def)
qed

lemma keeps_on_storage: "keeps (records_kept W) (on_storage W m)"
  by (auto simp: keeps_def on_storage_def records_kept_def put_storage_def tables_of_def [of W] Let_def split: prod.split)
    (simp add: tables_of_def [symmetric])

lemma keeps_on_auth: "keeps (records_kept W) (on_auth W m)"
  unfolding on_auth_def by (rule keeps_on_conn) (auto intro!: keeps_intros simp: put_auth_def)

lemma run_write_kind_keeps: "keeps (records_kept W) (run_write_kind W E kind)"
  unfolding committing_def
  by (cases kind)
    (auto simp: committing_def execute_update_def execute_delete_def execute_update_postgrest_def
      execute_delete_postgrest_def intro!: kept.keeps_bind keeps_on_conn keeps_on_storage keeps_on_auth keeps_table_writes)

text \<open>Reading a record reads the tables and leaves them.\<close>

lemma load_record_run:
  assumes "view_faithful W" and "load_idempotency_record W i p = (r, p')"
  shows "tables_of W p' = tables_of W p \<and> ps_commit_seq (px_st p') = ps_commit_seq (px_st p)
    \<and> r = (case next_fault (wr_view W (ps_conn (px_st p))) of
             Some e \<Rightarrow> Inl (sql_api_error (SqlFailure e))
           | None \<Rightarrow> (case find_idempotency (tables_of W p) (wi_key i) of
                 None \<Rightarrow> Inr None
               | Some rec \<Rightarrow> replay_record (mc_rt (wr_machine W)) (ps_commit_seq (px_st p)) i rec))"
  using assms
  by (auto simp: load_idempotency_record_def get_state_def on_conn_def abind_def pt_stmt_def amap_err_def query_def
      statement_def tables_of_def split: option.splits prod.splits)
    (auto simp: tables_of_def [symmetric])

lemma store_record_run:
  assumes "store_idempotency_record W i b v p = (r, p')"
  shows "records_kept W p p'"
    and "view_faithful W \<Longrightarrow> r = Inr n \<Longrightarrow> find_idempotency (tables_of W p) (wi_key i) = None
      \<and> pt_idempotency (tables_of W p') = pt_idempotency (tables_of W p) @
          [\<lparr>ir_key = wi_key i, ir_request_hash = wi_request_hash i,
            ir_response_json = to_json_text (rt_serde (mc_rt (wr_machine W))) v, ir_bookmark = b\<rparr>]"
  using assms
  by (auto simp: store_idempotency_record_def on_conn_def pt_stmt_def amap_err_def execute_def statement_def
      insert_idempotency_def records_kept_def split: option.splits prod.splits sum.splits if_splits)
    (auto simp: tables_of_def [symmetric])

interpretation kept_jobs: job_order "records_kept W" W "\<lambda>_. True" for W
proof
  fix p kind i bookmark v
  show "records_kept W p (snd (run_write_kind W (writer_env W p) kind p))"
    using run_write_kind_keeps [of W "writer_env W p" kind] by (simp add: keeps_def)
  show "keeps (records_kept W) (load_idempotency_record W i)"
    unfolding load_idempotency_record_def get_state_def
    by (auto intro!: kept.keeps_bind keeps_on_conn keeps_intros split: option.split)
  show "keeps (records_kept W) (store_idempotency_record W i bookmark v)"
    by (simp add: keeps_def store_record_run(1) [OF prod.collapse [symmetric]])
qed

lemma records_kept_find:
  "view_faithful W \<Longrightarrow> records_kept W p p' \<Longrightarrow> find_idempotency (tables_of W p) key = Some rec \<Longrightarrow>
     find_idempotency (tables_of W p') key = Some rec"
proof (unfold records_kept_def find_idempotency_def, elim impE exE)
  fix new
  have "find f xs = Some x \<Longrightarrow> find f (xs @ ys) = Some x" for f :: "idempotency_row \<Rightarrow> bool" and xs ys x
    by (induction xs) auto
  then show "find (\<lambda>r. ir_key r = key) (pt_idempotency (tables_of W p)) = Some rec \<Longrightarrow>
    pt_idempotency (tables_of W p') = pt_idempotency (tables_of W p) @ new \<Longrightarrow>
    find (\<lambda>r. ir_key r = key) (pt_idempotency (tables_of W p')) = Some rec" by simp
qed

text \<open>The record of a request that was run.\<close>

definition request_record :: "('w, 'c, 'u) writer \<Rightarrow> write_idempotency \<Rightarrow> json \<Rightarrow> nat \<Rightarrow> idempotency_row" where
  "request_record W i v seq =
     \<lparr>ir_key = wi_key i, ir_request_hash = wi_request_hash i,
      ir_response_json = to_json_text (rt_serde (mc_rt (wr_machine W))) v, ir_bookmark = bookmark_for_seq seq\<rparr>"

lemma keyed_job_stores:
  assumes W: "view_faithful W"
    and run: "execute_write_job W \<lparr>wj_kind = kind, wj_idempotency = Some i\<rparr> (bookmark_for_seq seq) p = ((Inr v, True), p')"
  shows "find_idempotency (tables_of W p') (wi_key i) = Some (request_record W i v seq)"
proof -
  from run obtain p2 n where "store_idempotency_record W i (bookmark_for_seq seq) v p2 = (Inr n, p')"
    by (auto simp: execute_write_job_def execute_idempotent_write_kind_def Let_def
        split: sum.splits prod.splits option.splits)
  from store_record_run(2) [OF this W refl] show ?thesis
    by (auto simp: find_idempotency_def request_record_def find_key_append split: option.splits)
qed

text \<open>What a request is answered whose key belongs to a record, without running.\<close>

lemma replay_run:
  assumes W: "view_faithful W" and serde: "serde_roundtrip (rt_serde (mc_rt (wr_machine W)))" "json_exact v"
    and seq: "seq \<le> u64_max" and valid: "validate_idempotency i' = Inr ()" and key: "wi_key i' = wi_key i"
    and rec: "find_idempotency (tables_of W p) (wi_key i) = Some (request_record W i v seq)"
    and run: "execute_write_job W \<lparr>wj_kind = kind, wj_idempotency = Some i'\<rparr> pending p = ((r, committed), p')"
  shows "\<not> committed \<and> tables_of W p' = tables_of W p
    \<and> r = (case next_fault (wr_view W (ps_conn (px_st p))) of
             Some e \<Rightarrow> Inl (sqlite_api_error e)
           | None \<Rightarrow>
               if wi_request_hash i' \<noteq> wi_request_hash i
               then Inl (api_err 409 ''idempotency key was already used with a different request'')
               else if ps_commit_seq (px_st p) < seq
               then Inl (api_err 425 (''idempotent write result is pending durable commit: requested=''
                      @ bookmark_for_seq seq @ '', current='' @ bookmark_for_seq (ps_commit_seq (px_st p))))
               else Inr v)"
proof -
  obtain r1 p1 where load: "load_idempotency_record W i' p = (r1, p1)" by (cases "load_idempotency_record W i' p")
  note l = load_record_run [OF W load, unfolded key rec option.case]
  have rep: "replay_record (mc_rt (wr_machine W)) c i' (request_record W i v seq) =
     (if wi_request_hash i' \<noteq> wi_request_hash i
      then Inl (api_err 409 ''idempotency key was already used with a different request'')
      else if c < seq
      then Inl (api_err 425 (''idempotent write result is pending durable commit: requested=''
             @ bookmark_for_seq seq @ '', current='' @ bookmark_for_seq c))
      else Inr (Some v))" for c
    using serde seq by (simp add: replay_record_def request_record_def bookmark_roundtrip serde_roundtripD)
  from run valid load show ?thesis
    by (simp add: execute_write_job_def execute_idempotent_write_kind_def)
      (use l rep in \<open>auto split: option.splits sum.splits if_splits\<close>)
qed
text \<open>
  C2: a request under an idempotency key runs once. When it ran and answered \<open>v\<close>, then any
  jobs later, another request under the key changes no table, whatever it asks for: it is refused
  with 409 when it is not the same request, with 425 while the project has not reached the commit
  of the first, and answered \<open>v\<close> otherwise.
\<close>

theorem keyed_request_runs_once:
  assumes W: "view_faithful W" and serde: "serde_roundtrip (rt_serde (mc_rt (wr_machine W)))" "json_exact v"
    and seq: "seq \<le> u64_max" and valid: "validate_idempotency i' = Inr ()" and key: "wi_key i' = wi_key i"
    and first: "execute_write_job W \<lparr>wj_kind = kind, wj_idempotency = Some i\<rparr> (bookmark_for_seq seq) p = ((Inr v, True), p1)"
    and later: "run_jobs W jobs p1 = (slots, p2)" "tables_of W p3 = tables_of W p2"
    and again: "execute_write_job W \<lparr>wj_kind = kind', wj_idempotency = Some i'\<rparr> pending p3 = ((r, committed), p4)"
  shows "\<not> committed \<and> tables_of W p4 = tables_of W p3
    \<and> r = (case next_fault (wr_view W (ps_conn (px_st p3))) of
             Some e \<Rightarrow> Inl (sqlite_api_error e)
           | None \<Rightarrow>
               if wi_request_hash i' \<noteq> wi_request_hash i
               then Inl (api_err 409 ''idempotency key was already used with a different request'')
               else if ps_commit_seq (px_st p3) < seq
               then Inl (api_err 425 (''idempotent write result is pending durable commit: requested=''
                      @ bookmark_for_seq seq @ '', current='' @ bookmark_for_seq (ps_commit_seq (px_st p3))))
               else Inr v)"
  using replay_run [OF W serde seq valid key _ again] later(2)
    records_kept_find [OF W kept_jobs.jobs_step [OF later(1)] keyed_job_stores [OF W first]]
  by (simp add: list_all_iff)

end
