(* ===== verification/Write_Durability.thy ===== *)
theory Write_Durability
  imports Write_Pipeline_Properties Storage_Properties
begin

text \<open>
  Group commit as a whole: the jobs of a batch change the connection, append to the WAL file of
  the cache and write objects under the project's storage prefix, nothing else; the lease check
  before the flush writes lease objects only; so the project the flush makes durable is the one
  the jobs left, and an answer that acknowledges a write is given on a store from which the
  tables after the whole batch can be recovered.
\<close>

section \<open>The objects of storage\<close>

definition storage_area :: "string \<Rightarrow> string \<Rightarrow> bool" where
  "storage_area pid k \<longleftrightarrow> prefix (''projects/'' @ pid @ ''/storage/'') k"

lemma storage_key_area [simp]: "storage_area pid (storage_key pid b k)"
  by (simp add: storage_area_def storage_key_def)

lemma trim_end_char_keeps:
  assumes "xs \<noteq> []" and "last xs \<noteq> c"
  shows "prefix xs (trim_end_char c (xs @ ys))"
proof -
  have "\<exists>zs. dropWhile (\<lambda>x. x = c) (rev ys @ rev xs) = zs @ rev xs"
  proof (induction "rev ys" arbitrary: ys)
    case Nil
    then show ?case using assms by (cases xs rule: rev_cases) auto
  next
    case (Cons z zs)
    then show ?case by (metis append_Cons append_Nil dropWhile.simps(2) rev_rev_ident)
  qed
  then obtain zs where "dropWhile (\<lambda>x. x = c) (rev ys @ rev xs) = zs @ rev xs" by blast
  then have "trim_end_char c (xs @ ys) = xs @ rev zs" by (simp add: trim_end_char_def)
  then show ?thesis by simp
qed

lemma below_storage:
  assumes "valid_ident b" and "below (storage_key pid b k) l"
  shows "storage_area pid l"
proof -
  have b: "b \<noteq> []" by (rule valid_ident_nonempty [OF assms(1)])
  with assms(1) have "last b \<noteq> CHR ''/''" using last_in_set [of b] valid_ident_no_slash [of b] by metis
  then have "prefix (''projects/'' @ pid @ ''/storage/'' @ b)
      (trim_end_char (CHR ''/'') ((''projects/'' @ pid @ ''/storage/'' @ b) @ ''/'' @ k))"
    using b by (intro trim_end_char_keeps) simp_all
  then have "prefix (''projects/'' @ pid @ ''/storage/'') (trim_end_char (CHR ''/'') (storage_key pid b k))"
    by (auto simp: storage_key_def prefix_def)
  with assms(2) show ?thesis
    unfolding storage_area_def below_def by (meson prefix_order.trans prefix_prefix)
qed

lemma storage_area_spares: "spares_manifest pid (storage_area pid)"
  by (auto simp: spares_manifest_def storage_area_def snapshot_named_def manifest_key_def wal_segment_key_def
      wal_prefix_def snapshot_key_def snapshot_generation_key_def)

text \<open>The objects a storage action may change.\<close>

definition storage_frame ::
    "('w \<Rightarrow> objects) \<Rightarrow> ('w \<Rightarrow> bool) \<Rightarrow> (string \<Rightarrow> bool) \<Rightarrow> 'w storage_sys \<Rightarrow> 'w storage_sys \<Rightarrow> bool" where
  "storage_frame objects winv A s s' \<longleftrightarrow>
     (winv (ss_world s) \<longrightarrow>
        winv (ss_world s') \<and> (\<forall>k. \<not> A k \<longrightarrow> objects (ss_world s') k = objects (ss_world s) k))"

interpretation storage_frame: step_order "storage_frame objects winv A" for objects winv A
  by unfold_locales (auto simp: storage_frame_def)

context step_order
begin

lemma keeps_lift_bind: "(\<And>x. r = Inr x \<Longrightarrow> keeps R (f x)) \<Longrightarrow> keeps R (abind (alift r) f)"
  by (cases r) (auto simp: keeps_def abind_def refl)

end

lemma frame_on_db: "keeps (storage_frame objects winv A) (on_db m)"
  by (auto simp: keeps_def storage_frame_def on_db_def split: prod.split)

context object_store_contract
begin

lemma frame_put: "key_ok k \<Longrightarrow> A k \<Longrightarrow> keeps (storage_frame objs inv A) (on_blobs (os_put_bytes st k d))"
  unfolding keeps_def storage_frame_def on_blobs_def
  by (auto split: prod.split dest!: put_law)

lemma frame_delete:
  "key_ok k \<Longrightarrow> A k \<Longrightarrow> (\<And>l. below k l \<Longrightarrow> A l) \<Longrightarrow> keeps (storage_frame objs inv A) (on_blobs (os_delete st k))"
  unfolding keeps_def storage_frame_def on_blobs_def
  by (auto split: prod.split dest!: delete_law simp: removed_only_def) metis+

lemma frame_put_object:
  assumes "key_ok (storage_key (se_project E) b k)"
  shows "keeps (storage_frame objs inv (storage_area (se_project E))) (execute_put_object E st b k data ct actor)"
  unfolding execute_put_object_def
  by (intro storage_frame.keeps_lift_bind storage_frame.keeps_bind frame_on_db frame_put storage_frame.keeps_pure)
    (use assms in \<open>auto simp: ident_simps safe_object_key_def split: if_splits\<close>)

lemma frame_delete_object:
  assumes "key_ok (storage_key (se_project E) b k)"
  shows "keeps (storage_frame objs inv (storage_area (se_project E))) (execute_delete_object E st b k actor)"
  unfolding execute_delete_object_def
  by (intro storage_frame.keeps_lift_bind storage_frame.keeps_bind frame_on_db frame_delete storage_frame.keeps_pure)
    (use assms in \<open>auto simp: ident_simps safe_object_key_def split: if_splits intro: below_storage\<close>)

end

lemma frame_rest:
  "keeps (storage_frame objects winv A) (execute_create_bucket E name)"
  "keeps (storage_frame objects winv A) (execute_delete_bucket name)"
  unfolding execute_create_bucket_def execute_delete_bucket_def
  by (intro storage_frame.keeps_lift_bind storage_frame.keeps_bind frame_on_db storage_frame.keeps_pure)+
section \<open>What the jobs of a batch change\<close>

definition wal_bytes_of :: "cache \<Rightarrow> bytes" where
  "wal_bytes_of c = (case c_wal c of Some f \<Rightarrow> f | None \<Rightarrow> [])"

lemma wal_file_bytes: "wal_file p = wal_bytes_of (h_cache (px_host p))"
  by (simp add: wal_file_def wal_bytes_of_def)

text \<open>With \<open>PRAGMA wal_autocheckpoint=0\<close> an open connection only appends to the WAL file.\<close>

definition wal_grows :: "('w, 'c, 'u) writer \<Rightarrow> bool" where
  "wal_grows W \<longleftrightarrow> (\<forall>db conn c. prefix (wal_bytes_of c) (wal_bytes_of (snd (wr_commit W db conn c))))"

fun storage_key_ok :: "(string \<Rightarrow> bool) \<Rightarrow> string \<Rightarrow> write_kind \<Rightarrow> bool" where
  "storage_key_ok ok pid (PutObject bucket key data ct actor) = ok (storage_key pid bucket key)"
| "storage_key_ok ok pid (DeleteObject bucket key actor) = ok (storage_key pid bucket key)"
| "storage_key_ok ok pid _ = True"

text \<open>
  From a good state of the project \<open>pid\<close>: storage objects may change, the state changes at most
  its connection, and the WAL file grows.
\<close>

definition job_frame ::
    "('w, 'c, 'u) writer \<Rightarrow> ('w \<Rightarrow> objects) \<Rightarrow> (string \<Rightarrow> bool) \<Rightarrow> ('w \<Rightarrow> bool) \<Rightarrow> string \<Rightarrow> ('w, 'c) px \<Rightarrow> ('w, 'c) px \<Rightarrow> bool" where
  "job_frame W objects ok winv pid p p' \<longleftrightarrow>
     (object_store_contract (mc_store (wr_machine W)) objects ok winv \<longrightarrow> wal_grows W \<longrightarrow>
      winv (px_world p) \<longrightarrow> ps_project_id (px_st p) = pid \<longrightarrow>
        winv (px_world p') \<and> (\<forall>k. \<not> storage_area pid k \<longrightarrow> objects (px_world p') k = objects (px_world p) k)
        \<and> (\<exists>conn. px_st p' = (px_st p)\<lparr>ps_conn := conn\<rparr>) \<and> prefix (wal_file p) (wal_file p'))"

interpretation job_frame: step_order "job_frame W objects ok winv pid" for W objects ok winv pid
proof
  fix s t u
  show "job_frame W objects ok winv pid s s" by (auto simp: job_frame_def intro: exI [of _ "ps_conn (px_st s)"])
  assume "job_frame W objects ok winv pid s t" and "job_frame W objects ok winv pid t u"
  then show "job_frame W objects ok winv pid s u"
    by (auto simp: job_frame_def intro: prefix_order.trans)
qed

lemma save_conn_frame:
  assumes "wal_grows W"
  shows "px_world (save_conn W db p) = px_world p" and "\<exists>conn. px_st (save_conn W db p) = (px_st p)\<lparr>ps_conn := conn\<rparr>"
    and "prefix (wal_file p) (wal_file (save_conn W db p))"
proof -
  obtain conn c where c: "wr_commit W db (ps_conn (px_st p)) (h_cache (px_host p)) = (conn, c)"
    by (cases "wr_commit W db (ps_conn (px_st p)) (h_cache (px_host p))")
  with assms have "prefix (wal_bytes_of (h_cache (px_host p))) (wal_bytes_of c)" by (metis wal_grows_def snd_conv)
  with c show "px_world (save_conn W db p) = px_world p" "\<exists>conn. px_st (save_conn W db p) = (px_st p)\<lparr>ps_conn := conn\<rparr>"
    "prefix (wal_file p) (wal_file (save_conn W db p))"
    by (auto simp: save_conn_def wal_file_bytes)
qed

lemma frame_on_conn: "keeps (job_frame W objects ok winv pid) (on_conn W m)"
  by (auto simp: keeps_def job_frame_def on_conn_def save_conn_frame split: prod.split)

lemma frame_on_storage:
  fixes W :: "('w, 'c, 'u) writer"
  assumes "object_store_contract (mc_store (wr_machine W)) objects ok winv \<Longrightarrow>
    keeps (storage_frame objects winv (storage_area pid)) m"
  shows "keeps (job_frame W objects ok winv pid) (on_storage W m)"
  unfolding keeps_def job_frame_def
proof (intro allI impI, goal_cases)
  case (1 p)
  let ?db = "wr_view W (ps_conn (px_st p))"
  let ?s = "\<lparr>ss_db = \<lparr>db_tables = pt_storage (db_tables ?db), db_faults = db_faults ?db\<rparr>, ss_world = sys_world (h_sys (px_host p))\<rparr>"
  obtain r s where m: "m ?s = (r, s)" by (cases "m ?s")
  let ?p = "p\<lparr>px_host := (px_host p)\<lparr>h_sys := (h_sys (px_host p))\<lparr>sys_world := ss_world s\<rparr>\<rparr>\<rparr>"
  have "storage_frame objects winv (storage_area pid) ?s s" using assms [OF 1(1)] m by (metis keeps_def snd_conv)
  with 1 m show ?case
    using save_conn_frame [OF 1(2), where p = ?p]
    by (simp add: on_storage_def Let_def storage_frame_def wal_file_def)
qed
lemma write_kind_frame:
  assumes "storage_key_ok ok (se_project E) kind"
  shows "keeps (job_frame W objects ok winv (se_project E)) (run_write_kind W E kind)"
proof (cases kind)
  case (PutObject bucket key data ct actor)
  with assms show ?thesis
    by (auto simp: committing_def intro!: job_frame.keeps_bind frame_on_storage object_store_contract.frame_put_object)
next
  case (DeleteObject bucket key actor)
  with assms show ?thesis
    by (auto intro!: frame_on_storage object_store_contract.frame_delete_object)
qed (auto simp: committing_def on_auth_def intro!: job_frame.keeps_bind frame_on_conn frame_on_storage frame_rest)

interpretation job_frame_jobs: job_order "job_frame W objects ok winv pid" W "storage_key_ok ok pid" for W objects ok winv pid
proof
  fix p kind
  assume ok: "storage_key_ok ok pid kind"
  show "job_frame W objects ok winv pid p (snd (run_write_kind W (writer_env W p) kind p))"
  proof (cases "ps_project_id (px_st p) = pid")
    case True
    then have "se_project (writer_env W p) = pid" by (simp add: writer_env_def Let_def)
    with write_kind_frame [where ok = ok and E = "writer_env W p" and kind = kind and W = W] ok show ?thesis
      by (simp add: keeps_def)
  qed (simp add: job_frame_def)
next
  fix i bookmark v
  show "keeps (job_frame W objects ok winv pid) (load_idempotency_record W i)"
    unfolding load_idempotency_record_def get_state_def
    by (auto intro!: job_frame.keeps_bind frame_on_conn split: option.split)
  show "keeps (job_frame W objects ok winv pid) (store_idempotency_record W i bookmark v)"
    unfolding store_idempotency_record_def by (rule frame_on_conn)
qed

section \<open>The lease check\<close>

lemma lease_object_parts:
  assumes "CHR ''/'' \<notin> set pid" and "lease_object pid k"
  shows "\<exists>part rest. split_on (CHR ''/'') k = ''projects'' # pid # part # rest
    \<and> part \<notin> {''manifest.json'', ''wal'', ''snapshots'', ''database.sqlite''}"
proof -
  have "split_on (CHR ''/'') (lease_audit_key pid n) = [''projects'', pid, ''lease-audit-'' @ show_nat n @ ''.json'']" for n
    using split_projects [OF assms(1)] digits_no_slash [of n] by (simp add: lease_audit_key_def split_on_no_sep)
  with assms split_control_keys [OF assms(1)] show ?thesis by (auto simp: lease_object_def)
qed

lemma lease_object_spares:
  assumes pid: "CHR ''/'' \<notin> set pid"
  shows "spares_manifest pid (lease_object pid)"
  unfolding spares_manifest_def
proof (intro conjI allI impI)
  show "\<not> lease_object pid (manifest_key pid)" "\<not> lease_object pid (wal_segment_key pid n)" for n
    using lease_object_parts [OF pid, of "manifest_key pid"] lease_object_parts [OF pid, of "wal_segment_key pid n"]
      split_control_keys [OF pid] by auto
  show "\<not> lease_object pid k" if "snapshot_named pid g k" for g k
    using lease_object_parts [OF pid, of k] snapshot_named_parts [OF pid that] by auto
qed

lemma lease_objectI [simp]:
  "lease_object pid (writer_lease_key pid)" "lease_object pid (writer_lease_claim_key pid n)"
  by (auto simp: lease_object_def)

lemma claim_rounds_writes: "writes_only (lease_object pid) (claim_rounds fuel rt pid base now ttl)"
  by (induction fuel arbitrary: base)
    (auto simp: Let_def load_writer_lease_claim_def intro!: prog_rules)

lemma lease_writes: "writes_only (lease_object pid) (ensure_writer_lease rt pid known)"
  unfolding ensure_writer_lease_def ensure_existing_lease_def load_writer_lease_def claim_expired_writer_lease_def Let_def
  by (auto intro!: prog_rules claim_rounds_writes split: option.split)
text \<open>A durable project stays one when the state changes at most its connection and its token.\<close>

lemma durable_project_kept:
  assumes project: "durable_project M objects ok winv p" and "winv (px_world p')"
    and objs: "spares_manifest (ps_project_id (px_st p)) A" "\<And>k. \<not> A k \<Longrightarrow> objects (px_world p') k = objects (px_world p) k"
    and state: "px_st p' = (px_st p)\<lparr>ps_conn := conn, ps_writer_lease_fencing_token := token\<rparr>" "state_small (px_st p')"
    and wal: "prefix (wal_file p) (wal_file p')" "length (wal_file p') \<le> u64_max"
    and vac: "\<And>d. vacuumed M p' d \<Longrightarrow> length d \<le> u64_max"
  shows "durable_project M objects ok winv p'"
    and "px_recoverable M objects (ps_project_id (px_st p)) p' = px_recoverable M objects (ps_project_id (px_st p)) p"
proof -
  from project obtain m where m: "durable_inv (mc_rt M) (objects (px_world p)) (wal_file p) (px_st p) m"
    by (auto simp: durable_project_def)
  note spared = durable_inv_spared [OF m objs]
  have "take (ps_last_durable_wal_bytes (px_st p)) (wal_file p') = take (ps_last_durable_wal_bytes (px_st p)) (wal_file p)"
    if "ps_last_durable_wal_bytes (px_st p) \<le> length (wal_file p)"
    using wal(1) that by (auto simp: prefix_def)
  with spared(1) state wal have "durable_inv (mc_rt M) (objects (px_world p')) (wal_file p') (px_st p') m"
    by (auto simp: durable_inv_def segments_named_def dest: prefix_length_le)
  with project assms(2) state vac show "durable_project M objects ok winv p'"
    by (auto simp: durable_project_def)
  show "px_recoverable M objects (ps_project_id (px_st p)) p' = px_recoverable M objects (ps_project_id (px_st p)) p"
    using spared(2) by (simp add: px_recoverable_def)
qed

lemma ensure_lease_run:
  fixes M :: "('w, 'c) machine"
  assumes "ensure_writer_lease_for_state M p = (r, p')"
    and project: "durable_project M objects ok winv p" and names: "lease_names (ps_project_id (px_st p)) ok"
  shows "winv (px_world p') \<and> (\<forall>k. \<not> lease_object (ps_project_id (px_st p)) k \<longrightarrow> objects (px_world p') k = objects (px_world p) k)
    \<and> (\<exists>token. px_st p' = (px_st p)\<lparr>ps_writer_lease_fencing_token := token\<rparr>) \<and> h_cache (px_host p') = h_cache (px_host p)"
proof -
  let ?prog = "ensure_writer_lease (mc_rt M) (ps_project_id (px_st p)) (ps_writer_lease_fencing_token (px_st p))"
  obtain r0 s where run: "run_prog (mc_store M) (mc_clock M) ?prog (h_sys (px_host p)) = (r0, s)"
    by (cases "run_prog (mc_store M) (mc_clock M) ?prog (h_sys (px_host p))")
  have "names_ok ok ?prog" using names_ok_job [OF names, where job = "Acquire (ps_writer_lease_fencing_token (px_st p))"] by simp
  from object_store_contract.run_frame [OF _ run this lease_writes] project
  have "winv (sys_world s)" "\<forall>k. \<not> lease_object (ps_project_id (px_st p)) k \<longrightarrow> objects (sys_world s) k = objects (px_world p) k"
    by (auto simp: durable_project_def)
  with assms(1) run show ?thesis
    by (auto simp: ensure_writer_lease_for_state_def get_state_def on_host_def on_store_def set_state_def abind_def
        split: sum.splits option.splits intro: exI [of _ "ps_writer_lease_fencing_token (px_st p)"])
qed
section \<open>Acknowledged writes\<close>

text \<open>Opening a database file with a WAL file shows the tables \<open>t\<close>.\<close>

definition shows_tables :: "('w, 'c, 'u) writer \<Rightarrow> bytes \<Rightarrow> bytes \<Rightarrow> 'u project_tables \<Rightarrow> bool" where
  "shows_tables W snap wal t \<longleftrightarrow>
     (\<forall>mode conn c. en_open (mc_engine (wr_machine W)) mode
          \<lparr>c_db = Some snap, c_wal = (if wal = [] then None else Some wal)\<rparr> = (Inr conn, c)
        \<longrightarrow> db_tables (wr_view W conn) = t)"

text \<open>
  SQLite's promise about the files of an open connection over \<open>snap\<close>: the database with the WAL
  file, and a copy made by \<open>VACUUM INTO\<close>, hold the tables that the connection shows.
\<close>

definition files_hold_tables :: "('w, 'c, 'u) writer \<Rightarrow> bytes \<Rightarrow> ('w, 'c) px \<Rightarrow> bool" where
  "files_hold_tables W snap p \<longleftrightarrow>
     shows_tables W snap (wal_file p) (tables_of W p) \<and> length (wal_file p) \<le> u64_max
     \<and> (\<forall>d. vacuumed (wr_machine W) p d \<longrightarrow> length d \<le> u64_max \<and> shows_tables W d [] (tables_of W p))"

lemma jobs_keep_project:
  assumes project: "durable_project (wr_machine W) objects ok winv p" and wal: "wal_grows W"
    and keys: "list_all (\<lambda>job. storage_key_ok ok (ps_project_id (px_st p)) (wj_kind job)) batch"
    and files: "files_hold_tables W snap p'" and run: "run_jobs W batch p = (slots, p')"
  shows "durable_project (wr_machine W) objects ok winv p'" and "ps_project_id (px_st p') = ps_project_id (px_st p)"
    and "px_recoverable (wr_machine W) objects (ps_project_id (px_st p)) p'
      = px_recoverable (wr_machine W) objects (ps_project_id (px_st p)) p"
proof -
  let ?pid = "ps_project_id (px_st p)"
  have "job_frame W objects ok winv ?pid p p'" by (rule job_frame_jobs.jobs_step [OF run keys])
  with project wal obtain conn where f: "winv (px_world p')" "\<And>k. \<not> storage_area ?pid k \<Longrightarrow> objects (px_world p') k = objects (px_world p) k"
    "px_st p' = (px_st p)\<lparr>ps_conn := conn\<rparr>" "prefix (wal_file p) (wal_file p')"
    by (auto simp: job_frame_def durable_project_def)
  have st: "px_st p' = (px_st p)\<lparr>ps_conn := conn, ps_writer_lease_fencing_token := ps_writer_lease_fencing_token (px_st p)\<rparr>"
    by (simp add: f)
  have small: "state_small (px_st p')"
    using project by (auto simp: f durable_project_def durable_inv_def state_small_def)
  note kept = durable_project_kept [OF project f(1) storage_area_spares f(2) st small f(4)]
  from kept(1) files show "durable_project (wr_machine W) objects ok winv p'" by (simp add: files_hold_tables_def)
  from kept(2) files show "px_recoverable (wr_machine W) objects ?pid p' = px_recoverable (wr_machine W) objects ?pid p"
    by (simp add: files_hold_tables_def)
  show "ps_project_id (px_st p') = ?pid" by (simp add: f)
qed

lemma lease_keeps_project:
  assumes project: "durable_project M objects ok winv p" and names: "lease_names (ps_project_id (px_st p)) ok"
    and run: "ensure_writer_lease_for_state M p = (r, p')" and small: "state_small (px_st p')"
  shows "durable_project M objects ok winv p'" and "ps_project_id (px_st p') = ps_project_id (px_st p)"
    and "px_recoverable M objects (ps_project_id (px_st p)) p' = px_recoverable M objects (ps_project_id (px_st p)) p"
    and "wal_file p' = wal_file p" and "vacuumed M p' = vacuumed M p"
proof -
  let ?pid = "ps_project_id (px_st p)"
  from ensure_lease_run [OF run project names] obtain token where f: "winv (px_world p')"
    "\<And>k. \<not> lease_object ?pid k \<Longrightarrow> objects (px_world p') k = objects (px_world p) k"
    "px_st p' = (px_st p)\<lparr>ps_writer_lease_fencing_token := token\<rparr>" "h_cache (px_host p') = h_cache (px_host p)" by auto
  show vac: "vacuumed M p' = vacuumed M p" and wal: "wal_file p' = wal_file p"
    by (auto simp: f vacuumed_def wal_file_def)
  from project have pid: "CHR ''/'' \<notin> set ?pid" and "length (wal_file p) \<le> u64_max" "\<And>d. vacuumed M p d \<Longrightarrow> length d \<le> u64_max"
    by (auto simp: durable_project_def durable_inv_def)
  with durable_project_kept [OF project f(1) lease_object_spares [OF pid] f(2), where conn = "ps_conn (px_st p)" and token = token] f(3) small wal vac
  show "durable_project M objects ok winv p'" and "px_recoverable M objects ?pid p' = px_recoverable M objects ?pid p"
    by simp_all
  show "ps_project_id (px_st p') = ?pid" by (simp add: f)
qed

text \<open>The flush of a batch, from the state its jobs left.\<close>

lemma flush_batch_safe:
  assumes project: "durable_project (wr_machine W) objects ok winv p" and names: "lease_names (ps_project_id (px_st p)) ok"
    and small: "\<And>r q. ensure_writer_lease_for_state (wr_machine W) p = (r, q) \<Longrightarrow> state_small (px_st q)"
    and old: "px_recoverable (wr_machine W) objects (ps_project_id (px_st p)) p = Some (snap, wal)"
    and run: "flush_batch W n p = (Inr u, p')"
  shows "px_recoverable (wr_machine W) objects (ps_project_id (px_st p)) p'
    \<in> {Some (snap, wal_file p)} \<union> {Some (d, []) |d. vacuumed (wr_machine W) p d}"
proof -
  from run obtain p3 where lease: "ensure_writer_lease_for_state (wr_machine W) p = (Inr (), p3)"
    and flush: "durabilize_wal (wr_machine W) (''group_commit:'' @ show_nat n @ ''_ops'') n p3 = (Inr u, p')"
    by (auto simp: flush_batch_def act_simps)
  note kept = lease_keeps_project [OF project names lease small [OF lease]]
  from durabilize_safe [OF kept(1) flush] old kept show ?thesis by auto
qed

text \<open>
  C1: a write that is acknowledged is durable. The answer to a job that committed is \<open>Ok\<close> only
  when the store holds, from then on, a database and a WAL from which SQLite opens the tables as
  they were after the whole batch; the answer carries the bookmark of that commit.
\<close>

theorem acknowledged_writes_are_durable:
  assumes project: "durable_project (wr_machine W) objects ok winv p1"
    and old: "px_recoverable (wr_machine W) objects (ps_project_id (px_st p1)) p1 = Some (snap, wal)"
    and keys: "lease_names (ps_project_id (px_st p1)) ok"
      "list_all (\<lambda>job. storage_key_ok ok (ps_project_id (px_st p1)) (wj_kind job)) batch"
    and sqlite: "wal_grows W" "files_hold_tables W snap p2"
    and small: "\<And>r q. ensure_writer_lease_for_state (wr_machine W) p2 = (r, q) \<Longrightarrow> state_small (px_st q)"
    and steps: "prepare_batch W p = (Inr u, p1)" "run_jobs W batch p1 = (slots, p2)"
    and run: "execute_write_batch W batch p = ((answers, woken), p')"
    and job: "i < length batch" "slots ! i = (Inr v, True)" "answers ! i = Inr a"
  shows "a = with_bookmark v (bookmark_for_seq (ps_commit_seq (px_st p')))
    \<and> (\<exists>snap' wal'. px_recoverable (wr_machine W) objects (ps_project_id (px_st p1)) p' = Some (snap', wal')
         \<and> shows_tables W snap' wal' (tables_of W p2))"
proof -
  have len: "length slots = length batch" by (rule run_jobs_length [OF steps(2)])
  then have "slots ! i \<in> set (filter snd slots)" using job nth_mem [of i slots] by simp
  then have some: "committed_ops slots \<noteq> 0" unfolding committed_ops_def by (auto simp: filter_empty_conv)
  obtain r q where flush: "flush_batch W (committed_ops slots) p2 = (r, q)" by (cases "flush_batch W (committed_ops slots) p2")
  with run steps some job len have r: "r = Inr ()" "p' = q" "a = with_bookmark v (bookmark_for_seq (ps_commit_seq (px_st p')))"
    by (auto simp: execute_write_batch_def split: sum.splits)
  note kept = jobs_keep_project [OF project sqlite(1) keys(2) sqlite(2) steps(2)]
  from flush_batch_safe [OF kept(1) _ small, where snap = snap and wal = wal and n = "committed_ops slots" and u = "()" and p' = p']
    kept old keys(1) flush r
  have "px_recoverable (wr_machine W) objects (ps_project_id (px_st p1)) p'
    \<in> {Some (snap, wal_file p2)} \<union> {Some (d, []) |d. vacuumed (wr_machine W) p2 d}" by simp
  with sqlite(2) r(3) show ?thesis by (auto simp: files_hold_tables_def)
qed

end
