(* ===== verification/Commit_Liveness.thy ===== *)
theory Commit_Liveness
  imports Write_Durability
begin

text \<open>
  The other half of the writer's promise: when the store accepts writes, the disk has no faults
  and the lease is held, a flush succeeds, so every job of a batch gets its own result.
\<close>

definition accepts_writes :: "'w object_store \<Rightarrow> (string \<Rightarrow> bool) \<Rightarrow> ('w \<Rightarrow> bool) \<Rightarrow> bool" where
  "accepts_writes st ok winv \<longleftrightarrow> (\<forall>k d w. ok k \<longrightarrow> winv w \<longrightarrow> is_ok (fst (os_put_bytes st k d w)))"

lemma aignore_ok: "aignore m s = (r, s') \<Longrightarrow> is_ok r"
  by (auto simp: aignore_def acatch_def split: prod.splits)

lemma run_put_ok:
  "accepts_writes st ok winv \<Longrightarrow> run_prog st clock (p_put k d) s = (r, s') \<Longrightarrow> ok k \<Longrightarrow> winv (sys_world s) \<Longrightarrow> is_ok r"
  by (auto simp: accepts_writes_def p_put_def split: prod.splits) (metis fst_conv)

context object_store_contract
begin

lemma put_manifest_ok:
  assumes run: "run_prog st clock (put_manifest rt m) s = (r, s')" and acc: "accepts_writes st key_ok inv"
    and key: "key_ok (manifest_key (dm_project_id m))" and w: "inv (sys_world s)"
    and old: "\<And>x. manifest_of rt (dm_project_id m) (objs (sys_world s)) = Some x \<Longrightarrow> dm_generation x \<le> dm_generation m"
    and m: "serde_roundtrip (rt_serde rt)" "manifest_small m"
  shows "is_ok r"
proof -
  let ?load = "load_manifest rt (dm_project_id m)" and ?put = "p_put (manifest_key (dm_project_id m)) (manifest_bytes rt m)"
  obtain r1 s1 where ld: "run_prog st clock ?load s = (r1, s1)" by (cases "run_prog st clock ?load s")
  note l = run_load_manifest [OF ld key w]
  obtain r2 s2 where pt: "run_prog st clock ?put s1 = (r2, s2)" by (cases "run_prog st clock ?put s1")
  have r2: "is_ok r2" using run_put_ok [OF acc pt key] l by simp
  from run_put [OF pt key] l r2 have w2: "inv (sys_world s2)"
    "objs (sys_world s2) = (objs (sys_world s))(manifest_key (dm_project_id m) \<mapsto> manifest_bytes rt m)" by auto
  obtain r3 s3 where ld3: "run_prog st clock ?load s2 = (r3, s3)" by (cases "run_prog st clock ?load s2")
  have there: "manifest_of rt (dm_project_id m) (objs (sys_world s2)) = Some m"
    using w2 read_manifest_bytes [OF m] by (simp add: manifest_of_def)
  have r3: "x = m" if "r3 = Inr (Some x)" for x
  proof -
    have "manifest_of rt (dm_project_id m) (objs (sys_world s2)) = Some x"
      using run_load_manifest [OF ld3 key w2(1)] that by blast
    with there show ?thesis by simp
  qed
  have "run_prog st clock (put_manifest rt m) s = run_prog st clock (ptry ?put (\<lambda>_. check_written rt m)) s1"
  proof (cases "\<exists>x. r1 = Inr (Some x)")
    case True
    then obtain x where x: "r1 = Inr (Some x)" by blast
    with l old have "\<not> dm_generation m < dm_generation x" by auto
    with ld x show ?thesis by (simp add: put_manifest_def run_pbind Let_def)
  next
    case False
    with ld show ?thesis by (auto simp: put_manifest_def run_pbind Let_def split: sum.split option.split)
  qed
  moreover obtain u where "r2 = Inr u" using r2 by (cases r2) simp_all
  with pt have "run_prog st clock (ptry ?put (\<lambda>_. check_written rt m)) s1 = run_prog st clock (check_written rt m) s2"
    by (simp add: run_ptry)
  moreover have "is_ok (fst (run_prog st clock (check_written rt m) s2))"
    using ld3 r3 by (simp add: check_written_def run_pbind pok_def split: sum.split option.split)
  ultimately show ?thesis using run by (metis fst_conv)
qed

lemma store_put_ok:
  assumes "on_host (on_store M (p_put k d)) p = (Inl e, p')" and "mc_store M = st" and "accepts_writes st key_ok inv"
    and "key_ok k" and "inv (px_world p)"
  shows False
proof -
  from assms(1,2) obtain s where "run_prog st (mc_clock M) (p_put k d) (h_sys (px_host p)) = (Inl e, s)"
    by (auto simp: on_host_run on_store_run)
  from run_put_ok [OF assms(3) this assms(4,5)] show False by simp
qed

lemma touch_run:
  assumes "no_disk_faults M"
  shows "on_host (fs_touch M) p = (Inr (), p\<lparr>px_host := (px_host p)\<lparr>h_disk_ops := Suc (h_disk_ops (px_host p))\<rparr>\<rparr>)"
  using assms by (cases "px_host p") (simp add: on_host_def fs_touch_def disk_op_def no_disk_faults_def Let_def)

lemma put_new_segment_ok:
  fixes M :: "('w, 'c) machine"
  assumes "put_new_segment M n file p = (Inl e, p')" and M: "mc_store M = st" and disk: "no_disk_faults M"
    and acc: "accepts_writes st key_ok inv" and "project_keys_ok key_ok (ps_project_id (px_st p))" and "inv (px_world p)"
  shows False
  using assms(1,5,6)
  by (auto simp: put_new_segment_def get_state_def set_state_def act_simps Let_def project_keys_ok_def touch_run [OF disk]
      split: if_splits dest!: store_put_ok [OF _ M acc])

lemma flush_wal_ok:
  fixes M :: "('w, 'c) machine"
  assumes "flush_wal M p = (Inl e, p')" and M: "mc_store M = st" and disk: "no_disk_faults M"
    and acc: "accepts_writes st key_ok inv" and "project_keys_ok key_ok (ps_project_id (px_st p))" and "inv (px_world p)"
    and dur: "durable_inv rt objects (wal_file p) (px_st p) m"
  shows False
proof -
  have "ps_last_durable_wal_bytes (px_st p) \<le> length (wal_file p)" using dur by (simp add: durable_inv_def)
  with assms(1,5,6) show False
    by (auto simp: flush_wal_def reset_shrunk_wal_def get_state_def set_state_def act_simps wal_file_def touch_run [OF disk]
        split: option.splits if_splits dest!: put_new_segment_ok [OF _ M disk acc])
qed

lemma log_if_due_ok:
  assumes "log_if_due M reason n p = (Inl e, p')" and M: "mc_store M = st" and acc: "accepts_writes st key_ok inv"
    and "project_keys_ok key_ok (ps_project_id (px_st p))" and "inv (px_world p)"
  shows False
  using assms(1,2,4,5) acc
  by (auto simp: log_if_due_def get_state_def append_change_log_def on_host_run on_store_run run_ptry act_simps
      project_keys_ok_def p_utc_now_def pok_def split: if_splits dest!: run_put_ok)

text \<open>A compaction that fails is logged, not reported.\<close>

lemma compact_if_due_ok:
  assumes run: "compact_if_due M reason p = (r, p')" and M: "mc_store M = st"
  shows "is_ok r"
proof -
  obtain due s where "run_prog st (mc_clock M) (should_snapshot (mc_rt M) (px_st p)) (h_sys (px_host p)) = (due, s)"
    by (cases "run_prog st (mc_clock M) (should_snapshot (mc_rt M) (px_st p)) (h_sys (px_host p))")
  with should_snapshot_run [OF this] run M show ?thesis
    by (cases due)
      (auto simp: compact_if_due_def get_state_def on_host_def [of "on_store M (should_snapshot (mc_rt M) (px_st p))"] on_store_def abind_def
        acatch_def split: if_splits prod.splits sum.splits dest: aignore_ok)
qed

lemma commit_wal_ok:
  fixes M :: "('w, 'c) machine"
  assumes run: "commit_wal M reason ops p = (r, p')" and M: "mc_store M = st" and disk: "no_disk_faults M"
    and acc: "accepts_writes st key_ok inv" and serde: "serde_roundtrip (rt_serde (mc_rt M))"
    and keys: "project_keys_ok key_ok (ps_project_id (px_st p))" and w: "inv (px_world p)"
    and dur: "durable_inv (mc_rt M) (objs (px_world p)) (wal_file p) (px_st p) m"
    and pid: "CHR ''/'' \<notin> set (ps_project_id (px_st p))" and nxt: "ps_next_wal_segment_id (px_st p) < u64_max"
  shows "is_ok r"
  using run unfolding commit_wal_def
proof (cases rule: abind_elim)
  case (err e)
  from flush_wal_ok [OF err(1) M disk acc keys w dur] show ?thesis by simp
next
  case (ok n p1)
  note flush = flush_wal_inv [OF ok(1) M keys w dur pid nxt]
  let ?st1 = "(px_st p1)\<lparr>ps_ops_since_snapshot := wrapping_add (ps_ops_since_snapshot (px_st p1)) (max ops 1),
            ps_commit_seq := saturating_add (ps_commit_seq (px_st p1)) 1\<rparr>"
  have d1: "durable_inv (mc_rt M) (objs (px_world p1)) (wal_file p) ?st1 m"
    using flush by (auto simp: durable_inv_def state_small_def segments_named_def)
  then obtain sm where sm: "ps_current_snapshot ?st1 = Some sm" by (auto simp: durable_inv_def)
  from ok(2) have "abind (on_host (on_store M (write_manifest (mc_rt M) ?st1 (Some reason)))) (\<lambda>_. aret n)
      (p1\<lparr>px_st := ?st1\<rparr>) = (r, p')" by (simp add: set_state_def get_state_def)
  then obtain r0 s where wr: "run_prog st (mc_clock M) (write_manifest (mc_rt M) ?st1 (Some reason)) (h_sys (px_host p1)) = (r0, s)"
    and r: "is_ok r = is_ok r0"
    using M by (auto simp: abind_def on_host_def on_store_def split: prod.splits sum.splits)
  define now where "now = iso_from_unix (int (mc_clock M (sys_ticks (h_sys (px_host p1))) div 1000))"
  define m' where "m' = state_manifest (mc_rt M) ?st1 sm (Some reason) now"
  have put: "run_prog st (mc_clock M) (put_manifest (mc_rt M) m')
      (h_sys (px_host p1)\<lparr>sys_ticks := Suc (sys_ticks (h_sys (px_host p1)))\<rparr>) = (r0, s)"
    using wr sm by (simp add: write_manifest_def p_utc_now_def run_ptry abind_def m'_def now_def)
  have small: "manifest_small m'"
    unfolding m'_def by (rule state_manifest_small) (use d1 sm in \<open>auto simp: durable_inv_def state_small_def\<close>)
  have gen: "dm_project_id m' = ps_project_id (px_st p)" "dm_generation m' = dm_generation m"
    using flush d1 by (simp_all add: m'_def state_manifest_def durable_inv_def)
  have "manifest_of (mc_rt M) (ps_project_id (px_st p)) (objs (px_world p1)) = Some m"
    using d1 flush by (simp add: durable_inv_def)
  then have "is_ok r0"
    using keys flush by (intro put_manifest_ok [OF put acc _ _ _ serde small]) (auto simp: gen project_keys_ok_def)
  then show ?thesis by (simp add: r)
qed

end

lemma durabilize_ok:
  assumes project: "durable_project M objects ok winv p" and acc: "accepts_writes (mc_store M) ok winv" and disk: "no_disk_faults M"
    and run: "durabilize_wal M reason ops p = (r, p')"
  shows "is_ok r"
proof -
  let ?pid = "ps_project_id (px_st p)"
  from project obtain m where store: "object_store_contract (mc_store M) objects ok winv"
    and serde: "serde_roundtrip (rt_serde (mc_rt M))" and keys: "project_keys_ok ok ?pid" and w: "winv (px_world p)"
    and pid: "CHR ''/'' \<notin> set ?pid" and dur: "durable_inv (mc_rt M) (objects (px_world p)) (wal_file p) (px_st p) m"
    and nxt: "ps_next_wal_segment_id (px_st p) < u64_max" by (auto simp: durable_project_def)
  from run show ?thesis unfolding durabilize_wal_def
  proof (cases rule: abind_elim)
    case (err e)
    from object_store_contract.commit_wal_ok [OF store err(1) refl disk acc serde keys w dur pid nxt] show ?thesis by simp
  next
    case (ok n p1)
    from object_store_contract.commit_wal_safe [OF store ok(1) refl serde keys w dur pid nxt]
    have p1: "winv (px_world p1)" "ps_project_id (px_st p1) = ?pid" by auto
    from ok(2) show ?thesis
    proof (cases rule: abind_elim)
      case (err e)
      from object_store_contract.log_if_due_ok [OF store err(1) refl acc] keys p1 show ?thesis by simp
    next
      case (ok u p2)
      from object_store_contract.compact_if_due_ok [OF store ok(2) refl] show ?thesis .
    qed
  qed
qed
lemma flush_batch_ok:
  assumes project: "durable_project (wr_machine W) objects ok winv p" and names: "lease_names (ps_project_id (px_st p)) ok"
    and healthy: "accepts_writes (mc_store (wr_machine W)) ok winv" "no_disk_faults (wr_machine W)"
    and lease: "ensure_writer_lease_for_state (wr_machine W) p = (Inr u, q)" "state_small (px_st q)"
  shows "\<exists>p'. flush_batch W n p = (Inr (), p')"
proof -
  let ?reason = "''group_commit:'' @ show_nat n @ ''_ops''"
  have q: "durable_project (wr_machine W) objects ok winv q" by (rule lease_keeps_project(1) [OF project names lease])
  obtain r p' where d: "durabilize_wal (wr_machine W) ?reason n q = (r, p')" by (cases "durabilize_wal (wr_machine W) ?reason n q")
  from durabilize_ok [OF q healthy d] have "r = Inr ()" by (cases r) simp_all
  with d lease(1) show ?thesis by (simp add: flush_batch_def)
qed

text \<open>
  C15: when the store accepts writes, the disk has no faults and the lease is still held, the
  flush of a batch succeeds: every job that committed is answered with its value and the bookmark
  of the new commit, every other job with its own result.
\<close>

theorem committed_jobs_are_acknowledged:
  assumes project: "durable_project (wr_machine W) objects ok winv p1"
    and healthy: "accepts_writes (mc_store (wr_machine W)) ok winv" "no_disk_faults (wr_machine W)"
    and keys: "lease_names (ps_project_id (px_st p1)) ok"
      "list_all (\<lambda>job. storage_key_ok ok (ps_project_id (px_st p1)) (wj_kind job)) batch"
    and sqlite: "wal_grows W" "files_hold_tables W snap p2"
    and steps: "prepare_batch W p = (Inr u, p1)" "run_jobs W batch p1 = (slots, p2)"
    and lease: "ensure_writer_lease_for_state (wr_machine W) p2 = (Inr u', p3)" "state_small (px_st p3)"
    and some: "committed_ops slots \<noteq> 0"
    and run: "execute_write_batch W batch p = ((answers, woken), p')"
  shows "woken \<and> answers = map (answer_slot (Inr (bookmark_for_seq (ps_commit_seq (px_st p'))))) slots"
proof -
  note kept = jobs_keep_project [OF project sqlite(1) keys(2) sqlite(2) steps(2)]
  have "lease_names (ps_project_id (px_st p2)) ok" using keys(1) kept(2) by simp
  from flush_batch_ok [OF kept(1) this healthy lease] obtain q where "flush_batch W (committed_ops slots) p2 = (Inr (), q)" by blast
  with run steps some show ?thesis by (auto simp: execute_write_batch_def)
qed

end
