(* ===== verification/Write_Examples.thy ===== *)
theory Write_Examples
  imports Commit_Liveness Table_Examples
begin

text \<open>
  The writer of the project of notes on an in-memory store: its properties applied to a batch of
  one insert under an idempotency key, and to its repetition.
\<close>

definition notes_tables :: "note_rows project_tables" where
  "notes_tables = (db_tables notes_db)\<lparr>pt_policies := []\<rparr>"

definition notes_machine :: "note_rows project_tables \<Rightarrow> (mem_world, note_rows project_tables) machine" where
  "notes_machine opened =
     \<lparr>mc_rt = sample_runtime ''a'', mc_store = mem_store, mc_clock = (\<lambda>n. 1000),
      mc_engine = \<lparr>en_open_in_memory = Inl ''none'', en_open = (\<lambda>mode c. (Inr opened, c)),
        en_ensure_meta = (\<lambda>conn c. (Inr (), conn, c)), en_vacuum_into = (\<lambda>conn c. Inl ''disk full''),
        en_close = (\<lambda>conn c. c)\<rparr>,
      mc_disk = (\<lambda>_. None), mc_process_id = 1\<rparr>"

definition notes_writer :: "note_rows project_tables \<Rightarrow> (mem_world, note_rows project_tables, note_rows) writer" where
  "notes_writer opened =
     \<lparr>wr_machine = notes_machine opened, wr_tables = notes_engine,
      wr_view = (\<lambda>conn. \<lparr>db_tables = conn, db_faults = []\<rparr>),
      wr_commit = (\<lambda>db conn c. (db_tables db, c\<lparr>c_wal := Some (wal_bytes_of c @ ''+'')\<rparr>)),
      wr_sql_now = (\<lambda>_. ''t'')\<rparr>"

definition notes_project :: "(mem_world, note_rows project_tables) px" where
  "notes_project = \<lparr>px_host = px_host sample_project,
     px_st = \<lparr>ps_project_id = ''p'', ps_conn = notes_tables, ps_generation = 3, ps_commit_seq = 9,
       ps_current_snapshot = Some sample_snapshot, ps_wal_segments = [], ps_last_durable_wal_bytes = 0,
       ps_next_wal_segment_id = 0, ps_ops_since_snapshot = 0, ps_last_snapshot_at_ms = 0,
       ps_writer_lease_fencing_token = Some 6\<rparr>\<rparr>"

definition docs_key :: write_idempotency where
  "docs_key = \<lparr>wi_key = ''docs-1'', wi_request_hash = replicate 64 (CHR ''a'')\<rparr>"

definition docs_job :: write_job where
  "docs_job = \<lparr>wj_kind = CreateBucket ''docs'', wj_idempotency = Some docs_key\<rparr>"

definition prepared :: "(mem_world, note_rows project_tables) px" where
  "prepared = snd (prepare_batch (notes_writer notes_tables) notes_project)"

text \<open>The tables after the job, which opening the files of the writer shows.\<close>

definition noted_tables :: "note_rows project_tables" where
  "noted_tables = tables_of (notes_writer notes_tables) (snd (run_jobs (notes_writer notes_tables) [docs_job] prepared))"

definition noted_writer :: "(mem_world, note_rows project_tables, note_rows) writer" where
  "noted_writer = notes_writer noted_tables"

definition batch_run :: "(json api list \<times> bool) \<times> (mem_world, note_rows project_tables) px" where
  "batch_run = execute_write_batch noted_writer [docs_job] notes_project"

lemmas notes_defs = notes_machine_def notes_writer_def notes_project_def noted_writer_def

lemma sample_manifest_snapshot: "dm_snapshot (sample_manifest n) = sample_snapshot"
  by (simp add: sample_manifest_def state_manifest_def)

lemma notes_durable: "durable_project (wr_machine noted_writer) bt_get (\<lambda>_. True) bt_wf notes_project"
proof -
  have "durable_inv (sample_runtime ''a'') (bt_get sample_objects) ''frame'' (px_st notes_project) (sample_manifest 7)"
    using sample_durable sample_manifest_snapshot
    by (simp add: durable_inv_def sample_state_def notes_project_def segments_named_def state_small_def)
  then show ?thesis
    using mem_contract sample_serde_ok sample_objects_wf
    by (auto simp: durable_project_def notes_defs sample_project_def project_keys_ok_def wal_file_def vacuumed_def u64_max_def)
qed

lemma notes_recoverable: "px_recoverable (wr_machine noted_writer) bt_get ''p'' notes_project = Some (''data'', [])"
  using sample_recoverable
  by (simp add: px_recoverable_def notes_defs sample_machine_def sample_project_def sample_state_def)

lemma notes_prepared:
  assumes "prepare_batch noted_writer notes_project = (Inr u, p1)"
  shows "durable_project (wr_machine noted_writer) bt_get (\<lambda>_. True) bt_wf p1" and "ps_project_id (px_st p1) = ''p''"
    and "px_recoverable (wr_machine noted_writer) bt_get ''p'' p1 = Some (''data'', [])"
proof -
  from assms obtain q where q: "ensure_writer_lease_for_state (wr_machine noted_writer) notes_project = (Inr (), q)"
    and budget: "ensure_wal_budget (wr_machine noted_writer) q = (Inr u, p1)"
    by (auto simp: prepare_batch_def act_simps)
  have pid: "ps_project_id (px_st notes_project) = ''p''" by (simp add: notes_project_def)
  have "state_small (px_st (snd (ensure_writer_lease_for_state (wr_machine noted_writer) notes_project)))"
    by code_simp
  then have small: "state_small (px_st q)" by (simp add: q)
  have names: "lease_names pid (\<lambda>_. True)" for pid by (simp add: lease_names_def)
  note kept = lease_keeps_project [OF notes_durable names q small, unfolded pid]
  have "ps_last_durable_wal_bytes (px_st q) = 0"
    using ensure_lease_run [OF q notes_durable names] by (auto simp: notes_project_def)
  with budget have "p1 = q"
    by (auto simp: ensure_wal_budget_def get_state_def Let_def notes_defs default_options_def split: if_splits)
  with kept notes_recoverable show "durable_project (wr_machine noted_writer) bt_get (\<lambda>_. True) bt_wf p1"
    "ps_project_id (px_st p1) = ''p''" "px_recoverable (wr_machine noted_writer) bt_get ''p'' p1 = Some (''data'', [])"
    by simp_all
qed

text \<open>The run of the batch, step by step.\<close>

definition batch_prepared :: "(mem_world, note_rows project_tables) px" where
  "batch_prepared = snd (prepare_batch noted_writer notes_project)"

definition batch_slots :: "(json api \<times> bool) list" where
  "batch_slots = fst (run_jobs noted_writer [docs_job] batch_prepared)"

definition batch_jobs :: "(mem_world, note_rows project_tables) px" where
  "batch_jobs = snd (run_jobs noted_writer [docs_job] batch_prepared)"

definition batch_leased :: "(mem_world, note_rows project_tables) px" where
  "batch_leased = snd (ensure_writer_lease_for_state (wr_machine noted_writer) batch_jobs)"

lemma batch_prepares: "prepare_batch noted_writer notes_project = (Inr (), batch_prepared)"
  unfolding batch_prepared_def by (rule prod_eqI) (code_simp, simp)

lemma batch_leases: "ensure_writer_lease_for_state (wr_machine noted_writer) batch_jobs = (Inr (), batch_leased)"
  unfolding batch_leased_def by (rule prod_eqI) (code_simp, simp)

lemma batch_runs:
  "run_jobs noted_writer [docs_job] batch_prepared = (batch_slots, batch_jobs)"
  "execute_write_batch noted_writer [docs_job] notes_project = ((fst (fst batch_run), snd (fst batch_run)), snd batch_run)"
  by (simp_all add: batch_slots_def batch_jobs_def batch_run_def)

lemma batch_commits: "map snd batch_slots = [True]" "is_ok (fst (batch_slots ! 0))"
  by code_simp+

lemma batch_tables: "tables_of noted_writer batch_jobs = noted_tables"
  by code_simp

lemma batch_wal: "length (wal_file batch_jobs) \<le> u64_max"
  by code_simp

lemma batch_leased_small: "state_small (px_st batch_leased)"
  by code_simp

lemmas batch_steps = batch_prepares batch_leases batch_runs
lemmas batch_values = batch_commits batch_tables batch_wal batch_leased_small

lemma batch_files: "wal_grows noted_writer" "files_hold_tables noted_writer ''data'' batch_jobs"
  using batch_values by (simp_all add: wal_grows_def files_hold_tables_def shows_tables_def vacuumed_def notes_defs wal_bytes_of_def)

lemma notes_healthy:
  "accepts_writes (mc_store (wr_machine noted_writer)) (\<lambda>_. True) bt_wf" "no_disk_faults (wr_machine noted_writer)"
  "lease_names pid (\<lambda>_. True)"
  by (simp_all add: accepts_writes_def no_disk_faults_def notes_defs lease_names_def)
lemma batch_slot: "\<exists>v. batch_slots = [(Inr v, True)]"
proof -
  from batch_commits(1) obtain r where r: "batch_slots = [(r, True)]" by auto
  from batch_commits(2) show ?thesis unfolding r by (cases r) simp_all
qed

lemma batch_one_commit: "committed_ops batch_slots \<noteq> 0"
  using batch_slot by (metis committed_ops_def filter.simps length_0_conv list.distinct(1) snd_conv)

lemma docs_keys: "list_all (\<lambda>job. storage_key_ok (\<lambda>_. True) pid (wj_kind job)) [docs_job]"
  by (simp add: docs_job_def)

lemma acknowledged_writes_are_durable_witness:
  "\<exists>snap wal. px_recoverable (wr_machine noted_writer) bt_get ''p'' (snd batch_run) = Some (snap, wal)
     \<and> shows_tables noted_writer snap wal noted_tables"
proof -
  note ready = notes_prepared [OF batch_steps(1)]
  have small: "state_small (px_st q)" if "ensure_writer_lease_for_state (wr_machine noted_writer) batch_jobs = (r, q)" for r q
    using that batch_steps(2) batch_values by simp
  note kept = jobs_keep_project [OF ready(1) batch_files(1) _ batch_files(2) batch_steps(3)]
  obtain q where "flush_batch noted_writer 1 batch_jobs = (Inr (), q)"
    using flush_batch_ok [OF kept(1) [OF docs_keys] notes_healthy(3,1,2) batch_steps(2)] batch_values by blast
  moreover obtain v where slot: "batch_slots = [(Inr v, True)]" using batch_slot by blast
  ultimately have answer: "fst (fst batch_run) ! 0 = Inr (with_bookmark v (bookmark_for_seq (ps_commit_seq (px_st (snd batch_run)))))"
    using batch_steps unfolding slot by (simp add: batch_run_def execute_write_batch_def committed_ops_def del: run_jobs.simps)
  have old: "px_recoverable (wr_machine noted_writer) bt_get (ps_project_id (px_st batch_prepared)) batch_prepared = Some (''data'', [])"
    using ready by simp
  have slot0: "batch_slots ! 0 = (Inr v, True)" unfolding slot by simp
  show ?thesis
    using acknowledged_writes_are_durable [OF ready(1) old notes_healthy(3) docs_keys batch_files small batch_steps(1,3,4) _ slot0 answer]
      ready(2) batch_tables by simp
qed

lemma committed_jobs_are_acknowledged_witness:
  "snd (fst batch_run) \<and> fst (fst batch_run)
     = map (answer_slot (Inr (bookmark_for_seq (ps_commit_seq (px_st (snd batch_run)))))) batch_slots"
  using committed_jobs_are_acknowledged [OF notes_prepared(1) [OF batch_steps(1)] notes_healthy(1,2,3) docs_keys batch_files
      batch_steps(1,3,2) batch_values(5) batch_one_commit batch_steps(4)]
  by simp
text \<open>The request again, now asking for something else, once the project reached its commit.\<close>

definition repeated_job :: write_job where
  "repeated_job = \<lparr>wj_kind = DeleteBucket ''docs'', wj_idempotency = Some docs_key\<rparr>"

definition batch_committed :: "(mem_world, note_rows project_tables) px" where
  "batch_committed = batch_jobs\<lparr>px_st := (px_st batch_jobs)\<lparr>ps_commit_seq := 10\<rparr>\<rparr>"

definition docs_answer :: json where
  "docs_answer = projr (fst (batch_slots ! 0))"

lemma docs_first_run:
  "execute_write_job noted_writer docs_job (bookmark_for_seq 10) batch_prepared = ((Inr docs_answer, True), batch_jobs)"
proof -
  have seq: "saturating_add (ps_commit_seq (px_st batch_prepared)) 1 = 10" by code_simp
  obtain v where slot: "batch_slots = [(Inr v, True)]" using batch_slot by blast
  with batch_runs(1) show ?thesis
    unfolding docs_answer_def slot run_jobs.simps seq by (auto split: prod.splits)
qed

lemma keyed_request_runs_once_witness:
  "fst (execute_write_job noted_writer repeated_job (bookmark_for_seq 11) batch_committed) = (Inr docs_answer, False)
   \<and> tables_of noted_writer (snd (execute_write_job noted_writer repeated_job (bookmark_for_seq 11) batch_committed)) = noted_tables"
proof -
  have W: "view_faithful noted_writer" by (simp add: view_faithful_def notes_defs)
  have serde: "serde_roundtrip (rt_serde (mc_rt (wr_machine noted_writer)))"
    using sample_serde_ok by (simp add: notes_defs)
  have exact: "json_exact docs_answer" "validate_idempotency docs_key = Inr ()" "(10 :: nat) \<le> u64_max" by code_simp+
  have same: "tables_of noted_writer batch_committed = tables_of noted_writer batch_jobs"
    by (simp add: batch_committed_def tables_of_def)
  have first: "execute_write_job noted_writer \<lparr>wj_kind = CreateBucket ''docs'', wj_idempotency = Some docs_key\<rparr>
      (bookmark_for_seq 10) batch_prepared = ((Inr docs_answer, True), batch_jobs)"
    using docs_first_run by (simp add: docs_job_def)
  obtain r c p4 where again: "execute_write_job noted_writer \<lparr>wj_kind = DeleteBucket ''docs'', wj_idempotency = Some docs_key\<rparr>
      (bookmark_for_seq 11) batch_committed = ((r, c), p4)" by (metis surj_pair)
  have view: "next_fault (wr_view noted_writer conn) = None" for conn by (simp add: notes_defs)
  from keyed_request_runs_once [OF W serde exact(1,3,2) refl first _ same again, of "[]" "[]"] again batch_tables same
  show ?thesis by (simp add: view batch_committed_def repeated_job_def)
qed

lemma jobs_answered_once_in_order_witness:
  "\<exists>q. (writer_step noted_writer)\<^sup>*\<^sup>* (snd (submit_write noted_writer docs_job (empty_queue notes_project))) q
     \<and> map fst (wq_answers q) = [0]"
proof -
  let ?q0 = "empty_queue notes_project" and ?r = "submit_write noted_writer docs_job (empty_queue notes_project)"
  have "(writer_step noted_writer)\<^sup>*\<^sup>* ?q0 (snd ?r)"
    by (rule r_into_rtranclp, rule writer_step.submit) (rule prod.collapse [symmetric])
  moreover have "wq_next (snd ?r) = 1"
    by (simp add: submit_write_def empty_queue_def ensure_primary_write_allowed_def notes_defs default_options_def)
  ultimately show ?thesis using jobs_answered_once_in_order [of noted_writer notes_project "snd ?r"] by auto
qed

end
