(* ===== verification/Realtime_Protocol.thy ===== *)
theory Realtime_Protocol
  imports Runtime_Base
begin

text \<open>
  \<open>realtime_protocol.rs\<close>: the Phoenix frames of the realtime channel. A record for every
  struct, its \<open>Deserialize\<close> (\<open>parse_\<dots>\<close>) and \<open>Serialize\<close> (\<open>\<dots>_json\<close>) as \<open>serde\<close> derives
  them, and the functions that classify, answer and produce frames. The locale \<open>json_codec\<close> is
  what a frame needs of its payload's type; it is interpreted on every payload.
\<close>

definition EVENT_PHX_JOIN :: string where "EVENT_PHX_JOIN = ''phx_join''"
definition EVENT_PHX_REPLY :: string where "EVENT_PHX_REPLY = ''phx_reply''"
definition EVENT_PHX_ERROR :: string where "EVENT_PHX_ERROR = ''phx_error''"
definition EVENT_HEARTBEAT :: string where "EVENT_HEARTBEAT = ''heartbeat''"
definition EVENT_BROADCAST :: string where "EVENT_BROADCAST = ''broadcast''"
definition EVENT_POSTGRES_CHANGES :: string where "EVENT_POSTGRES_CHANGES = ''postgres_changes''"

lemmas event_names = EVENT_PHX_JOIN_def EVENT_PHX_REPLY_def EVENT_PHX_ERROR_def EVENT_HEARTBEAT_def
  EVENT_BROADCAST_def EVENT_POSTGRES_CHANGES_def

section \<open>The messages\<close>

record 'p envelope =
  en_join_ref :: "string option"
  en_ref_id :: "string option"
  en_topic :: string
  en_event :: string
  en_payload :: 'p

record replay_config =
  rp_since :: int
  rp_limit :: "int option"
  rp_extra :: json_map

record broadcast_config =
  bc_ack :: bool
  bc_self :: bool
  bc_replay :: "replay_config option"
  bc_extra :: json_map

record presence_config =
  pr_key :: "string option"
  pr_enabled :: bool
  pr_extra :: json_map

record changes_filter =
  cf_event :: string
  cf_schema :: "string option"
  cf_table :: "string option"
  cf_filter :: "string option"
  cf_id :: "string option"
  cf_extra :: json_map

record join_config =
  jc_broadcast :: broadcast_config
  jc_presence :: presence_config
  jc_changes :: "changes_filter list"
  jc_private :: bool
  jc_extra :: json_map

record join_payload =
  jp_access_token :: "string option"
  jp_config :: join_config
  jp_extra :: json_map

record broadcast_payload =
  bp_kind :: "string option"
  bp_event :: string
  bp_payload :: json
  bp_extra :: json_map

datatype reply_status = StatusOk | StatusError

record 'r reply_payload =
  ry_status :: reply_status
  ry_response :: 'r

record error_payload =
  er_reason :: "string option"
  er_extra :: json_map

record join_response =
  jr_changes :: "changes_filter list"

datatype change_event = ChangeInsert | ChangeUpdate | ChangeDelete

record pg_column =
  pc_name :: string
  pc_type :: string
  pc_flags :: "string list"

record change_data =
  cd_schema :: string
  cd_table :: string
  cd_type :: change_event
  cd_commit_timestamp :: string
  cd_columns :: "pg_column list"
  cd_record :: json
  cd_old_record :: json
  cd_errors :: "string list"

record changes_payload =
  cp_ids :: "string list"
  cp_data :: change_data

record outbox_event =
  oe_id :: int
  oe_created_at :: string
  oe_table :: string
  oe_operation :: string
  oe_row :: json
  oe_actor_sub :: "string option"
  oe_actor_role :: "string option"

datatype realtime_message =
  MsgJoin "join_payload envelope"
| MsgHeartbeat "json envelope"
| MsgBroadcast "broadcast_payload envelope"
| MsgPostgresChanges "changes_payload envelope"
| MsgReply "json reply_payload envelope"
| MsgError "error_payload envelope"
| MsgOther "json envelope"

record protocol_error =
  pe_message :: string

definition protocol_err :: "string \<Rightarrow> protocol_error" where
  "protocol_err message = \<lparr>pe_message = message\<rparr>"

text \<open>
  The JSON package: its printer and parser, and the texts of its errors, for a frame that is
  not JSON and for a value that is not of the expected type (named by the first argument).
\<close>

record realtime_json =
  rj_serde :: serde
  rj_text_error :: "string \<Rightarrow> string"
  rj_value_error :: "string \<Rightarrow> json \<Rightarrow> string"

definition from_serde_error :: "string \<Rightarrow> protocol_error" where
  "from_serde_error e = protocol_err (''invalid realtime JSON: '' @ e)"

definition with_payload :: "'a envelope \<Rightarrow> 'b \<Rightarrow> 'b envelope" where
  "with_payload e payload =
     \<lparr>en_join_ref = en_join_ref e, en_ref_id = en_ref_id e, en_topic = en_topic e, en_event = en_event e,
      en_payload = payload\<rparr>"

section \<open>Reading the payloads\<close>

text \<open>
  A struct with a flattened map is read from an object only; the fields it does not name are
  the map. A struct without one ignores further fields, and is read from an array too, in which
  trailing fields with a default may be missing.
\<close>

definition flat_fields :: "string list \<Rightarrow> json \<Rightarrow> ((string \<Rightarrow> json option) \<times> json_map) option" where
  "flat_fields names v =
     (case v of
        JObject m \<Rightarrow> Some (\<lambda>k. if k \<in> set names then bt_get m k else None, filter (\<lambda>(k, _). k \<notin> set names) m)
      | _ \<Rightarrow> None)"

definition seq_fields :: "nat \<Rightarrow> string list \<Rightarrow> json \<Rightarrow> (string \<Rightarrow> json option) option" where
  "seq_fields required names v =
     (case v of
        JObject m \<Rightarrow> Some (bt_get m)
      | JArray xs \<Rightarrow>
          if required \<le> length xs \<and> length xs \<le> length names then Some (map_of (zip names xs)) else None
      | _ \<Rightarrow> None)"

abbreviation opt_field :: "(json \<Rightarrow> 'a option) \<Rightarrow> (string \<Rightarrow> json option) \<Rightarrow> string \<Rightarrow> 'a option option" where
  "opt_field f \<equiv> field_default (as_opt f) None"

definition parse_replay :: "json \<Rightarrow> replay_config option" where
  "parse_replay v =
     Option.bind (flat_fields [''since'', ''limit''] v) (\<lambda>(get, extra).
     Option.bind (field_default as_i64 0 get ''since'') (\<lambda>since.
     Option.bind (opt_field as_i64 get ''limit'') (\<lambda>limit.
       Some \<lparr>rp_since = since, rp_limit = limit, rp_extra = extra\<rparr>)))"

definition parse_broadcast_config :: "json \<Rightarrow> broadcast_config option" where
  "parse_broadcast_config v =
     Option.bind (flat_fields [''ack'', ''self'', ''replay''] v) (\<lambda>(get, extra).
     Option.bind (field_default as_bool False get ''ack'') (\<lambda>ack.
     Option.bind (field_default as_bool False get ''self'') (\<lambda>own.
     Option.bind (opt_field parse_replay get ''replay'') (\<lambda>replay.
       Some \<lparr>bc_ack = ack, bc_self = own, bc_replay = replay, bc_extra = extra\<rparr>))))"

definition parse_presence :: "json \<Rightarrow> presence_config option" where
  "parse_presence v =
     Option.bind (flat_fields [''key'', ''enabled''] v) (\<lambda>(get, extra).
     Option.bind (opt_field as_str get ''key'') (\<lambda>key.
     Option.bind (field_default as_bool False get ''enabled'') (\<lambda>enabled.
       Some \<lparr>pr_key = key, pr_enabled = enabled, pr_extra = extra\<rparr>)))"

definition parse_filter :: "json \<Rightarrow> changes_filter option" where
  "parse_filter v =
     Option.bind (flat_fields [''event'', ''schema'', ''table'', ''filter'', ''id''] v) (\<lambda>(get, extra).
     Option.bind (field as_str get ''event'') (\<lambda>event.
     Option.bind (opt_field as_str get ''schema'') (\<lambda>schema.
     Option.bind (opt_field as_str get ''table'') (\<lambda>table.
     Option.bind (opt_field as_str get ''filter'') (\<lambda>filter.
     Option.bind (opt_field as_str get ''id'') (\<lambda>id.
       Some \<lparr>cf_event = event, cf_schema = schema, cf_table = table, cf_filter = filter, cf_id = id,
         cf_extra = extra\<rparr>))))))"

definition default_broadcast_config :: broadcast_config where
  "default_broadcast_config = \<lparr>bc_ack = False, bc_self = False, bc_replay = None, bc_extra = []\<rparr>"

definition default_presence :: presence_config where
  "default_presence = \<lparr>pr_key = None, pr_enabled = False, pr_extra = []\<rparr>"

definition default_join_config :: join_config where
  "default_join_config =
     \<lparr>jc_broadcast = default_broadcast_config, jc_presence = default_presence, jc_changes = [],
      jc_private = False, jc_extra = []\<rparr>"

definition parse_join_config :: "json \<Rightarrow> join_config option" where
  "parse_join_config v =
     Option.bind (flat_fields [''broadcast'', ''presence'', ''postgres_changes'', ''private''] v) (\<lambda>(get, extra).
     Option.bind (field_default parse_broadcast_config default_broadcast_config get ''broadcast'') (\<lambda>broadcast.
     Option.bind (field_default parse_presence default_presence get ''presence'') (\<lambda>presence.
     Option.bind (field_default (as_list parse_filter) [] get ''postgres_changes'') (\<lambda>changes.
     Option.bind (field_default as_bool False get ''private'') (\<lambda>private.
       Some \<lparr>jc_broadcast = broadcast, jc_presence = presence, jc_changes = changes, jc_private = private,
         jc_extra = extra\<rparr>)))))"

definition parse_join :: "json \<Rightarrow> join_payload option" where
  "parse_join v =
     Option.bind (flat_fields [''access_token'', ''config''] v) (\<lambda>(get, extra).
     Option.bind (opt_field as_str get ''access_token'') (\<lambda>token.
     Option.bind (field_default parse_join_config default_join_config get ''config'') (\<lambda>config.
       Some \<lparr>jp_access_token = token, jp_config = config, jp_extra = extra\<rparr>)))"

definition parse_broadcast :: "json \<Rightarrow> broadcast_payload option" where
  "parse_broadcast v =
     Option.bind (flat_fields [''type'', ''event'', ''payload''] v) (\<lambda>(get, extra).
     Option.bind (opt_field as_str get ''type'') (\<lambda>kind.
     Option.bind (field as_str get ''event'') (\<lambda>event.
     Option.bind (field_default Some JNull get ''payload'') (\<lambda>payload.
       Some \<lparr>bp_kind = kind, bp_event = event, bp_payload = payload, bp_extra = extra\<rparr>))))"

definition parse_error_payload :: "json \<Rightarrow> error_payload option" where
  "parse_error_payload v =
     Option.bind (flat_fields [''reason''] v) (\<lambda>(get, extra).
     Option.bind (opt_field as_str get ''reason'') (\<lambda>reason.
       Some \<lparr>er_reason = reason, er_extra = extra\<rparr>))"

text \<open>A unit variant is read from its name, or from an object with the name and \<open>null\<close>.\<close>

definition variant_name :: "json \<Rightarrow> string option" where
  "variant_name v =
     (case v of
        JString s \<Rightarrow> Some s
      | JObject [(k, JNull)] \<Rightarrow> Some k
      | _ \<Rightarrow> None)"

definition parse_status :: "json \<Rightarrow> reply_status option" where
  "parse_status v =
     Option.bind (variant_name v) (\<lambda>s.
       if s = ''ok'' then Some StatusOk else if s = ''error'' then Some StatusError else None)"

definition parse_change_event :: "json \<Rightarrow> change_event option" where
  "parse_change_event v =
     Option.bind (variant_name v) (\<lambda>s.
       if s = ''INSERT'' then Some ChangeInsert else if s = ''UPDATE'' then Some ChangeUpdate
       else if s = ''DELETE'' then Some ChangeDelete else None)"

definition parse_reply :: "json \<Rightarrow> json reply_payload option" where
  "parse_reply v =
     Option.bind (seq_fields 2 [''status'', ''response''] v) (\<lambda>get.
     Option.bind (field parse_status get ''status'') (\<lambda>status.
     Option.bind (field Some get ''response'') (\<lambda>response.
       Some \<lparr>ry_status = status, ry_response = response\<rparr>)))"

definition parse_column :: "json \<Rightarrow> pg_column option" where
  "parse_column v =
     Option.bind (seq_fields 2 [''name'', ''type'', ''flags''] v) (\<lambda>get.
     Option.bind (field as_str get ''name'') (\<lambda>name.
     Option.bind (field as_str get ''type'') (\<lambda>type_name.
     Option.bind (field_default (as_list as_str) [] get ''flags'') (\<lambda>flags.
       Some \<lparr>pc_name = name, pc_type = type_name, pc_flags = flags\<rparr>))))"

definition change_fields :: "string list" where
  "change_fields = [''schema'', ''table'', ''type'', ''commit_timestamp'', ''columns'', ''record'', ''old_record'', ''errors'']"

definition parse_change_data :: "json \<Rightarrow> change_data option" where
  "parse_change_data v =
     Option.bind (seq_fields 8 change_fields v) (\<lambda>get.
     Option.bind (field as_str get ''schema'') (\<lambda>schema.
     Option.bind (field as_str get ''table'') (\<lambda>table.
     Option.bind (field parse_change_event get ''type'') (\<lambda>event_type.
     Option.bind (field as_str get ''commit_timestamp'') (\<lambda>at.
     Option.bind (field (as_list parse_column) get ''columns'') (\<lambda>columns.
     Option.bind (field Some get ''record'') (\<lambda>record.
     Option.bind (field Some get ''old_record'') (\<lambda>old_record.
     Option.bind (field (as_list as_str) get ''errors'') (\<lambda>errors.
       Some \<lparr>cd_schema = schema, cd_table = table, cd_type = event_type, cd_commit_timestamp = at,
         cd_columns = columns, cd_record = record, cd_old_record = old_record, cd_errors = errors\<rparr>)))))))))"

definition parse_changes :: "json \<Rightarrow> changes_payload option" where
  "parse_changes v =
     Option.bind (seq_fields 2 [''ids'', ''data''] v) (\<lambda>get.
     Option.bind (field (as_list as_str) get ''ids'') (\<lambda>ids.
     Option.bind (field parse_change_data get ''data'') (\<lambda>data.
       Some \<lparr>cp_ids = ids, cp_data = data\<rparr>)))"

definition parse_outbox_event :: "json \<Rightarrow> outbox_event option" where
  "parse_outbox_event v =
     Option.bind (seq_fields 5 [''id'', ''created_at'', ''table'', ''operation'', ''row'', ''actor_sub'', ''actor_role''] v)
       (\<lambda>get.
     Option.bind (field as_i64 get ''id'') (\<lambda>id.
     Option.bind (field as_str get ''created_at'') (\<lambda>created_at.
     Option.bind (field as_str get ''table'') (\<lambda>table.
     Option.bind (field as_str get ''operation'') (\<lambda>operation.
     Option.bind (field Some get ''row'') (\<lambda>row.
     Option.bind (opt_field as_str get ''actor_sub'') (\<lambda>actor_sub.
     Option.bind (opt_field as_str get ''actor_role'') (\<lambda>actor_role.
       Some \<lparr>oe_id = id, oe_created_at = created_at, oe_table = table, oe_operation = operation,
         oe_row = row, oe_actor_sub = actor_sub, oe_actor_role = actor_role\<rparr>))))))))"

section \<open>Writing the payloads\<close>

text \<open>\<open>skip_serializing_if\<close>.\<close>

definition some_field :: "string \<Rightarrow> ('a \<Rightarrow> json) \<Rightarrow> 'a option \<Rightarrow> (string \<times> json) list" where
  "some_field name f x = (case x of None \<Rightarrow> [] | Some v \<Rightarrow> [(name, f v)])"

definition list_field :: "string \<Rightarrow> ('a \<Rightarrow> json) \<Rightarrow> 'a list \<Rightarrow> (string \<times> json) list" where
  "list_field name f xs = (if xs = [] then [] else [(name, JArray (map f xs))])"

definition replay_json :: "replay_config \<Rightarrow> json" where
  "replay_json c =
     jobj ([(''since'', json_of_int (rp_since c))] @ some_field ''limit'' json_of_int (rp_limit c) @ rp_extra c)"

definition broadcast_config_json :: "broadcast_config \<Rightarrow> json" where
  "broadcast_config_json c =
     jobj ([(''ack'', JBool (bc_ack c)), (''self'', JBool (bc_self c))]
       @ some_field ''replay'' replay_json (bc_replay c) @ bc_extra c)"

definition presence_json :: "presence_config \<Rightarrow> json" where
  "presence_json c =
     jobj (some_field ''key'' JString (pr_key c) @ [(''enabled'', JBool (pr_enabled c))] @ pr_extra c)"

definition filter_json :: "changes_filter \<Rightarrow> json" where
  "filter_json f =
     jobj ([(''event'', JString (cf_event f))] @ some_field ''schema'' JString (cf_schema f)
       @ some_field ''table'' JString (cf_table f) @ some_field ''filter'' JString (cf_filter f)
       @ some_field ''id'' JString (cf_id f) @ cf_extra f)"

definition join_config_json :: "join_config \<Rightarrow> json" where
  "join_config_json c =
     jobj ([(''broadcast'', broadcast_config_json (jc_broadcast c)), (''presence'', presence_json (jc_presence c)),
            (''postgres_changes'', JArray (map filter_json (jc_changes c))), (''private'', JBool (jc_private c))]
       @ jc_extra c)"

definition join_json :: "join_payload \<Rightarrow> json" where
  "join_json p =
     jobj (some_field ''access_token'' JString (jp_access_token p)
       @ [(''config'', join_config_json (jp_config p))] @ jp_extra p)"

definition broadcast_json :: "broadcast_payload \<Rightarrow> json" where
  "broadcast_json p =
     jobj (some_field ''type'' JString (bp_kind p)
       @ [(''event'', JString (bp_event p)), (''payload'', bp_payload p)] @ bp_extra p)"

definition error_json :: "error_payload \<Rightarrow> json" where
  "error_json p = jobj (some_field ''reason'' JString (er_reason p) @ er_extra p)"

fun status_json :: "reply_status \<Rightarrow> json" where
  "status_json StatusOk = JString ''ok''"
| "status_json StatusError = JString ''error''"

fun change_event_json :: "change_event \<Rightarrow> json" where
  "change_event_json ChangeInsert = JString ''INSERT''"
| "change_event_json ChangeUpdate = JString ''UPDATE''"
| "change_event_json ChangeDelete = JString ''DELETE''"

definition reply_json :: "('r \<Rightarrow> json) \<Rightarrow> 'r reply_payload \<Rightarrow> json" where
  "reply_json f p = jobj [(''status'', status_json (ry_status p)), (''response'', f (ry_response p))]"

definition join_response_json :: "join_response \<Rightarrow> json" where
  "join_response_json r = jobj (list_field ''postgres_changes'' filter_json (jr_changes r))"

definition pg_column_json :: "pg_column \<Rightarrow> json" where
  "pg_column_json c =
     jobj ([(''name'', JString (pc_name c)), (''type'', JString (pc_type c))] @ list_field ''flags'' JString (pc_flags c))"

definition change_data_json :: "change_data \<Rightarrow> json" where
  "change_data_json d =
     jobj [(''schema'', JString (cd_schema d)), (''table'', JString (cd_table d)),
           (''type'', change_event_json (cd_type d)), (''commit_timestamp'', JString (cd_commit_timestamp d)),
           (''columns'', JArray (map pg_column_json (cd_columns d))), (''record'', cd_record d),
           (''old_record'', cd_old_record d), (''errors'', JArray (map JString (cd_errors d)))]"

definition changes_json :: "changes_payload \<Rightarrow> json" where
  "changes_json p =
     jobj [(''ids'', JArray (map JString (cp_ids p))), (''data'', change_data_json (cp_data p))]"

section \<open>Frames\<close>

definition optional_string :: "json \<Rightarrow> string \<Rightarrow> protocol_error + string option" where
  "optional_string v name =
     (case v of
        JNull \<Rightarrow> Inr None
      | JString s \<Rightarrow> Inr (Some s)
      | _ \<Rightarrow> Inl (protocol_err (''Phoenix realtime frame '' @ name @ '' must be a string or null'')))"

definition required_string :: "json \<Rightarrow> string \<Rightarrow> protocol_error + string" where
  "required_string v name =
     (case v of
        JString s \<Rightarrow> Inr s
      | _ \<Rightarrow> Inl (protocol_err (''Phoenix realtime frame '' @ name @ '' must be a string'')))"

definition envelope_from_array :: "json list \<Rightarrow> protocol_error + json envelope" where
  "envelope_from_array items =
     (if length items \<noteq> 5
      then Inl (protocol_err ''Phoenix realtime array frame must have 5 entries'')
      else
        rbind (optional_string (items ! 0) ''join_ref'') (\<lambda>join_ref.
        rbind (optional_string (items ! 1) ''ref'') (\<lambda>ref_id.
        rbind (required_string (items ! 2) ''topic'') (\<lambda>topic.
        rbind (required_string (items ! 3) ''event'') (\<lambda>event.
          Inr \<lparr>en_join_ref = join_ref, en_ref_id = ref_id, en_topic = topic, en_event = event,
            en_payload = items ! 4\<rparr>)))))"

definition parse_object_envelope :: "json_map \<Rightarrow> json envelope option" where
  "parse_object_envelope m =
     Option.bind (opt_field as_str (bt_get m) ''join_ref'') (\<lambda>join_ref.
     Option.bind (opt_field as_str (bt_get m) ''ref'') (\<lambda>ref_id.
     Option.bind (field as_str (bt_get m) ''topic'') (\<lambda>topic.
     Option.bind (field as_str (bt_get m) ''event'') (\<lambda>event.
     Option.bind (field Some (bt_get m) ''payload'') (\<lambda>payload.
       Some \<lparr>en_join_ref = join_ref, en_ref_id = ref_id, en_topic = topic, en_event = event,
         en_payload = payload\<rparr>)))))"

text \<open>\<open>serde_json::from_value\<close> into the named type.\<close>

definition from_value :: "realtime_json \<Rightarrow> string \<Rightarrow> (json \<Rightarrow> 'a option) \<Rightarrow> json \<Rightarrow> protocol_error + 'a" where
  "from_value rj type_name f v = ok_or (from_serde_error (rj_value_error rj type_name v)) (f v)"

definition envelope_from_value :: "realtime_json \<Rightarrow> json \<Rightarrow> protocol_error + json envelope" where
  "envelope_from_value rj v =
     (case v of
        JArray items \<Rightarrow> envelope_from_array items
      | JObject m \<Rightarrow> from_value rj ''MessageEnvelope'' (\<lambda>_. parse_object_envelope m) v
      | _ \<Rightarrow> Inl (protocol_err ''realtime frame must be a Phoenix array or JSON object''))"

definition typed_envelope ::
    "realtime_json \<Rightarrow> string \<Rightarrow> (json \<Rightarrow> 'a option) \<Rightarrow> json envelope \<Rightarrow> protocol_error + 'a envelope" where
  "typed_envelope rj type_name f e = rmap (with_payload e) (from_value rj type_name f (en_payload e))"

definition classify_envelope :: "realtime_json \<Rightarrow> json envelope \<Rightarrow> protocol_error + realtime_message" where
  "classify_envelope rj e =
     (if en_event e = EVENT_PHX_JOIN then rmap MsgJoin (typed_envelope rj ''JoinPayload'' parse_join e)
      else if en_event e = EVENT_HEARTBEAT then Inr (MsgHeartbeat e)
      else if en_event e = EVENT_BROADCAST
        then rmap MsgBroadcast (typed_envelope rj ''BroadcastPayload'' parse_broadcast e)
      else if en_event e = EVENT_POSTGRES_CHANGES
        then rmap MsgPostgresChanges (typed_envelope rj ''PostgresChangesPayload'' parse_changes e)
      else if en_event e = EVENT_PHX_REPLY then rmap MsgReply (typed_envelope rj ''ReplyPayload'' parse_reply e)
      else if en_event e = EVENT_PHX_ERROR
        then rmap MsgError (typed_envelope rj ''ErrorPayload'' parse_error_payload e)
      else Inr (MsgOther e))"

definition parse_envelope :: "realtime_json \<Rightarrow> string \<Rightarrow> protocol_error + json envelope" where
  "parse_envelope rj raw =
     rbind (ok_or (from_serde_error (rj_text_error rj raw)) (from_json_text (rj_serde rj) raw))
       (envelope_from_value rj)"

definition parse_frame :: "realtime_json \<Rightarrow> string \<Rightarrow> protocol_error + realtime_message" where
  "parse_frame rj raw =
     rbind (ok_or (from_serde_error (rj_text_error rj raw)) (from_json_text (rj_serde rj) raw)) (\<lambda>v.
     rbind (envelope_from_value rj v) (classify_envelope rj))"

definition frame_json :: "('p \<Rightarrow> json) \<Rightarrow> 'p envelope \<Rightarrow> json" where
  "frame_json f e =
     JArray [jopt (en_join_ref e), jopt (en_ref_id e), JString (en_topic e), JString (en_event e), f (en_payload e)]"

definition encode_frame :: "realtime_json \<Rightarrow> ('p \<Rightarrow> json) \<Rightarrow> 'p envelope \<Rightarrow> string" where
  "encode_frame rj f e = to_json_text (rj_serde rj) (frame_json f e)"

section \<open>Answers and changes\<close>

definition reply :: "string \<Rightarrow> string option \<Rightarrow> string option \<Rightarrow> reply_status \<Rightarrow> 'r \<Rightarrow> 'r reply_payload envelope" where
  "reply topic ref_id join_ref status response =
     \<lparr>en_join_ref = join_ref, en_ref_id = ref_id, en_topic = topic, en_event = EVENT_PHX_REPLY,
      en_payload = \<lparr>ry_status = status, ry_response = response\<rparr>\<rparr>"

definition heartbeat_reply :: "json envelope \<Rightarrow> json reply_payload envelope" where
  "heartbeat_reply e = reply (en_topic e) (en_ref_id e) (en_join_ref e) StatusOk (jobj [])"

text \<open>\<open>as_deref().unwrap_or("*")\<close>.\<close>

definition or_star :: "string option \<Rightarrow> string" where
  "or_star x = (case x of None \<Rightarrow> ''*'' | Some s \<Rightarrow> s)"

definition subscription_id :: "changes_filter \<Rightarrow> nat \<Rightarrow> string" where
  "subscription_id f index =
     ''pg:'' @ or_star (cf_schema f) @ '':'' @ or_star (cf_table f) @ '':'' @ cf_event f @ '':''
       @ or_star (cf_filter f) @ '':'' @ show_nat index"

definition filter_with_id :: "changes_filter \<Rightarrow> nat \<Rightarrow> changes_filter" where
  "filter_with_id f index = (if cf_id f = None then f\<lparr>cf_id := Some (subscription_id f index)\<rparr> else f)"

definition join_reply :: "join_payload envelope \<Rightarrow> join_response reply_payload envelope" where
  "join_reply e =
     reply (en_topic e) (en_ref_id e) (en_join_ref e) StatusOk
       \<lparr>jr_changes = map (\<lambda>(index, f). filter_with_id f index) (enumerate 0 (jc_changes (jp_config (en_payload e))))\<rparr>"

definition error_reply :: "string \<Rightarrow> string option \<Rightarrow> string option \<Rightarrow> string \<Rightarrow> json reply_payload envelope" where
  "error_reply topic ref_id join_ref reason =
     reply topic ref_id join_ref StatusError (jobj [(''reason'', JString reason)])"

definition channel_error :: "string \<Rightarrow> string option \<Rightarrow> string \<Rightarrow> error_payload envelope" where
  "channel_error topic join_ref reason =
     \<lparr>en_join_ref = join_ref, en_ref_id = None, en_topic = topic, en_event = EVENT_PHX_ERROR,
      en_payload = \<lparr>er_reason = Some reason, er_extra = []\<rparr>\<rparr>"

definition outbox_event_from_value :: "realtime_json \<Rightarrow> json \<Rightarrow> protocol_error + outbox_event" where
  "outbox_event_from_value rj v = from_value rj ''OutboxEvent'' parse_outbox_event v"

definition from_outbox_operation :: "string \<Rightarrow> protocol_error + change_event" where
  "from_outbox_operation operation =
     (let op = to_ascii_lowercase operation
      in if op = ''insert'' then Inr ChangeInsert
         else if op = ''update'' then Inr ChangeUpdate
         else if op = ''delete'' then Inr ChangeDelete
         else Inl (protocol_err (''unsupported postgres_changes outbox operation: '' @ operation)))"

definition infer_columns :: "json \<Rightarrow> pg_column list" where
  "infer_columns record =
     (case as_object record of
        None \<Rightarrow> []
      | Some m \<Rightarrow> map (\<lambda>name. \<lparr>pc_name = name, pc_type = ''jsonb'', pc_flags = []\<rparr>) (sort (bt_keys m)))"

definition outbox_event_to_postgres_changes ::
    "string \<Rightarrow> string list \<Rightarrow> outbox_event \<Rightarrow> protocol_error + changes_payload envelope" where
  "outbox_event_to_postgres_changes topic ids e =
     rbind (from_outbox_operation (oe_operation e)) (\<lambda>event_type.
     let (record, old_record) =
           (case event_type of ChangeDelete \<Rightarrow> (JNull, oe_row e) | _ \<Rightarrow> (oe_row e, JNull));
         columns_source = (if is_object record then record else old_record)
     in Inr \<lparr>en_join_ref = None, en_ref_id = None, en_topic = topic, en_event = EVENT_POSTGRES_CHANGES,
          en_payload =
            \<lparr>cp_ids = ids,
             cp_data =
               \<lparr>cd_schema = ''public'', cd_table = oe_table e, cd_type = event_type,
                cd_commit_timestamp = oe_created_at e, cd_columns = infer_columns columns_source,
                cd_record = record, cd_old_record = old_record, cd_errors = []\<rparr>\<rparr>\<rparr>)"

end
