(* ===== verification/Realtime_Properties.thy ===== *)
theory Realtime_Properties
  imports Realtime_Protocol Storage Auth Concrete_Packages
begin

text \<open>
  The realtime protocol is correct: what is written is read back, for every payload and for
  whole frames; the filters of a join are answered with distinct identifiers; the events of
  the outbox become the changes subscribers see.
\<close>

section \<open>Structs with a flattened map\<close>

lemma map_of_keys: "distinct (map fst m) \<Longrightarrow> map (\<lambda>k. (k, the (map_of m k))) (map fst m) = m"
  by (auto intro!: map_idI)

lemma bt_ext:
  assumes "bt_wf m" and "bt_wf n" and "bt_get m = bt_get n"
  shows "m = n"
proof -
  have keys: "map fst m = map fst n" and dist: "distinct (map fst m)" "distinct (map fst n)"
    using bt.keys_unique [OF assms] bt.distinct_keys [OF assms(1)] bt.distinct_keys [OF assms(2)]
    by (simp_all add: bt_keys_def)
  have "map_of m = map_of n"
    using assms(3) by (auto simp: bt_get_def fun_eq_iff)
  then show ?thesis
    using map_of_keys [OF dist(1)] map_of_keys [OF dist(2)] keys by simp
qed

definition extra_ok :: "string list \<Rightarrow> json_map \<Rightarrow> bool" where
  "extra_ok names m \<longleftrightarrow> json_exact (JObject m) \<and> list_all (\<lambda>(k, _). k \<notin> set names) m"

lemma filter_keys_wf: "bt_wf m \<Longrightarrow> bt_wf (filter P m)"
  by (induction m) (auto simp: bt_wf_def)

lemma bt_get_filter_keys: "bt_get (filter (\<lambda>(k, _). Q k) m) k = (if Q k then bt_get m k else None)"
  by (induction m) (auto simp: bt_get_def)

lemma map_of_extra: "extra_ok names extra \<Longrightarrow> k \<in> set names \<Longrightarrow> map_of extra k = None"
  by (auto simp: extra_ok_def list_all_iff map_of_eq_None_iff)

text \<open>The known fields and the flattened rest are told apart again.\<close>

lemma flat_fields_jobj:
  assumes extra: "extra_ok names extra" and known: "fst ` set known \<subseteq> set names"
  shows "flat_fields names (jobj (known @ extra)) = Some (map_of (rev known), extra)"
proof -
  define m where "m = fold (\<lambda>(k, v). bt_insert k v) (known @ extra) []"
  have wf: "bt_wf m" "bt_wf extra" and dist: "distinct (map fst extra)"
    using extra bt.wf_fold_insert [of "[]" "known @ extra"] bt.distinct_keys [of extra]
    by (simp_all add: m_def extra_ok_def bt_keys_def) (simp add: bt_wf_def)+
  have get: "bt_get m k = map_of (rev (known @ extra)) k" for k
    using bt.get_fold_insert [of "known @ extra" "[]" k] unfolding m_def
    by (simp only: bt.get_empty split: option.splits) auto
  have rev_extra: "map_of (rev extra) = map_of extra"
    using dist by (subst map_of_inject_set) (simp_all add: rev_map [symmetric])
  have none: "map_of (rev known) k = None" if "k \<notin> set names" for k
    using known that by (auto simp: map_of_eq_None_iff)
  have "filter (\<lambda>(k, _). k \<notin> set names) m = extra"
  proof (rule bt_ext)
    have ext: "bt_get extra k = map_of extra k" for k
      by (simp add: bt_get_def)
    show "bt_get (filter (\<lambda>(k, _). k \<notin> set names) m) = bt_get extra"
      by (rule HOL.ext) (simp add: bt_get_filter_keys get rev_extra map_add_def none map_of_extra [OF extra] ext
          split: option.splits)
  qed (use wf filter_keys_wf in auto)
  moreover have "(\<lambda>k. if k \<in> set names then bt_get m k else None) = map_of (rev known)"
    using none extra
    by (auto simp: fun_eq_iff get rev_extra map_add_def map_of_extra split: option.splits)
  ultimately show ?thesis
    unfolding flat_fields_def jobj_def m_def [symmetric] by simp
qed


section \<open>The values that are written\<close>

definition replay_ok :: "replay_config \<Rightarrow> bool" where
  "replay_ok c \<longleftrightarrow>
     i64_range (rp_since c) \<and> pred_option i64_range (rp_limit c) \<and> extra_ok [''since'', ''limit''] (rp_extra c)"

definition broadcast_config_ok :: "broadcast_config \<Rightarrow> bool" where
  "broadcast_config_ok c \<longleftrightarrow>
     pred_option replay_ok (bc_replay c) \<and> extra_ok [''ack'', ''self'', ''replay''] (bc_extra c)"

definition presence_ok :: "presence_config \<Rightarrow> bool" where
  "presence_ok c \<longleftrightarrow> extra_ok [''key'', ''enabled''] (pr_extra c)"

definition filter_ok :: "changes_filter \<Rightarrow> bool" where
  "filter_ok f \<longleftrightarrow> extra_ok [''event'', ''schema'', ''table'', ''filter'', ''id''] (cf_extra f)"

definition join_config_ok :: "join_config \<Rightarrow> bool" where
  "join_config_ok c \<longleftrightarrow>
     broadcast_config_ok (jc_broadcast c) \<and> presence_ok (jc_presence c) \<and> list_all filter_ok (jc_changes c)
     \<and> extra_ok [''broadcast'', ''presence'', ''postgres_changes'', ''private''] (jc_extra c)"

definition join_ok :: "join_payload \<Rightarrow> bool" where
  "join_ok p \<longleftrightarrow> join_config_ok (jp_config p) \<and> extra_ok [''access_token'', ''config''] (jp_extra p)"

definition broadcast_ok :: "broadcast_payload \<Rightarrow> bool" where
  "broadcast_ok p \<longleftrightarrow> json_exact (bp_payload p) \<and> extra_ok [''type'', ''event'', ''payload''] (bp_extra p)"

definition error_ok :: "error_payload \<Rightarrow> bool" where
  "error_ok p \<longleftrightarrow> extra_ok [''reason''] (er_extra p)"

definition changes_ok :: "changes_payload \<Rightarrow> bool" where
  "changes_ok p \<longleftrightarrow> json_exact (cd_record (cp_data p)) \<and> json_exact (cd_old_record (cp_data p))"

section \<open>The interface of a payload\<close>

text \<open>What a frame needs of its payload: it is written as a value the text carries exactly,
  and read back from it.\<close>

locale json_codec =
  fixes ser :: "'a \<Rightarrow> json"
    and de :: "json \<Rightarrow> 'a option"
    and ok :: "'a \<Rightarrow> bool"
  assumes de_ser: "ok x \<Longrightarrow> de (ser x) = Some x"
    and exact_ser: "ok x \<Longrightarrow> json_exact (ser x)"
begin

lemma list_de: "list_all ok xs \<Longrightarrow> as_list de (JArray (map ser xs)) = Some xs"
  using those_map_Some [of xs de ser] by (simp add: list_all_iff de_ser)

lemma list_exact: "list_all ok xs \<Longrightarrow> list_all json_exact (map ser xs)"
  by (auto simp: list_all_iff exact_ser)

lemma typed: "ok x \<Longrightarrow> typed_envelope rj t de (with_payload e (ser x)) = Inr (with_payload e x)"
  by (simp add: typed_envelope_def from_value_def de_ser with_payload_def)

lemma frame_exact: "ok (en_payload e) \<Longrightarrow> json_exact (frame_json ser e)"
  by (simp add: frame_json_def jopt_def exact_ser split: option.splits)

text \<open>An encoded frame is parsed into its envelope, the payload still a value.\<close>

lemma envelope_roundtrip:
  "ok (en_payload e) \<Longrightarrow> serde_roundtrip (rj_serde rj) \<Longrightarrow>
    parse_envelope rj (encode_frame rj ser e) = Inr (with_payload e (ser (en_payload e)))"
  using frame_exact [of e]
  by (cases "en_join_ref e"; cases "en_ref_id e")
    (simp_all add: parse_envelope_def encode_frame_def serde_roundtripD frame_json_def envelope_from_value_def
      envelope_from_array_def jopt_def optional_string_def required_string_def with_payload_def)

end

text \<open>A payload that is never \<open>null\<close> can be optional.\<close>

locale value_codec = json_codec +
  assumes ser_not_null: "ser x \<noteq> JNull"
begin

lemma opt_de: "pred_option ok x \<Longrightarrow> x = Some y \<Longrightarrow> as_opt de (ser y) = Some x"
  using ser_not_null [of y] de_ser [of y] by (cases "ser y") simp_all

end

interpretation text_codec: value_codec JString as_str "\<lambda>_. True"
  by unfold_locales simp_all

interpretation int_codec: value_codec json_of_int as_i64 i64_range
  by unfold_locales (auto simp: json_of_int_def i64_range_def i64_max_def u64_max_def)
section \<open>Every payload has the interface\<close>

lemma jobj_not_null [simp]: "jobj kvs \<noteq> JNull"
  by (simp add: jobj_def)

lemma keys_some_field [simp]: "fst ` set (some_field name f x) \<subseteq> S \<longleftrightarrow> (x = None \<or> name \<in> S)"
  by (cases x) (simp_all add: some_field_def)

lemma all_some_field [simp]:
  "list_all P (some_field name f x) \<longleftrightarrow> pred_option (\<lambda>v. P (name, f v)) x"
  by (cases x) (simp_all add: some_field_def)

lemma exact_extra: "extra_ok names m \<Longrightarrow> list_all (\<lambda>(k, v). json_exact v) m"
  by (simp add: extra_ok_def)

text \<open>The fields of a struct with a flattened map, in the shape the writers give them.\<close>

lemma flat_fields_one:
  "extra_ok names extra \<Longrightarrow> fst ` set known \<subseteq> set names \<Longrightarrow> kvs = known @ extra \<Longrightarrow>
    flat_fields names (jobj kvs) = Some (map_of (rev known), extra)"
  by (simp add: flat_fields_jobj)

lemma some_field_simps [simp]: "some_field name f None = []" "some_field name f (Some v) = [(name, f v)]"
  by (simp_all add: some_field_def)

lemmas read_defs = field_def field_default_def

interpretation replay_codec: value_codec replay_json parse_replay replay_ok
proof
  fix c assume ok: "replay_ok c"
  have "flat_fields [''since'', ''limit''] (replay_json c) =
      Some (map_of (rev ([(''since'', json_of_int (rp_since c))] @ some_field ''limit'' json_of_int (rp_limit c))),
        rp_extra c)"
    unfolding replay_json_def by (rule flat_fields_one) (use ok in \<open>simp_all add: replay_ok_def\<close>)
  then show "parse_replay (replay_json c) = Some c"
    using ok int_codec.de_ser int_codec.opt_de [of "rp_limit c"]
    by (cases "rp_limit c") (simp_all add: parse_replay_def replay_ok_def read_defs)
  show "json_exact (replay_json c)"
    unfolding replay_json_def
    by (rule json_exact_jobj)
      (use ok int_codec.exact_ser exact_extra in \<open>auto simp: replay_ok_def option.pred_set\<close>)
qed (simp add: replay_json_def)

interpretation broadcast_config_codec: value_codec broadcast_config_json parse_broadcast_config broadcast_config_ok
proof
  fix c assume ok: "broadcast_config_ok c"
  have "flat_fields [''ack'', ''self'', ''replay''] (broadcast_config_json c) =
      Some (map_of (rev ([(''ack'', JBool (bc_ack c)), (''self'', JBool (bc_self c))]
        @ some_field ''replay'' replay_json (bc_replay c))), bc_extra c)"
    unfolding broadcast_config_json_def by (rule flat_fields_one) (use ok in \<open>simp_all add: broadcast_config_ok_def\<close>)
  then show "parse_broadcast_config (broadcast_config_json c) = Some c"
    using ok replay_codec.opt_de [of "bc_replay c"]
    by (cases "bc_replay c") (simp_all add: parse_broadcast_config_def broadcast_config_ok_def read_defs)
  show "json_exact (broadcast_config_json c)"
    unfolding broadcast_config_json_def
    by (rule json_exact_jobj)
      (use ok replay_codec.exact_ser exact_extra in \<open>auto simp: broadcast_config_ok_def option.pred_set\<close>)
qed (simp add: broadcast_config_json_def)

interpretation presence_codec: value_codec presence_json parse_presence presence_ok
proof
  fix c assume ok: "presence_ok c"
  have "flat_fields [''key'', ''enabled''] (presence_json c) =
      Some (map_of (rev (some_field ''key'' JString (pr_key c) @ [(''enabled'', JBool (pr_enabled c))])), pr_extra c)"
    unfolding presence_json_def by (rule flat_fields_one) (use ok in \<open>auto simp: presence_ok_def some_field_def\<close>)
  then show "parse_presence (presence_json c) = Some c"
    by (cases "pr_key c") (simp_all add: parse_presence_def read_defs)
  show "json_exact (presence_json c)"
    unfolding presence_json_def
    by (rule json_exact_jobj) (use ok exact_extra in \<open>auto simp: presence_ok_def option.pred_set\<close>)
qed (simp add: presence_json_def)

interpretation filter_codec: value_codec filter_json parse_filter filter_ok
proof
  fix f assume ok: "filter_ok f"
  have "flat_fields [''event'', ''schema'', ''table'', ''filter'', ''id''] (filter_json f) =
      Some (map_of (rev ([(''event'', JString (cf_event f))] @ some_field ''schema'' JString (cf_schema f)
        @ some_field ''table'' JString (cf_table f) @ some_field ''filter'' JString (cf_filter f)
        @ some_field ''id'' JString (cf_id f))), cf_extra f)"
    unfolding filter_json_def by (rule flat_fields_one) (use ok in \<open>auto simp: filter_ok_def some_field_def\<close>)
  then show "parse_filter (filter_json f) = Some f"
    by (cases "cf_schema f"; cases "cf_table f"; cases "cf_filter f"; cases "cf_id f")
      (simp_all add: parse_filter_def read_defs)
  show "json_exact (filter_json f)"
    unfolding filter_json_def
    by (rule json_exact_jobj) (use ok exact_extra in \<open>auto simp: filter_ok_def option.pred_set\<close>)
qed (simp add: filter_json_def)

interpretation join_config_codec: value_codec join_config_json parse_join_config join_config_ok
proof
  fix c assume ok: "join_config_ok c"
  have "flat_fields [''broadcast'', ''presence'', ''postgres_changes'', ''private''] (join_config_json c) =
      Some (map_of (rev [(''broadcast'', broadcast_config_json (jc_broadcast c)),
        (''presence'', presence_json (jc_presence c)), (''postgres_changes'', JArray (map filter_json (jc_changes c))),
        (''private'', JBool (jc_private c))]), jc_extra c)"
    unfolding join_config_json_def by (rule flat_fields_one) (use ok in \<open>simp_all add: join_config_ok_def\<close>)
  then show "parse_join_config (join_config_json c) = Some c"
    using ok filter_codec.list_de [of "jc_changes c"]
    by (simp add: parse_join_config_def join_config_ok_def read_defs broadcast_config_codec.de_ser
        presence_codec.de_ser del: as_list.simps)
  show "json_exact (join_config_json c)"
    unfolding join_config_json_def
    by (rule json_exact_jobj)
      (use ok filter_codec.list_exact exact_extra broadcast_config_codec.exact_ser presence_codec.exact_ser
        in \<open>auto simp: join_config_ok_def\<close>)
qed (simp add: join_config_json_def)

interpretation join_codec: value_codec join_json parse_join join_ok
proof
  fix p assume ok: "join_ok p"
  have "flat_fields [''access_token'', ''config''] (join_json p) =
      Some (map_of (rev (some_field ''access_token'' JString (jp_access_token p)
        @ [(''config'', join_config_json (jp_config p))])), jp_extra p)"
    unfolding join_json_def by (rule flat_fields_one) (use ok in \<open>auto simp: join_ok_def some_field_def\<close>)
  then show "parse_join (join_json p) = Some p"
    using ok by (cases "jp_access_token p") (simp_all add: parse_join_def join_ok_def read_defs join_config_codec.de_ser)
  show "json_exact (join_json p)"
    unfolding join_json_def
    by (rule json_exact_jobj)
      (use ok join_config_codec.exact_ser exact_extra in \<open>auto simp: join_ok_def option.pred_set\<close>)
qed (simp add: join_json_def)
interpretation broadcast_codec: value_codec broadcast_json parse_broadcast broadcast_ok
proof
  fix p assume ok: "broadcast_ok p"
  have "flat_fields [''type'', ''event'', ''payload''] (broadcast_json p) =
      Some (map_of (rev (some_field ''type'' JString (bp_kind p)
        @ [(''event'', JString (bp_event p)), (''payload'', bp_payload p)])), bp_extra p)"
    unfolding broadcast_json_def by (rule flat_fields_one) (use ok in \<open>auto simp: broadcast_ok_def some_field_def\<close>)
  then show "parse_broadcast (broadcast_json p) = Some p"
    by (cases "bp_kind p") (simp_all add: parse_broadcast_def read_defs)
  show "json_exact (broadcast_json p)"
    unfolding broadcast_json_def
    by (rule json_exact_jobj) (use ok exact_extra in \<open>auto simp: broadcast_ok_def option.pred_set\<close>)
qed (simp add: broadcast_json_def)

interpretation error_codec: value_codec error_json parse_error_payload error_ok
proof
  fix p assume ok: "error_ok p"
  have "flat_fields [''reason''] (error_json p) = Some (map_of (rev (some_field ''reason'' JString (er_reason p))), er_extra p)"
    unfolding error_json_def by (rule flat_fields_one) (use ok in \<open>auto simp: error_ok_def some_field_def\<close>)
  then show "parse_error_payload (error_json p) = Some p"
    by (cases "er_reason p") (simp_all add: parse_error_payload_def read_defs)
  show "json_exact (error_json p)"
    unfolding error_json_def
    by (rule json_exact_jobj) (use ok exact_extra in \<open>auto simp: error_ok_def option.pred_set\<close>)
qed (simp add: error_json_def)

lemma seq_fields_jobj [simp]:
  "seq_fields n names (jobj kvs) = Some (bt_get (fold (\<lambda>(k, v). bt_insert k v) kvs []))"
  by (simp add: seq_fields_def jobj_def)

interpretation reply_codec: value_codec "reply_json id" parse_reply "\<lambda>p. json_exact (ry_response p)"
proof
  fix p :: "json reply_payload"
  assume ok: "json_exact (ry_response p)"
  show "parse_reply (reply_json id p) = Some p"
    by (cases "ry_status p") (simp_all add: parse_reply_def reply_json_def parse_status_def variant_name_def
        read_defs bt_get_def)
  show "json_exact (reply_json id p)"
    unfolding reply_json_def by (rule json_exact_jobj) (use ok in \<open>cases "ry_status p"; simp\<close>)
qed (simp add: reply_json_def)

interpretation column_codec: value_codec pg_column_json parse_column "\<lambda>_. True"
proof
  fix c
  show "parse_column (pg_column_json c) = Some c"
    using text_codec.list_de [of "pc_flags c"]
    by (cases "pc_flags c = []") (simp_all add: parse_column_def pg_column_json_def list_field_def list_all_iff
        read_defs bt_get_def del: as_list.simps)
  show "json_exact (pg_column_json c)"
    unfolding pg_column_json_def by (rule json_exact_jobj) (simp add: list_field_def list_all_iff)
qed (simp add: pg_column_json_def)

interpretation changes_codec: value_codec changes_json parse_changes changes_ok
proof
  fix p assume ok: "changes_ok p"
  have data: "parse_change_data (change_data_json d) = Some d" for d
    using text_codec.list_de [of "cd_errors d"] column_codec.list_de [of "cd_columns d"]
    by (cases "cd_type d") (simp_all add: parse_change_data_def change_data_json_def parse_change_event_def
        variant_name_def change_fields_def list_all_iff read_defs bt_get_def del: as_list.simps)
  show "parse_changes (changes_json p) = Some p"
    using text_codec.list_de [of "cp_ids p"] data
    by (simp add: parse_changes_def changes_json_def list_all_iff read_defs bt_get_def del: as_list.simps)
  have "json_exact (change_data_json (cp_data p))"
    unfolding change_data_json_def
    by (rule json_exact_jobj, cases "cd_type (cp_data p)")
      (use ok column_codec.exact_ser in \<open>simp_all add: changes_ok_def list_all_iff\<close>)
  then show "json_exact (changes_json p)"
    unfolding changes_json_def by (intro json_exact_jobj) (simp add: list_all_iff)
qed (simp add: changes_json_def)

interpretation any_codec: json_codec "\<lambda>v. v" Some json_exact
  by unfold_locales simp_all

section \<open>Frames\<close>

text \<open>The message of an event, written as its payload's type says, and when it is well formed:
  its event is the one the reader takes for its kind.\<close>

fun message_text :: "realtime_json \<Rightarrow> realtime_message \<Rightarrow> string" where
  "message_text rj (MsgJoin e) = encode_frame rj join_json e"
| "message_text rj (MsgHeartbeat e) = encode_frame rj (\<lambda>v. v) e"
| "message_text rj (MsgBroadcast e) = encode_frame rj broadcast_json e"
| "message_text rj (MsgPostgresChanges e) = encode_frame rj changes_json e"
| "message_text rj (MsgReply e) = encode_frame rj (reply_json id) e"
| "message_text rj (MsgError e) = encode_frame rj error_json e"
| "message_text rj (MsgOther e) = encode_frame rj (\<lambda>v. v) e"

definition known_events :: "string list" where
  "known_events = [EVENT_PHX_JOIN, EVENT_HEARTBEAT, EVENT_BROADCAST, EVENT_POSTGRES_CHANGES, EVENT_PHX_REPLY,
     EVENT_PHX_ERROR]"

fun message_ok :: "realtime_message \<Rightarrow> bool" where
  "message_ok (MsgJoin e) \<longleftrightarrow> en_event e = EVENT_PHX_JOIN \<and> join_ok (en_payload e)"
| "message_ok (MsgHeartbeat e) \<longleftrightarrow> en_event e = EVENT_HEARTBEAT \<and> json_exact (en_payload e)"
| "message_ok (MsgBroadcast e) \<longleftrightarrow> en_event e = EVENT_BROADCAST \<and> broadcast_ok (en_payload e)"
| "message_ok (MsgPostgresChanges e) \<longleftrightarrow> en_event e = EVENT_POSTGRES_CHANGES \<and> changes_ok (en_payload e)"
| "message_ok (MsgReply e) \<longleftrightarrow> en_event e = EVENT_PHX_REPLY \<and> json_exact (ry_response (en_payload e))"
| "message_ok (MsgError e) \<longleftrightarrow> en_event e = EVENT_PHX_ERROR \<and> error_ok (en_payload e)"
| "message_ok (MsgOther e) \<longleftrightarrow> en_event e \<notin> set known_events \<and> json_exact (en_payload e)"

lemma parse_frame_envelope:
  "parse_envelope rj raw = Inr e \<Longrightarrow> parse_frame rj raw = classify_envelope rj e"
  by (auto simp: parse_frame_def parse_envelope_def result_simps split: option.splits)

lemma with_payload_simps [simp]:
  "en_event (with_payload e p) = en_event e" "en_payload (with_payload e p) = p"
  "with_payload (with_payload e p) q = with_payload e q" "with_payload e (en_payload e) = e"
  by (simp_all add: with_payload_def)

lemmas frame_roundtrips = join_codec.envelope_roundtrip broadcast_codec.envelope_roundtrip
  changes_codec.envelope_roundtrip reply_codec.envelope_roundtrip error_codec.envelope_roundtrip
  any_codec.envelope_roundtrip

lemmas payloads_typed = join_codec.typed broadcast_codec.typed changes_codec.typed reply_codec.typed
  error_codec.typed

text \<open>C26: a frame is read back as the message it was written from: whatever the kind of the
  message (a join with its whole configuration and every unknown field, a heartbeat, a broadcast,
  a change, a reply, an error, an event of the application), with its topic, references and
  payload; the kind is told from the event's name alone.\<close>

theorem frame_roundtrip:
  assumes "serde_roundtrip (rj_serde rj)" and "message_ok msg"
  shows "parse_frame rj (message_text rj msg) = Inr msg"
proof (cases msg)
  case (MsgOther e)
  then show ?thesis
    using assms parse_frame_envelope [OF any_codec.envelope_roundtrip [of e rj]]
    by (simp add: classify_envelope_def known_events_def)
next
  case (MsgHeartbeat e)
  then show ?thesis
    using assms parse_frame_envelope [OF any_codec.envelope_roundtrip [of e rj]]
    by (simp add: classify_envelope_def event_names)
qed (use assms in \<open>simp_all add: parse_frame_envelope [OF join_codec.envelope_roundtrip]
       parse_frame_envelope [OF broadcast_codec.envelope_roundtrip]
       parse_frame_envelope [OF changes_codec.envelope_roundtrip]
       parse_frame_envelope [OF reply_codec.envelope_roundtrip]
       parse_frame_envelope [OF error_codec.envelope_roundtrip]
       payloads_typed classify_envelope_def event_names\<close>)
section \<open>The answer to a join\<close>

lemma subscription_id_inject: "subscription_id f i = subscription_id g j \<Longrightarrow> i = j"
proof -
  assume eq: "subscription_id f i = subscription_id g j"
  have no_colon: "CHR '':'' \<notin> set (show_nat n)" for n
    using show_nat_digits [of n] by (auto simp: list_all_iff is_ascii_digit_def code_def)
  have last: "last (split_on (CHR '':'') (subscription_id h n)) = show_nat n" for h n
    using last_split_on_append [OF no_colon [of n], where p = "''pg:'' @ or_star (cf_schema h) @ '':''
        @ or_star (cf_table h) @ '':'' @ cf_event h @ '':'' @ or_star (cf_filter h)"]
    unfolding subscription_id_def append_assoc by (simp only: append_Cons append_Nil)
  have "show_nat i = show_nat j"
    using last [of f i] last [of g j] eq by simp
  then show ?thesis
    using digits_val_show_nat by metis
qed

lemma filter_with_id_id: "cf_id (filter_with_id f i) = Some (case cf_id f of None \<Rightarrow> subscription_id f i | Some x \<Rightarrow> x)"
  by (simp add: filter_with_id_def split: option.splits)

definition answered_filters :: "join_payload envelope \<Rightarrow> changes_filter list" where
  "answered_filters e = jr_changes (ry_response (en_payload (join_reply e)))"


section \<open>The events of the outbox\<close>

text \<open>What a subscriber is sent of an event.\<close>

definition change_of ::
    "string \<Rightarrow> string list \<Rightarrow> string \<Rightarrow> string \<Rightarrow> change_event \<Rightarrow> json_map \<Rightarrow> changes_payload envelope" where
  "change_of topic ids at table kind row =
     \<lparr>en_join_ref = None, en_ref_id = None, en_topic = topic, en_event = EVENT_POSTGRES_CHANGES,
      en_payload =
        \<lparr>cp_ids = ids,
         cp_data =
           \<lparr>cd_schema = ''public'', cd_table = table, cd_type = kind, cd_commit_timestamp = at,
            cd_columns = map (\<lambda>name. \<lparr>pc_name = name, pc_type = ''jsonb'', pc_flags = []\<rparr>) (bt_keys row),
            cd_record = (if kind = ChangeDelete then JNull else JObject row),
            cd_old_record = (if kind = ChangeDelete then JObject row else JNull), cd_errors = []\<rparr>\<rparr>\<rparr>"

lemma event_json_reads_back:
  assumes "serde_roundtrip (se_serde E)" and "json_exact (JObject row)"
    and "ox_row_json o1 = to_json_text (se_serde E) (JObject row)" and "i64_range (ox_id o1)"
  shows "parse_outbox_event (event_json E o1) =
    Some \<lparr>oe_id = ox_id o1, oe_created_at = ox_created_at o1, oe_table = ox_table o1, oe_operation = ox_operation o1,
      oe_row = JObject row, oe_actor_sub = ox_actor_sub o1, oe_actor_role = Some (ox_actor_role o1)\<rparr>"
  using assms
  by (cases "ox_actor_sub o1")
    (simp_all add: parse_outbox_event_def event_json_def jopt_def serde_roundtripD read_defs bt_get_def
      int_codec.de_ser)

text \<open>C28: the event a write records in the outbox is, listed and read back by the realtime
  protocol, the change of that write: the table, the row under \<open>record\<close> (under \<open>old_record\<close>
  for a delete), its columns, the time. An operation that is not an insert, update or delete is
  an error, so the events of the object store are never sent as changes of a table.\<close>

theorem recorded_event_is_the_change:
  assumes "serde_roundtrip (se_serde E)" and "json_exact (JObject row)" and "i64_range (st_outbox_seq d + 1)"
    and "insert_event E table operation row actor d = Inr (n, d')"
  shows "rbind (outbox_event_from_value rj (event_json E (last (st_outbox d'))))
      (outbox_event_to_postgres_changes topic ids)
    = (if operation \<in> set [''storage_put'', ''storage_delete'']
       then Inl (protocol_err (''unsupported postgres_changes outbox operation: '' @ operation))
       else rmap (\<lambda>kind. change_of topic ids (se_sql_now E) table kind row) (from_outbox_operation operation))"
proof -
  have keys: "sort (bt_keys row) = bt_keys row"
    using assms(2) bt.wf_keys [of row] by (simp add: sorted_sort_id strict_sorted_imp_sorted)
  have ops: "from_outbox_operation ''storage_put''
        = Inl (protocol_err (''unsupported postgres_changes outbox operation: '' @ ''storage_put''))"
      "from_outbox_operation ''storage_delete''
        = Inl (protocol_err (''unsupported postgres_changes outbox operation: '' @ ''storage_delete''))"
    by code_simp+
  define e where "e = last (st_outbox d')"
  have e: "ox_table e = table" "ox_operation e = operation" "ox_created_at e = se_sql_now E"
      "ox_row_json e = to_json_text (se_serde E) (JObject row)" "ox_id e = st_outbox_seq d + 1"
    using assms(4) by (auto simp: e_def insert_event_def)
  have read: "outbox_event_from_value rj (event_json E e) =
      Inr \<lparr>oe_id = ox_id e, oe_created_at = se_sql_now E, oe_table = table, oe_operation = operation,
        oe_row = JObject row, oe_actor_sub = ox_actor_sub e, oe_actor_role = Some (ox_actor_role e)\<rparr>"
    using event_json_reads_back [OF assms(1,2) e(4)] assms(3) e
    by (simp add: outbox_event_from_value_def from_value_def)
  have change: "outbox_event_to_postgres_changes topic ids
      \<lparr>oe_id = ox_id e, oe_created_at = se_sql_now E, oe_table = table, oe_operation = operation,
        oe_row = JObject row, oe_actor_sub = ox_actor_sub e, oe_actor_role = Some (ox_actor_role e)\<rparr>
    = rmap (\<lambda>kind. change_of topic ids (se_sql_now E) table kind row) (from_outbox_operation operation)"
    by (cases "from_outbox_operation operation"; cases "projr (from_outbox_operation operation)")
      (simp_all add: outbox_event_to_postgres_changes_def change_of_def infer_columns_def keys)
  show ?thesis
    unfolding e_def [symmetric] read using ops by (auto simp: change)
qed
section \<open>Concrete frames\<close>

definition sample_realtime :: realtime_json where
  "sample_realtime = \<lparr>rj_serde = sample_serde, rj_text_error = (\<lambda>_. ''expected value''), rj_value_error = (\<lambda>_ _. ''invalid type'')\<rparr>"

definition sample_filter :: changes_filter where
  "sample_filter =
     \<lparr>cf_event = ''*'', cf_schema = Some ''public'', cf_table = None, cf_filter = None, cf_id = None,
      cf_extra = [(''select'', JArray [JString ''id''])]\<rparr>"

definition sample_join :: "join_payload envelope" where
  "sample_join =
     \<lparr>en_join_ref = Some ''1'', en_ref_id = Some ''2'', en_topic = ''realtime:public'', en_event = ''phx_join'',
      en_payload =
        \<lparr>jp_access_token = None,
         jp_config = default_join_config\<lparr>jc_changes := [sample_filter, sample_filter], jc_private := True\<rparr>,
         jp_extra = [(''version'', json_of_nat 2)]\<rparr>\<rparr>"

lemma frame_roundtrip_witness:
  "parse_frame sample_realtime (message_text sample_realtime (MsgJoin sample_join)) = Inr (MsgJoin sample_join)"
proof (rule frame_roundtrip)
  show "serde_roundtrip (rj_serde sample_realtime)"
    by (simp add: sample_realtime_def sample_serde_roundtrip)
  show "message_ok (MsgJoin sample_join)"
    by (simp add: sample_join_def sample_filter_def default_join_config_def default_broadcast_config_def
        default_presence_def join_ok_def join_config_ok_def broadcast_config_ok_def presence_ok_def filter_ok_def
        extra_ok_def EVENT_PHX_JOIN_def bt_wf_def json_of_nat_def u64_max_def)
qed


definition sample_events :: storage_tables where
  "sample_events = \<lparr>st_buckets = [], st_objects = [], st_outbox = [], st_outbox_seq = 0\<rparr>"

definition sample_event_env :: storage_env where
  "sample_event_env =
     \<lparr>se_project = ''demo'', se_utc_now = ''2024-01-01T00:00:00Z'', se_sql_now = ''2024-01-01 00:00:00'',
      se_serde = sample_serde, se_sha256 = (\<lambda>_. [])\<rparr>"

lemma recorded_event_is_the_change_witness:
  "\<exists>d. insert_event sample_event_env ''docs'' ''DELETE'' [(''id'', json_of_nat 7)] \<lparr>actor_sub = Some ''u1'',
        actor_role = ''authenticated'', actor_claims = []\<rparr> sample_events = Inr (1, d)
    \<and> rbind (outbox_event_from_value sample_realtime (event_json sample_event_env (last (st_outbox d))))
        (outbox_event_to_postgres_changes ''realtime:docs'' [''s1''])
      = Inr (change_of ''realtime:docs'' [''s1''] ''2024-01-01 00:00:00'' ''docs'' ChangeDelete [(''id'', json_of_nat 7)])"
proof -
  let ?actor = "\<lparr>actor_sub = Some ''u1'', actor_role = ''authenticated'', actor_claims = []\<rparr>"
  obtain d where d: "insert_event sample_event_env ''docs'' ''DELETE'' [(''id'', json_of_nat 7)] ?actor sample_events = Inr (1, d)"
    by (simp add: insert_event_def)
  have serde: "serde_roundtrip (se_serde sample_event_env)"
    by (simp add: sample_event_env_def sample_serde_roundtrip)
  have ranges: "json_exact (JObject [(''id'', json_of_nat 7)])" "i64_range (st_outbox_seq sample_events + 1)"
    by (simp_all add: bt_wf_def json_of_nat_def u64_max_def sample_events_def i64_range_def i64_max_def)
  have ops: "from_outbox_operation ''DELETE'' = Inr ChangeDelete" "se_sql_now sample_event_env = ''2024-01-01 00:00:00''"
    "(''DELETE'' \<in> set [''storage_put'', ''storage_delete'']) = False"
    by code_simp+
  note change = recorded_event_is_the_change [OF serde ranges d, of sample_realtime "''realtime:docs''" "[''s1'']",
      unfolded ops if_False rmap.simps]
  show ?thesis
    by (rule exI [of _ d], rule conjI, rule d, rule change)
qed

end
