(* ===== verification/Http_Requests.thy ===== *)
theory Http_Requests
  imports Auth Postgrest Write_Pipeline
begin

text \<open>
  What the handlers of \<open>http.rs\<close> read from a request and how they answer: headers, actors,
  query strings, the URIs and digests of writes, the \<open>Prefer\<close> header, the CORS origin, the
  responses and the error body. A header map is the value of each name (in lower case), which
  may not be visible ASCII. A query is the list of its pairs in the order its hash map yields
  them; Rust's hash maps yield them in an order that differs from one request to the next.
\<close>

section \<open>Headers\<close>

type_synonym header_map = "string \<Rightarrow> string option option"

text \<open>\<open>headers.get(name).and_then(|v| v.to_str().ok())\<close>, and with empty values left out.\<close>

definition header_str :: "header_map \<Rightarrow> string \<Rightarrow> string option" where
  "header_str h name = (case h name of Some v \<Rightarrow> v | None \<Rightarrow> None)"

definition not_empty :: "string option \<Rightarrow> string option" where
  "not_empty x = (if x = Some [] then None else x)"

definition header_value :: "header_map \<Rightarrow> string \<Rightarrow> string option" where
  "header_value h name = not_empty (header_str h name)"

definition or_else :: "'a option \<Rightarrow> 'a option \<Rightarrow> 'a option" where
  "or_else x y = (case x of None \<Rightarrow> y | Some _ \<Rightarrow> x)"

text \<open>\<open>headers.get(a).or_else(|| headers.get(b)).and_then(\<dots>).filter(\<dots>)\<close>.\<close>

definition either_header :: "header_map \<Rightarrow> string \<Rightarrow> string \<Rightarrow> string option" where
  "either_header h a b = not_empty (case or_else (h a) (h b) of Some v \<Rightarrow> v | None \<Rightarrow> None)"

definition idempotency_key :: "header_map \<Rightarrow> string option" where
  "idempotency_key h = or_else (header_value h ''idempotency-key'') (header_value h ''x-sdb-idempotency-key'')"

definition request_content_type :: "header_map \<Rightarrow> string" where
  "request_content_type h =
     (case header_value h ''content-type'' of None \<Rightarrow> ''application/json'' | Some v \<Rightarrow> v)"

definition accept_header :: "header_map \<Rightarrow> string" where
  "accept_header h = (case header_str h ''accept'' of None \<Rightarrow> [] | Some v \<Rightarrow> v)"

section \<open>Actors\<close>

definition unauthorized :: "auth_error \<Rightarrow> api_error" where
  "unauthorized e = api_err 401 (auth_message e)"

definition request_actor :: "crypto \<Rightarrow> env \<Rightarrow> int \<Rightarrow> header_map \<Rightarrow> actor api" where
  "request_actor cr env now h =
     rmap_err unauthorized
       (case header_str h ''authorization'' of
          Some v \<Rightarrow> actor_from_authorization cr env now (Some v)
        | None \<Rightarrow>
            (case header_value h ''apikey'' of
               Some key \<Rightarrow> verify_token cr env now key
             | None \<Rightarrow> actor_from_authorization cr env now None))"

definition require_admin :: "crypto \<Rightarrow> env \<Rightarrow> int \<Rightarrow> header_map \<Rightarrow> actor api" where
  "require_admin cr env now h =
     rbind (request_actor cr env now h) (\<lambda>a.
       if is_admin a then Inr a else Inl (api_err 403 ''admin or service_role access required''))"

definition require_storage_user :: "crypto \<Rightarrow> env \<Rightarrow> int \<Rightarrow> header_map \<Rightarrow> actor api" where
  "require_storage_user cr env now h =
     rbind (request_actor cr env now h) (\<lambda>a.
       if is_anon a then Inl (api_err 403 ''storage access requires authenticated or service_role'') else Inr a)"

section \<open>Queries\<close>

type_synonym query_map = "(string \<times> string) list"

definition parse_limit :: "string \<Rightarrow> nat" where
  "parse_limit v = (case parse_u64 v of None \<Rightarrow> 100 | Some n \<Rightarrow> n)"

fun filters_and_limit :: "query_map \<Rightarrow> (string \<times> string) list \<times> nat" where
  "filters_and_limit [] = ([], 100)"
| "filters_and_limit ((k, v) # q) =
     (case filters_and_limit q of (filters, limit) \<Rightarrow>
        (case strip_prefix k ''eq.'' of
           Some column \<Rightarrow> ((column, v) # filters, limit)
         | None \<Rightarrow> if k = ''limit'' then (filters, parse_limit v) else (filters, limit)))"

datatype read_session = FirstUnconstrained | FirstPrimary | AtBookmark

record read_query =
  rq_filters :: "(string \<times> string) list"
  rq_limit :: nat
  rq_bookmark :: "string option"
  rq_session :: read_session
  rq_route_region :: "string option"

record supabase_query =
  sp_pg :: select_query
  sp_bookmark :: "string option"
  sp_session :: read_session
  sp_route_region :: "string option"

definition parse_session :: "string \<Rightarrow> read_session api" where
  "parse_session s =
     (if s = ''first-primary'' then Inr FirstPrimary
      else if s = ''first-unconstrained'' then Inr FirstUnconstrained
      else if s = ''bookmark'' then Inr AtBookmark
      else Inl (api_err 400 ''session must be first-primary, first-unconstrained, or bookmark''))"

definition header_region :: "header_map \<Rightarrow> string option" where
  "header_region h = either_header h ''x-sdb-region'' ''x-d1-region''"

definition header_bookmark :: "header_map \<Rightarrow> string option" where
  "header_bookmark h = either_header h ''x-d1-bookmark'' ''x-sdb-bookmark''"

definition read_entry :: "string \<times> string \<Rightarrow> read_query \<Rightarrow> read_query api" where
  "read_entry = (\<lambda>(k, v) q.
     case strip_prefix k ''eq.'' of
       Some column \<Rightarrow> Inr (q\<lparr>rq_filters := rq_filters q @ [(column, v)]\<rparr>)
     | None \<Rightarrow>
         if k = ''limit'' then Inr (q\<lparr>rq_limit := parse_limit v\<rparr>)
         else if k = ''bookmark'' then Inr (if v = [] then q else q\<lparr>rq_bookmark := Some v\<rparr>)
         else if k = ''session'' then rmap (\<lambda>s. q\<lparr>rq_session := s\<rparr>) (parse_session v)
         else if k = ''route_region'' then Inr (if v = [] then q else q\<lparr>rq_route_region := Some v\<rparr>)
         else Inr q)"

fun read_entries :: "query_map \<Rightarrow> read_query \<Rightarrow> read_query api" where
  "read_entries [] q = Inr q"
| "read_entries (e # es) q = rbind (read_entry e q) (read_entries es)"

definition parse_read_query :: "query_map \<Rightarrow> header_map \<Rightarrow> read_query api" where
  "parse_read_query qs h =
     read_entries qs
       \<lparr>rq_filters = [], rq_limit = 100, rq_bookmark = header_bookmark h, rq_session = FirstUnconstrained,
        rq_route_region = header_region h\<rparr>"

definition supabase_read_query :: "query_map \<Rightarrow> header_map \<Rightarrow> supabase_query api" where
  "supabase_read_query qs h =
     rbind (rmap_err parse_api_error (parse_query_params qs)) (\<lambda>pg.
     rbind (case map_of qs ''session'' of None \<Rightarrow> Inr FirstUnconstrained | Some s \<Rightarrow> parse_session s) (\<lambda>session.
       Inr \<lparr>sp_pg = pg,
         sp_bookmark = or_else (not_empty (map_of qs ''bookmark'')) (header_bookmark h),
         sp_session = session,
         sp_route_region = or_else (not_empty (map_of qs ''route_region'')) (header_region h)\<rparr>))"

definition supabase_filters :: "query_map \<Rightarrow> filter_expr api" where
  "supabase_filters qs = rmap sq_filters (rmap_err parse_api_error (parse_query_params qs))"

definition normalize_supabase_insert_body :: "json \<Rightarrow> json list api" where
  "normalize_supabase_insert_body body =
     (case body of
        JObject m \<Rightarrow> Inr [body]
      | JArray items \<Rightarrow>
          if items \<noteq> [] \<and> list_all is_object items then Inr items
          else Inl (api_err 400 ''insert body array must contain one or more objects'')
      | _ \<Rightarrow> Inl (api_err 400 ''insert body must be an object or an array of objects''))"

definition parse_logout_scope :: "string option \<Rightarrow> logout_scope api" where
  "parse_logout_scope scope =
     (let s = (case scope of None \<Rightarrow> ''global'' | Some s \<Rightarrow> s)
      in if s = ''global'' then Inr GlobalScope
         else if s = ''local'' then Inr LocalScope
         else if s = ''others'' then Inr OthersScope
         else Inl (api_err 400 ''logout scope must be global, local, or others''))"

section \<open>The \<open>Prefer\<close> header\<close>

datatype prefer_return = PreferDefault | PreferMinimal | PreferRepresentation

definition prefers :: "header_map \<Rightarrow> string \<Rightarrow> bool" where
  "prefers h what = (case header_str h ''prefer'' of None \<Rightarrow> False | Some v \<Rightarrow> contains_str v what)"

definition prefer_return_of :: "header_map \<Rightarrow> prefer_return" where
  "prefer_return_of h =
     (if prefers h ''return=representation'' then PreferRepresentation
      else if prefers h ''return=minimal'' then PreferMinimal else PreferDefault)"

definition prefer_upsert :: "header_map \<Rightarrow> bool" where
  "prefer_upsert h = prefers h ''resolution=merge-duplicates''"

definition prefer_count :: "header_map \<Rightarrow> count_mode" where
  "prefer_count h =
     (if prefers h ''count=exact'' then CountExact
      else if prefers h ''count=planned'' then CountPlanned
      else if prefers h ''count=estimated'' then CountEstimated else CountNone)"

section \<open>URIs\<close>

definition unreserved :: "char \<Rightarrow> bool" where
  "unreserved c \<longleftrightarrow> is_ascii_alphanumeric c \<or> c \<in> {CHR ''-'', CHR ''_'', CHR ''.'', CHR ''~''}"

definition encode_byte :: "char \<Rightarrow> string" where
  "encode_byte c = (if unreserved c then [c] else CHR ''%'' # hex_byte_upper c)"

definition percent_encode :: "string \<Rightarrow> string" where
  "percent_encode s = concat (map encode_byte s)"

definition with_query :: "string \<Rightarrow> string list \<Rightarrow> string" where
  "with_query path pairs = (if pairs = [] then path else path @ ''?'' @ join ''&'' pairs)"

definition encode_pair :: "string \<times> string \<Rightarrow> string" where
  "encode_pair = (\<lambda>(k, v). percent_encode k @ ''='' @ percent_encode v)"

definition project_table_path :: "string \<Rightarrow> string \<Rightarrow> string" where
  "project_table_path project_id table = ''/v1/projects/'' @ project_id @ ''/tables/'' @ table"

definition supabase_table_uri :: "string \<Rightarrow> query_map \<Rightarrow> string" where
  "supabase_table_uri table qs = with_query (''/rest/v1/'' @ table) (map encode_pair qs)"

definition table_write_uri :: "string \<Rightarrow> string \<Rightarrow> query_map \<Rightarrow> string" where
  "table_write_uri project_id table qs = with_query (project_table_path project_id table) (map encode_pair qs)"

fun session_text :: "read_session \<Rightarrow> string" where
  "session_text FirstUnconstrained = ''first-unconstrained''"
| "session_text FirstPrimary = ''first-primary''"
| "session_text AtBookmark = ''bookmark''"

definition opt_pair :: "string \<Rightarrow> string option \<Rightarrow> string list" where
  "opt_pair name x = (case x of None \<Rightarrow> [] | Some v \<Rightarrow> [name @ ''='' @ percent_encode v])"

definition table_read_uri :: "string \<Rightarrow> string \<Rightarrow> read_query \<Rightarrow> string" where
  "table_read_uri project_id table q =
     with_query (project_table_path project_id table)
       (map (\<lambda>(k, v). ''eq.'' @ percent_encode k @ ''='' @ percent_encode v) (rq_filters q)
        @ (if rq_limit q \<noteq> 100 then [''limit='' @ show_nat (rq_limit q)] else [])
        @ (if rq_session q \<noteq> FirstUnconstrained then [''session='' @ percent_encode (session_text (rq_session q))] else [])
        @ opt_pair ''bookmark'' (rq_bookmark q) @ opt_pair ''route_region'' (rq_route_region q))"

section \<open>Idempotency of writes\<close>

definition request_text :: "string \<Rightarrow> string \<Rightarrow> string \<Rightarrow> bytes \<Rightarrow> bytes" where
  "request_text meth uri content_type body = meth @ CHR 0x0A # uri @ CHR 0x0A # content_type @ CHR 0x0A # body"

definition write_idempotency_with_key ::
    "(bytes \<Rightarrow> bytes) \<Rightarrow> string \<Rightarrow> string \<Rightarrow> string \<Rightarrow> string \<Rightarrow> bytes \<Rightarrow> write_idempotency option" where
  "write_idempotency_with_key sha meth uri key content_type body =
     Some \<lparr>wi_key = key, wi_request_hash = hex_lower (sha (request_text meth uri content_type body))\<rparr>"

definition write_idempotency_of ::
    "(bytes \<Rightarrow> bytes) \<Rightarrow> string \<Rightarrow> string \<Rightarrow> header_map \<Rightarrow> string \<Rightarrow> bytes \<Rightarrow> write_idempotency option" where
  "write_idempotency_of sha meth uri h content_type body =
     (case idempotency_key h of
        None \<Rightarrow> None
      | Some key \<Rightarrow>
          Some \<lparr>wi_key = key, wi_request_hash = hex_lower (sha (request_text meth uri content_type body))\<rparr>)"

definition supabase_write_idempotency ::
    "(bytes \<Rightarrow> bytes) \<Rightarrow> string \<Rightarrow> string \<Rightarrow> header_map \<Rightarrow> string \<Rightarrow> bytes \<Rightarrow> nat \<Rightarrow> write_idempotency option" where
  "supabase_write_idempotency sha meth uri h content_type body row_index =
     (case idempotency_key h of
        None \<Rightarrow> None
      | Some key \<Rightarrow>
          write_idempotency_with_key sha meth uri
            (if row_index = 0 then key else key @ '':'' @ show_nat row_index) content_type body)"

section \<open>Responses\<close>

datatype http_body = JsonBody json | RawBody bytes | EmptyBody

record http_response =
  hr_status :: nat
  hr_headers :: "(string \<times> string) list"
  hr_body :: http_body

text \<open>\<open>bookmark.parse()\<close> into a header value: the bytes a header may hold.\<close>

definition header_bytes :: "string \<Rightarrow> bool" where
  "header_bytes s \<longleftrightarrow> list_all (\<lambda>c. (32 \<le> code c \<and> code c \<noteq> 127) \<or> code c = 9) s"

definition content_range_header :: "nat \<Rightarrow> nat option \<Rightarrow> nat option \<Rightarrow> string" where
  "content_range_header start final all =
     show_nat start @ ''-'' @ (case final of Some e \<Rightarrow> show_nat e | None \<Rightarrow> ''*'') @ ''/''
       @ (case all of Some t \<Rightarrow> show_nat t | None \<Rightarrow> ''*'')"

definition allowed_origins :: "env \<Rightarrow> string list" where
  "allowed_origins env =
     filter (\<lambda>s. s \<noteq> [])
       (map trim (split_on (CHR '','') (case env ''SDB_CORS_ORIGINS'' of None \<Rightarrow> [] | Some v \<Rightarrow> v)))"

definition cors_origin :: "env \<Rightarrow> header_map \<Rightarrow> string" where
  "cors_origin env h =
     (let allowed = allowed_origins env
      in if allowed = [] \<and> \<not> is_production env then ''*''
         else let origin = (case header_str h ''origin'' of None \<Rightarrow> [] | Some v \<Rightarrow> v)
              in if origin \<in> set allowed then origin else [])"

definition exposed_headers :: string where
  "exposed_headers = ''content-range, x-sdb-bookmark, x-d1-bookmark''"

definition cors_headers :: "env \<Rightarrow> header_map \<Rightarrow> (string \<times> string) list" where
  "cors_headers env h =
     [(''access-control-allow-origin'', cors_origin env h), (''access-control-expose-headers'', exposed_headers)]"

definition bookmark_header :: "string option \<Rightarrow> (string \<times> string) list" where
  "bookmark_header bookmark =
     (case bookmark of None \<Rightarrow> [] | Some b \<Rightarrow> if header_bytes b then [(''x-sdb-bookmark'', b)] else [])"

definition supabase_json_with_bookmark :: "env \<Rightarrow> json \<Rightarrow> string option \<Rightarrow> header_map \<Rightarrow> http_response" where
  "supabase_json_with_bookmark env v bookmark h =
     \<lparr>hr_status = 200, hr_headers = cors_headers env h @ bookmark_header bookmark, hr_body = JsonBody v\<rparr>"

definition supabase_json :: "env \<Rightarrow> json \<Rightarrow> header_map \<Rightarrow> http_response" where
  "supabase_json env v h = supabase_json_with_bookmark env v None h"

definition wants_object :: "header_map \<Rightarrow> bool" where
  "wants_object h \<longleftrightarrow> contains_str (accept_header h) ''vnd.pgrst.object+json''"

definition unwrap_single :: "json \<Rightarrow> header_map \<Rightarrow> json" where
  "unwrap_single v h =
     (if wants_object h
      then (case as_array v of Some [] \<Rightarrow> JNull | Some (x # xs) \<Rightarrow> x | None \<Rightarrow> v)
      else v)"

definition rows_of :: "json \<Rightarrow> json" where
  "rows_of v = (case jget v ''rows'' of None \<Rightarrow> JArray [] | Some rows \<Rightarrow> rows)"

definition supabase_rows_json :: "env \<Rightarrow> json \<Rightarrow> header_map \<Rightarrow> http_response" where
  "supabase_rows_json env v h =
     supabase_json_with_bookmark env (unwrap_single (rows_of v) h) (jget_with as_str v ''bookmark'') h"

definition supabase_json_with_prefer ::
    "env \<Rightarrow> json \<Rightarrow> string option \<Rightarrow> header_map \<Rightarrow> prefer_return \<Rightarrow> nat \<Rightarrow> http_response" where
  "supabase_json_with_prefer env v bookmark h prefer affected =
     (if prefer = PreferMinimal
      then \<lparr>hr_status = 204,
             hr_headers = cors_headers env h
               @ (if 0 < affected
                  then [(''content-range'', content_range_header 0 (Some (affected - 1)) (Some affected))] else [])
               @ bookmark_header bookmark,
             hr_body = EmptyBody\<rparr>
      else supabase_json_with_bookmark env (unwrap_single v h) bookmark h)"

definition supabase_preflight :: "env \<Rightarrow> header_map \<Rightarrow> http_response" where
  "supabase_preflight env h =
     \<lparr>hr_status = 204,
      hr_headers =
        [(''access-control-allow-origin'', cors_origin env h),
         (''access-control-allow-headers'',
          ''authorization, apikey, content-type, prefer, x-client-info, x-sdb-bookmark, x-d1-bookmark, idempotency-key''),
         (''access-control-allow-methods'', ''GET, POST, PATCH, DELETE, OPTIONS''),
         (''access-control-expose-headers'', exposed_headers)],
      hr_body = EmptyBody\<rparr>"

text \<open>\<open>HttpError::into_response\<close>. A status is a three-digit number from 100 on.\<close>

definition pg_code :: "nat \<Rightarrow> string" where
  "pg_code status =
     (case map_of [(400, ''22023''), (401, ''42P17''), (403, ''42501''), (404, ''42P01''), (409, ''23P01''),
                   (425, ''55P03''), (500, ''XX000''), (502, ''08006''), (503, ''57P03''), (504, ''57014'')] status of
        Some c \<Rightarrow> c | None \<Rightarrow> ''XX000'')"

definition error_hint :: "nat \<Rightarrow> string option" where
  "error_hint status =
     (if status = 401
      then Some ''Provide a valid Authorization header with a Bearer token or an apikey header.''
      else if status = 403 then Some ''Ensure the token has the required role (service_role or admin).''
      else None)"

definition error_body :: "api_error \<Rightarrow> json" where
  "error_body e =
     jobj [(''code'', JString (pg_code (err_status e))), (''message'', JString (err_message e)),
           (''details'', JNull), (''hint'', jopt (error_hint (err_status e)))]"

definition error_response :: "api_error \<Rightarrow> http_response" where
  "error_response e =
     \<lparr>hr_status = (if 100 \<le> err_status e \<and> err_status e < 1000 then err_status e else 500), hr_headers = [],
      hr_body = JsonBody (error_body e)\<rparr>"

section \<open>The clock\<close>

text \<open>\<open>days_to_ymd\<close>, \<open>unix_to_datetime\<close> and \<open>now_iso\<close>: the file's own calendar. \<open>/\<close> and \<open>%\<close> round
  towards zero; the clock is never before 1970.\<close>

definition leap :: "int \<Rightarrow> bool" where
  "leap y \<longleftrightarrow> (y mod 4 = 0 \<and> y mod 100 \<noteq> 0) \<or> y mod 400 = 0"

function find_year :: "int \<Rightarrow> int \<Rightarrow> int \<times> int" where
  "find_year y remaining =
     (let dy = (if leap y then 366 else 365)
      in if remaining < dy then (y, remaining) else find_year (y + 1) (remaining - dy))"
  by pat_completeness auto
termination
  by (relation "measure (\<lambda>(y, remaining). nat remaining)") (auto split: if_splits)

declare find_year.simps [simp del]

fun find_month :: "nat \<Rightarrow> int \<Rightarrow> int list \<Rightarrow> nat \<times> int" where
  "find_month i remaining [] = (0, remaining)"
| "find_month i remaining (dm # dms) =
     (if remaining < dm then (i + 1, remaining) else find_month (i + 1) (remaining - dm) dms)"

definition days_to_ymd :: "int \<Rightarrow> int \<times> nat \<times> int" where
  "days_to_ymd days =
     (case find_year 1970 days of (y, remaining) \<Rightarrow>
      case find_month 0 remaining
        (if leap y then [31, 29, 31, 30, 31, 30, 31, 31, 30, 31, 30, 31]
         else [31, 28, 31, 30, 31, 30, 31, 31, 30, 31, 30, 31]) of
        (mo, rest) \<Rightarrow> (y, mo, rest + 1))"

definition unix_to_datetime :: "nat \<Rightarrow> int \<times> nat \<times> int \<times> int \<times> int \<times> int" where
  "unix_to_datetime secs =
     (let rem = secs mod 86400
      in case days_to_ymd (int (secs div 86400)) of (y, mo, d) \<Rightarrow>
           (y, mo, d, int (rem div 3600), int (rem mod 3600 div 60), int (rem mod 60)))"

definition now_iso :: "nat \<Rightarrow> string" where
  "now_iso secs =
     (case unix_to_datetime secs of (y, mo, d, h, mi, s) \<Rightarrow>
        show_int_padded 4 y @ ''-'' @ show_padded 2 mo @ ''-'' @ show_int_padded 2 d @ ''T''
          @ show_int_padded 2 h @ '':'' @ show_int_padded 2 mi @ '':'' @ show_int_padded 2 s @ ''Z'')"

end
