(* ===== verification/Endpoint_Health.thy ===== *)
theory Endpoint_Health
  imports Runtime_Base "HOL-Library.Code_Target_Nat"
begin

text \<open>
  The routing part of \<open>ProjectRuntime\<close> (\<open>runtime.rs\<close>): the health of the endpoints requests are
  forwarded to, a breaker that opens after consecutive failures and for a cooldown, and the
  choice of the primary and of a replica. Instants are milliseconds. The hash map of the
  endpoints is kept by key; the source sorts it by URL where the order shows.
\<close>

record endpoint_health =
  eh_failures :: nat
  eh_open_until :: "nat option"

type_synonym health_map = "(string \<times> endpoint_health) list"

definition u32_max :: nat where
  "u32_max = 2 ^ 32 - 1"

definition forward_max_attempts :: "runtime_options \<Rightarrow> nat" where
  "forward_max_attempts opts = max 1 (forward_max_attempts_opt opts)"

definition forward_retry_backoff :: "runtime_options \<Rightarrow> nat" where
  "forward_retry_backoff opts = forward_retry_backoff_ms opts"

definition record_forward_success :: "string \<Rightarrow> health_map \<Rightarrow> health_map" where
  "record_forward_success url h = bt_remove url h"

definition failure_threshold :: "runtime_options \<Rightarrow> nat" where
  "failure_threshold opts = max 1 (routing_endpoint_failure_threshold opts)"

definition record_forward_failure :: "runtime_options \<Rightarrow> nat \<Rightarrow> string \<Rightarrow> health_map \<Rightarrow> health_map" where
  "record_forward_failure opts now url h =
     (let e0 = (case bt_get h url of None \<Rightarrow> \<lparr>eh_failures = 0, eh_open_until = None\<rparr> | Some e \<Rightarrow> e);
          e = e0\<lparr>eh_failures := min u32_max (eh_failures e0 + 1)\<rparr>
      in bt_insert url
           (if failure_threshold opts \<le> eh_failures e
            then e\<lparr>eh_open_until := Some (now + routing_endpoint_cooldown_ms opts)\<rparr> else e) h)"

definition forward_endpoint_available :: "nat \<Rightarrow> string \<Rightarrow> health_map \<Rightarrow> bool \<times> health_map" where
  "forward_endpoint_available now url h =
     (case bt_get h url of
        None \<Rightarrow> (True, h)
      | Some e \<Rightarrow>
          (case eh_open_until e of
             Some until \<Rightarrow> if now < until then (False, h) else (True, bt_remove url h)
           | None \<Rightarrow> (True, bt_remove url h)))"

definition health_item :: "nat \<Rightarrow> string \<times> endpoint_health \<Rightarrow> json" where
  "health_item now = (\<lambda>(url, e).
     jobj [(''url'', JString url), (''consecutive_failures'', json_of_nat (eh_failures e)),
           (''open'', JBool (case eh_open_until e of None \<Rightarrow> False | Some until \<Rightarrow> now < until))])"

definition item_url :: "json \<Rightarrow> string" where
  "item_url v = (case jget_with as_str v ''url'' of None \<Rightarrow> [] | Some s \<Rightarrow> s)"

definition forward_endpoint_health_info :: "nat \<Rightarrow> health_map \<Rightarrow> json" where
  "forward_endpoint_health_info now h = JArray (sort_key item_url (map (health_item now) h))"

definition primary_url :: "runtime_options \<Rightarrow> string option" where
  "primary_url opts =
     (case find (\<lambda>e. ep_role e = ''primary'') (routing_endpoints opts) of
        Some e \<Rightarrow> Some (ep_url e)
      | None \<Rightarrow> opt_primary_url opts)"

text \<open>The filter asks for the availability of one endpoint after the other.\<close>

fun keep_available :: "nat \<Rightarrow> routing_endpoint list \<Rightarrow> health_map \<Rightarrow> routing_endpoint list \<times> health_map" where
  "keep_available now [] h = ([], h)"
| "keep_available now (e # es) h =
     (case forward_endpoint_available now (ep_url e) h of
        (ok, h1) \<Rightarrow> (case keep_available now es h1 of
          (kept, h2) \<Rightarrow> (if ok then e # kept else kept, h2)))"

definition in_region :: "string option \<Rightarrow> routing_endpoint list \<Rightarrow> routing_endpoint option" where
  "in_region region es = (case region of None \<Rightarrow> None | Some r \<Rightarrow> find (\<lambda>e. ep_region e = Some r) es)"

definition choose_replica :: "runtime_options \<Rightarrow> string option \<Rightarrow> routing_endpoint list \<Rightarrow> string option" where
  "choose_replica opts preferred replicas =
     (if replicas = [] then None
      else case in_region (if preferred = Some [] then None else preferred) replicas of
             Some e \<Rightarrow> Some (ep_url e)
           | None \<Rightarrow>
               (case in_region (routing_region opts) replicas of
                  Some e \<Rightarrow> Some (ep_url e)
                | None \<Rightarrow> Some (ep_url (hd replicas))))"

definition replica_url_for_region ::
    "runtime_options \<Rightarrow> nat \<Rightarrow> string option \<Rightarrow> health_map \<Rightarrow> string option \<times> health_map" where
  "replica_url_for_region opts now preferred h =
     apfst (choose_replica opts preferred)
       (keep_available now (filter (\<lambda>e. ep_role e = ''replica'') (routing_endpoints opts)) h)"

definition runtime_mode :: "runtime_options \<Rightarrow> string" where
  "runtime_mode opts = (if read_replica opts then ''read_replica'' else ''primary'')"

definition served_by_meta :: "runtime_options \<Rightarrow> json" where
  "served_by_meta opts =
     jobj [(''served_by_region'', jopt (routing_region opts)), (''served_by_primary'', JBool (\<not> read_replica opts)),
           (''runtime_mode'', JString (runtime_mode opts))]"

definition endpoint_json :: "routing_endpoint \<Rightarrow> json" where
  "endpoint_json e =
     jobj [(''role'', JString (ep_role e)), (''region'', jopt (ep_region e)), (''url'', JString (ep_url e))]"

definition routing_info :: "runtime_options \<Rightarrow> nat \<Rightarrow> health_map \<Rightarrow> json \<times> health_map" where
  "routing_info opts now h =
     (case replica_url_for_region opts now None h of
        (replica, h1) \<Rightarrow>
          (jobj [(''region'', jopt (routing_region opts)), (''primary_url'', jopt (primary_url opts)),
                 (''selected_replica_url'', jopt replica), (''legacy_primary_url'', jopt (opt_primary_url opts)),
                 (''endpoints'', JArray (map endpoint_json (routing_endpoints opts))),
                 (''endpoint_health'', forward_endpoint_health_info now h1)], h1))"

section \<open>The breaker\<close>

text \<open>The endpoint is closed to replica selection at this instant.\<close>

definition is_open :: "nat \<Rightarrow> string \<Rightarrow> health_map \<Rightarrow> bool" where
  "is_open now url h \<longleftrightarrow>
     (\<exists>e until. bt_get h url = Some e \<and> eh_open_until e = Some until \<and> now < until)"

definition failures :: "string \<Rightarrow> health_map \<Rightarrow> nat" where
  "failures url h = (case bt_get h url of None \<Rightarrow> 0 | Some e \<Rightarrow> eh_failures e)"

lemma available_iff: "fst (forward_endpoint_available now url h) \<longleftrightarrow> \<not> is_open now url h"
  by (auto simp: forward_endpoint_available_def is_open_def split: option.splits)

lemma available_closed: "\<not> is_open now url h \<Longrightarrow> bt_get (snd (forward_endpoint_available now url h)) url = None"
  by (auto simp: forward_endpoint_available_def is_open_def bt_get_remove split: option.splits)

lemma available_other:
  "other \<noteq> url \<Longrightarrow> bt_get (snd (forward_endpoint_available now url h)) other = bt_get h other"
  by (auto simp: forward_endpoint_available_def bt_get_remove split: option.splits)

lemma available_open_same: "is_open now url h \<Longrightarrow> snd (forward_endpoint_available now url h) = h"
  by (auto simp: forward_endpoint_available_def is_open_def)

lemma is_open_after_check: "is_open now url (snd (forward_endpoint_available now other h)) = is_open now url h"
proof (cases "is_open now other h")
  case True
  then show ?thesis by (simp add: available_open_same)
next
  case False
  then show ?thesis
    using available_closed [OF False] available_other [of url other now h]
    by (cases "url = other") (simp_all add: is_open_def)
qed

lemma kept_order: "fst (keep_available now es h) = filter (\<lambda>e. \<not> is_open now (ep_url e) h) es"
proof (induction es arbitrary: h)
  case (Cons e es)
  obtain ok h1 where check: "forward_endpoint_available now (ep_url e) h = (ok, h1)" by fastforce
  obtain kept h2 where rest: "keep_available now es h1 = (kept, h2)" by fastforce
  have "is_open now url h1 = is_open now url h" for url
    using is_open_after_check [of now url "ep_url e" h] check by simp
  then show ?case
    using Cons.IH [of h1] available_iff [of now "ep_url e" h] by (simp add: check rest)
qed simp

text \<open>Selecting a replica forgets the failures of every endpoint that is not open.\<close>

lemma check_keeps_none: "bt_get h url = None \<Longrightarrow> bt_get (snd (forward_endpoint_available now other h)) url = None"
  by (auto simp: forward_endpoint_available_def bt_get_remove split: option.splits)

lemma keep_keeps_none: "bt_get h url = None \<Longrightarrow> bt_get (snd (keep_available now es h)) url = None"
proof (induction es arbitrary: h)
  case (Cons e es)
  obtain ok h1 where check: "forward_endpoint_available now (ep_url e) h = (ok, h1)" by fastforce
  obtain kept h2 where rest: "keep_available now es h1 = (kept, h2)" by fastforce
  show ?case
    using Cons.IH [of h1] check_keeps_none [OF Cons.prems, of now "ep_url e"] by (simp add: check rest)
qed simp

lemma keep_available_closed:
  "e \<in> set es \<Longrightarrow> \<not> is_open now (ep_url e) h \<Longrightarrow> bt_get (snd (keep_available now es h)) (ep_url e) = None"
proof (induction es arbitrary: h)
  case (Cons x es)
  obtain ok h1 where check: "forward_endpoint_available now (ep_url x) h = (ok, h1)" by fastforce
  obtain kept h2 where rest: "keep_available now es h1 = (kept, h2)" by fastforce
  show ?case
  proof (cases "ep_url e = ep_url x")
    case True
    then have "bt_get h1 (ep_url e) = None"
      using available_closed [OF Cons.prems(2)] check by simp
    then show ?thesis
      using keep_keeps_none [of h1 "ep_url e" now es] by (simp add: check rest)
  next
    case False
    then have "e \<in> set es" "\<not> is_open now (ep_url e) h1"
      using Cons.prems is_open_after_check [of now "ep_url e" "ep_url x" h] check by auto
    then show ?thesis
      using Cons.IH [of h1] by (simp add: check rest)
  qed
qed simp

lemma failure_counts:
  "failures url (record_forward_failure opts now url h) = min u32_max (failures url h + 1)"
  by (simp add: record_forward_failure_def failures_def bt_get_insert Let_def split: option.splits)

lemma failure_opens:
  assumes "failure_threshold opts \<le> min u32_max (failures url h + 1)"
  shows "is_open later url (record_forward_failure opts now url h)
    \<longleftrightarrow> later < now + routing_endpoint_cooldown_ms opts"
  using assms
  by (auto simp: record_forward_failure_def failures_def is_open_def bt_get_insert Let_def split: option.splits)
section \<open>What a routed request sees\<close>

lemma find_none [simp]: "find (\<lambda>_. False) xs = None"
  by (induction xs) simp_all

text \<open>A read is routed to an endpoint that is configured as a replica and whose breaker is
  not open: the first one in the region asked for, then the first one in the runtime's own
  region, then the first one configured; there is none exactly when every replica is open.\<close>

theorem replica_choice:
  "fst (replica_url_for_region opts now preferred h) =
     (case filter (\<lambda>e. ep_role e = ''replica'' \<and> \<not> is_open now (ep_url e) h) (routing_endpoints opts) of
        [] \<Rightarrow> None
      | e # es \<Rightarrow>
          Some (ep_url (case find (\<lambda>e. preferred \<noteq> None \<and> preferred \<noteq> Some [] \<and> ep_region e = preferred) (e # es) of
             Some e1 \<Rightarrow> e1
           | None \<Rightarrow>
               (case find (\<lambda>e. routing_region opts \<noteq> None \<and> ep_region e = routing_region opts) (e # es) of
                  Some e1 \<Rightarrow> e1
                | None \<Rightarrow> e))))"
proof -
  have region: "in_region r es = find (\<lambda>e. r \<noteq> None \<and> ep_region e = r) es" for r es
    by (cases r) (simp_all add: in_region_def find_None_iff)
  have blank: "in_region (if p = Some [] then None else p) es
      = find (\<lambda>e. p \<noteq> None \<and> p \<noteq> Some [] \<and> ep_region e = p) es" for p es
    by (cases "p = Some []") (simp_all add: region find_None_iff)
  have kept: "fst (replica_url_for_region opts now preferred h) = choose_replica opts preferred
      (filter (\<lambda>e. ep_role e = ''replica'' \<and> \<not> is_open now (ep_url e) h) (routing_endpoints opts))"
    by (simp add: replica_url_for_region_def kept_order conj_commute)
  have choice: "choose_replica opts preferred es =
      (case es of [] \<Rightarrow> None
       | e # xs \<Rightarrow>
           Some (ep_url (case find (\<lambda>e. preferred \<noteq> None \<and> preferred \<noteq> Some [] \<and> ep_region e = preferred) (e # xs) of
             Some e1 \<Rightarrow> e1
           | None \<Rightarrow>
               (case find (\<lambda>e. routing_region opts \<noteq> None \<and> ep_region e = routing_region opts) (e # xs) of
                  Some e1 \<Rightarrow> e1
                | None \<Rightarrow> e))))" for es
    unfolding choose_replica_def blank region
    by (cases es) (simp_all del: find.simps split: option.split)
  show ?thesis
    unfolding kept by (rule choice)
qed

text \<open>The life of the health map under reads routed one after the other: each selects a replica
  and records how the request to it went.\<close>

inductive routed :: "runtime_options \<Rightarrow> health_map \<Rightarrow> bool" for opts where
  start: "routed opts []"
| failed: "routed opts h \<Longrightarrow> replica_url_for_region opts t region h = (Some url, h1) \<Longrightarrow>
    routed opts (record_forward_failure opts t1 url h1)"
| succeeded: "routed opts h \<Longrightarrow> replica_url_for_region opts t region h = (Some url, h1) \<Longrightarrow>
    routed opts (record_forward_success url h1)"
| asked: "routed opts h \<Longrightarrow> routed opts (snd (routing_info opts t h))"

definition no_breaker_open :: "health_map \<Rightarrow> bool" where
  "no_breaker_open h \<longleftrightarrow> (\<forall>url e. bt_get h url = Some e \<longrightarrow> eh_open_until e = None)"

lemma check_removes: "bt_get (snd (forward_endpoint_available now other h)) url = Some e \<Longrightarrow> bt_get h url = Some e"
  by (auto simp: forward_endpoint_available_def bt_get_remove split: option.splits if_splits)

lemma keep_removes: "bt_get (snd (keep_available now es h)) url = Some e \<Longrightarrow> bt_get h url = Some e"
proof (induction es arbitrary: h)
  case (Cons x es)
  obtain ok h1 where check: "forward_endpoint_available now (ep_url x) h = (ok, h1)" by fastforce
  obtain kept h2 where rest: "keep_available now es h1 = (kept, h2)" by fastforce
  from Cons show ?case
    using check_removes [of now "ep_url x" h url e] by (simp add: check rest)
qed simp

lemma selection_keeps: "no_breaker_open h \<Longrightarrow> no_breaker_open (snd (replica_url_for_region opts now region h))"
  unfolding no_breaker_open_def replica_url_for_region_def
  using keep_removes by (metis snd_apfst)

lemma chosen_in: "choose_replica opts preferred es = Some url \<Longrightarrow> \<exists>e \<in> set es. ep_url e = url"
  by (auto simp: choose_replica_def in_region_def find_Some_iff split: if_splits option.splits)

lemma selected_forgotten:
  assumes "replica_url_for_region opts now region h = (Some url, h1)"
  shows "bt_get h1 url = None"
proof -
  let ?es = "filter (\<lambda>e. ep_role e = ''replica'') (routing_endpoints opts)"
  have "choose_replica opts region (fst (keep_available now ?es h)) = Some url"
    using assms by (cases "keep_available now ?es h") (simp add: replica_url_for_region_def)
  from chosen_in [OF this] obtain e where e: "e \<in> set ?es" "\<not> is_open now (ep_url e) h" "ep_url e = url"
    by (auto simp: kept_order)
  then show ?thesis
    using keep_available_closed [OF e(1,2)] assms
    by (cases "keep_available now ?es h") (simp add: replica_url_for_region_def)
qed

text \<open>C29: with a threshold of two failures or more, and two is the default, the breaker of an
  endpoint never opens for reads routed one after the other, however many of them fail:
  selecting the replica forgets the failures counted so far, so every failure is the first.\<close>

theorem routed_reads_never_open_breaker:
  assumes "2 \<le> routing_endpoint_failure_threshold opts" and "routed opts h"
  shows "\<not> is_open now url h \<and> fst (forward_endpoint_available now url h)"
proof -
  from assms(2) have "no_breaker_open h"
  proof (induction rule: routed.induct)
    case (failed h t region url h1 t1)
    have "no_breaker_open h1"
      using selection_keeps [OF failed.IH, of opts t region] failed.hyps by simp
    moreover have "\<not> failure_threshold opts \<le> min u32_max 1"
      using assms(1) by (simp add: failure_threshold_def u32_max_def)
    ultimately show ?case
      using selected_forgotten [OF failed.hyps(2)]
      by (auto simp: no_breaker_open_def record_forward_failure_def bt_get_insert split: if_splits)
  next
    case (succeeded h t region url h1)
    then show ?case
      using selection_keeps [OF succeeded.IH, of opts t region]
      by (auto simp: no_breaker_open_def record_forward_success_def bt_get_remove)
  next
    case (asked h t)
    then show ?case
      using selection_keeps [OF asked.IH, of opts t None]
      by (auto simp: routing_info_def split: prod.splits)
  qed (simp add: no_breaker_open_def bt_get_empty)
  then have "\<not> is_open now url h"
    by (auto simp: no_breaker_open_def is_open_def)
  then show ?thesis by (simp add: available_iff)
qed

definition one_replica :: runtime_options where
  "one_replica = default_options\<lparr>routing_endpoints := [\<lparr>ep_role = ''replica'', ep_region = None, ep_url = ''http://r''\<rparr>]\<rparr>"

lemma routed_reads_never_open_breaker_witness:
  "routed one_replica (record_forward_failure one_replica 20 ''http://r''
      (snd (replica_url_for_region one_replica 20 None (record_forward_failure one_replica 10 ''http://r'' []))))
    \<and> fst (forward_endpoint_available 21 ''http://r'' (record_forward_failure one_replica 20 ''http://r''
      (snd (replica_url_for_region one_replica 20 None (record_forward_failure one_replica 10 ''http://r'' [])))))"
proof -
  have "replica_url_for_region one_replica 10 None [] = (Some ''http://r'', [])"
    by code_simp
  from routed.failed [OF routed.start this]
  have one: "routed one_replica (record_forward_failure one_replica 10 ''http://r'' [])" .
  have "fst (replica_url_for_region one_replica 20 None (record_forward_failure one_replica 10 ''http://r'' [])) = Some ''http://r''"
    by code_simp
  then have two: "routed one_replica (record_forward_failure one_replica 20 ''http://r''
      (snd (replica_url_for_region one_replica 20 None (record_forward_failure one_replica 10 ''http://r'' []))))"
    using routed.failed [OF one] by (metis prod.collapse)
  have "2 \<le> routing_endpoint_failure_threshold one_replica"
    by (simp add: one_replica_def default_options_def)
  with two show ?thesis
    using routed_reads_never_open_breaker [OF _ two] by simp
qed

end
