(* ===== verification/Http_Forward.thy ===== *)
theory Http_Forward
  imports Http_Requests Endpoint_Health Effects Concrete_Packages
begin

text \<open>
  Forwarding a request to another runtime (\<open>forward_json\<close> and what it calls, \<open>http.rs\<close>): the URL,
  the headers that are passed on, the attempts and the pauses between them, the health of the
  endpoint and the answer. The HTTP client, the URL package, the parser of methods and the
  passing of time are the record \<open>forward_net\<close>, over a world \<open>'w\<close> of its own.
\<close>

record 'u url_package =
  up_parse :: "string \<Rightarrow> string + 'u"
  up_scheme :: "'u \<Rightarrow> string"
  up_path :: "'u \<Rightarrow> string"
  up_set_path :: "string \<Rightarrow> 'u \<Rightarrow> 'u"
  up_set_query :: "string option \<Rightarrow> 'u \<Rightarrow> 'u"
  up_text :: "'u \<Rightarrow> string"

record 'u forward_request =
  fr_method :: string
  fr_url :: 'u
  fr_headers :: "(string \<times> string) list"
  fr_body :: bytes

text \<open>
  A request ends in a failure, of which \<open>is_timeout()\<close> and the text are known, or with the status and
  the body. Methods are known by their names.
\<close>

record ('u, 'w) forward_net =
  fn_urls :: "'u url_package"
  fn_method :: "string \<Rightarrow> string + string"
  fn_serde :: serde
  fn_json_error :: "bytes \<Rightarrow> string"
  fn_send :: "'u forward_request \<Rightarrow> 'w \<Rightarrow> ((bool \<times> string) + (nat \<times> bytes)) \<times> 'w"
  fn_sleep :: "nat \<Rightarrow> 'w \<Rightarrow> 'w"
  fn_now :: "'w \<Rightarrow> nat"

record 'w forwarder =
  fs_world :: 'w
  fs_health :: health_map
  fs_trace_seq :: nat

type_synonym ('w, 'a) forward_action = "('w forwarder, api_error, 'a) action"

section \<open>When to try again\<close>

definition is_forward_endpoint_failure_status :: "nat \<Rightarrow> bool" where
  "is_forward_endpoint_failure_status status \<longleftrightarrow> status \<in> {408, 429, 502, 503, 504}"

definition should_fallback_from_replica_route :: "nat \<Rightarrow> bool" where
  "should_fallback_from_replica_route status \<longleftrightarrow>
     status \<in> {404, 425} \<or> is_forward_endpoint_failure_status status"

definition forward_retry_allowed :: "string \<Rightarrow> bool \<Rightarrow> bool" where
  "forward_retry_allowed meth has_key \<longleftrightarrow> meth = ''GET'' \<or> meth = ''HEAD'' \<or> has_key"

definition forward_attempts :: "runtime_options \<Rightarrow> string \<Rightarrow> bool \<Rightarrow> nat" where
  "forward_attempts opts meth has_key = (if forward_retry_allowed meth has_key then forward_max_attempts opts else 1)"

definition should_retry_forward_response :: "nat \<Rightarrow> nat \<Rightarrow> nat \<Rightarrow> string \<Rightarrow> bool" where
  "should_retry_forward_response status attempt max_attempts meth \<longleftrightarrow>
     attempt < max_attempts \<and> forward_retry_allowed meth (1 < max_attempts) \<and> is_forward_endpoint_failure_status status"

definition should_retry_forward_error :: "api_error \<Rightarrow> nat \<Rightarrow> nat \<Rightarrow> string \<Rightarrow> bool" where
  "should_retry_forward_error e attempt max_attempts meth \<longleftrightarrow>
     attempt < max_attempts \<and> forward_retry_allowed meth (1 < max_attempts) \<and> err_status e \<in> {502, 504}"

definition duration_max :: nat where
  "duration_max = (2 ^ 64 - 1) * 1000 + 999"

definition sleep_before_forward_retry ::
    "('u, 'w) forward_net \<Rightarrow> runtime_options \<Rightarrow> nat \<Rightarrow> 'w forwarder \<Rightarrow> 'w forwarder" where
  "sleep_before_forward_retry N opts attempt s =
     (let base = forward_retry_backoff opts
      in if base = 0 then s
         else s\<lparr>fs_world := fn_sleep N (min duration_max (base * (attempt mod 2 ^ 32))) (fs_world s)\<rparr>)"

section \<open>The request\<close>

definition parse_forward_method :: "('u, 'w) forward_net \<Rightarrow> string \<Rightarrow> string api" where
  "parse_forward_method N meth = rmap_err (\<lambda>e. api_err 500 (''invalid forward method: '' @ e)) (fn_method N meth)"

definition join_paths :: "string \<Rightarrow> string \<Rightarrow> string" where
  "join_paths base uri =
     (if base = [] then uri else trim_end_char (CHR ''/'') base @ ''/'' @ trim_start_char (CHR ''/'') uri)"

definition build_forward_url :: "('u, 'w) forward_net \<Rightarrow> string \<Rightarrow> string \<Rightarrow> 'u api" where
  "build_forward_url N endpoint uri =
     (let P = fn_urls N
      in rbind (rmap_err (\<lambda>e. api_err 400 (''forward endpoint URL is invalid: '' @ endpoint @ '': '' @ e)) (up_parse P endpoint))
           (\<lambda>url.
         if up_scheme P url \<notin> {''http'', ''https''}
         then Inl (api_err 400 ''forward endpoint URL must use http or https'')
         else
           (let path_and_query = join_paths (if up_path P url = ''/'' then [] else up_path P url) uri;
                (path, q) = (case split_once (CHR ''?'') path_and_query of
                               Some (p, q) \<Rightarrow> (p, Some q) | None \<Rightarrow> (path_and_query, None))
            in Inr (up_set_query P q (up_set_path P path url)))))"

definition next_forward_trace_id :: "runtime \<Rightarrow> ('w, string) forward_action" where
  "next_forward_trace_id rt s =
     (Inr (rt_id rt @ ''-'' @ show_nat (fs_trace_seq s)), s\<lparr>fs_trace_seq := wrapping_add (fs_trace_seq s) 1\<rparr>)"

definition forward_trace_id :: "runtime \<Rightarrow> header_map \<Rightarrow> ('w, string) forward_action" where
  "forward_trace_id rt h =
     (case or_else (header_value h ''x-sdb-forward-trace-id'')
             (or_else (header_value h ''x-request-id'') (header_value h ''traceparent'')) of
        Some t \<Rightarrow> aret t
      | None \<Rightarrow> next_forward_trace_id rt)"

definition optional_header :: "string \<Rightarrow> string option \<Rightarrow> (string \<times> string) list" where
  "optional_header name v = (case v of None \<Rightarrow> [] | Some x \<Rightarrow> [(name, x)])"

definition forward_request_for ::
    "runtime \<Rightarrow> string \<Rightarrow> 'u \<Rightarrow> header_map \<Rightarrow> bytes \<Rightarrow> string \<Rightarrow> nat \<Rightarrow> 'u forward_request" where
  "forward_request_for rt meth url h body trace_id attempt =
     \<lparr>fr_method = meth, fr_url = url,
      fr_headers =
        [(''accept'', ''application/json''), (''x-sdb-forwarded-by'', rt_id rt),
         (''x-sdb-forward-attempt'', show_nat attempt), (''x-sdb-forward-trace-id'', trace_id)]
        @ (if body = [] then []
           else [(''content-type'',
                  case header_str h ''content-type'' of None \<Rightarrow> ''application/json'' | Some t \<Rightarrow> t)])
        @ optional_header ''authorization'' (header_str h ''authorization'')
        @ optional_header ''traceparent'' (header_value h ''traceparent'')
        @ optional_header ''x-request-id'' (header_value h ''x-request-id'')
        @ optional_header ''idempotency-key'' (idempotency_key h)
        @ optional_header ''x-sdb-idempotency-key'' (idempotency_key h),
      fr_body = body\<rparr>"

definition classify_forward_error :: "bool \<times> string \<Rightarrow> api_error" where
  "classify_forward_error = (\<lambda>(timeout, text).
     api_err (if timeout then 504 else 502) (''forward request failed: '' @ text))"

definition forward_http_json ::
    "('u, 'w) forward_net \<Rightarrow> 'u forward_request \<Rightarrow> ('w, nat \<times> json) forward_action" where
  "forward_http_json N req s =
     (case fn_send N req (fs_world s) of
        (r, w) \<Rightarrow>
          ((case r of
              Inl failure \<Rightarrow> Inl (classify_forward_error failure)
            | Inr (status, body) \<Rightarrow>
                rmap (Pair status)
                  (if body = [] then Inr JNull
                   else ok_or (api_err 502 (''forward response from '' @ up_text (fn_urls N) (fr_url req)
                                 @ '' is not JSON: '' @ fn_json_error N body))
                          (from_json_text (fn_serde N) body))),
           s\<lparr>fs_world := w\<rparr>))"

section \<open>The loop\<close>

function forward_loop ::
    "(nat \<Rightarrow> ('s, api_error, nat \<times> json) action) \<Rightarrow> (nat \<Rightarrow> 's \<Rightarrow> 's) \<Rightarrow> string \<Rightarrow> nat \<Rightarrow> nat
      \<Rightarrow> ('s, api_error, nat \<times> json) action" where
  "forward_loop send pause meth max_attempts attempt s =
     (case send attempt s of
        (Inr (status, body), s1) \<Rightarrow>
          if should_retry_forward_response status attempt max_attempts meth
          then forward_loop send pause meth max_attempts (attempt + 1) (pause attempt s1)
          else (Inr (status, body), s1)
      | (Inl e, s1) \<Rightarrow>
          if should_retry_forward_error e attempt max_attempts meth
          then forward_loop send pause meth max_attempts (attempt + 1) (pause attempt s1)
          else (Inl e, s1))"
  by pat_completeness auto
termination
  by (relation "measure (\<lambda>(send, pause, meth, max_attempts, attempt, s). max_attempts - attempt)")
    (auto simp: should_retry_forward_response_def should_retry_forward_error_def)

declare forward_loop.simps [simp del]

definition record_outcome ::
    "('u, 'w) forward_net \<Rightarrow> runtime_options \<Rightarrow> string \<Rightarrow> bool \<Rightarrow> 'w forwarder \<Rightarrow> 'w forwarder" where
  "record_outcome N opts endpoint failed s =
     s\<lparr>fs_health :=
         if failed then record_forward_failure opts (fn_now N (fs_world s)) endpoint (fs_health s)
         else record_forward_success endpoint (fs_health s)\<rparr>"

definition forward_answer :: "nat \<Rightarrow> json \<Rightarrow> json api" where
  "forward_answer status body =
     (if 200 \<le> status \<and> status < 300 then Inr body
      else Inl (api_err status (case jget_with as_str body ''error'' of None \<Rightarrow> ''primary request failed'' | Some m \<Rightarrow> m)))"

definition forward_json_to_url ::
    "('u, 'w) forward_net \<Rightarrow> runtime \<Rightarrow> string \<Rightarrow> string \<Rightarrow> string \<Rightarrow> header_map \<Rightarrow> bytes \<Rightarrow> ('w, json) forward_action" where
  "forward_json_to_url N rt endpoint meth_name uri h body =
     abind (alift (parse_forward_method N meth_name)) (\<lambda>meth.
     abind (alift (build_forward_url N endpoint uri)) (\<lambda>url.
     abind (forward_trace_id rt h) (\<lambda>trace_id s.
       (case forward_loop (\<lambda>attempt. forward_http_json N (forward_request_for rt meth url h body trace_id attempt))
               (sleep_before_forward_retry N (rt_opts rt)) meth
               (forward_attempts (rt_opts rt) meth (idempotency_key h \<noteq> None)) 1 s of
          (Inl e, s1) \<Rightarrow> (Inl e, record_outcome N (rt_opts rt) endpoint True s1)
        | (Inr (status, v), s1) \<Rightarrow>
            (forward_answer status v,
             record_outcome N (rt_opts rt) endpoint (is_forward_endpoint_failure_status status) s1)))))"

definition forward_json ::
    "('u, 'w) forward_net \<Rightarrow> runtime \<Rightarrow> string \<Rightarrow> string \<Rightarrow> header_map \<Rightarrow> bytes \<Rightarrow> ('w, json) forward_action" where
  "forward_json N rt meth_name uri h body =
     abind (alift (ok_or (api_err 405 ''read replica has no primary_url configured'') (primary_url (rt_opts rt))))
       (\<lambda>endpoint. forward_json_to_url N rt endpoint meth_name uri h body)"

definition should_forward_write :: "runtime_options \<Rightarrow> bool" where
  "should_forward_write opts \<longleftrightarrow> read_replica opts \<and> primary_url opts \<noteq> None"

section \<open>Every attempt\<close>

text \<open>The loop ends, and what it did is a list of attempts, numbered from the first, each but the
  last followed by a pause.\<close>

fun run_attempts ::
    "(nat \<Rightarrow> ('s, api_error, nat \<times> json) action) \<Rightarrow> (nat \<Rightarrow> 's \<Rightarrow> 's) \<Rightarrow> nat \<Rightarrow> nat \<Rightarrow> ('s, api_error, nat \<times> json) action" where
  "run_attempts send pause attempt 0 s = send attempt s"
| "run_attempts send pause attempt (Suc n) s = run_attempts send pause (attempt + 1) n (pause attempt (snd (send attempt s)))"

lemma forward_loop_attempts:
  "\<exists>n. forward_loop send pause meth max_attempts attempt s = run_attempts send pause attempt n s
    \<and> (n = 0 \<or> attempt + n \<le> max_attempts \<and> forward_retry_allowed meth (1 < max_attempts))"
proof (induction send pause meth max_attempts attempt s rule: forward_loop.induct)
  case (1 send pause meth max_attempts attempt s)
  obtain r s1 where send: "send attempt s = (r, s1)" by fastforce
  let ?again = "case r of Inr (status, body) \<Rightarrow> should_retry_forward_response status attempt max_attempts meth
    | Inl e \<Rightarrow> should_retry_forward_error e attempt max_attempts meth"
  have step: "forward_loop send pause meth max_attempts attempt s =
      (if ?again then forward_loop send pause meth max_attempts (attempt + 1) (pause attempt s1) else (r, s1))"
    by (subst forward_loop.simps) (auto simp: send split: sum.split)
  show ?case
  proof (cases ?again)
    case True
    then have more: "attempt < max_attempts" "forward_retry_allowed meth (1 < max_attempts)"
      by (auto simp: should_retry_forward_response_def should_retry_forward_error_def split: sum.splits)
    have "\<exists>n. forward_loop send pause meth max_attempts (attempt + 1) (pause attempt s1)
          = run_attempts send pause (attempt + 1) n (pause attempt s1)
        \<and> (n = 0 \<or> attempt + 1 + n \<le> max_attempts \<and> forward_retry_allowed meth (1 < max_attempts))"
    proof (cases r)
      case (Inl e)
      with True show ?thesis using "1.IH"(1) [OF send [symmetric] Inl] by simp
    next
      case (Inr a)
      then obtain status body where "r = Inr (status, body)" by (cases a) auto
      with True show ?thesis using "1.IH"(2) [OF send [symmetric]] by simp
    qed
    then obtain n where n: "forward_loop send pause meth max_attempts (attempt + 1) (pause attempt s1)
          = run_attempts send pause (attempt + 1) n (pause attempt s1)"
      "n = 0 \<or> attempt + 1 + n \<le> max_attempts" by blast
    show ?thesis
      by (rule exI [of _ "Suc n"]) (use True more n in \<open>auto simp: step send\<close>)
  next
    case False
    then show ?thesis by (intro exI [of _ 0]) (simp add: step send)
  qed
qed
section \<open>What is sent\<close>

text \<open>A network that also keeps the requests sent over it.\<close>

definition recording :: "('u, 'w) forward_net \<Rightarrow> ('u, 'w \<times> 'u forward_request list) forward_net" where
  "recording N =
     \<lparr>fn_urls = fn_urls N, fn_method = fn_method N, fn_serde = fn_serde N, fn_json_error = fn_json_error N,
      fn_send = (\<lambda>req (w, sent). case fn_send N req w of (r, w1) \<Rightarrow> (r, (w1, sent @ [req]))),
      fn_sleep = (\<lambda>d (w, sent). (fn_sleep N d w, sent)),
      fn_now = (\<lambda>(w, sent). fn_now N w)\<rparr>"

definition sent :: "('w \<times> 'u forward_request list) forwarder \<Rightarrow> 'u forward_request list" where
  "sent s = snd (fs_world s)"

lemma sent_pause [simp]: "sent (sleep_before_forward_retry (recording N) opts attempt s) = sent s"
  by (simp add: sent_def sleep_before_forward_retry_def recording_def Let_def split_def)

lemma sent_once [simp]: "sent (snd (forward_http_json (recording N) req s)) = sent s @ [req]"
  by (simp add: sent_def forward_http_json_def recording_def split_def)

lemma sent_outcome [simp]: "sent (record_outcome N opts endpoint failed s) = sent s"
  by (simp add: sent_def record_outcome_def)

lemma sent_attempts:
  "sent (snd (run_attempts (\<lambda>a. forward_http_json (recording N) (req a)) (sleep_before_forward_retry (recording N) opts) k n s))
    = sent s @ map req [k..<k + n + 1]"
proof (induction n arbitrary: k s)
  case (Suc n)
  have "map req [k..<k + Suc n + 1] = req k # map req [k + 1..<k + 1 + n + 1]"
    by (subst upt_conv_Cons) simp_all
  then show ?case
    by (simp add: Suc.IH del: upt_Suc)
qed simp

lemma sent_trace: "forward_trace_id rt h s = (r, s1) \<Longrightarrow> sent s1 = sent s \<and> fs_health s1 = fs_health s \<and> (\<exists>t. r = Inr t)"
  by (auto simp: forward_trace_id_def next_forward_trace_id_def sent_def split: option.splits)

text \<open>C32: forwarding ends after at most the configured number of requests, and after one when the
  method may not be repeated: it is not \<open>GET\<close> or \<open>HEAD\<close> and the client gave no idempotency key.
  All of them are the same request but for the number of the attempt: same method, URL, body,
  credentials, key and trace.\<close>

theorem forward_sends_are_bounded:
  assumes "forward_json_to_url (recording N) rt endpoint meth uri h body s = (r, s1)"
    and "fn_method N meth = Inr meth"
  shows "\<exists>url trace n. sent s1 = sent s @ map (forward_request_for rt meth url h body trace) [1..<n + 1]
    \<and> n \<le> (if meth \<in> {''GET'', ''HEAD''} \<or> idempotency_key h \<noteq> None then forward_max_attempts (rt_opts rt) else 1)"
proof (cases "build_forward_url (recording N) endpoint uri")
  case (Inl e)
  then have "sent s1 = sent s"
    using assms by (simp add: forward_json_to_url_def parse_forward_method_def recording_def abind_def)
  then show ?thesis by (intro exI [of _ 0] exI) simp
next
  case (Inr url)
  obtain t s0 where t: "forward_trace_id rt h s = (Inr t, s0)" "sent s0 = sent s"
    using sent_trace [of rt h s] by (metis prod.collapse)
  let ?key = "idempotency_key h \<noteq> None"
  let ?max = "forward_attempts (rt_opts rt) meth ?key"
  let ?send = "\<lambda>a. forward_http_json (recording N) (forward_request_for rt meth url h body t a)"
  let ?pause = "sleep_before_forward_retry (recording N) (rt_opts rt)"
  obtain n where n: "forward_loop ?send ?pause meth ?max 1 s0 = run_attempts ?send ?pause 1 n s0"
      "n = 0 \<or> 1 + n \<le> ?max"
    using forward_loop_attempts [of ?send ?pause meth ?max 1 s0] by blast
  have "sent s1 = sent (snd (forward_loop ?send ?pause meth ?max 1 s0))"
    using assms Inr t
    by (auto simp: forward_json_to_url_def parse_forward_method_def recording_def [of N, THEN arg_cong [of _ _ fn_method]]
        abind_def split: prod.splits sum.splits)
  then have "sent s1 = sent s @ map (forward_request_for rt meth url h body t) [1..<n + 1 + 1]"
    unfolding n(1) sent_attempts t(2) by (simp add: add.commute)
  moreover have "n + 1 \<le> (if meth \<in> {''GET'', ''HEAD''} \<or> ?key then forward_max_attempts (rt_opts rt) else 1)"
    using n(2) by (auto simp: forward_attempts_def forward_retry_allowed_def forward_max_attempts_def split: if_splits)
  ultimately show ?thesis by blast
qed
definition no_headers :: header_map where
  "no_headers = (\<lambda>_. None)"

text \<open>An endpoint that is always unavailable.\<close>

definition sample_net :: "(string, nat) forward_net" where
  "sample_net =
     \<lparr>fn_urls = \<lparr>up_parse = Inr, up_scheme = (\<lambda>_. ''http''), up_path = (\<lambda>_. ''/''), up_set_path = (\<lambda>p u. u @ p),
        up_set_query = (\<lambda>_ u. u), up_text = (\<lambda>u. u)\<rparr>,
      fn_method = Inr,
      fn_serde = \<lparr>to_json_text = (\<lambda>_. []), to_json_text_pretty = (\<lambda>_. []), from_json_text = (\<lambda>_. None)\<rparr>,
      fn_json_error = (\<lambda>_. ''expected value''), fn_send = (\<lambda>_ now. (Inr (503, []), now + 7)),
      fn_sleep = (+), fn_now = (\<lambda>now. now)\<rparr>"

definition sample_replica :: runtime where
  "sample_replica =
     \<lparr>rt_id = ''rt-1'', rt_opts = default_options, rt_serde = fn_serde sample_net, rt_sha256 = (\<lambda>_. []),
      rt_json_error = (\<lambda>_. [])\<rparr>"

definition forward_start :: "(nat \<times> string forward_request list) forwarder" where
  "forward_start = \<lparr>fs_world = (0, []), fs_health = [], fs_trace_seq = 1\<rparr>"

lemma forward_sends_are_bounded_witness:
  "\<exists>s1 url trace n. forward_json_to_url (recording sample_net) sample_replica ''http://p'' ''POST'' ''/rest/v1/notes''
      no_headers ''{}'' forward_start = (Inl (api_err 503 ''primary request failed''), s1)
    \<and> sent s1 = map (forward_request_for sample_replica ''POST'' url no_headers ''{}'' trace) [1..<n + 1] \<and> n \<le> 1"
proof -
  have "fst (forward_json_to_url (recording sample_net) sample_replica ''http://p'' ''POST'' ''/rest/v1/notes''
      no_headers ''{}'' forward_start) = Inl (api_err 503 ''primary request failed'')"
    by code_simp
  then obtain s1 where run: "forward_json_to_url (recording sample_net) sample_replica ''http://p'' ''POST''
      ''/rest/v1/notes'' no_headers ''{}'' forward_start = (Inl (api_err 503 ''primary request failed''), s1)"
    by (metis prod.collapse)
  have fm: "fn_method sample_net ''POST'' = Inr ''POST''" and start: "sent forward_start = []"
    and once: "(''POST'' \<in> {''GET'', ''HEAD''} \<or> idempotency_key no_headers \<noteq> None) = False"
    by (simp_all add: sample_net_def sent_def forward_start_def idempotency_key_def header_value_def header_str_def
        no_headers_def or_else_def not_empty_def)
  from forward_sends_are_bounded [OF run fm, unfolded start once append_Nil if_False] run show ?thesis
    by blast
qed

section \<open>The answer\<close>

lemma trace_id_ok: "\<exists>t s0. forward_trace_id rt h s = (Inr t, s0)"
  by (simp add: forward_trace_id_def next_forward_trace_id_def split: option.split)

lemma loop_once:
  "send attempt s = (Inr (status, body), s1) \<Longrightarrow> \<not> is_forward_endpoint_failure_status status \<Longrightarrow>
    forward_loop send pause meth max_attempts attempt s = (Inr (status, body), s1)"
  by (subst forward_loop.simps) (simp add: should_retry_forward_response_def)

text \<open>C33: the error of the primary reaches the client without its message. The primary answers an
  error with the body \<open>HttpError\<close> writes, which has the text under \<open>message\<close>; the forwarding
  runtime looks for it under \<open>error\<close>, finds none and says that the request failed.\<close>

theorem forwarded_error_loses_message:
  assumes "fn_method N meth = Inr meth" and "build_forward_url N endpoint uri = Inr url"
    and "\<And>req w. fst (fn_send N req w) = Inr (err_status e, to_json_text (fn_serde N) (error_body e))"
    and "serde_roundtrip (fn_serde N)" and "to_json_text (fn_serde N) (error_body e) \<noteq> []"
    and "400 \<le> err_status e" and "\<not> is_forward_endpoint_failure_status (err_status e)"
  shows "fst (forward_json_to_url N rt endpoint meth uri h body s)
    = Inl (api_err (err_status e) ''primary request failed'')"
proof -
  have "json_exact (error_body e)"
    unfolding error_body_def by (rule json_exact_jobj) (simp add: jopt_def split: option.split)
  then have "from_json_text (fn_serde N) (to_json_text (fn_serde N) (error_body e)) = Some (error_body e)"
    using serde_roundtripD assms(4) by blast
  then have once: "forward_http_json N req s0 = (Inr (err_status e, error_body e), s0\<lparr>fs_world := snd (fn_send N req (fs_world s0))\<rparr>)"
    for req s0
    using assms(3) [of req "fs_world s0"] assms(5) by (cases "fn_send N req (fs_world s0)") (simp add: forward_http_json_def)
  have "jget_with as_str (error_body e) ''error'' = None"
    by (simp add: error_body_def jget_with_def jget_jobj)
  then have answer: "forward_answer (err_status e) (error_body e) = Inl (api_err (err_status e) ''primary request failed'')"
    using assms(6) by (simp add: forward_answer_def)
  obtain t s0 where "forward_trace_id rt h s = (Inr t, s0)"
    using trace_id_ok by blast
  then show ?thesis
    using assms(1,2) answer loop_once [OF once assms(7)]
    by (simp add: forward_json_to_url_def parse_forward_method_def abind_def)
qed

definition refusing_net :: "(string, nat) forward_net" where
  "refusing_net = sample_net\<lparr>fn_serde := sample_serde,
     fn_send := (\<lambda>_ now. (Inr (404, to_json_text sample_serde (error_body (api_err 404 ''table not found: notes''))), now))\<rparr>"

lemma forwarded_error_loses_message_witness:
  "fst (forward_json_to_url refusing_net sample_replica ''http://p'' ''POST'' ''/rest/v1/notes'' no_headers ''{}''
      \<lparr>fs_world = 0, fs_health = [], fs_trace_seq = 1\<rparr>) = Inl (api_err 404 ''primary request failed'')"
proof -
  let ?e = "api_err 404 ''table not found: notes''"
  have url: "build_forward_url refusing_net ''http://p'' ''/rest/v1/notes'' = Inr ''http://p/rest/v1/notes''"
    and printed: "to_json_text (fn_serde refusing_net) (error_body ?e) \<noteq> []"
    by code_simp+
  show ?thesis
    using forwarded_error_loses_message [OF _ url _ _ printed, of "''POST''" sample_replica no_headers "''{}''"]
    by (simp add: refusing_net_def sample_net_def sample_serde_roundtrip is_forward_endpoint_failure_status_def)
qed

text \<open>The credentials of \<open>apikey\<close>, the \<open>Prefer\<close> header and the bookmark headers are not passed on.\<close>

lemma forward_drops_headers:
  "forward_json_to_url N rt endpoint meth uri (h(''apikey'' := a, ''prefer'' := b, ''x-d1-bookmark'' := c)) body s
    = forward_json_to_url N rt endpoint meth uri h body s"
  by (simp add: forward_json_to_url_def forward_trace_id_def forward_request_for_def header_value_def header_str_def
      idempotency_key_def)

end
