(* ===== verification/Http_Request_Properties.thy ===== *)
theory Http_Request_Properties
  imports Http_Requests Concrete_Packages
begin

text \<open>
  The request layer is correct: the URIs a query is written into are read back, the digest of a
  write identifies it (and, as a consequence, takes a repeated request for another one when its
  query is yielded in another order), the CORS origin is one that is allowed, the calendar of
  the file is the one of the runtime.
\<close>

section \<open>Reading an encoded URI\<close>

definition hex_val :: "char \<Rightarrow> nat" where
  "hex_val c = (if is_ascii_digit c then code c - 48 else code c - 55)"

text \<open>The decoding of a query string, as every reader of URIs does it.\<close>

fun percent_decode :: "string \<Rightarrow> string" where
  "percent_decode [] = []"
| "percent_decode (c # s) =
     (if c = CHR ''%''
      then (case s of a # b # r \<Rightarrow> char_of (16 * hex_val a + hex_val b) # percent_decode r | _ \<Rightarrow> [])
      else c # percent_decode s)"

definition decode_pair :: "string \<Rightarrow> string \<times> string" where
  "decode_pair s =
     (case split_once (CHR ''='') s of None \<Rightarrow> (percent_decode s, []) | Some (k, v) \<Rightarrow> (percent_decode k, percent_decode v))"

definition parse_uri :: "string \<Rightarrow> string \<times> (string \<times> string) list" where
  "parse_uri uri =
     (case split_once (CHR ''?'') uri of
        None \<Rightarrow> (uri, [])
      | Some (path, q) \<Rightarrow> (path, map decode_pair (split_on (CHR ''&'') q)))"

lemma hex_val_digit: "d < 16 \<Longrightarrow> hex_val (hex_digit_upper d) = d"
  by (auto simp: hex_val_def hex_digit_upper_def is_ascii_digit_def)

lemma unreserved_hex_digit: "d < 16 \<Longrightarrow> unreserved (hex_digit_upper d)"
  by (auto simp: unreserved_def hex_digit_upper_def is_ascii_alphanumeric_def is_ascii_alphabetic_def
      is_ascii_digit_def is_ascii_upper_def is_ascii_lower_def)

lemma unreserved_not_percent: "\<not> unreserved (CHR ''%'')"
  by code_simp

lemma decode_encode_byte: "percent_decode (encode_byte c @ s) = c # percent_decode s"
proof (cases "unreserved c")
  case True
  then show ?thesis using unreserved_not_percent by (auto simp: encode_byte_def)
next
  case False
  have "code c div 16 < 16" using code_bound [of c] by linarith
  moreover have "char_of (16 * (code c div 16) + code c mod 16) = c"
    by (simp add: code_def)
  ultimately show ?thesis
    using False by (simp add: encode_byte_def hex_byte_upper_def hex_val_digit)
qed

lemma percent_decode_encode [simp]: "percent_decode (percent_encode s) = s"
  by (induction s) (simp_all add: percent_encode_def decode_encode_byte)

lemma encode_byte_chars: "x \<in> set (encode_byte c) \<Longrightarrow> unreserved x \<or> x = CHR ''%''"
proof -
  have "code c div 16 < 16" using code_bound [of c] by linarith
  then show "x \<in> set (encode_byte c) \<Longrightarrow> unreserved x \<or> x = CHR ''%''"
    by (auto simp: encode_byte_def hex_byte_upper_def unreserved_hex_digit split: if_splits)
qed

lemma encoded_chars: "x \<in> set (percent_encode s) \<Longrightarrow> unreserved x \<or> x = CHR ''%''"
  using encode_byte_chars by (auto simp: percent_encode_def)

lemma separators_encoded: "\<not> unreserved x \<Longrightarrow> x \<noteq> CHR ''%'' \<Longrightarrow> x \<notin> set (percent_encode s)"
  using encoded_chars by blast

lemma separators:
  "CHR ''='' \<notin> set (percent_encode s)" "CHR ''&'' \<notin> set (percent_encode s)" "CHR ''?'' \<notin> set (percent_encode s)"
  "CHR 0x0A \<notin> set (percent_encode s)"
  by (rule separators_encoded; code_simp)+

lemma decode_encode_pair [simp]: "decode_pair (encode_pair kv) = kv"
  using split_once_append [of "CHR ''=''"] separators(1)
  by (cases kv) (simp add: encode_pair_def decode_pair_def)

lemma pair_chars: "CHR ''&'' \<notin> set (encode_pair kv)" "CHR 0x0A \<notin> set (encode_pair kv)"
  using separators by (cases kv; simp add: encode_pair_def)+

lemma path_reads_back: "CHR ''?'' \<notin> set path \<Longrightarrow> parse_uri path = (path, [])"
  unfolding parse_uri_def using split_once_None by (metis option.simps(4))

lemma uri_reads_back:
  assumes "CHR ''?'' \<notin> set path"
  shows "parse_uri (with_query path (map encode_pair q)) = (path, q)"
proof (cases q)
  case Nil
  then show ?thesis
    using path_reads_back [OF assms] by (simp add: with_query_def)
next
  case (Cons kv kvs)
  then have "split_on (CHR ''&'') (join ''&'' (map encode_pair q)) = map encode_pair q"
    by (intro split_on_join) (auto simp: pair_chars)
  moreover have "split_once (CHR ''?'') (path @ ''?'' @ join ''&'' (map encode_pair q))
      = Some (path, join ''&'' (map encode_pair q))"
    using split_once_append [OF assms] by simp
  ultimately show ?thesis
    using Cons by (simp add: with_query_def parse_uri_def map_idI del: list.map)
qed


section \<open>The digest of a write\<close>

lemma hex_lower_inject: "hex_lower x = hex_lower y \<Longrightarrow> x = y"
  using unhex_hex_lower by (metis option.inject)

lemma line_inject:
  "(c :: char) \<notin> set x \<Longrightarrow> c \<notin> set y \<Longrightarrow> x @ c # r = y @ c # s \<Longrightarrow> x = y \<and> r = s"
  using split_once_append [of c x r] split_once_append [of c y s] by (metis option.inject prod.inject)

lemma request_text_inject:
  assumes "CHR 0x0A \<notin> set (m @ u @ t)" and "CHR 0x0A \<notin> set (m' @ u' @ t')"
    and "request_text m u t b = request_text m' u' t' b'"
  shows "m = m' \<and> u = u' \<and> t = t' \<and> b = b'"
proof -
  have 1: "m = m' \<and> u @ CHR 0x0A # t @ CHR 0x0A # b = u' @ CHR 0x0A # t' @ CHR 0x0A # b'"
    using assms by (intro line_inject [of "CHR 0x0A"]) (simp_all add: request_text_def)
  then have 2: "u = u' \<and> t @ CHR 0x0A # b = t' @ CHR 0x0A # b'"
    using assms by (intro line_inject [of "CHR 0x0A"]) simp_all
  then have "t = t' \<and> b = b'"
    using assms by (intro line_inject [of "CHR 0x0A"]) simp_all
  with 1 2 show ?thesis by simp
qed

lemma join_chars: "x \<in> set (join sep xs) \<Longrightarrow> x \<in> set sep \<or> (\<exists>s \<in> set xs. x \<in> set s)"
  by (induction sep xs rule: join.induct) auto

lemma uri_one_line: "CHR 0x0A \<notin> set path \<Longrightarrow> CHR 0x0A \<notin> set (with_query path (map encode_pair q))"
  using pair_chars(2) by (auto simp: with_query_def dest!: join_chars)

lemma uri_inject:
  assumes "CHR ''?'' \<notin> set p" and "CHR ''?'' \<notin> set p'"
    and "with_query p (map encode_pair q) = with_query p' (map encode_pair q')"
  shows "p = p' \<and> q = q'"
  using uri_reads_back [OF assms(1), of q] uri_reads_back [OF assms(2), of q'] assms(3) by (metis prod.inject)

lemma table_uri_inject:
  assumes "CHR ''?'' \<notin> set t" and "CHR ''?'' \<notin> set t'" and "supabase_table_uri t q = supabase_table_uri t' q'"
  shows "t = t' \<and> q = q'"
  using uri_inject [of "''/rest/v1/'' @ t" "''/rest/v1/'' @ t'" q q'] assms by (simp add: supabase_table_uri_def)

lemma request_hash_eq:
  assumes "write_idempotency_of sha m (supabase_table_uri t q) h ct b = Some i"
    and "write_idempotency_of sha m' (supabase_table_uri t' q') h' ct' b' = Some i'"
    and "CHR 0x0A \<notin> set (m @ t @ ct)" and "CHR 0x0A \<notin> set (m' @ t' @ ct')"
    and "CHR ''?'' \<notin> set t" and "CHR ''?'' \<notin> set t'"
    and "sha (request_text m (supabase_table_uri t q) ct b) = sha (request_text m' (supabase_table_uri t' q') ct' b') \<Longrightarrow>
      request_text m (supabase_table_uri t q) ct b = request_text m' (supabase_table_uri t' q') ct' b'"
  shows "wi_request_hash i = wi_request_hash i' \<longleftrightarrow> m = m' \<and> t = t' \<and> q = q' \<and> ct = ct' \<and> b = b'"
proof
  assume "wi_request_hash i = wi_request_hash i'"
  then have "request_text m (supabase_table_uri t q) ct b = request_text m' (supabase_table_uri t' q') ct' b'"
    using assms(1,2,7) hex_lower_inject by (auto simp: write_idempotency_of_def split: option.splits)
  moreover have "CHR 0x0A \<notin> set (supabase_table_uri t q)" "CHR 0x0A \<notin> set (supabase_table_uri t' q')"
    using assms(3,4) uri_one_line by (simp_all add: supabase_table_uri_def)
  ultimately have "m = m' \<and> supabase_table_uri t q = supabase_table_uri t' q' \<and> ct = ct' \<and> b = b'"
    using assms(3,4) by (intro request_text_inject) auto
  then show "m = m' \<and> t = t' \<and> q = q' \<and> ct = ct' \<and> b = b'"
    using table_uri_inject [OF assms(5,6)] by blast
next
  assume "m = m' \<and> t = t' \<and> q = q' \<and> ct = ct' \<and> b = b'"
  then show "wi_request_hash i = wi_request_hash i'"
    using assms(1,2) by (auto simp: write_idempotency_of_def split: option.splits)
qed


definition keyed_headers :: header_map where
  "keyed_headers = (\<lambda>_. None)(''idempotency-key'' := Some (Some ''k1''))"


section \<open>The CORS origin\<close>

text \<open>The origin a response allows is the one of the request and among those configured, or
  none at all; any origin is allowed only outside production and when none is configured.\<close>

theorem cors_origin_is_allowed:
  "cors_origin env h = ''*'' \<and> allowed_origins env = [] \<and> \<not> is_production env
    \<or> cors_origin env h = []
    \<or> cors_origin env h \<in> set (allowed_origins env) \<and> header_str h ''origin'' = Some (cors_origin env h)"
  by (auto simp: cors_origin_def Let_def split: option.splits)

section \<open>The calendar\<close>

lemma find_year_loop: "find_year y r = year_loop y r"
proof (induction y r rule: find_year.induct)
  case (1 y r)
  then show ?case
    by (subst find_year.simps, subst year_loop.simps) (auto simp: Let_def leap_def leap_year_def year_days_def)
qed

lemma find_month_loop: "find_month i r ms = month_loop i r ms"
  by (induction i r ms rule: find_month.induct) simp_all

lemma days_to_ymd_loops:
  "days_to_ymd days =
     (case year_loop 1970 days of (y, remaining) \<Rightarrow>
      case month_loop 0 remaining (month_table y) of (mo, rest) \<Rightarrow> (y, mo, rest + 1))"
  by (simp only: days_to_ymd_def find_year_loop find_month_loop month_table_def leap_def leap_year_def)

lemma datetime_civil: "unix_to_datetime secs = civil_from_unix (int secs)"
  unfolding unix_to_datetime_def civil_from_unix_def days_to_ymd_loops Let_def zdiv_int zmod_int
  by (simp split: prod.split)

text \<open>The timestamps of the HTTP layer are those of the runtime: its own calendar computes
  the same civil date and time for every second the clock can show.\<close>

theorem now_iso_is_iso_from_unix: "now_iso secs = iso_from_unix (int secs)"
  unfolding now_iso_def iso_from_unix_def datetime_civil by (simp only: Let_def split_def)

end
