(* ===== verification/Project_Service.thy ===== *)
theory Project_Service
  imports Write_Pipeline Endpoint_Health
begin

text \<open>
  The methods of \<open>ProjectRuntime\<close> a request calls (\<open>runtime.rs\<close>), on the project it names: a read
  makes sure of the project (at the bookmark asked for) and reads its connection; a write is
  submitted and waited for. The model takes the schedule in which the job is alone in its batch;
  what other schedules do is the subject of \<open>Write_Pipeline\<close>. The asynchronous variants move the
  same work to another thread.
\<close>

definition read_project ::
    "nat \<Rightarrow> ('w, 'c, 'u) writer \<Rightarrow> string \<Rightarrow> string option \<Rightarrow> ('w, 'c, 'a) px_action \<Rightarrow> ('w, 'c, 'a) node_action" where
  "read_project fuel W pid bookmark act =
     abind (ensure_project_for_read fuel (wr_machine W) pid bookmark) (\<lambda>_. node_state act)"

definition run_alone :: "('w, 'c, 'u) writer \<Rightarrow> write_job \<Rightarrow> ('w, 'c, json) px_action" where
  "run_alone W job p = (case execute_write_batch W [job] p of ((answers, woken), p1) \<Rightarrow> (hd answers, p1))"

definition submit_write_with_idempotency ::
    "('w, 'c, 'u) writer \<Rightarrow> string \<Rightarrow> write_kind \<Rightarrow> write_idempotency option \<Rightarrow> ('w, 'c, json) node_action" where
  "submit_write_with_idempotency W pid kind idempotency =
     abind (alift (ensure_primary_write_allowed (mc_rt (wr_machine W)) ''write'')) (\<lambda>_.
     abind (ensure_project (wr_machine W) pid) (\<lambda>_.
       node_state (run_alone W \<lparr>wj_kind = kind, wj_idempotency = idempotency\<rparr>)))"

definition submit_kind :: "('w, 'c, 'u) writer \<Rightarrow> string \<Rightarrow> write_kind \<Rightarrow> ('w, 'c, json) node_action" where
  "submit_kind W pid kind = submit_write_with_idempotency W pid kind None"

section \<open>The writes of the service\<close>

definition create_table_with_idempotency ::
    "('w, 'c, 'u) writer \<Rightarrow> string \<Rightarrow> table_spec \<Rightarrow> write_idempotency option \<Rightarrow> ('w, 'c, json) node_action" where
  "create_table_with_idempotency W pid spec idempotency = submit_write_with_idempotency W pid (CreateTable spec) idempotency"

definition set_policy_with_idempotency ::
    "('w, 'c, 'u) writer \<Rightarrow> string \<Rightarrow> policy_spec \<Rightarrow> write_idempotency option \<Rightarrow> ('w, 'c, json) node_action" where
  "set_policy_with_idempotency W pid spec idempotency = submit_write_with_idempotency W pid (SetPolicy spec) idempotency"

definition insert_row_with_idempotency ::
    "('w, 'c, 'u) writer \<Rightarrow> string \<Rightarrow> string \<Rightarrow> json \<Rightarrow> actor \<Rightarrow> write_idempotency option \<Rightarrow> ('w, 'c, json) node_action" where
  "insert_row_with_idempotency W pid table data actor idempotency = submit_write_with_idempotency W pid (Insert table data actor) idempotency"

definition upsert_row_with_idempotency ::
    "('w, 'c, 'u) writer \<Rightarrow> string \<Rightarrow> string \<Rightarrow> json \<Rightarrow> actor \<Rightarrow> write_idempotency option \<Rightarrow> ('w, 'c, json) node_action" where
  "upsert_row_with_idempotency W pid table data actor idempotency = submit_write_with_idempotency W pid (Upsert table data actor) idempotency"

definition update_rows_with_idempotency ::
    "('w, 'c, 'u) writer \<Rightarrow> string \<Rightarrow> string \<Rightarrow> (string \<times> string) list \<Rightarrow> json \<Rightarrow> actor \<Rightarrow> write_idempotency option \<Rightarrow> ('w, 'c, json) node_action" where
  "update_rows_with_idempotency W pid table filters data actor idempotency = submit_write_with_idempotency W pid (Update table filters data actor) idempotency"

definition delete_rows_with_idempotency ::
    "('w, 'c, 'u) writer \<Rightarrow> string \<Rightarrow> string \<Rightarrow> (string \<times> string) list \<Rightarrow> actor \<Rightarrow> write_idempotency option \<Rightarrow> ('w, 'c, json) node_action" where
  "delete_rows_with_idempotency W pid table filters actor idempotency = submit_write_with_idempotency W pid (Delete table filters actor) idempotency"

definition update_rows_postgrest ::
    "('w, 'c, 'u) writer \<Rightarrow> string \<Rightarrow> string \<Rightarrow> filter_expr \<Rightarrow> json \<Rightarrow> actor \<Rightarrow> write_idempotency option \<Rightarrow> ('w, 'c, json) node_action" where
  "update_rows_postgrest W pid table filters data actor idempotency = submit_write_with_idempotency W pid (UpdatePostgrest table filters data actor) idempotency"

definition delete_rows_postgrest ::
    "('w, 'c, 'u) writer \<Rightarrow> string \<Rightarrow> string \<Rightarrow> filter_expr \<Rightarrow> actor \<Rightarrow> write_idempotency option \<Rightarrow> ('w, 'c, json) node_action" where
  "delete_rows_postgrest W pid table filters actor idempotency = submit_write_with_idempotency W pid (DeletePostgrest table filters actor) idempotency"

definition create_bucket_with_idempotency ::
    "('w, 'c, 'u) writer \<Rightarrow> string \<Rightarrow> string \<Rightarrow> write_idempotency option \<Rightarrow> ('w, 'c, json) node_action" where
  "create_bucket_with_idempotency W pid name idempotency = submit_write_with_idempotency W pid (CreateBucket name) idempotency"

definition put_object_with_idempotency ::
    "('w, 'c, 'u) writer \<Rightarrow> string \<Rightarrow> string \<Rightarrow> string \<Rightarrow> bytes \<Rightarrow> string \<Rightarrow> actor \<Rightarrow> write_idempotency option \<Rightarrow> ('w, 'c, json) node_action" where
  "put_object_with_idempotency W pid bucket key data content_type actor idempotency = submit_write_with_idempotency W pid (PutObject bucket key data content_type actor) idempotency"

definition delete_object_with_idempotency ::
    "('w, 'c, 'u) writer \<Rightarrow> string \<Rightarrow> string \<Rightarrow> string \<Rightarrow> actor \<Rightarrow> write_idempotency option \<Rightarrow> ('w, 'c, json) node_action" where
  "delete_object_with_idempotency W pid bucket key actor idempotency = submit_write_with_idempotency W pid (DeleteObject bucket key actor) idempotency"

definition runtime_delete_bucket :: "('w, 'c, 'u) writer \<Rightarrow> string \<Rightarrow> string \<Rightarrow> ('w, 'c, json) node_action" where
  "runtime_delete_bucket W pid name = submit_kind W pid (DeleteBucket name)"

section \<open>Users and sessions\<close>

definition read_auth ::
    "nat \<Rightarrow> ('w, 'c, 'u) writer \<Rightarrow> string \<Rightarrow> (serde \<Rightarrow> 'a auth_action) \<Rightarrow> ('w, 'c, 'a) node_action" where
  "read_auth fuel W pid act = read_project fuel W pid None (on_auth W (act (rt_serde (mc_rt (wr_machine W)))))"

definition auth_get_user_by_email_or_phone ::
    "nat \<Rightarrow> ('w, 'c, 'u) writer \<Rightarrow> (user_row list \<Rightarrow> user_row) \<Rightarrow> string \<Rightarrow> string \<Rightarrow> ('w, 'c, json option) node_action" where
  "auth_get_user_by_email_or_phone fuel W pick pid identifier =
     read_auth fuel W pid (\<lambda>sd. get_user_by_email_or_phone pick sd identifier)"

definition auth_get_user_by_id ::
    "nat \<Rightarrow> ('w, 'c, 'u) writer \<Rightarrow> string \<Rightarrow> string \<Rightarrow> ('w, 'c, json option) node_action" where
  "auth_get_user_by_id fuel W pid uid = read_auth fuel W pid (\<lambda>sd. get_user_by_id sd uid)"

definition auth_get_active_refresh_token ::
    "nat \<Rightarrow> ('w, 'c, 'u) writer \<Rightarrow> string \<Rightarrow> string \<Rightarrow> int \<Rightarrow> ('w, 'c, json) node_action" where
  "auth_get_active_refresh_token fuel W pid token now =
     read_auth fuel W pid (\<lambda>sd. get_active_refresh_token sd token now)"

definition auth_create_user :: "('w, 'c, 'u) writer \<Rightarrow> string \<Rightarrow> json \<Rightarrow> ('w, 'c, json) node_action" where
  "auth_create_user W pid user = submit_kind W pid (AuthCreateUser user)"

definition auth_issue_refresh_token ::
    "('w, 'c, 'u) writer \<Rightarrow> string \<Rightarrow> string \<Rightarrow> string \<Rightarrow> string \<Rightarrow> int \<Rightarrow> int \<Rightarrow> ('w, 'c, json) node_action" where
  "auth_issue_refresh_token W pid token uid sid created expires =
     submit_kind W pid (AuthIssueRefreshToken token uid sid created expires)"

definition auth_rotate_refresh_token ::
    "('w, 'c, 'u) writer \<Rightarrow> string \<Rightarrow> string \<Rightarrow> string \<Rightarrow> int \<Rightarrow> int \<Rightarrow> ('w, 'c, json) node_action" where
  "auth_rotate_refresh_token W pid old_token new_token created expires =
     submit_kind W pid (AuthRotateRefreshToken old_token new_token created expires)"

definition auth_revoke_sessions ::
    "('w, 'c, 'u) writer \<Rightarrow> string \<Rightarrow> string \<Rightarrow> string option \<Rightarrow> logout_scope \<Rightarrow> int \<Rightarrow> ('w, 'c, json) node_action" where
  "auth_revoke_sessions W pid uid current scope revoked_at =
     submit_kind W pid (AuthRevokeSessions uid current scope revoked_at)"

definition auth_update_user ::
    "('w, 'c, 'u) writer \<Rightarrow> string \<Rightarrow> string \<Rightarrow> user_patch \<Rightarrow> ('w, 'c, json) node_action" where
  "auth_update_user W pid uid patch = submit_kind W pid (AuthUpdateUser uid patch)"

section \<open>Projects\<close>

definition local_commit_seq :: "('w, 'c) node \<Rightarrow> nat" where
  "local_commit_seq n = (case nd_state n of None \<Rightarrow> 0 | Some st \<Rightarrow> ps_commit_seq st)"

definition node_store :: "('w, 'c) machine \<Rightarrow> 'a api_prog \<Rightarrow> ('w, 'c, 'a) node_action" where
  "node_store M p = node_host (on_store M p)"

definition describe_key :: "('w, 'c) machine \<Rightarrow> string \<Rightarrow> ('w, 'c) node \<Rightarrow> json" where
  "describe_key M key n = JString (os_describe (mc_store M) key (sys_world (h_sys (nd_host n))))"

definition object_len :: "('w, 'c) machine \<Rightarrow> string \<Rightarrow> ('w, 'c, nat option) node_action" where
  "object_len M key n =
     (let h = nd_host n
      in case os_len (mc_store M) key (sys_world (h_sys h)) of
           (r, w) \<Rightarrow> (rmap_err anyhow_api_error r, n\<lparr>nd_host := h\<lparr>h_sys := (h_sys h)\<lparr>sys_world := w\<rparr>\<rparr>\<rparr>))"

definition replica_json :: "runtime_options \<Rightarrow> nat \<Rightarrow> nat \<Rightarrow> json" where
  "replica_json opts local_seq remote_seq =
     jobj [(''enabled'', JBool (read_replica opts)), (''local_commit_seq'', json_of_nat local_seq),
           (''remote_commit_seq'', json_of_nat remote_seq),
           (''local_bookmark'', JString (bookmark_for_seq local_seq)),
           (''remote_bookmark'', JString (bookmark_for_seq remote_seq)),
           (''lag_commits'', json_of_nat (remote_seq - local_seq)),
           (''refresh_interval_ms'', json_of_nat (replica_refresh_interval_ms opts)),
           (''bookmark_wait_timeout_ms'', json_of_nat (replica_bookmark_wait_timeout_ms opts))]"

text \<open>\<open>cache_path\<close> is the path of the project's database; \<open>routing\<close> the report of \<open>routing_info\<close>.\<close>

definition project_info ::
    "('w, 'c) machine \<Rightarrow> string \<Rightarrow> json \<Rightarrow> string \<Rightarrow> ('w, 'c, json) node_action" where
  "project_info M cache_path routing project_id =
     (let rt = mc_rt M; opts = rt_opts rt
      in abind (alift (safe_project_id project_id)) (\<lambda>pid.
         abind (node_store M (p_list (wal_prefix pid))) (\<lambda>segments.
         abind (node_store M (load_manifest rt pid)) (\<lambda>manifest.
         abind (aget local_commit_seq) (\<lambda>local_seq.
         let remote_seq = manifest_commit_seq manifest;
             snap_key = (case manifest of Some m \<Rightarrow> sm_key (dm_snapshot m) | None \<Rightarrow> snapshot_key pid)
         in abind (node_store M (load_writer_lease rt pid)) (\<lambda>lease.
         abind (node_store M (p_exists snap_key)) (\<lambda>there.
         abind (object_len M snap_key) (\<lambda>snap_len.
         abind (aget (\<lambda>n. map (\<lambda>k. describe_key M k n) [snap_key, wal_prefix pid, manifest_key pid])) (\<lambda>uris.
           aret (jobj [(''project_id'', JString pid), (''cache_path'', JString cache_path),
             (''runtime_mode'', JString (runtime_mode opts)), (''routing'', routing),
             (''bookmark'', JString (case manifest of Some m \<Rightarrow> manifest_bookmark m | None \<Rightarrow> bookmark_for_seq 0)),
             (''local_bookmark'', JString (bookmark_for_seq local_seq)),
             (''replica'', replica_json opts local_seq remote_seq),
             (''snapshot_uri'', uris ! 0), (''snapshot_exists'', JBool there),
             (''snapshot_bytes'', json_of_nat (case snap_len of Some l \<Rightarrow> l | None \<Rightarrow> 0)),
             (''snapshot'',
              case manifest of
                Some m \<Rightarrow> json_canon (snapshot_to_json (dm_snapshot m))
              | None \<Rightarrow> jobj [(''key'', JString snap_key)]),
             (''wal_segment_prefix'', uris ! 1), (''wal_segment_count'', json_of_nat (length segments)),
             (''durable_wal_bytes'', json_of_nat (sum_list (map meta_len segments))),
             (''manifest_uri'', uris ! 2),
             (''manifest'', case manifest of Some m \<Rightarrow> json_canon (manifest_to_json m) | None \<Rightarrow> JNull),
             (''writer_lease'', case lease of Some l \<Rightarrow> json_canon (lease_to_json l) | None \<Rightarrow> JNull)]))))))))))"

definition create_project ::
    "('w, 'c) machine \<Rightarrow> string \<Rightarrow> json \<Rightarrow> string \<Rightarrow> ('w, 'c, json) node_action" where
  "create_project M cache_path routing project_id =
     abind (alift (ensure_primary_write_allowed (mc_rt M) ''create_project'')) (\<lambda>_.
     abind (ensure_project M project_id) (\<lambda>_. project_info M cache_path routing project_id))"

section \<open>Tables\<close>

definition with_env ::
    "('w, 'c, 'u) writer \<Rightarrow> (storage_env \<Rightarrow> nat \<Rightarrow> ('w, 'c, 'a) px_action) \<Rightarrow> ('w, 'c, 'a) px_action" where
  "with_env W act p = act (writer_env W p) (ps_commit_seq (px_st p)) p"

definition runtime_schema :: "nat \<Rightarrow> ('w, 'c, 'u) writer \<Rightarrow> string \<Rightarrow> ('w, 'c, json) node_action" where
  "runtime_schema fuel W pid =
     read_project fuel W pid None
       (with_env W (\<lambda>E seq. on_conn W (schema (wr_tables W) (se_project E) seq)))"

definition runtime_list_policies :: "nat \<Rightarrow> ('w, 'c, 'u) writer \<Rightarrow> string \<Rightarrow> ('w, 'c, json) node_action" where
  "runtime_list_policies fuel W pid =
     read_project fuel W pid None (with_env W (\<lambda>E seq. on_conn W (list_policies E seq)))"

definition select_rows_at_bookmark ::
    "nat \<Rightarrow> ('w, 'c, 'u) writer \<Rightarrow> string \<Rightarrow> string \<Rightarrow> (string \<times> string) list \<Rightarrow> actor \<Rightarrow> nat \<Rightarrow> string option
      \<Rightarrow> ('w, 'c, json) node_action" where
  "select_rows_at_bookmark fuel W pid table filters actor limit bookmark =
     read_project fuel W pid bookmark
       (with_env W (\<lambda>E seq. on_conn W (select_rows E (wr_tables W) seq table filters actor limit)))"

definition runtime_select_postgrest ::
    "nat \<Rightarrow> ('w, 'c, 'u) writer \<Rightarrow> string \<Rightarrow> string \<Rightarrow> select_query \<Rightarrow> actor \<Rightarrow> string option
      \<Rightarrow> ('w, 'c, json) node_action" where
  "runtime_select_postgrest fuel W pid table q actor bookmark =
     read_project fuel W pid bookmark
       (with_env W (\<lambda>E seq. on_conn W (select_rows_postgrest E (wr_tables W) seq table q actor)))"

section \<open>Objects and events\<close>

definition runtime_list_buckets :: "nat \<Rightarrow> ('w, 'c, 'u) writer \<Rightarrow> string \<Rightarrow> ('w, 'c, json) node_action" where
  "runtime_list_buckets fuel W pid = read_project fuel W pid None (on_storage W list_buckets)"

definition runtime_get_bucket :: "nat \<Rightarrow> ('w, 'c, 'u) writer \<Rightarrow> string \<Rightarrow> string \<Rightarrow> ('w, 'c, json) node_action" where
  "runtime_get_bucket fuel W pid name = read_project fuel W pid None (on_storage W (get_bucket name))"

definition runtime_list_objects ::
    "nat \<Rightarrow> ('w, 'c, 'u) writer \<Rightarrow> string \<Rightarrow> string \<Rightarrow> string option \<Rightarrow> int \<Rightarrow> int \<Rightarrow> actor
      \<Rightarrow> ('w, 'c, json) node_action" where
  "runtime_list_objects fuel W pid bucket pre limit offset actor =
     abind (alift (require_storage_actor actor)) (\<lambda>_.
       read_project fuel W pid None (on_storage W (list_objects bucket pre limit offset actor)))"

definition runtime_get_object ::
    "nat \<Rightarrow> ('w, 'c, 'u) writer \<Rightarrow> string \<Rightarrow> string \<Rightarrow> string \<Rightarrow> actor \<Rightarrow> ('w, 'c, json_map \<times> bytes) node_action" where
  "runtime_get_object fuel W pid bucket key actor =
     read_project fuel W pid None
       (with_env W (\<lambda>E seq. on_storage W (get_object E (mc_store (wr_machine W)) bucket key actor)))"

text \<open>The asynchronous read answers a failure of the store with 503 and a text of its own.\<close>

definition async_blobs :: "('w, string, 'a) action \<Rightarrow> ('w, 'a) storage_action" where
  "async_blobs m s =
     (case m (ss_world s) of
        (r, w) \<Rightarrow> (rmap_err (\<lambda>e. api_err 503 (''failed to read object: '' @ e)) r, s\<lparr>ss_world := w\<rparr>))"

definition get_object_async ::
    "storage_env \<Rightarrow> 'w object_store \<Rightarrow> string \<Rightarrow> string \<Rightarrow> actor \<Rightarrow> ('w, json_map \<times> bytes) storage_action" where
  "get_object_async E store bucket key actor =
     abind (alift (assert_user_ident bucket)) (\<lambda>bucket.
     abind (alift (safe_object_key key)) (\<lambda>key.
     abind (on_db (object_meta_in [Committed] bucket key)) (\<lambda>meta.
     abind (alift (authorize_storage_object meta actor)) (\<lambda>_.
     abind (async_blobs (os_read_bytes store (storage_key (se_project E) bucket key))) (\<lambda>data.
       aret (meta, data))))))"

definition runtime_get_object_async ::
    "nat \<Rightarrow> ('w, 'c, 'u) writer \<Rightarrow> string \<Rightarrow> string \<Rightarrow> string \<Rightarrow> actor \<Rightarrow> ('w, 'c, json_map \<times> bytes) node_action" where
  "runtime_get_object_async fuel W pid bucket key actor =
     read_project fuel W pid None
       (with_env W (\<lambda>E seq. on_storage W (get_object_async E (mc_store (wr_machine W)) bucket key actor)))"

definition runtime_events ::
    "nat \<Rightarrow> ('w, 'c, 'u) writer \<Rightarrow> string \<Rightarrow> int \<Rightarrow> int \<Rightarrow> ('w, 'c, json) node_action" where
  "runtime_events fuel W pid since limit =
     read_project fuel W pid None (with_env W (\<lambda>E seq. on_storage W (events E seq since limit)))"

text \<open>\<open>wait\<close> is what happens to the project until a write wakes the reader or ten seconds pass.\<close>

definition has_events :: "json \<Rightarrow> bool" where
  "has_events v = (case jget_with as_array v ''events'' of Some (x # xs) \<Rightarrow> True | _ \<Rightarrow> False)"

definition wait_for_events ::
    "(('w, 'c) node \<Rightarrow> ('w, 'c) node) \<Rightarrow> nat \<Rightarrow> ('w, 'c, 'u) writer \<Rightarrow> string \<Rightarrow> int \<Rightarrow> ('w, 'c, json) node_action" where
  "wait_for_events wait fuel W pid since =
     abind (runtime_events fuel W pid since 100) (\<lambda>immediate.
       if has_events immediate then aret immediate
       else abind (alift (safe_project_id pid)) (\<lambda>_.
            abind (amodify wait) (\<lambda>_. runtime_events fuel W pid since 100)))"

end
