(* ===== verification/Http_Auth.thy ===== *)
theory Http_Auth
  imports Project_Service Http_Forward
begin

text \<open>
  The GoTrue endpoints of \<open>http.rs\<close> (\<open>/auth/v1/*\<close>): the rate limiter, password hashes, random
  identifiers, sessions and the handlers. The state of the service is the node, the forwarder and
  the limiter; clocks and random bytes are read one after the other, counted by \<open>sv_reads\<close> and
  \<open>sv_draws\<close>. Argon2 is the record \<open>password_package\<close>.
\<close>

record password_package =
  pw_hash :: "nat \<Rightarrow> string \<Rightarrow> string + string"
  pw_check :: "string \<Rightarrow> string \<Rightarrow> bool option"

type_synonym rate_buckets = "(string \<times> nat list) list"

record rate_limiter =
  rl_window_secs :: nat
  rl_max_requests :: nat
  rl_buckets :: rate_buckets

record ('w, 'c, 'n) service =
  sv_node :: "('w, 'c) node"
  sv_forward :: "'n forwarder"
  sv_limiter :: rate_limiter
  sv_reads :: nat
  sv_draws :: nat

text \<open>
  \<open>sr_unix\<close> is the system clock in seconds and \<open>sr_instant\<close> the monotonic one in nanoseconds, by
  the number of the reading; \<open>sr_random k n\<close> the \<open>n\<close> bytes a draw leaves in its buffer.
  \<open>sr_fuel\<close> bounds the waits for a bookmark and \<open>sr_pick\<close> is the row SQLite returns of several.
\<close>

record ('w, 'c, 'u, 'l, 'n) server =
  sr_writer :: "('w, 'c, 'u) writer"
  sr_fuel :: nat
  sr_pick :: "user_row list \<Rightarrow> user_row"
  sr_crypto :: crypto
  sr_env :: env
  sr_net :: "('l, 'n) forward_net"
  sr_passwords :: password_package
  sr_unix :: "nat \<Rightarrow> nat"
  sr_instant :: "nat \<Rightarrow> nat"
  sr_random :: "nat \<Rightarrow> nat \<Rightarrow> bytes"

type_synonym ('w, 'c, 'n, 'a) service_action = "(('w, 'c, 'n) service, api_error, 'a) action"

definition on_node :: "('w, 'c, 'a) node_action \<Rightarrow> ('w, 'c, 'n, 'a) service_action" where
  "on_node act s = (case act (sv_node s) of (r, n) \<Rightarrow> (r, s\<lparr>sv_node := n\<rparr>))"

definition on_forward :: "('n, 'a) forward_action \<Rightarrow> ('w, 'c, 'n, 'a) service_action" where
  "on_forward act s = (case act (sv_forward s) of (r, f) \<Rightarrow> (r, s\<lparr>sv_forward := f\<rparr>))"

definition server_runtime :: "('w, 'c, 'u, 'l, 'n) server \<Rightarrow> runtime" where
  "server_runtime S = mc_rt (wr_machine (sr_writer S))"

definition server_options :: "('w, 'c, 'u, 'l, 'n) server \<Rightarrow> runtime_options" where
  "server_options S = rt_opts (server_runtime S)"

definition read_clock :: "(nat \<Rightarrow> 'a) \<Rightarrow> ('w, 'c, 'n, 'a) service_action" where
  "read_clock clock s = (Inr (clock (sv_reads s)), s\<lparr>sv_reads := Suc (sv_reads s)\<rparr>)"

definition draw :: "(nat \<Rightarrow> 'a) \<Rightarrow> ('w, 'c, 'n, 'a) service_action" where
  "draw source s = (Inr (source (sv_draws s)), s\<lparr>sv_draws := Suc (sv_draws s)\<rparr>)"

text \<open>\<open>now_unix\<close>; \<open>verify_token\<close> and \<open>mint_token\<close> read the same clock.\<close>

definition now_unix :: "('w, 'c, 'u, 'l, 'n) server \<Rightarrow> ('w, 'c, 'n, int) service_action" where
  "now_unix S = read_clock (\<lambda>k. i64_wrap (int (sr_unix S k)))"

definition service_actor :: "('w, 'c, 'u, 'l, 'n) server \<Rightarrow> header_map \<Rightarrow> ('w, 'c, 'n, actor) service_action" where
  "service_actor S h = abind (now_unix S) (\<lambda>now. alift (request_actor (sr_crypto S) (sr_env S) now h))"

section \<open>The rate limiter\<close>

definition limiter_check :: "nat \<Rightarrow> nat \<Rightarrow> string \<Rightarrow> nat \<Rightarrow> rate_buckets \<Rightarrow> bool \<times> rate_buckets" where
  "limiter_check window max_requests key now buckets =
     (let kept = filter (\<lambda>t. now - t < window) (case bt_get buckets key of None \<Rightarrow> [] | Some ts \<Rightarrow> ts)
      in if max_requests \<le> length kept then (False, bt_insert key kept buckets)
         else (True, bt_insert key (kept @ [now]) buckets))"

definition env_u64 :: "env \<Rightarrow> string \<Rightarrow> nat \<Rightarrow> nat" where
  "env_u64 env name default_value =
     (case Option.bind (env name) parse_u64 of None \<Rightarrow> default_value | Some n \<Rightarrow> n)"

definition auth_rate_limiter :: "env \<Rightarrow> rate_limiter" where
  "auth_rate_limiter env =
     \<lparr>rl_window_secs = env_u64 env ''SDB_AUTH_RATE_LIMIT_WINDOW_SECS'' 60,
      rl_max_requests = env_u64 env ''SDB_AUTH_RATE_LIMIT_MAX'' 10, rl_buckets = []\<rparr>"

definition client_ip :: "header_map \<Rightarrow> string" where
  "client_ip h =
     (case header_str h ''x-forwarded-for'' of
        Some v \<Rightarrow> trim (hd (split_on (CHR '','') v))
      | None \<Rightarrow> (case header_str h ''x-real-ip'' of Some v \<Rightarrow> v | None \<Rightarrow> ''unknown''))"

definition check_auth_rate_limit ::
    "('w, 'c, 'u, 'l, 'n) server \<Rightarrow> header_map \<Rightarrow> ('w, 'c, 'n, unit) service_action" where
  "check_auth_rate_limit S h =
     abind (read_clock (sr_instant S)) (\<lambda>now s.
       let L = sv_limiter s
       in case limiter_check (rl_window_secs L * 10 ^ 9) (rl_max_requests L) (client_ip h) now (rl_buckets L) of
            (admitted, buckets) \<Rightarrow>
              (if admitted then Inr () else Inl (api_err 429 ''Too many auth requests. Please try again later.''),
               s\<lparr>sv_limiter := L\<lparr>rl_buckets := buckets\<rparr>\<rparr>))"

section \<open>Passwords and identifiers\<close>

definition legacy_sha256_password :: "('w, 'c, 'u, 'l, 'n) server \<Rightarrow> string \<Rightarrow> string" where
  "legacy_sha256_password S password = b64url_encode (sr_crypto S) (rt_sha256 (server_runtime S) password)"

definition hash_password :: "('w, 'c, 'u, 'l, 'n) server \<Rightarrow> string \<Rightarrow> ('w, 'c, 'n, string) service_action" where
  "hash_password S password =
     abind (draw (\<lambda>k. pw_hash (sr_passwords S) k password)) (\<lambda>r.
       alift (rmap_err (\<lambda>e. api_err 500 (''failed to hash password: '' @ e)) r))"

definition verify_password :: "('w, 'c, 'u, 'l, 'n) server \<Rightarrow> string \<Rightarrow> string \<Rightarrow> bool" where
  "verify_password S password hash =
     (if \<not> starts_with hash ''$argon2'' then legacy_sha256_password S password = hash
      else (case pw_check (sr_passwords S) hash password of None \<Rightarrow> False | Some ok \<Rightarrow> ok))"

definition uuid_text :: "bytes \<Rightarrow> string" where
  "uuid_text buf =
     join ''-'' [hex_lower (take 4 buf), hex_lower (take 2 (drop 4 buf)), hex_lower (take 2 (drop 6 buf)),
                 hex_lower (take 2 (drop 8 buf)), hex_lower (take 6 (drop 10 buf))]"

definition gen_uuid :: "('w, 'c, 'u, 'l, 'n) server \<Rightarrow> ('w, 'c, 'n, string) service_action" where
  "gen_uuid S = draw (\<lambda>k. uuid_text (sr_random S k 16))"

definition gen_refresh_token :: "('w, 'c, 'u, 'l, 'n) server \<Rightarrow> ('w, 'c, 'n, string) service_action" where
  "gen_refresh_token S = draw (\<lambda>k. b64url_encode (sr_crypto S) (sr_random S k 32))"

section \<open>Sessions\<close>

definition access_token_ttl :: int where
  "access_token_ttl = 3600"

definition refresh_token_ttl :: int where
  "refresh_token_ttl = 30 * 24 * 60 * 60"

definition public_user :: "json \<Rightarrow> json" where
  "public_user user = (case user of JObject m \<Rightarrow> JObject (bt_remove ''password_hash'' m) | _ \<Rightarrow> user)"

definition user_to_json :: "json \<Rightarrow> json" where
  "user_to_json user = user"

definition auth_project_id :: "('w, 'c, 'u, 'l, 'n) server \<Rightarrow> string" where
  "auth_project_id S = opt_supabase_project_id (server_options S)"

definition str_or :: "string \<Rightarrow> string option \<Rightarrow> string" where
  "str_or default_value x = (case x of None \<Rightarrow> default_value | Some s \<Rightarrow> s)"

definition session_claims :: "json \<Rightarrow> string \<Rightarrow> json_map" where
  "session_claims user session_id =
     (let m = bt_insert ''session_id'' (JString session_id)
                (bt_insert ''email'' (JString (str_or [] (jget_with as_str user ''email''))) [])
      in case jget_with as_str user ''phone'' of None \<Rightarrow> m | Some p \<Rightarrow> bt_insert ''phone'' (JString p) m)"

definition session_user_id :: "json \<Rightarrow> string" where
  "session_user_id user = str_or ''unknown'' (jget_with as_str user ''id'')"

definition session_response ::
    "('w, 'c, 'u, 'l, 'n) server \<Rightarrow> json \<Rightarrow> string \<Rightarrow> string \<Rightarrow> int \<Rightarrow> ('w, 'c, 'n, json) service_action" where
  "session_response S user refresh_token session_id now =
     abind (now_unix S) (\<lambda>mint_now.
     abind (alift (rmap_err (\<lambda>e. api_err 500 (''failed to mint access token: '' @ auth_message e))
              (mint_token (sr_crypto S) (sr_env S) mint_now (session_user_id user) ''authenticated''
                 (session_claims user session_id) (Some access_token_ttl)))) (\<lambda>access_token.
       aret (jobj [(''access_token'', JString access_token), (''token_type'', JString ''bearer''),
         (''expires_in'', json_of_int access_token_ttl),
         (''expires_at'', json_of_int (i64_wrap (now + access_token_ttl))),
         (''refresh_token'', JString refresh_token), (''user'', user_to_json user)])))"

definition build_session_with_response ::
    "('w, 'c, 'u, 'l, 'n) server \<Rightarrow> json
      \<Rightarrow> (json \<Rightarrow> string \<Rightarrow> string \<Rightarrow> int \<Rightarrow> ('w, 'c, 'n, json) service_action)
      \<Rightarrow> ('w, 'c, 'n, json) service_action" where
  "build_session_with_response S user response_fn =
     abind (alift (ok_or (api_err 500 ''auth user missing id'') (jget_with as_str user ''id''))) (\<lambda>user_id.
     abind (gen_refresh_token S) (\<lambda>refresh_token.
     abind (gen_uuid S) (\<lambda>session_id.
     abind (now_unix S) (\<lambda>now.
     abind (response_fn user refresh_token session_id now) (\<lambda>response.
     abind (on_node (auth_issue_refresh_token (sr_writer S) (auth_project_id S) refresh_token user_id session_id
              now (i64_wrap (now + refresh_token_ttl)))) (\<lambda>_.
       aret response))))))"

definition build_session :: "('w, 'c, 'u, 'l, 'n) server \<Rightarrow> json \<Rightarrow> ('w, 'c, 'n, json) service_action" where
  "build_session S user = build_session_with_response S user (session_response S)"

section \<open>Signing up and in\<close>

definition body_str :: "json \<Rightarrow> string \<Rightarrow> string \<Rightarrow> string api" where
  "body_str body name message = ok_or (api_err 400 message) (jget_with as_str body name)"

definition signup_user :: "json \<Rightarrow> string \<Rightarrow> string \<Rightarrow> string \<Rightarrow> string \<Rightarrow> json" where
  "signup_user body email uid password_hash now =
     jobj [(''id'', JString uid), (''email'', JString email),
       (''phone'', case jget body ''phone'' of None \<Rightarrow> JNull | Some v \<Rightarrow> v),
       (''password_hash'', JString password_hash),
       (''user_metadata'', case jget body ''data'' of None \<Rightarrow> JObject [] | Some v \<Rightarrow> v),
       (''app_metadata'', JObject []), (''aud'', JString ''authenticated''), (''role'', JString ''authenticated''),
       (''created_at'', JString now), (''email_confirmed_at'', JString now),
       (''last_sign_in_at'', JString now), (''updated_at'', JString now)]"

definition auth_signup ::
    "('w, 'c, 'u, 'l, 'n) server \<Rightarrow> header_map \<Rightarrow> json \<Rightarrow> ('w, 'c, 'n, json) service_action" where
  "auth_signup S h body =
     abind (check_auth_rate_limit S h) (\<lambda>_.
     abind (alift (body_str body ''email'' ''missing email'')) (\<lambda>email.
     abind (alift (body_str body ''password'' ''missing password'')) (\<lambda>password.
     abind (read_clock (\<lambda>k. now_iso (sr_unix S k))) (\<lambda>now.
     abind (hash_password S password) (\<lambda>password_hash.
     abind (gen_uuid S) (\<lambda>uid.
     abind (on_node (auth_create_user (sr_writer S) (auth_project_id S)
              (signup_user body email uid password_hash now))) (\<lambda>user.
       build_session S user)))))))"

text \<open>\<open>filter(|u| \<dots>)\<close>: the password against the hash the user's JSON holds.\<close>

definition password_matches :: "('w, 'c, 'u, 'l, 'n) server \<Rightarrow> string \<Rightarrow> json \<Rightarrow> bool" where
  "password_matches S password user =
     (case jget_with as_str user ''password_hash'' of None \<Rightarrow> False | Some h \<Rightarrow> verify_password S password h)"

definition login_identifier :: "json \<Rightarrow> string option" where
  "login_identifier body = Option.bind (or_else (jget body ''email'') (jget body ''phone'')) as_str"

definition password_grant :: "('w, 'c, 'u, 'l, 'n) server \<Rightarrow> json \<Rightarrow> ('w, 'c, 'n, json) service_action" where
  "password_grant S body =
     abind (alift (ok_or (api_err 400 ''missing email or phone'') (login_identifier body))) (\<lambda>identifier.
     abind (alift (body_str body ''password'' ''missing password'')) (\<lambda>password.
     abind (on_node (auth_get_user_by_email_or_phone (sr_fuel S) (sr_writer S) (sr_pick S) (auth_project_id S)
              identifier)) (\<lambda>found.
     abind (alift (ok_or (api_err 401 ''Invalid login credentials'')
              (Option.bind found (\<lambda>u. if password_matches S password u then Some u else None)))) (\<lambda>user.
       build_session S user))))"

definition refresh_grant :: "('w, 'c, 'u, 'l, 'n) server \<Rightarrow> json \<Rightarrow> ('w, 'c, 'n, json) service_action" where
  "refresh_grant S body =
     abind (alift (body_str body ''refresh_token'' ''missing refresh_token'')) (\<lambda>refresh_token.
     abind (gen_refresh_token S) (\<lambda>new_refresh_token.
     abind (now_unix S) (\<lambda>now.
     abind (on_node (auth_get_active_refresh_token (sr_fuel S) (sr_writer S) (auth_project_id S) refresh_token now))
       (\<lambda>current.
     abind (alift (ok_or (api_err 500 ''refresh token missing session id'') (jget_with as_str current ''session_id'')))
       (\<lambda>session_id.
     abind (alift (ok_or (api_err 500 ''refresh token missing user'') (jget current ''user''))) (\<lambda>user.
     abind (session_response S user new_refresh_token session_id now) (\<lambda>session.
     abind (on_node (auth_rotate_refresh_token (sr_writer S) (auth_project_id S) refresh_token new_refresh_token now
              (i64_wrap (now + refresh_token_ttl)))) (\<lambda>_.
       aret session))))))))"

definition auth_token ::
    "('w, 'c, 'u, 'l, 'n) server \<Rightarrow> header_map \<Rightarrow> query_map \<Rightarrow> json \<Rightarrow> ('w, 'c, 'n, json) service_action" where
  "auth_token S h q body =
     abind (check_auth_rate_limit S h) (\<lambda>_.
       let grant_type = str_or ''password'' (map_of q ''grant_type'')
       in if grant_type = ''password'' then password_grant S body
          else if grant_type = ''refresh_token'' then refresh_grant S body
          else athrow (api_err 400 ''unsupported grant_type''))"

section \<open>The user of a token\<close>

definition token_user :: "actor \<Rightarrow> string api" where
  "token_user a = ok_or (api_err 401 ''no user associated with token'') (actor_sub a)"

definition auth_logout ::
    "('w, 'c, 'u, 'l, 'n) server \<Rightarrow> string option \<Rightarrow> header_map \<Rightarrow> ('w, 'c, 'n, json) service_action" where
  "auth_logout S scope_param h =
     abind (service_actor S h) (\<lambda>a.
     abind (alift (token_user a)) (\<lambda>user_id.
     abind (alift (parse_logout_scope scope_param)) (\<lambda>scope.
     abind (now_unix S) (\<lambda>now.
       on_node (auth_revoke_sessions (sr_writer S) (auth_project_id S) user_id
                  (Option.bind (bt_get (actor_claims a) ''session_id'') as_str) scope now)))))"

definition auth_get_user ::
    "('w, 'c, 'u, 'l, 'n) server \<Rightarrow> header_map \<Rightarrow> ('w, 'c, 'n, json) service_action" where
  "auth_get_user S h =
     abind (service_actor S h) (\<lambda>a.
     abind (alift (token_user a)) (\<lambda>user_id.
     abind (on_node (auth_get_user_by_id (sr_fuel S) (sr_writer S) (auth_project_id S) user_id)) (\<lambda>user.
       aret (jobj [(''user'', case user of Some u \<Rightarrow> public_user u | None \<Rightarrow> JNull)]))))"

definition patch_hash ::
    "('w, 'c, 'u, 'l, 'n) server \<Rightarrow> json \<Rightarrow> ('w, 'c, 'n, string option) service_action" where
  "patch_hash S body =
     (case jget_with as_str body ''password'' of
        None \<Rightarrow> aret None
      | Some password \<Rightarrow> abind (hash_password S password) (\<lambda>h. aret (Some h)))"

definition auth_update_user_route ::
    "('w, 'c, 'u, 'l, 'n) server \<Rightarrow> header_map \<Rightarrow> json \<Rightarrow> ('w, 'c, 'n, json) service_action" where
  "auth_update_user_route S h body =
     abind (service_actor S h) (\<lambda>a.
     abind (alift (token_user a)) (\<lambda>user_id.
     abind (patch_hash S body) (\<lambda>hash.
     abind (read_clock (\<lambda>k. now_iso (sr_unix S k))) (\<lambda>now.
     abind (on_node (Project_Service.auth_update_user (sr_writer S) (auth_project_id S) user_id
              \<lparr>patch_email = jget_with as_str body ''email'', patch_phone = jget_with as_str body ''phone'',
               patch_password_hash = hash, patch_user_metadata = jget body ''data'', patch_updated_at = now\<rparr>))
       (\<lambda>user. aret (jobj [(''user'', public_user user)]))))))"

definition auth_settings :: json where
  "auth_settings =
     jobj [(''external'', JObject []), (''disable_signup'', JBool False), (''mailer_autoconfirm'', JBool True),
       (''phone_autoconfirm'', JBool True), (''sms_provider'', JString []), (''mfa'', JObject []),
       (''saml_enabled'', JBool False)]"

end
