(* ===== verification/Http_Handlers.thy ===== *)
theory Http_Handlers
  imports Http_Auth
begin

text \<open>
  The route handlers of \<open>http.rs\<close> besides authentication: projects, tables, policies, buckets,
  objects, events and the PostgREST routes. A handler reads the actor, forwards a write on a
  replica that has a primary, or calls the runtime and answers. Path parameters, query, headers
  and the parsed body are its arguments. The functions the runtime shares names with are written
  with the prefix of their theory.
\<close>

section \<open>Answers and forwarding\<close>

definition with_served_by_meta :: "runtime_options \<Rightarrow> json \<Rightarrow> json" where
  "with_served_by_meta opts v =
     (case v of
        JObject m \<Rightarrow>
          (let served = (case served_by_meta opts of JObject kvs \<Rightarrow> kvs | _ \<Rightarrow> [])
           in case bt_get m ''meta'' of
                Some (JObject meta) \<Rightarrow>
                  JObject (bt_insert ''meta'' (JObject (fold (\<lambda>(k, x). bt_insert k x) served meta)) m)
              | _ \<Rightarrow> JObject (bt_insert ''meta'' (served_by_meta opts) m))
      | _ \<Rightarrow> jobj [(''value'', v), (''meta'', served_by_meta opts)])"

definition local_json :: "('w, 'c, 'u, 'l, 'n) server \<Rightarrow> json \<Rightarrow> json" where
  "local_json S v = with_served_by_meta (server_options S) v"

definition served :: "('w, 'c, 'u, 'l, 'n) server \<Rightarrow> ('w, 'c, json) node_action \<Rightarrow> ('w, 'c, 'n, json) service_action" where
  "served S act = abind (on_node act) (\<lambda>v. aret (local_json S v))"

definition forward_request_json ::
    "('w, 'c, 'u, 'l, 'n) server \<Rightarrow> string \<Rightarrow> string \<Rightarrow> header_map \<Rightarrow> bytes \<Rightarrow> ('w, 'c, 'n, json) service_action" where
  "forward_request_json S meth uri h body = on_forward (forward_json (sr_net S) (server_runtime S) meth uri h body)"

definition forward_or ::
    "('w, 'c, 'u, 'l, 'n) server \<Rightarrow> string \<Rightarrow> string \<Rightarrow> header_map \<Rightarrow> bytes
      \<Rightarrow> ('w, 'c, 'n, json) service_action \<Rightarrow> ('w, 'c, 'n, json) service_action" where
  "forward_or S meth uri h body here =
     (if should_forward_write (server_options S) then forward_request_json S meth uri h body else here)"

definition json_text :: "('w, 'c, 'u, 'l, 'n) server \<Rightarrow> json \<Rightarrow> bytes" where
  "json_text S v = to_json_text (rt_serde (server_runtime S)) v"

definition idempotency_for ::
    "('w, 'c, 'u, 'l, 'n) server \<Rightarrow> string \<Rightarrow> string \<Rightarrow> header_map \<Rightarrow> string \<Rightarrow> bytes \<Rightarrow> write_idempotency option" where
  "idempotency_for S meth uri h content_type body =
     write_idempotency_of (rt_sha256 (server_runtime S)) meth uri h content_type body"

text \<open>\<open>require_admin(&headers)?\<close> and \<open>require_storage_actor(&headers)?\<close>.\<close>

definition admin_actor :: "('w, 'c, 'u, 'l, 'n) server \<Rightarrow> header_map \<Rightarrow> ('w, 'c, 'n, actor) service_action" where
  "admin_actor S h = abind (now_unix S) (\<lambda>now. alift (require_admin (sr_crypto S) (sr_env S) now h))"

definition storage_user :: "('w, 'c, 'u, 'l, 'n) server \<Rightarrow> header_map \<Rightarrow> ('w, 'c, 'n, actor) service_action" where
  "storage_user S h = abind (now_unix S) (\<lambda>now. alift (require_storage_user (sr_crypto S) (sr_env S) now h))"

section \<open>Tokens and projects\<close>

definition health_answer :: json where
  "health_answer = jobj [(''ok'', JBool True)]"

record token_request =
  tr_sub :: string
  tr_role :: string
  tr_claims :: json_map
  tr_expires_in :: "int option"

definition tokens :: "('w, 'c, 'u, 'l, 'n) server \<Rightarrow> header_map \<Rightarrow> token_request \<Rightarrow> ('w, 'c, 'n, json) service_action" where
  "tokens S h body =
     (if is_production (sr_env S) then athrow (api_err 403 ''token minting is disabled in production mode'')
      else abind (admin_actor S h) (\<lambda>admin.
           abind (now_unix S) (\<lambda>now.
           abind (alift (rmap_err unauthorized
                    (mint_token (sr_crypto S) (sr_env S) now (tr_sub body) (tr_role body) (tr_claims body)
                       (tr_expires_in body)))) (\<lambda>token.
             aret (jobj [(''token'', JString token), (''minted_by'', jopt (actor_sub admin))])))))"

record project_request =
  pq_id :: "string option"
  pq_project_id :: "string option"

definition requested_project :: "project_request \<Rightarrow> string" where
  "requested_project body = str_or [] (or_else (pq_id body) (pq_project_id body))"

definition project_request_json :: "project_request \<Rightarrow> json" where
  "project_request_json body = jobj [(''id'', JString (requested_project body))]"

text \<open>\<open>cache_path\<close> is where the project's database is; the routing report asks for the endpoints' health.\<close>

definition create_project_route ::
    "('w, 'c, 'u, 'l, 'n) server \<Rightarrow> string \<Rightarrow> header_map \<Rightarrow> project_request \<Rightarrow> ('w, 'c, 'n, json) service_action" where
  "create_project_route S cache_path h body =
     abind (admin_actor S h) (\<lambda>_.
       forward_or S ''POST'' ''/v1/projects'' h (json_text S (project_request_json body))
         (\<lambda>s. case routing_info (server_options S) (fn_now (sr_net S) (fs_world (sv_forward s))) (fs_health (sv_forward s)) of
                (routing, health) \<Rightarrow>
                  served S (create_project (wr_machine (sr_writer S)) cache_path routing (requested_project body))
                    (s\<lparr>sv_forward := (sv_forward s)\<lparr>fs_health := health\<rparr>\<rparr>)))"

definition hibernate_route ::
    "('w, 'c, 'u, 'l, 'n) server \<Rightarrow> string \<Rightarrow> header_map \<Rightarrow> ('w, 'c, 'n, json) service_action" where
  "hibernate_route S pid h = abind (admin_actor S h) (\<lambda>_. served S (hibernate (wr_machine (sr_writer S)) pid))"

definition crash_route :: "('w, 'c, 'u, 'l, 'n) server \<Rightarrow> string \<Rightarrow> header_map \<Rightarrow> ('w, 'c, 'n, json) service_action" where
  "crash_route S pid h = abind (admin_actor S h) (\<lambda>_. served S (crash_project (wr_machine (sr_writer S)) pid))"

definition schema_route :: "('w, 'c, 'u, 'l, 'n) server \<Rightarrow> string \<Rightarrow> header_map \<Rightarrow> ('w, 'c, 'n, json) service_action" where
  "schema_route S pid h = abind (admin_actor S h) (\<lambda>_. served S (runtime_schema (sr_fuel S) (sr_writer S) pid))"

text \<open>A struct is printed with its fields in the order of its declaration.\<close>

definition column_spec_json :: "column_spec \<Rightarrow> json" where
  "column_spec_json c =
     JObject [(''name'', JString (cs_name c)), (''type'', JString (cs_type c)),
       (''primary_key'', JBool (cs_primary_key c)), (''auto_increment'', JBool (cs_auto_increment c)),
       (''not_null'', JBool (cs_not_null c))]"

definition table_spec_json :: "table_spec \<Rightarrow> json" where
  "table_spec_json t =
     JObject [(''name'', JString (ts_name t)), (''columns'', JArray (map column_spec_json (ts_columns t)))]"

definition policy_spec_json :: "policy_spec \<Rightarrow> json" where
  "policy_spec_json p =
     JObject [(''table'', JString (ps_table p)), (''operation'', JString (ps_operation p)),
       (''name'', jopt (ps_name p)), (''rule'', ps_rule p)]"

definition create_table_route ::
    "('w, 'c, 'u, 'l, 'n) server \<Rightarrow> string \<Rightarrow> header_map \<Rightarrow> table_spec \<Rightarrow> ('w, 'c, 'n, json) service_action" where
  "create_table_route S pid h body =
     (let uri = ''/v1/projects/'' @ pid @ ''/tables''; bytes = json_text S (table_spec_json body)
      in abind (admin_actor S h) (\<lambda>_.
           forward_or S ''POST'' uri h bytes
             (served S (create_table_with_idempotency (sr_writer S) pid body
                (idempotency_for S ''POST'' uri h ''application/json'' bytes)))))"

definition set_policy_route ::
    "('w, 'c, 'u, 'l, 'n) server \<Rightarrow> string \<Rightarrow> header_map \<Rightarrow> policy_spec \<Rightarrow> ('w, 'c, 'n, json) service_action" where
  "set_policy_route S pid h body =
     (let uri = ''/v1/projects/'' @ pid @ ''/policies''; bytes = json_text S (policy_spec_json body)
      in abind (admin_actor S h) (\<lambda>_.
           forward_or S ''PUT'' uri h bytes
             (served S (set_policy_with_idempotency (sr_writer S) pid body
                (idempotency_for S ''PUT'' uri h ''application/json'' bytes)))))"

definition list_policies_route ::
    "('w, 'c, 'u, 'l, 'n) server \<Rightarrow> string \<Rightarrow> header_map \<Rightarrow> ('w, 'c, 'n, json) service_action" where
  "list_policies_route S pid h =
     abind (admin_actor S h) (\<lambda>_. served S (runtime_list_policies (sr_fuel S) (sr_writer S) pid))"

definition create_bucket_route ::
    "('w, 'c, 'u, 'l, 'n) server \<Rightarrow> string \<Rightarrow> header_map \<Rightarrow> string \<Rightarrow> ('w, 'c, 'n, json) service_action" where
  "create_bucket_route S pid h name =
     (let uri = ''/v1/projects/'' @ pid @ ''/buckets''; bytes = json_text S (jobj [(''name'', JString name)])
      in abind (admin_actor S h) (\<lambda>_.
           forward_or S ''POST'' uri h bytes
             (served S (create_bucket_with_idempotency (sr_writer S) pid name
                (idempotency_for S ''POST'' uri h ''application/json'' bytes)))))"

section \<open>Rows\<close>

text \<open>
  Where a read goes: to the primary when the session asks for it on a replica, to a replica when
  the primary has one to offer and the session does not insist, else to the own project; what a
  replica cannot answer at the bookmark is asked of the primary. \<open>there\<close> answers with what another
  runtime returned, \<open>here\<close> with what the own project did.
\<close>

definition has_primary :: "('w, 'c, 'u, 'l, 'n) server \<Rightarrow> bool" where
  "has_primary S \<longleftrightarrow> read_replica (server_options S) \<and> primary_url (server_options S) \<noteq> None"

definition pick_replica ::
    "('w, 'c, 'u, 'l, 'n) server \<Rightarrow> read_session \<Rightarrow> string option \<Rightarrow> ('w, 'c, 'n, string option) service_action" where
  "pick_replica S session region s =
     (if session \<noteq> FirstPrimary \<and> \<not> read_replica (server_options S)
      then let f = sv_forward s
           in (case replica_url_for_region (server_options S) (fn_now (sr_net S) (fs_world f)) region (fs_health f) of
                 (url, health) \<Rightarrow> (Inr url, s\<lparr>sv_forward := f\<lparr>fs_health := health\<rparr>\<rparr>))
      else (Inr None, s))"

definition read_here ::
    "('w, 'c, 'u, 'l, 'n) server \<Rightarrow> string \<Rightarrow> header_map \<Rightarrow> string option \<Rightarrow> (json \<Rightarrow> 'a) \<Rightarrow> (json \<Rightarrow> 'a)
      \<Rightarrow> ('w, 'c, json) node_action \<Rightarrow> ('w, 'c, 'n, 'a) service_action" where
  "read_here S uri h bookmark there here act =
     acatch (on_node act) (\<lambda>r.
       case r of
         Inr v \<Rightarrow> aret (here v)
       | Inl e \<Rightarrow>
           if err_status e \<in> {404, 425} \<and> has_primary S \<and> bookmark \<noteq> None
           then abind (forward_request_json S ''GET'' uri h []) (\<lambda>v. aret (there v))
           else athrow e)"

definition routed_read ::
    "('w, 'c, 'u, 'l, 'n) server \<Rightarrow> string \<Rightarrow> header_map \<Rightarrow> read_session \<Rightarrow> string option \<Rightarrow> string option
      \<Rightarrow> (json \<Rightarrow> 'a) \<Rightarrow> (json \<Rightarrow> 'a) \<Rightarrow> ('w, 'c, json) node_action \<Rightarrow> ('w, 'c, 'n, 'a) service_action" where
  "routed_read S uri h session region bookmark there here act =
     (if session = FirstPrimary \<and> has_primary S
      then abind (forward_request_json S ''GET'' uri h []) (\<lambda>v. aret (there v))
      else abind (pick_replica S session region) (\<lambda>replica.
           case replica of
             None \<Rightarrow> read_here S uri h bookmark there here act
           | Some url \<Rightarrow>
               acatch (on_forward (forward_json_to_url (sr_net S) (server_runtime S) url ''GET'' uri h [])) (\<lambda>r.
                 case r of
                   Inr v \<Rightarrow> aret (there v)
                 | Inl e \<Rightarrow>
                     if should_fallback_from_replica_route (err_status e)
                     then read_here S uri h bookmark there here act else athrow e)))"

definition select_rows_route ::
    "('w, 'c, 'u, 'l, 'n) server \<Rightarrow> string \<Rightarrow> string \<Rightarrow> query_map \<Rightarrow> header_map \<Rightarrow> ('w, 'c, 'n, json) service_action" where
  "select_rows_route S pid table qs h =
     abind (service_actor S h) (\<lambda>a.
     abind (alift (parse_read_query qs h)) (\<lambda>rq.
       routed_read S (table_read_uri pid table rq) h (rq_session rq) (rq_route_region rq) (rq_bookmark rq)
         (\<lambda>v. v) (local_json S)
         (select_rows_at_bookmark (sr_fuel S) (sr_writer S) pid table (rq_filters rq) a (rq_limit rq) (rq_bookmark rq))))"

definition insert_row_route ::
    "('w, 'c, 'u, 'l, 'n) server \<Rightarrow> string \<Rightarrow> string \<Rightarrow> header_map \<Rightarrow> json \<Rightarrow> ('w, 'c, 'n, json) service_action" where
  "insert_row_route S pid table h body =
     (let uri = project_table_path pid table; bytes = json_text S body
      in forward_or S ''POST'' uri h bytes
           (abind (service_actor S h) (\<lambda>a.
              served S (insert_row_with_idempotency (sr_writer S) pid table body a
                (idempotency_for S ''POST'' uri h ''application/json'' bytes)))))"

definition update_rows_route ::
    "('w, 'c, 'u, 'l, 'n) server \<Rightarrow> string \<Rightarrow> string \<Rightarrow> query_map \<Rightarrow> header_map \<Rightarrow> json
      \<Rightarrow> ('w, 'c, 'n, json) service_action" where
  "update_rows_route S pid table qs h body =
     (let uri = table_write_uri pid table qs; bytes = json_text S body
      in forward_or S ''PATCH'' uri h bytes
           (abind (service_actor S h) (\<lambda>a.
              served S (update_rows_with_idempotency (sr_writer S) pid table (fst (filters_and_limit qs)) body a
                (idempotency_for S ''PATCH'' uri h ''application/json'' bytes)))))"

definition delete_rows_route ::
    "('w, 'c, 'u, 'l, 'n) server \<Rightarrow> string \<Rightarrow> string \<Rightarrow> query_map \<Rightarrow> header_map \<Rightarrow> ('w, 'c, 'n, json) service_action" where
  "delete_rows_route S pid table qs h =
     (let uri = table_write_uri pid table qs
      in forward_or S ''DELETE'' uri h []
           (abind (service_actor S h) (\<lambda>a.
              served S (delete_rows_with_idempotency (sr_writer S) pid table (fst (filters_and_limit qs)) a
                (idempotency_for S ''DELETE'' uri h [] [])))))"

section \<open>The PostgREST routes\<close>

definition supabase_answer ::
    "('w, 'c, 'u, 'l, 'n) server \<Rightarrow> header_map \<Rightarrow> json \<Rightarrow> http_response" where
  "supabase_answer S h v = supabase_json (sr_env S) v h"

definition supabase_forward_or ::
    "('w, 'c, 'u, 'l, 'n) server \<Rightarrow> string \<Rightarrow> string \<Rightarrow> header_map \<Rightarrow> bytes
      \<Rightarrow> ('w, 'c, 'n, http_response) service_action \<Rightarrow> ('w, 'c, 'n, http_response) service_action" where
  "supabase_forward_or S meth uri h body here =
     (if should_forward_write (server_options S)
      then abind (forward_request_json S meth uri h body) (\<lambda>v. aret (supabase_answer S h v)) else here)"

definition supabase_select_rows ::
    "('w, 'c, 'u, 'l, 'n) server \<Rightarrow> string \<Rightarrow> query_map \<Rightarrow> header_map \<Rightarrow> ('w, 'c, 'n, http_response) service_action" where
  "supabase_select_rows S table qs h =
     abind (service_actor S h) (\<lambda>a.
     abind (alift (supabase_read_query qs h)) (\<lambda>rq.
       routed_read S (supabase_table_uri table qs) h (sp_session rq) (sp_route_region rq) (sp_bookmark rq)
         (supabase_answer S h) (\<lambda>v. supabase_rows_json (sr_env S) v h)
         (runtime_select_postgrest (sr_fuel S) (sr_writer S) (auth_project_id S) table (sp_pg rq) a (sp_bookmark rq))))"

text \<open>One write for each row, each under its own key; what the rows before a failing one did stays.\<close>

fun insert_each ::
    "('w, 'c, 'u, 'l, 'n) server \<Rightarrow> string \<Rightarrow> string \<Rightarrow> header_map \<Rightarrow> actor \<Rightarrow> nat \<Rightarrow> json list
      \<Rightarrow> ('w, 'c, 'n, json list) service_action" where
  "insert_each S table uri h a idx [] = aret []"
| "insert_each S table uri h a idx (row # rows) =
     (let key = supabase_write_idempotency (rt_sha256 (server_runtime S)) ''POST'' uri h (request_content_type h)
                  (json_text S row) idx
      in abind (on_node (if prefer_upsert h
                         then upsert_row_with_idempotency (sr_writer S) (auth_project_id S) table row a key
                         else insert_row_with_idempotency (sr_writer S) (auth_project_id S) table row a key)) (\<lambda>v.
         abind (insert_each S table uri h a (Suc idx) rows) (\<lambda>inserted.
           aret (case jget v ''row'' of Some r \<Rightarrow> r # inserted | None \<Rightarrow> inserted))))"

definition supabase_insert_rows ::
    "('w, 'c, 'u, 'l, 'n) server \<Rightarrow> string \<Rightarrow> query_map \<Rightarrow> header_map \<Rightarrow> json
      \<Rightarrow> ('w, 'c, 'n, http_response) service_action" where
  "supabase_insert_rows S table qs h body =
     (let uri = supabase_table_uri table qs
      in supabase_forward_or S ''POST'' uri h (json_text S body)
           (abind (service_actor S h) (\<lambda>a.
            abind (alift (normalize_supabase_insert_body body)) (\<lambda>rows.
            abind (insert_each S table uri h a 0 rows) (\<lambda>inserted.
              aret (supabase_json_with_prefer (sr_env S) (JArray inserted) None h PreferDefault 0))))))"

definition affected_answer :: "('w, 'c, 'u, 'l, 'n) server \<Rightarrow> header_map \<Rightarrow> json \<Rightarrow> http_response" where
  "affected_answer S h v =
     supabase_json_with_prefer (sr_env S) (rows_of v) None h (prefer_return_of h)
       (case jget_with as_u64 v ''affected'' of None \<Rightarrow> 0 | Some n \<Rightarrow> n)"

definition supabase_update_rows ::
    "('w, 'c, 'u, 'l, 'n) server \<Rightarrow> string \<Rightarrow> query_map \<Rightarrow> header_map \<Rightarrow> json
      \<Rightarrow> ('w, 'c, 'n, http_response) service_action" where
  "supabase_update_rows S table qs h body =
     (let uri = supabase_table_uri table qs; bytes = json_text S body
      in supabase_forward_or S ''PATCH'' uri h bytes
           (abind (service_actor S h) (\<lambda>a.
            abind (alift (supabase_filters qs)) (\<lambda>filters.
            abind (on_node (update_rows_postgrest (sr_writer S) (auth_project_id S) table filters body a
                     (idempotency_for S ''PATCH'' uri h ''application/json'' bytes))) (\<lambda>v.
              aret (affected_answer S h v))))))"

definition supabase_delete_rows ::
    "('w, 'c, 'u, 'l, 'n) server \<Rightarrow> string \<Rightarrow> query_map \<Rightarrow> header_map \<Rightarrow> ('w, 'c, 'n, http_response) service_action" where
  "supabase_delete_rows S table qs h =
     (let uri = supabase_table_uri table qs
      in supabase_forward_or S ''DELETE'' uri h []
           (abind (service_actor S h) (\<lambda>a.
            abind (alift (supabase_filters qs)) (\<lambda>filters.
            abind (on_node (delete_rows_postgrest (sr_writer S) (auth_project_id S) table filters a
                     (idempotency_for S ''DELETE'' uri h [] []))) (\<lambda>v.
              aret (affected_answer S h v))))))"

section \<open>Objects\<close>

definition object_content_type :: "header_map \<Rightarrow> string" where
  "object_content_type h = str_or ''application/octet-stream'' (header_str h ''content-type'')"

definition object_response :: "json_map \<times> bytes \<Rightarrow> http_response" where
  "object_response = (\<lambda>(meta, data).
     \<lparr>hr_status = 200,
      hr_headers = [(''content-type'', str_or ''application/octet-stream'' (jget_with as_str (JObject meta) ''content_type''))],
      hr_body = RawBody data\<rparr>)"

definition put_object_route ::
    "('w, 'c, 'u, 'l, 'n) server \<Rightarrow> string \<Rightarrow> string \<Rightarrow> string \<Rightarrow> header_map \<Rightarrow> bytes \<Rightarrow> ('w, 'c, 'n, json) service_action" where
  "put_object_route S pid bucket key h body =
     (let uri = ''/v1/projects/'' @ pid @ ''/storage/'' @ bucket @ ''/'' @ key; content_type = object_content_type h
      in forward_or S ''PUT'' uri h body
           (abind (service_actor S h) (\<lambda>a.
              served S (put_object_with_idempotency (sr_writer S) pid bucket key body content_type a
                (idempotency_for S ''PUT'' uri h content_type body)))))"

definition get_object_route ::
    "('w, 'c, 'u, 'l, 'n) server \<Rightarrow> string \<Rightarrow> string \<Rightarrow> string \<Rightarrow> header_map \<Rightarrow> ('w, 'c, 'n, http_response) service_action" where
  "get_object_route S pid bucket key h =
     abind (service_actor S h) (\<lambda>a.
     abind (on_node (runtime_get_object (sr_fuel S) (sr_writer S) pid bucket key a)) (\<lambda>ob.
       aret (object_response ob)))"

definition delete_object_route ::
    "('w, 'c, 'u, 'l, 'n) server \<Rightarrow> string \<Rightarrow> string \<Rightarrow> string \<Rightarrow> header_map \<Rightarrow> ('w, 'c, 'n, json) service_action" where
  "delete_object_route S pid bucket key h =
     (let uri = ''/v1/projects/'' @ pid @ ''/storage/'' @ bucket @ ''/'' @ key
      in forward_or S ''DELETE'' uri h []
           (abind (service_actor S h) (\<lambda>a.
              served S (delete_object_with_idempotency (sr_writer S) pid bucket key a
                (idempotency_for S ''DELETE'' uri h [] [])))))"

definition supabase_create_bucket ::
    "('w, 'c, 'u, 'l, 'n) server \<Rightarrow> header_map \<Rightarrow> json \<Rightarrow> ('w, 'c, 'n, json) service_action" where
  "supabase_create_bucket S h body =
     abind (admin_actor S h) (\<lambda>_.
     abind (alift (ok_or (api_err 400 ''missing 'name' field'') (jget_with as_str body ''name''))) (\<lambda>name.
       served S (create_bucket_with_idempotency (sr_writer S) (auth_project_id S) name
         (idempotency_for S ''POST'' (''/storage/v1/buckets/'' @ name) h ''application/json'' []))))"

definition supabase_list_buckets ::
    "('w, 'c, 'u, 'l, 'n) server \<Rightarrow> header_map \<Rightarrow> ('w, 'c, 'n, json) service_action" where
  "supabase_list_buckets S h =
     abind (admin_actor S h) (\<lambda>_. on_node (runtime_list_buckets (sr_fuel S) (sr_writer S) (auth_project_id S)))"

definition supabase_get_bucket ::
    "('w, 'c, 'u, 'l, 'n) server \<Rightarrow> string \<Rightarrow> header_map \<Rightarrow> ('w, 'c, 'n, json) service_action" where
  "supabase_get_bucket S bucket h =
     abind (admin_actor S h) (\<lambda>_. served S (runtime_get_bucket (sr_fuel S) (sr_writer S) (auth_project_id S) bucket))"

text \<open>The idempotency key of a bucket's deletion is computed and not used.\<close>

definition supabase_delete_bucket ::
    "('w, 'c, 'u, 'l, 'n) server \<Rightarrow> string \<Rightarrow> header_map \<Rightarrow> ('w, 'c, 'n, json) service_action" where
  "supabase_delete_bucket S bucket h =
     abind (admin_actor S h) (\<lambda>_.
       forward_or S ''DELETE'' (''/storage/v1/buckets/'' @ bucket) h []
         (served S (runtime_delete_bucket (sr_writer S) (auth_project_id S) bucket)))"

definition supabase_upload_object ::
    "('w, 'c, 'u, 'l, 'n) server \<Rightarrow> string \<Rightarrow> string \<Rightarrow> header_map \<Rightarrow> bytes \<Rightarrow> ('w, 'c, 'n, json) service_action" where
  "supabase_upload_object S bucket key h body =
     (let uri = ''/storage/v1/object/'' @ bucket @ ''/'' @ key; content_type = object_content_type h
      in forward_or S ''POST'' uri h body
           (abind (storage_user S h) (\<lambda>a.
              served S (put_object_with_idempotency (sr_writer S) (auth_project_id S) bucket key body content_type a
                (idempotency_for S ''POST'' uri h content_type body)))))"

definition supabase_download_object ::
    "('w, 'c, 'u, 'l, 'n) server \<Rightarrow> string \<Rightarrow> string \<Rightarrow> header_map \<Rightarrow> ('w, 'c, 'n, http_response) service_action" where
  "supabase_download_object S bucket key h =
     abind (storage_user S h) (\<lambda>a.
     abind (on_node (runtime_get_object_async (sr_fuel S) (sr_writer S) (auth_project_id S) bucket key a)) (\<lambda>ob.
       aret (object_response ob)))"

definition supabase_delete_object ::
    "('w, 'c, 'u, 'l, 'n) server \<Rightarrow> string \<Rightarrow> string \<Rightarrow> header_map \<Rightarrow> ('w, 'c, 'n, json) service_action" where
  "supabase_delete_object S bucket key h =
     (let uri = ''/storage/v1/object/'' @ bucket @ ''/'' @ key
      in forward_or S ''DELETE'' uri h []
           (abind (storage_user S h) (\<lambda>a.
              served S (delete_object_with_idempotency (sr_writer S) (auth_project_id S) bucket key a
                (idempotency_for S ''DELETE'' uri h [] [])))))"

record list_objects_request =
  lo_prefix :: "string option"
  lo_limit :: "int option"
  lo_offset :: "int option"

definition supabase_list_objects ::
    "('w, 'c, 'u, 'l, 'n) server \<Rightarrow> string \<Rightarrow> header_map \<Rightarrow> list_objects_request \<Rightarrow> ('w, 'c, 'n, json) service_action" where
  "supabase_list_objects S bucket h body =
     abind (storage_user S h) (\<lambda>a.
       on_node (runtime_list_objects (sr_fuel S) (sr_writer S) (auth_project_id S) bucket (lo_prefix body)
         (case lo_limit body of None \<Rightarrow> 100 | Some n \<Rightarrow> n) (case lo_offset body of None \<Rightarrow> 0 | Some n \<Rightarrow> n) a))"

section \<open>Events\<close>

definition events_admin :: "string \<Rightarrow> actor \<Rightarrow> unit api" where
  "events_admin what a =
     (if is_admin a then Inr () else Inl (api_err 403 (what @ '' access requires service_role or admin'')))"

definition events_route ::
    "('w, 'c, 'u, 'l, 'n) server \<Rightarrow> string \<Rightarrow> int \<Rightarrow> int \<Rightarrow> header_map \<Rightarrow> ('w, 'c, 'n, json) service_action" where
  "events_route S pid since limit h =
     abind (service_actor S h) (\<lambda>a.
     abind (alift (events_admin ''events'' a)) (\<lambda>_.
       served S (runtime_events (sr_fuel S) (sr_writer S) pid since limit)))"

record sse_event =
  sse_id :: string
  sse_event :: string
  sse_data :: string

definition event_items :: "json \<Rightarrow> json list" where
  "event_items v = (case jget_with as_array v ''events'' of None \<Rightarrow> [] | Some items \<Rightarrow> items)"

definition item_id :: "json \<Rightarrow> string" where
  "item_id ev = show_int (case jget_with as_i64 ev ''id'' of None \<Rightarrow> 0 | Some i \<Rightarrow> i)"

definition item_operation :: "json \<Rightarrow> string" where
  "item_operation ev = str_or ''message'' (jget_with as_str ev ''operation'')"

definition realtime_item :: "('w, 'c, 'u, 'l, 'n) server \<Rightarrow> json \<Rightarrow> sse_event" where
  "realtime_item S ev = \<lparr>sse_id = item_id ev, sse_event = item_operation ev, sse_data = json_text S ev\<rparr>"

text \<open>\<open>wait\<close> is what happens to the project while the request waits for an event.\<close>

definition realtime_route ::
    "('w, 'c, 'u, 'l, 'n) server \<Rightarrow> (('w, 'c) node \<Rightarrow> ('w, 'c) node) \<Rightarrow> string \<Rightarrow> int \<Rightarrow> header_map
      \<Rightarrow> ('w, 'c, 'n, sse_event list) service_action" where
  "realtime_route S wait pid since h =
     abind (service_actor S h) (\<lambda>a.
     abind (alift (events_admin ''realtime'' a)) (\<lambda>_.
     abind (on_node (wait_for_events wait (sr_fuel S) (sr_writer S) pid since)) (\<lambda>v.
       aret (map (realtime_item S) (event_items v)))))"

definition stream_payload :: "json \<Rightarrow> json" where
  "stream_payload ev =
     jobj [(''type'', JString (item_operation ev)), (''table'', JString (str_or [] (jget_with as_str ev ''table''))),
       (''schema'', JString ''public''), (''record'', case jget ev ''row'' of None \<Rightarrow> JNull | Some r \<Rightarrow> r),
       (''old'', JNull)]"

definition stream_item :: "('w, 'c, 'u, 'l, 'n) server \<Rightarrow> json \<Rightarrow> sse_event" where
  "stream_item S ev = \<lparr>sse_id = item_id ev, sse_event = item_operation ev, sse_data = json_text S (stream_payload ev)\<rparr>"

definition of_table :: "string option \<Rightarrow> json \<Rightarrow> bool" where
  "of_table table ev = (case table of None \<Rightarrow> True | Some t \<Rightarrow> jget_with as_str ev ''table'' = Some t)"

definition supabase_realtime_stream ::
    "('w, 'c, 'u, 'l, 'n) server \<Rightarrow> (('w, 'c) node \<Rightarrow> ('w, 'c) node) \<Rightarrow> int \<Rightarrow> string option \<Rightarrow> header_map
      \<Rightarrow> ('w, 'c, 'n, sse_event list) service_action" where
  "supabase_realtime_stream S wait since table h =
     abind (service_actor S h) (\<lambda>a.
       if is_anon a then athrow (api_err 403 ''realtime stream requires authenticated or service_role'')
       else abind (on_node (wait_for_events wait (sr_fuel S) (sr_writer S) (auth_project_id S) since)) (\<lambda>v.
              aret (map (stream_item S) (filter (of_table table) (event_items v)))))"

end
