(* ===== verification/Http_Router.thy ===== *)
theory Http_Router
  imports Http_Handlers
begin

text \<open>
  The router of \<open>http.rs\<close> (\<open>app\<close>): one constructor for each route and method, with what its
  extractors yield, and the handler it is given to. What holds of all routes is proved here: who
  may call what, and what a replica does with writes.
\<close>

datatype route_request =
  Health
| Tokens token_request
| CreateProject project_request
| Hibernate string
| Crash string
| Schema string
| CreateTableRoute string table_spec
| SelectRows string string query_map
| InsertRow string string json
| UpdateRows string string query_map json
| DeleteRows string string query_map
| RestPreflight string
| RestSelect string query_map
| RestInsert string query_map json
| RestUpdate string query_map json
| RestDelete string query_map
| ListPolicies string
| SetPolicyRoute string policy_spec
| CreateBucketRoute string string
| Events string int int
| Realtime string int
| PutObjectRoute string string string bytes
| GetObjectRoute string string string
| DeleteObjectRoute string string string
| StorageCreateBucket json
| StorageListBuckets
| StorageGetBucket string
| StorageDeleteBucket string
| StorageUpload string string bytes
| StorageDownload string string
| StorageDelete string string
| StorageList string list_objects_request
| RealtimeStream int "string option"
| AuthSignup json
| AuthToken query_map json
| AuthLogout "string option"
| AuthGetUser
| AuthPutUser json
| AuthSettings

datatype route_answer = Plain http_response | Sse "sse_event list"

definition as_json :: "('w, 'c, 'n, json) service_action \<Rightarrow> ('w, 'c, 'n, route_answer) service_action" where
  "as_json act = abind act (\<lambda>v. aret (Plain \<lparr>hr_status = 200, hr_headers = [], hr_body = JsonBody v\<rparr>))"

definition as_response :: "('w, 'c, 'n, http_response) service_action \<Rightarrow> ('w, 'c, 'n, route_answer) service_action" where
  "as_response act = abind act (\<lambda>v. aret (Plain v))"

definition as_events :: "('w, 'c, 'n, sse_event list) service_action \<Rightarrow> ('w, 'c, 'n, route_answer) service_action" where
  "as_events act = abind act (\<lambda>v. aret (Sse v))"

text \<open>\<open>wait\<close> and \<open>cache_path\<close> are the arguments of the handlers that wait and that report the path.\<close>

fun handle ::
    "('w, 'c, 'u, 'l, 'n) server \<Rightarrow> (('w, 'c) node \<Rightarrow> ('w, 'c) node) \<Rightarrow> string \<Rightarrow> header_map \<Rightarrow> route_request
      \<Rightarrow> ('w, 'c, 'n, route_answer) service_action" where
  "handle S wait path h Health = as_json (aret health_answer)"
| "handle S wait path h (Tokens body) = as_json (tokens S h body)"
| "handle S wait path h (CreateProject body) = as_json (create_project_route S path h body)"
| "handle S wait path h (Hibernate pid) = as_json (hibernate_route S pid h)"
| "handle S wait path h (Crash pid) = as_json (crash_route S pid h)"
| "handle S wait path h (Schema pid) = as_json (schema_route S pid h)"
| "handle S wait path h (CreateTableRoute pid body) = as_json (create_table_route S pid h body)"
| "handle S wait path h (SelectRows pid table qs) = as_json (select_rows_route S pid table qs h)"
| "handle S wait path h (InsertRow pid table body) = as_json (insert_row_route S pid table h body)"
| "handle S wait path h (UpdateRows pid table qs body) = as_json (update_rows_route S pid table qs h body)"
| "handle S wait path h (DeleteRows pid table qs) = as_json (delete_rows_route S pid table qs h)"
| "handle S wait path h (RestPreflight table) = as_response (aret (supabase_preflight (sr_env S) h))"
| "handle S wait path h (RestSelect table qs) = as_response (supabase_select_rows S table qs h)"
| "handle S wait path h (RestInsert table qs body) = as_response (supabase_insert_rows S table qs h body)"
| "handle S wait path h (RestUpdate table qs body) = as_response (supabase_update_rows S table qs h body)"
| "handle S wait path h (RestDelete table qs) = as_response (supabase_delete_rows S table qs h)"
| "handle S wait path h (ListPolicies pid) = as_json (list_policies_route S pid h)"
| "handle S wait path h (SetPolicyRoute pid body) = as_json (set_policy_route S pid h body)"
| "handle S wait path h (CreateBucketRoute pid name) = as_json (create_bucket_route S pid h name)"
| "handle S wait path h (Events pid since limit) = as_json (events_route S pid since limit h)"
| "handle S wait path h (Realtime pid since) = as_events (realtime_route S wait pid since h)"
| "handle S wait path h (PutObjectRoute pid bucket key body) = as_json (put_object_route S pid bucket key h body)"
| "handle S wait path h (GetObjectRoute pid bucket key) = as_response (get_object_route S pid bucket key h)"
| "handle S wait path h (DeleteObjectRoute pid bucket key) = as_json (delete_object_route S pid bucket key h)"
| "handle S wait path h (StorageCreateBucket body) = as_json (supabase_create_bucket S h body)"
| "handle S wait path h StorageListBuckets = as_json (supabase_list_buckets S h)"
| "handle S wait path h (StorageGetBucket bucket) = as_json (supabase_get_bucket S bucket h)"
| "handle S wait path h (StorageDeleteBucket bucket) = as_json (supabase_delete_bucket S bucket h)"
| "handle S wait path h (StorageUpload bucket key body) = as_json (supabase_upload_object S bucket key h body)"
| "handle S wait path h (StorageDownload bucket key) = as_response (supabase_download_object S bucket key h)"
| "handle S wait path h (StorageDelete bucket key) = as_json (supabase_delete_object S bucket key h)"
| "handle S wait path h (StorageList bucket body) = as_json (supabase_list_objects S bucket h body)"
| "handle S wait path h (RealtimeStream since table) = as_events (supabase_realtime_stream S wait since table h)"
| "handle S wait path h (AuthSignup body) = as_json (auth_signup S h body)"
| "handle S wait path h (AuthToken qs body) = as_json (auth_token S h qs body)"
| "handle S wait path h (AuthLogout scope_param) = as_json (auth_logout S scope_param h)"
| "handle S wait path h AuthGetUser = as_json (auth_get_user S h)"
| "handle S wait path h (AuthPutUser body) = as_json (auth_update_user_route S h body)"
| "handle S wait path h AuthSettings = as_json (aret auth_settings)"

section \<open>Who may call what\<close>

text \<open>The actors a route is for; \<open>None\<close> is a request whose credentials are refused.\<close>

fun open_route :: "route_request \<Rightarrow> bool" where
  "open_route Health = True"
| "open_route (RestPreflight table) = True"
| "open_route (AuthSignup body) = True"
| "open_route (AuthToken qs body) = True"
| "open_route AuthSettings = True"
| "open_route _ = False"

fun row_route :: "route_request \<Rightarrow> bool" where
  "row_route (SelectRows pid table qs) = True"
| "row_route (InsertRow pid table body) = True"
| "row_route (UpdateRows pid table qs body) = True"
| "row_route (DeleteRows pid table qs) = True"
| "row_route (RestSelect table qs) = True"
| "row_route (RestInsert table qs body) = True"
| "row_route (RestUpdate table qs body) = True"
| "row_route (RestDelete table qs) = True"
| "row_route (PutObjectRoute pid bucket key body) = True"
| "row_route (GetObjectRoute pid bucket key) = True"
| "row_route (DeleteObjectRoute pid bucket key) = True"
| "row_route _ = False"

fun user_route :: "route_request \<Rightarrow> bool" where
  "user_route (StorageUpload bucket key body) = True"
| "user_route (StorageDownload bucket key) = True"
| "user_route (StorageDelete bucket key) = True"
| "user_route (StorageList bucket body) = True"
| "user_route (RealtimeStream since table) = True"
| "user_route _ = False"

fun subject_route :: "route_request \<Rightarrow> bool" where
  "subject_route (AuthLogout scope_param) = True"
| "subject_route AuthGetUser = True"
| "subject_route (AuthPutUser body) = True"
| "subject_route _ = False"

definition route_admits :: "route_request \<Rightarrow> actor option \<Rightarrow> bool" where
  "route_admits rq a \<longleftrightarrow> open_route rq \<or>
     (case a of
        None \<Rightarrow> False
      | Some a \<Rightarrow>
          if row_route rq then True
          else if user_route rq then \<not> is_anon a
          else if subject_route rq then actor_sub a \<noteq> None
          else is_admin a)"

definition caller :: "('w, 'c, 'u, 'l, 'n) server \<Rightarrow> header_map \<Rightarrow> ('w, 'c, 'n) service \<Rightarrow> actor option" where
  "caller S h s =
     (case request_actor (sr_crypto S) (sr_env S) (i64_wrap (int (sr_unix S (sv_reads s)))) h of
        Inl e \<Rightarrow> None | Inr a \<Rightarrow> Some a)"

text \<open>A refusal: the answer, and a state of the service in which only the clock was read.\<close>

definition refused :: "('w, 'c, 'n) service \<Rightarrow> (api_error + 'a) \<times> ('w, 'c, 'n) service \<Rightarrow> bool" where
  "refused s res \<longleftrightarrow> (\<exists>e. fst res = Inl e \<and> err_status e \<in> {401, 403}) \<and> sv_node (snd res) = sv_node s"

lemma refused_bind: "refused s (act s) \<Longrightarrow> refused s (abind act f s)"
  by (auto simp: refused_def abind_def split: prod.splits sum.splits)

lemma read_actor: "service_actor S h s =
    (rmap_err (\<lambda>e. e) (request_actor (sr_crypto S) (sr_env S) (i64_wrap (int (sr_unix S (sv_reads s)))) h),
     s\<lparr>sv_reads := Suc (sv_reads s)\<rparr>)"
  by (cases "request_actor (sr_crypto S) (sr_env S) (i64_wrap (int (sr_unix S (sv_reads s)))) h")
    (simp_all add: service_actor_def now_unix_def read_clock_def abind_def)

lemma actor_error_status: "request_actor cr env now h = Inl e \<Longrightarrow> err_status e = 401"
  by (auto simp: request_actor_def unauthorized_def result_simps split: option.splits)

lemma refused_actor: "caller S h s = None \<Longrightarrow> refused s (abind (service_actor S h) f s)"
  by (rule refused_bind) (auto simp: caller_def read_actor refused_def dest: actor_error_status split: sum.splits)

lemma refused_checked:
  assumes "case caller S h s of None \<Rightarrow> True | Some a \<Rightarrow> \<exists>e. chk a = Inl e \<and> err_status e \<in> {401, 403}"
  shows "refused s (abind (service_actor S h) (\<lambda>a. abind (alift (chk a)) (f a)) s)"
  using assms
  by (auto simp: caller_def read_actor refused_def abind_def dest: actor_error_status split: sum.splits)

lemma refused_admin:
  assumes "case caller S h s of None \<Rightarrow> True | Some a \<Rightarrow> \<not> is_admin a"
  shows "refused s (abind (admin_actor S h) f s)"
  using assms
  by (intro refused_bind)
    (auto simp: caller_def refused_def admin_actor_def now_unix_def read_clock_def abind_def require_admin_def
      dest: actor_error_status split: sum.splits)

lemma refused_storage:
  assumes "case caller S h s of None \<Rightarrow> True | Some a \<Rightarrow> is_anon a"
  shows "refused s (abind (storage_user S h) f s)"
  using assms
  by (intro refused_bind)
    (auto simp: caller_def refused_def storage_user_def now_unix_def read_clock_def abind_def require_storage_user_def
      dest: actor_error_status split: sum.splits)
definition left_alone :: "('w, 'c, 'u, 'l, 'n) server \<Rightarrow> ('w, 'c, 'n) service
      \<Rightarrow> (api_error + 'a) \<times> ('w, 'c, 'n) service \<Rightarrow> bool" where
  "left_alone S s res \<longleftrightarrow> sv_node (snd res) = sv_node s \<and> (should_forward_write (server_options S) \<or> refused s res)"

lemma refused_left_alone: "refused s res \<Longrightarrow> left_alone S s res"
  by (auto simp: refused_def left_alone_def)

lemma left_alone_answer:
  "left_alone S s (act s) \<Longrightarrow> left_alone S s (as_json act s)"
  "left_alone S s (act' s) \<Longrightarrow> left_alone S s (as_response act' s)"
  "left_alone S s (act'' s) \<Longrightarrow> left_alone S s (as_events act'' s)"
  by (auto simp: left_alone_def refused_def as_json_def as_response_def as_events_def abind_def split: prod.splits sum.splits)

lemma forward_keeps_node: "sv_node (snd (forward_request_json S meth uri h body s)) = sv_node s"
  by (simp add: forward_request_json_def on_forward_def split: prod.split)

lemma left_alone_forward:
  "refused s (here s) \<Longrightarrow> left_alone S s (forward_or S meth uri h body here s)"
  "refused s (here' s) \<Longrightarrow> left_alone S s (supabase_forward_or S meth uri h body here' s)"
  using forward_keeps_node [of S meth uri h body s]
  by (auto simp: left_alone_def forward_or_def supabase_forward_or_def abind_def refused_def split: prod.splits sum.splits)

lemmas route_defs = tokens_def create_project_route_def hibernate_route_def crash_route_def schema_route_def
  create_table_route_def select_rows_route_def insert_row_route_def update_rows_route_def delete_rows_route_def
  supabase_select_rows_def supabase_insert_rows_def supabase_update_rows_def supabase_delete_rows_def
  list_policies_route_def set_policy_route_def create_bucket_route_def events_route_def realtime_route_def
  put_object_route_def get_object_route_def delete_object_route_def supabase_create_bucket_def
  supabase_list_buckets_def supabase_get_bucket_def supabase_delete_bucket_def supabase_upload_object_def
  supabase_download_object_def supabase_delete_object_def supabase_list_objects_def
  supabase_realtime_stream_def auth_logout_def auth_get_user_def auth_update_user_route_def

lemma refused_tokens: "\<not> route_admits (Tokens body) (caller S h s) \<Longrightarrow> refused s (tokens S h body s)"
  using refused_admin [of S h s]
  by (auto simp: tokens_def route_admits_def refused_def [of _ "(_, _)"] split: option.splits)

lemma refused_stream:
  "case caller S h s of None \<Rightarrow> True | Some a \<Rightarrow> is_anon a \<Longrightarrow>
    refused s (abind (service_actor S h) (\<lambda>a. if is_anon a then athrow (api_err 403 m) else f a) s)"
  by (auto simp: caller_def read_actor refused_def abind_def dest: actor_error_status split: sum.splits)

section \<open>A replica does not write\<close>

text \<open>The routes that write rows, objects, tables, policies, buckets or users.\<close>

fun write_route :: "route_request \<Rightarrow> bool" where
  "write_route (CreateProject body) = True"
| "write_route (CreateTableRoute pid spec) = True"
| "write_route (InsertRow pid table body) = True"
| "write_route (UpdateRows pid table qs body) = True"
| "write_route (DeleteRows pid table qs) = True"
| "write_route (RestInsert table qs body) = True"
| "write_route (RestUpdate table qs body) = True"
| "write_route (RestDelete table qs) = True"
| "write_route (SetPolicyRoute pid spec) = True"
| "write_route (CreateBucketRoute pid name) = True"
| "write_route (PutObjectRoute pid bucket key body) = True"
| "write_route (DeleteObjectRoute pid bucket key) = True"
| "write_route (StorageCreateBucket body) = True"
| "write_route (StorageDeleteBucket bucket) = True"
| "write_route (StorageUpload bucket key body) = True"
| "write_route (StorageDelete bucket key) = True"
| "write_route (AuthSignup body) = True"
| "write_route (AuthLogout scope_param) = True"
| "write_route (AuthPutUser body) = True"
| "write_route _ = False"

definition same_node :: "('w, 'c, 'n) service \<Rightarrow> ('w, 'c, 'n) service \<Rightarrow> bool" where
  "same_node s s1 \<longleftrightarrow> sv_node s1 = sv_node s"

interpretation node_order: step_order same_node
  by unfold_locales (simp_all add: same_node_def)

named_theorems node_intros \<open>actions that leave the node of the service\<close>

lemma keeps_node [node_intros]:
  "keeps same_node (now_unix S)" "keeps same_node (service_actor S h)" "keeps same_node (admin_actor S h)"
  "keeps same_node (storage_user S h)" "keeps same_node (forward_request_json S meth uri h body)"
  "keeps same_node (read_clock f)" "keeps same_node (draw f')" "keeps same_node (check_auth_rate_limit S h)"
  by (auto simp: keeps_def same_node_def now_unix_def read_clock_def draw_def forward_request_json_def on_forward_def
      service_actor_def admin_actor_def storage_user_def abind_def check_auth_rate_limit_def Let_def split: prod.splits)

text \<open>On a replica a submitted write is answered 405, before anything else.\<close>

definition refused_write :: "('w, 'c, 'a) node_action \<Rightarrow> bool" where
  "refused_write act \<longleftrightarrow> (\<exists>m. \<forall>n. act n = (Inl (api_err 405 m), n))"

lemma replica_submit:
  "read_replica (rt_opts (mc_rt (wr_machine W))) \<Longrightarrow> refused_write (submit_write_with_idempotency W pid kind key)"
  "read_replica (rt_opts (mc_rt M)) \<Longrightarrow> refused_write (create_project M path routing pid)"
  unfolding refused_write_def
  by (rule exI, simp add: submit_write_with_idempotency_def create_project_def ensure_primary_write_allowed_def abind_def)+

lemma refused_write_node:
  assumes "refused_write act"
  shows "keeps same_node (on_node act)" and "\<not> is_ok (fst (abind (on_node act) f s))"
    and "keeps same_node (served S act)" and "\<not> is_ok (fst (served S act s))"
  using assms by (auto simp: refused_write_def keeps_def same_node_def on_node_def served_def abind_def)

lemmas submit_defs = create_table_with_idempotency_def set_policy_with_idempotency_def insert_row_with_idempotency_def
  upsert_row_with_idempotency_def update_rows_with_idempotency_def delete_rows_with_idempotency_def
  update_rows_postgrest_def delete_rows_postgrest_def create_bucket_with_idempotency_def put_object_with_idempotency_def
  delete_object_with_idempotency_def runtime_delete_bucket_def submit_kind_def auth_create_user_def
  auth_revoke_sessions_def Project_Service.auth_update_user_def

text \<open>An action that leaves the node, and succeeds at most where writes are forwarded.\<close>

definition passes_on :: "('w, 'c, 'u, 'l, 'n) server \<Rightarrow> ('w, 'c, 'n, 'a) service_action \<Rightarrow> bool" where
  "passes_on S act \<longleftrightarrow>
     keeps same_node act \<and> (\<forall>s. should_forward_write (server_options S) \<or> \<not> is_ok (fst (act s)))"

lemma passes_on_bind: "keeps same_node m \<Longrightarrow> (\<And>x. passes_on S (f x)) \<Longrightarrow> passes_on S (abind m f)"
  by (auto simp: passes_on_def abind_def node_order.keeps_bind split: prod.splits sum.splits)

lemma passes_on_lift: "(\<And>x. r = Inr x \<Longrightarrow> passes_on S (f x)) \<Longrightarrow> passes_on S (abind (alift r) f)"
  by (cases r) (auto simp: passes_on_def abind_def keeps_def same_node_def)

lemma passes_on_first:
  assumes "passes_on S m" and "\<And>x. keeps same_node (f x)"
  shows "passes_on S (abind m f)"
proof -
  have "\<not> is_ok (fst (abind m f s))" if "\<not> is_ok (fst (m s))" for s
    using that by (auto simp: abind_def split: prod.splits sum.splits)
  then show ?thesis
    using assms by (auto simp: passes_on_def node_order.keeps_bind)
qed

lemma passes_on_node:
  assumes "refused_write act"
  shows "passes_on S (abind (on_node act) f)" and "passes_on S (served S act)" and "passes_on S (on_node act)"
  using assms by (auto simp: refused_write_def passes_on_def keeps_def same_node_def on_node_def served_def abind_def)

lemma passes_on_forward:
  "passes_on S here \<Longrightarrow> passes_on S (forward_or S meth uri h body here)"
  "passes_on S here' \<Longrightarrow> passes_on S (supabase_forward_or S meth uri h body here')"
  by (auto simp: passes_on_def forward_or_def supabase_forward_or_def intro!: node_order.keeps_bind node_intros)

lemma passes_on_answer:
  "passes_on S act \<Longrightarrow> passes_on S (as_json act)" "passes_on S act' \<Longrightarrow> passes_on S (as_response act')"
  by (auto simp: as_json_def as_response_def intro: passes_on_first)

lemma passes_on_insert:
  assumes "read_replica (server_options S)" and "rows \<noteq> []"
  shows "passes_on S (abind (insert_each S table uri h a idx rows) (\<lambda>x. aret (f x)))"
proof -
  obtain row rest where rows: "rows = row # rest" using assms(2) by (cases rows) auto
  have "refused_write (if up then upsert_row_with_idempotency (sr_writer S) pid table row a key
      else insert_row_with_idempotency (sr_writer S) pid table row a key)" for up pid key
    using assms(1) by (simp add: submit_defs replica_submit server_options_def server_runtime_def)
  from passes_on_node(1) [OF this] have "passes_on S (insert_each S table uri h a idx rows)"
    unfolding rows insert_each.simps Let_def .
  then show ?thesis by (rule passes_on_first) (rule node_order.keeps_pure)
qed

lemma normalized_rows: "normalize_supabase_insert_body body = Inr rows \<Longrightarrow> rows \<noteq> []"
  by (auto simp: normalize_supabase_insert_body_def split: json.splits if_splits)

lemma passes_on_create_project:
  assumes "read_replica (server_options S)"
  shows "passes_on S (create_project_route S path h body)"
proof -
  have "refused_write (create_project (wr_machine (sr_writer S)) path routing pid)" for routing pid
    using assms by (simp add: replica_submit server_options_def server_runtime_def)
  from passes_on_node(2) [OF this, of S] have "passes_on S (\<lambda>s. case routing_info (server_options S)
        (fn_now (sr_net S) (fs_world (sv_forward s))) (fs_health (sv_forward s)) of
      (routing, health) \<Rightarrow> served S (create_project (wr_machine (sr_writer S)) path routing (requested_project body))
        (s\<lparr>sv_forward := (sv_forward s)\<lparr>fs_health := health\<rparr>\<rparr>))"
    by (auto simp: passes_on_def keeps_def same_node_def split: prod.split)
  then show ?thesis
    by (auto simp: create_project_route_def intro!: passes_on_bind passes_on_forward node_intros)
qed

lemma keeps_hash [node_intros]:
  "keeps same_node (hash_password S p)" "keeps same_node (gen_uuid S)" "keeps same_node (patch_hash S body)"
  by (auto simp: hash_password_def gen_uuid_def patch_hash_def intro!: node_order.keeps_bind node_intros split: option.splits)

section \<open>The stream\<close>


section \<open>Several rows in one request\<close>

text \<open>A request with several rows is one write for each: when a row fails, the rows before it stay.\<close>

lemma bulk_insert_keeps_earlier_rows:
  assumes "insert_each S table uri h a idx rows s = (Inr inserted, s1)"
    and "insert_each S table uri h a (idx + length rows) [row] s1 = (Inl e, s2)"
  shows "insert_each S table uri h a idx (rows @ row # rest) s = (Inl e, s2)"
  using assms
proof (induction rows arbitrary: idx s inserted)
  case Nil
  then show ?case by (auto simp: Let_def act_simps)
next
  case (Cons r rs)
  then show ?case by (auto simp: Let_def act_simps)
qed

text \<open>The keys of the rows of a request are derived from its key and meet those of other requests.\<close>

lemma row_keys_collide:
  assumes "idempotency_key h = Some key" and "idempotency_key h' = Some (key @ '':1'')"
  shows "supabase_write_idempotency sha meth uri h content_type body 1
       = supabase_write_idempotency sha meth uri h' content_type body 0"
proof -
  have "show_nat 1 = ''1''" by code_simp
  then show ?thesis using assms by (simp add: supabase_write_idempotency_def)
qed

end
