(* ===== verification/Http_Auth_Properties.thy ===== *)
theory Http_Auth_Properties
  imports Http_Auth Write_Pipeline_Properties
begin

text \<open>
  Properties of the authentication endpoints: the rate limiter is a sliding window, a session is
  given for a password or a live refresh token and carries a token for its user, and the profile
  endpoints keep the password hash to themselves.
\<close>

section \<open>The rate limiter\<close>

text \<open>The requests let through, in a run of the limiter and as the window is meant: a request is
  let through when fewer than the maximum of its key were in the window before it.\<close>

definition limiter_step ::
    "nat \<Rightarrow> nat \<Rightarrow> nat \<times> string \<Rightarrow> (nat \<times> string) list \<times> rate_buckets \<Rightarrow> (nat \<times> string) list \<times> rate_buckets" where
  "limiter_step W mx = (\<lambda>(now, key) (passed, buckets).
     case limiter_check W mx key now buckets of
       (ok, b) \<Rightarrow> (if ok then passed @ [(now, key)] else passed, b))"

definition in_window :: "nat \<Rightarrow> nat \<Rightarrow> string \<Rightarrow> (nat \<times> string) list \<Rightarrow> nat list" where
  "in_window W now key passed = filter (\<lambda>t. now - t < W) (map fst (filter (\<lambda>r. snd r = key) passed))"

definition window_step :: "nat \<Rightarrow> nat \<Rightarrow> nat \<times> string \<Rightarrow> (nat \<times> string) list \<Rightarrow> (nat \<times> string) list" where
  "window_step W mx = (\<lambda>(now, key) passed.
     if length (in_window W now key passed) < mx then passed @ [(now, key)] else passed)"

definition bucket_of :: "rate_buckets \<Rightarrow> string \<Rightarrow> nat list" where
  "bucket_of b key = (case bt_get b key of None \<Rightarrow> [] | Some ts \<Rightarrow> ts)"

text \<open>What a bucket holds matters only for the window of later requests.\<close>

definition buckets_track :: "nat \<Rightarrow> nat \<Rightarrow> (nat \<times> string) list \<Rightarrow> rate_buckets \<Rightarrow> bool" where
  "buckets_track W last_now passed b \<longleftrightarrow>
     (\<forall>key now. last_now \<le> now \<longrightarrow> filter (\<lambda>t. now - t < W) (bucket_of b key) = in_window W now key passed)"

lemma window_shrinks: "last_now \<le> now \<Longrightarrow> filter (\<lambda>t. now - t < W) (filter (\<lambda>t. last_now - t < W) ts)
    = filter (\<lambda>t. now - (t :: nat) < W) ts"
  by (induction ts) auto

lemma limiter_step_tracks:
  assumes "buckets_track W last_now passed b" and "last_now \<le> now"
    and "limiter_step W mx (now, key) (passed, b) = (passed1, b1)"
  shows "passed1 = window_step W mx (now, key) passed \<and> buckets_track W now passed1 b1"
proof -
  let ?kept = "filter (\<lambda>t. now - t < W) (bucket_of b key)"
  have kept: "?kept = in_window W now key passed"
    using assms(1,2) by (simp add: buckets_track_def)
  have step: "passed1 = window_step W mx (now, key) passed"
    "b1 = bt_insert key (if length ?kept < mx then ?kept @ [now] else ?kept) b"
    using assms(3) kept
    by (auto simp: limiter_step_def limiter_check_def window_step_def bucket_of_def Let_def split: if_splits)
  have later: "filter (\<lambda>t. later - t < W) (bucket_of b k) = in_window W later k passed" if "now \<le> later" for later k
    using assms(1,2) that by (simp add: buckets_track_def)
  have "filter (\<lambda>t. later - t < W) (bucket_of b1 k) = in_window W later k passed1" if "now \<le> later" for later k
    using later [OF that, of k] kept window_shrinks [OF that, of W "bucket_of b key"]
    by (auto simp: step window_step_def in_window_def bucket_of_def bt_get_insert)
  then show ?thesis using step(1) by (simp add: buckets_track_def)
qed

lemma limiter_run_tracks:
  assumes "sorted (map fst requests)" and "\<And>r. r \<in> set requests \<Longrightarrow> fst r \<le> last_now"
  shows "\<exists>b. fold (limiter_step W mx) requests ([], []) = (fold (window_step W mx) requests [], b)
    \<and> buckets_track W last_now (fold (window_step W mx) requests []) b"
  using assms
proof (induction requests arbitrary: last_now rule: rev_induct)
  case Nil
  show ?case by (simp add: buckets_track_def bucket_of_def in_window_def bt_get_empty)
next
  case (snoc r rs)
  obtain now key where r: "r = (now, key)" by fastforce
  have "now \<le> last_now" using snoc.prems(2) [of r] by (simp add: r)
  have "sorted (map fst rs)" "\<And>x. x \<in> set rs \<Longrightarrow> fst x \<le> now"
    using snoc.prems(1) by (auto simp: r sorted_append)
  from snoc.IH [OF this] obtain b where
    b: "fold (limiter_step W mx) rs ([], []) = (fold (window_step W mx) rs [], b)"
    "buckets_track W now (fold (window_step W mx) rs []) b" by blast
  obtain passed1 b1 where next1: "limiter_step W mx (now, key) (fold (window_step W mx) rs [], b) = (passed1, b1)"
    by fastforce
  have "passed1 = window_step W mx (now, key) (fold (window_step W mx) rs [])" "buckets_track W now passed1 b1"
    using limiter_step_tracks [OF b(2) order_refl next1] by auto
  then have "fold (limiter_step W mx) (rs @ [r]) ([], []) = (fold (window_step W mx) (rs @ [r]) [], b1)"
    "buckets_track W now (fold (window_step W mx) (rs @ [r]) []) b1"
    using b(1) next1 by (simp_all add: r)
  then show ?case
    using \<open>now \<le> last_now\<close> by (intro exI [of _ b1]) (simp add: buckets_track_def)
qed

lemma passed_subset: "set (fold (window_step W mx) requests []) \<subseteq> set requests"
proof (induction requests rule: rev_induct)
  case (snoc r rs)
  then show ?case by (cases r) (auto simp: window_step_def)
qed simp

lemma count_in_window:
  assumes "\<And>p. p \<in> set passed \<Longrightarrow> fst p \<le> now" and "start \<le> now" and "now < start + W"
  shows "length (filter (\<lambda>r. snd r = key \<and> start \<le> fst r \<and> fst r < start + W) passed)
    \<le> length (in_window W now key passed)"
  using assms by (induction passed) (auto simp: in_window_def)

lemma window_bound:
  assumes "sorted (map fst requests)"
  shows "length (filter (\<lambda>r. snd r = key \<and> start \<le> fst r \<and> fst r < start + W) (fold (window_step W mx) requests [])) \<le> mx"
  using assms
proof (induction requests rule: rev_induct)
  case (snoc r rs)
  obtain now k where r: "r = (now, k)" by fastforce
  let ?passed = "fold (window_step W mx) rs []"
  have "fst p \<le> now" if "p \<in> set ?passed" for p
    using passed_subset [of W mx rs] snoc.prems that by (auto simp: r sorted_append)
  from count_in_window [where key = key and start = start and W = W, OF this] snoc show ?case
    by (fastforce simp: r window_step_def sorted_append)
qed simp
text \<open>C35: the limiter lets through exactly the requests a sliding window lets through, one in whose
  window fewer than the maximum of its key passed before it, and so no window of its length ever
  holds more than the maximum of one key, whatever the other keys do. The instants are those of a
  monotonic clock.\<close>

theorem rate_limit_is_sliding_window:
  assumes "sorted (map fst requests)"
  shows "fst (fold (limiter_step W mx) requests ([], [])) = fold (window_step W mx) requests []
    \<and> length (filter (\<lambda>r. snd r = key \<and> start \<le> fst r \<and> fst r < start + W)
           (fst (fold (limiter_step W mx) requests ([], [])))) \<le> mx"
proof -
  obtain last_now where "\<forall>t \<in> fst ` set requests. t \<le> last_now"
    using finite_nat_set_iff_bounded_le [of "fst ` set requests"] by auto
  then have same: "fst (fold (limiter_step W mx) requests ([], [])) = fold (window_step W mx) requests []"
    using limiter_run_tracks [OF assms, of last_now W mx] by auto
  show ?thesis unfolding same using window_bound [OF assms] by simp
qed

lemma rate_limit_is_sliding_window_witness:
  "fst (fold (limiter_step 60 2) [(0, ''a''), (10, ''a''), (20, ''b''), (59, ''a''), (60, ''a'')] ([], []))
     = [(0, ''a''), (10, ''a''), (20, ''b''), (60, ''a'')]"
  using rate_limit_is_sliding_window [of "[(0, ''a''), (10, ''a''), (20, ''b''), (59, ''a''), (60, ''a'')]" 60 2]
  by (simp add: window_step_def in_window_def)

section \<open>Reading the users\<close>

definition stored_auth :: "('w, 'c, 'u) writer \<Rightarrow> ('w, 'c) node \<Rightarrow> auth_tables option" where
  "stored_auth W n =
     map_option (\<lambda>st. pt_auth (tables_of W \<lparr>px_host = nd_host n, px_st = st\<rparr>)) (nd_state n)"

lemma read_auth_open:
  assumes "read_auth fuel W pid act n = (Inr x, n')" and "stored_auth W n = Some T"
    and "\<not> read_replica (rt_opts (mc_rt (wr_machine W)))"
  shows "\<exists>faults db'. act (rt_serde (mc_rt (wr_machine W))) \<lparr>db_tables = T, db_faults = faults\<rparr> = (Inr x, db')"
proof -
  obtain st where st: "nd_state n = Some st" and T: "T = pt_auth (tables_of W \<lparr>px_host = nd_host n, px_st = st\<rparr>)"
    using assms(2) by (auto simp: stored_auth_def)
  obtain n1 where ready: "ensure_project_for_read fuel (wr_machine W) pid None n = (Inr (), n1)"
    and run: "node_state (on_auth W (act (rt_serde (mc_rt (wr_machine W))))) n1 = (Inr x, n')"
    using assms(1) by (auto simp: read_auth_def read_project_def act_simps)
  have "n1 = n"
    using ready assms(3) st by (auto simp: ensure_project_for_read_def ensure_project_def act_simps split: if_splits)
  obtain faults where view: "wr_view W (ps_conn st) = \<lparr>db_tables = tables_of W \<lparr>px_host = nd_host n, px_st = st\<rparr>,
      db_faults = faults\<rparr>"
    by (metis sql_db.surjective old.unit.exhaust px.select_convs(2) tables_of_def)
  obtain r db' where act: "act (rt_serde (mc_rt (wr_machine W))) \<lparr>db_tables = T, db_faults = faults\<rparr> = (r, db')"
    by fastforce
  have "rmap_err auth_api_error r = Inr x"
    using run st \<open>n1 = n\<close> act view
    by (auto simp: node_state_def on_auth_def on_conn_def zoom_def amap_err_def T split: prod.splits)
  then have "r = Inr x" by (cases r) simp_all
  with act show ?thesis by blast
qed
section \<open>Sessions\<close>

text \<open>A response that opens a session: the user as stored, the refresh token, and an access token
  that is accepted for its hour as the user's, in this session.\<close>

definition opens_session :: "('w, 'c, 'u, 'l, 'n) server \<Rightarrow> json \<Rightarrow> string \<Rightarrow> json \<Rightarrow> bool" where
  "opens_session S user sid v \<longleftrightarrow>
     jget v ''user'' = Some user \<and> (\<exists>refresh. jget v ''refresh_token'' = Some (JString refresh)) \<and>
     (\<exists>token issued. jget v ''access_token'' = Some (JString token) \<and>
       (\<forall>later \<le> i64_wrap (issued + 3600).
          verify_token (sr_crypto S) (sr_env S) later token =
            Inr \<lparr>actor_sub = Some (session_user_id user), actor_role = ''authenticated'',
                 actor_claims = session_claims user sid\<rparr>))"

lemma session_claims_exact: "json_exact (JObject (session_claims user sid))"
  by (auto simp: session_claims_def Let_def bt_wf_def split: option.splits)

lemma session_response_opens:
  assumes "session_response S user refresh sid now s = (Inr v, s1)" and "crypto_ok (sr_crypto S)"
  shows "opens_session S user sid v"
proof -
  let ?now = "i64_wrap (int (sr_unix S (sv_reads s)))"
  obtain token where token: "mint_token (sr_crypto S) (sr_env S) ?now (session_user_id user) ''authenticated''
      (session_claims user sid) (Some access_token_ttl) = Inr token"
    and v: "v = jobj [(''access_token'', JString token), (''token_type'', JString ''bearer''),
         (''expires_in'', json_of_int access_token_ttl),
         (''expires_at'', json_of_int (i64_wrap (now + access_token_ttl))),
         (''refresh_token'', JString refresh), (''user'', user_to_json user)]"
    using assms(1)
    by (auto simp: session_response_def now_unix_def read_clock_def act_simps result_simps)
  have "verify_token (sr_crypto S) (sr_env S) later token
      = Inr \<lparr>actor_sub = Some (session_user_id user), actor_role = ''authenticated'', actor_claims = session_claims user sid\<rparr>"
    if "later \<le> i64_wrap (?now + 3600)" for later
    using that by (intro mint_then_verify [OF assms(2) token session_claims_exact i64_wrap_range])
      (simp add: access_token_ttl_def)
  then show ?thesis
    by (auto simp: opens_session_def v jget_jobj user_to_json_def)
qed

lemma build_session_opens:
  assumes "build_session S user s = (Inr v, s1)" and "crypto_ok (sr_crypto S)"
  shows "\<exists>sid. opens_session S user sid v"
  using assms by (auto simp: build_session_def build_session_with_response_def act_simps dest: session_response_opens)

lemma known_user_found:
  assumes "get_user_by_email_or_phone pick sd i db = (Inr (Some user), db')"
    and "\<And>rows. rows \<noteq> [] \<Longrightarrow> pick rows \<in> set rows"
  shows "\<exists>u \<in> set (at_users (db_tables db)). (u_email u = Some i \<or> u_phone u = Some i) \<and> from_json_text sd (u_json u) = Some user"
proof -
  let ?rows = "users_known_as (db_tables db) i"
  have "?rows \<noteq> []" "from_json_text sd (u_json (pick ?rows)) = Some user"
    using assms(1)
    by (auto simp: get_user_by_email_or_phone_def auth_stmt_def act_simps db_simps parse_user_def result_simps Let_def
        split: if_splits)
  with assms(2) [of ?rows] show ?thesis by (auto simp: users_known_as_def)
qed

lemma active_token_found:
  assumes "get_active_refresh_token sd token now db = (Inr v, db')"
  shows "\<exists>uid sid raw user. find_active (db_tables db) token now = Some (uid, sid, raw)
    \<and> from_json_text sd raw = Some user \<and> v = session_json sid user"
  using assms
  by (auto simp: get_active_refresh_token_def auth_stmt_def act_simps db_simps parse_user_def result_simps split: option.splits)

text \<open>What the client has shown: the password of a stored user it named by email or phone, or a
  refresh token that is live, of a live session.\<close>

definition password_shown :: "('w, 'c, 'u, 'l, 'n) server \<Rightarrow> auth_tables \<Rightarrow> json \<Rightarrow> json \<Rightarrow> bool" where
  "password_shown S T body user \<longleftrightarrow>
     (\<exists>i password hash. login_identifier body = Some i \<and> jget_with as_str body ''password'' = Some password \<and>
        (\<exists>u \<in> set (at_users T). (u_email u = Some i \<or> u_phone u = Some i) \<and>
           from_json_text (rt_serde (server_runtime S)) (u_json u) = Some user) \<and>
        jget_with as_str user ''password_hash'' = Some hash \<and> verify_password S password hash)"

definition token_shown :: "('w, 'c, 'u, 'l, 'n) server \<Rightarrow> auth_tables \<Rightarrow> int \<Rightarrow> json \<Rightarrow> json \<Rightarrow> string \<Rightarrow> bool" where
  "token_shown S T now body user sid \<longleftrightarrow>
     (\<exists>token uid raw. jget_with as_str body ''refresh_token'' = Some token \<and>
        find_active T token now = Some (uid, sid, raw) \<and>
        from_json_text (rt_serde (server_runtime S)) raw = Some user)"

lemma limit_keeps_node:
  "check_auth_rate_limit S h s = (r, s1) \<Longrightarrow> sv_node s1 = sv_node s \<and> sv_reads s1 = Suc (sv_reads s)"
  by (auto simp: check_auth_rate_limit_def read_clock_def abind_def Let_def split: prod.splits)

lemma abind_ok:
  assumes "abind m f s = (Inr y, s2)"
  obtains x s1 where "m s = (Inr x, s1)" and "f x s1 = (Inr y, s2)"
  using assms by (auto simp: act_simps)

lemma on_node_run: "on_node act s = (r, s1) \<longleftrightarrow> (\<exists>n. act (sv_node s) = (r, n) \<and> s1 = s\<lparr>sv_node := n\<rparr>)"
  by (auto simp: on_node_def split: prod.splits)

lemma password_grant_shown:
  assumes "password_grant S body s = (Inr v, s1)" and "stored_auth (sr_writer S) (sv_node s) = Some T"
    and "\<not> read_replica (server_options S)" and "crypto_ok (sr_crypto S)"
    and "\<And>rows. rows \<noteq> [] \<Longrightarrow> sr_pick S rows \<in> set rows"
  shows "\<exists>user sid. opens_session S user sid v \<and> password_shown S T body user"
proof -
  obtain i password user s2 where body: "login_identifier body = Some i" "jget_with as_str body ''password'' = Some password"
    and found: "on_node (auth_get_user_by_email_or_phone (sr_fuel S) (sr_writer S) (sr_pick S) (auth_project_id S) i) s
      = (Inr (Some user), s2)"
    and matches: "password_matches S password user" and session: "build_session S user s2 = (Inr v, s1)"
    using assms(1)
    by (auto simp: password_grant_def act_simps body_str_def result_simps bind_eq_Some_conv split: if_splits)
  obtain hash where "jget_with as_str user ''password_hash'' = Some hash" "verify_password S password hash"
    using matches by (auto simp: password_matches_def split: option.splits)
  moreover have "\<exists>u \<in> set (at_users T). (u_email u = Some i \<or> u_phone u = Some i)
      \<and> from_json_text (rt_serde (server_runtime S)) (u_json u) = Some user"
  proof -
    obtain n where "read_auth (sr_fuel S) (sr_writer S) (auth_project_id S)
        (\<lambda>sd. get_user_by_email_or_phone (sr_pick S) sd i) (sv_node s) = (Inr (Some user), n)"
      using found by (auto simp: on_node_run auth_get_user_by_email_or_phone_def)
    from read_auth_open [OF this assms(2)] assms(3) known_user_found [OF _ assms(5)] show ?thesis
      unfolding server_options_def server_runtime_def by (metis sql_db.select_convs(1))
  qed
  ultimately have "password_shown S T body user" using body by (auto simp: password_shown_def)
  then show ?thesis using build_session_opens [OF session assms(4)] by blast
qed

lemma refresh_grant_shown:
  assumes "refresh_grant S body s = (Inr v, s1)" and "stored_auth (sr_writer S) (sv_node s) = Some T"
    and "\<not> read_replica (server_options S)" and "crypto_ok (sr_crypto S)"
  shows "\<exists>user sid. opens_session S user sid v
    \<and> token_shown S T (i64_wrap (int (sr_unix S (sv_reads s)))) body user sid"
proof -
  let ?now = "i64_wrap (int (sr_unix S (sv_reads s)))"
  from assms(1) obtain token where body: "jget_with as_str body ''refresh_token'' = Some token"
    by (auto simp: refresh_grant_def body_str_def result_simps elim!: abind_ok)
  let ?new = "b64url_encode (sr_crypto S) (sr_random S (sv_draws s) 32)"
  let ?s0 = "s\<lparr>sv_draws := Suc (sv_draws s), sv_reads := Suc (sv_reads s)\<rparr>"
  have steps: "gen_refresh_token S s = (Inr ?new, s\<lparr>sv_draws := Suc (sv_draws s)\<rparr>)"
    "now_unix S (s\<lparr>sv_draws := Suc (sv_draws s)\<rparr>) = (Inr ?now, ?s0)"
    "body_str body ''refresh_token'' ''missing refresh_token'' = Inr token"
    by (simp_all add: gen_refresh_token_def draw_def now_unix_def read_clock_def body_str_def body)
  from assms(1) have "abind (on_node (auth_get_active_refresh_token (sr_fuel S) (sr_writer S) (auth_project_id S) token ?now))
       (\<lambda>current.
     abind (alift (ok_or (api_err 500 ''refresh token missing session id'') (jget_with as_str current ''session_id'')))
       (\<lambda>session_id.
     abind (alift (ok_or (api_err 500 ''refresh token missing user'') (jget current ''user''))) (\<lambda>user.
     abind (session_response S user ?new session_id ?now) (\<lambda>session.
     abind (on_node (auth_rotate_refresh_token (sr_writer S) (auth_project_id S) token ?new ?now
              (i64_wrap (?now + refresh_token_ttl)))) (\<lambda>_.
       aret session))))) ?s0 = (Inr v, s1)"
    unfolding refresh_grant_def by (simp only: steps(3) alift_run abind_run steps(1,2))
  then obtain current n sid user s2 s3 where
    found: "auth_get_active_refresh_token (sr_fuel S) (sr_writer S) (auth_project_id S) token ?now (sv_node s) = (Inr current, n)"
    and parts: "jget_with as_str current ''session_id'' = Some sid" "jget current ''user'' = Some user"
    and session: "session_response S user ?new sid ?now s2 = (Inr v, s3)"
    by (elim abind_ok) (simp add: on_node_run result_simps, metis)
  obtain uid sid' raw user' where "find_active T token ?now = Some (uid, sid', raw)"
      "from_json_text (rt_serde (server_runtime S)) raw = Some user'" "current = session_json sid' user'"
    using read_auth_open [OF found [unfolded auth_get_active_refresh_token_def] assms(2)] assms(3) active_token_found
    unfolding server_options_def server_runtime_def by (metis sql_db.select_convs(1))
  with parts body have "token_shown S T ?now body user sid"
    by (auto simp: token_shown_def session_json_def jget_jobj jget_with_def)
  then show ?thesis using session_response_opens [OF session assms(4)] by blast
qed

text \<open>C34: the token endpoint opens a session only for the password of a stored user, checked against
  the hash it is stored with, or for a refresh token that is live at the time, of a live session;
  the access token in the answer is that user's for an hour. The answer carries the user as stored,
  the password hash included.\<close>

theorem session_needs_credentials:
  assumes "auth_token S h q body s = (Inr v, s1)" and "stored_auth (sr_writer S) (sv_node s) = Some T"
    and "\<not> read_replica (server_options S)" and "crypto_ok (sr_crypto S)"
    and "\<And>rows. rows \<noteq> [] \<Longrightarrow> sr_pick S rows \<in> set rows"
  shows "\<exists>user sid. opens_session S user sid v
    \<and> (if map_of q ''grant_type'' = Some ''refresh_token''
       then token_shown S T (i64_wrap (int (sr_unix S (Suc (sv_reads s))))) body user sid
       else password_shown S T body user)"
proof -
  obtain s0 where limit: "check_auth_rate_limit S h s = (Inr (), s0)"
    and run: "(if str_or ''password'' (map_of q ''grant_type'') = ''password'' then password_grant S body
      else if str_or ''password'' (map_of q ''grant_type'') = ''refresh_token'' then refresh_grant S body
      else athrow (api_err 400 ''unsupported grant_type'')) s0 = (Inr v, s1)"
    using assms(1) by (auto simp: auth_token_def act_simps Let_def)
  note kept = limit_keeps_node [OF limit]
  show ?thesis
    using run password_grant_shown [OF _ _ assms(3,4,5), of body s0 v s1 T]
      refresh_grant_shown [OF _ _ assms(3,4), of body s0 v s1 T] kept assms(2)
    by (auto simp: str_or_def split: if_splits option.splits)
qed

section \<open>The profile\<close>

text \<open>The profile endpoints answer with the user and without its password hash.\<close>

theorem profile_hides_password:
  assumes "auth_get_user S h s = (Inr v, s1) \<or> auth_update_user_route S h body s = (Inr v, s1)"
  shows "\<exists>u. jget v ''user'' = Some u \<and> jget u ''password_hash'' = None"
proof -
  have "jget (public_user u) ''password_hash'' = None" for u
    by (cases u) (simp_all add: public_user_def bt_get_remove)
  then show ?thesis
    using assms by (auto simp: auth_get_user_def auth_update_user_route_def act_simps jget_jobj split: option.splits)
qed

end
