(* ===== verification/Http_Auth_Examples.thy ===== *)
theory Http_Auth_Examples
  imports Http_Auth_Properties Table_Examples
begin

text \<open>
  The authentication endpoints of the project of notes with one user, over a store that takes
  every write and holds nothing: a login, a refresh and the profile, evaluated.
\<close>

definition ada_user :: json where
  "ada_user = jobj [(''id'', JString ''u1''), (''email'', JString ''a@b''), (''password_hash'', JString ''$argon2:pw'')]"

definition ada_tables :: "note_rows project_tables" where
  "ada_tables = (db_tables notes_db)\<lparr>pt_auth :=
     \<lparr>at_users = [\<lparr>u_id = ''u1'', u_email = Some ''a@b'', u_phone = None, u_password_hash = ''$argon2:pw'',
        u_json = ''u1'', u_created_at = ''t'', u_updated_at = ''t''\<rparr>],
      at_tokens = [token_row_for ''r1'' ''u1'' ''s1'' None 900 9000],
      at_sessions = [\<lparr>s_id = ''s1'', s_user_id = ''u1'', s_created_at = 900, s_expires_at = 9000, s_revoked_at = None\<rparr>]\<rparr>\<rparr>"

text \<open>JSON texts are names: \<open>u1\<close> is the text of \<open>ada_user\<close>.\<close>

definition ada_serde :: serde where
  "ada_serde = \<lparr>to_json_text = (\<lambda>_. ''u1''), to_json_text_pretty = (\<lambda>_. ''u1''), from_json_text = (\<lambda>_. Some ada_user)\<rparr>"

definition quiet_store :: "unit object_store" where
  "quiet_store =
     \<lparr>os_describe = (\<lambda>k w. k), os_exists = (\<lambda>k w. (Inr False, w)), os_read_bytes = (\<lambda>k w. (Inl ''not found'', w)),
      os_len = (\<lambda>k w. (Inr None, w)), os_put_bytes = (\<lambda>k d w. (Inr (), w)),
      os_put_bytes_if_absent = (\<lambda>k d w. (Inr True, w)), os_put_file = (\<lambda>k src w. (Inr (), w)),
      os_delete = (\<lambda>k w. (Inr (), w)), os_delete_prefix = (\<lambda>p w. (Inr (), w)), os_list_prefix = (\<lambda>p w. (Inr [], w))\<rparr>"

definition ada_machine :: "(unit, note_rows project_tables) machine" where
  "ada_machine =
     \<lparr>mc_rt = \<lparr>rt_id = ''a'', rt_opts = default_options, rt_serde = ada_serde, rt_sha256 = (\<lambda>d. take 32 d),
        rt_json_error = (\<lambda>d. ''expected value'')\<rparr>,
      mc_store = quiet_store, mc_clock = (\<lambda>n. 1000),
      mc_engine = \<lparr>en_open_in_memory = Inl ''none'', en_open = (\<lambda>mode c. (Inr ada_tables, c)),
        en_ensure_meta = (\<lambda>conn c. (Inr (), conn, c)), en_vacuum_into = (\<lambda>conn c. Inl ''disk full''),
        en_close = (\<lambda>conn c. c)\<rparr>,
      mc_disk = (\<lambda>_. None), mc_process_id = 1\<rparr>"

definition ada_writer :: "(unit, note_rows project_tables, note_rows) writer" where
  "ada_writer =
     \<lparr>wr_machine = ada_machine, wr_tables = notes_engine, wr_view = (\<lambda>conn. \<lparr>db_tables = conn, db_faults = []\<rparr>),
      wr_commit = (\<lambda>db conn c. (db_tables db, c)), wr_sql_now = (\<lambda>_. ''t'')\<rparr>"

definition ada_server :: "(unit, note_rows project_tables, note_rows, string, nat) server" where
  "ada_server =
     \<lparr>sr_writer = ada_writer, sr_fuel = 0, sr_pick = hd, sr_crypto = sample_crypto, sr_env = (\<lambda>_. None),
      sr_net = sample_net,
      sr_passwords = \<lparr>pw_hash = (\<lambda>k p. Inr (''$argon2:'' @ p)), pw_check = (\<lambda>h p. Some (h = ''$argon2:'' @ p))\<rparr>,
      sr_unix = (\<lambda>_. 1000), sr_instant = (\<lambda>k. k), sr_random = (\<lambda>k n. replicate n (CHR ''r''))\<rparr>"

definition ada_service :: "(unit, note_rows project_tables, nat) service" where
  "ada_service =
     \<lparr>sv_node = \<lparr>nd_host = \<lparr>h_sys = \<lparr>sys_world = (), sys_ticks = 0\<rparr>, h_cache = \<lparr>c_db = Some [], c_wal = Some []\<rparr>,
        h_tmp = (\<lambda>_. None), h_disk_ops = 0\<rparr>,
      nd_state = Some \<lparr>ps_project_id = ''demo'', ps_conn = ada_tables, ps_generation = 0, ps_commit_seq = 0,
       ps_current_snapshot = Some \<lparr>sm_key = ''k'', sm_bytes = 0, sm_sha256 = ''h''\<rparr>, ps_wal_segments = [],
       ps_last_durable_wal_bytes = 0, ps_next_wal_segment_id = 0, ps_ops_since_snapshot = 0, ps_last_snapshot_at_ms = 0,
       ps_writer_lease_fencing_token = None\<rparr>\<rparr>,
      sv_forward = \<lparr>fs_world = 0, fs_health = [], fs_trace_seq = 0\<rparr>,
      sv_limiter = auth_rate_limiter (\<lambda>_. None), sv_reads = 0, sv_draws = 0\<rparr>"

definition ada_login :: json where
  "ada_login = jobj [(''email'', JString ''a@b''), (''password'', JString ''pw'')]"
lemma ada_logs_in: "is_ok (fst (auth_token ada_server no_headers [] ada_login ada_service))"
  by code_simp

lemma ada_ready:
  "stored_auth (sr_writer ada_server) (sv_node ada_service) = Some (pt_auth ada_tables)"
  "\<not> read_replica (server_options ada_server)" "crypto_ok (sr_crypto ada_server)"
  "rows \<noteq> [] \<Longrightarrow> sr_pick ada_server rows \<in> set rows"
  by (simp_all add: stored_auth_def tables_of_def ada_server_def ada_writer_def ada_service_def server_options_def
      server_runtime_def ada_machine_def default_options_def sample_crypto_ok)

lemma session_needs_credentials_witness:
  "\<exists>v user sid. fst (auth_token ada_server no_headers [] ada_login ada_service) = Inr v
     \<and> opens_session ada_server user sid v \<and> password_shown ada_server (pt_auth ada_tables) ada_login user"
proof -
  obtain v s1 where run: "auth_token ada_server no_headers [] ada_login ada_service = (Inr v, s1)"
    using ada_logs_in by (metis is_ok_iff prod.collapse)
  then show ?thesis
    using session_needs_credentials [OF run ada_ready] by auto
qed

definition ada_key :: header_map where
  "ada_key = no_headers(''apikey'' := Some (Some (projr
     (mint_token sample_crypto (\<lambda>_. None) 1000 ''u1'' ''authenticated'' [] (Some 3600)))))"

lemma ada_reads_profile: "fst (auth_get_user ada_server ada_key ada_service)
    = Inr (jobj [(''user'', jobj [(''id'', JString ''u1''), (''email'', JString ''a@b'')])])"
  by code_simp

lemma profile_hides_password_witness:
  "\<exists>u. jget (projr (fst (auth_get_user ada_server ada_key ada_service))) ''user'' = Some u \<and> jget u ''password_hash'' = None"
proof -
  obtain s1 where "auth_get_user ada_server ada_key ada_service
      = (Inr (jobj [(''user'', jobj [(''id'', JString ''u1''), (''email'', JString ''a@b'')])]), s1)"
    using ada_reads_profile by (metis prod.collapse)
  from profile_hides_password [OF disjI1, OF this] ada_reads_profile show ?thesis by simp
qed

end
