(* ===== verification/Http_Router_Examples.thy ===== *)
theory Http_Router_Examples
  imports Http_Router Http_Auth_Examples
begin


definition replica_server :: "(unit, note_rows project_tables, note_rows, string, nat) server" where
  "replica_server = ada_server\<lparr>sr_writer := ada_writer\<lparr>wr_machine := ada_machine\<lparr>mc_rt :=
     (mc_rt ada_machine)\<lparr>rt_opts := default_options\<lparr>read_replica := True\<rparr>\<rparr>\<rparr>\<rparr>\<rparr>"


definition bob_key :: header_map where
  "bob_key = no_headers(''apikey'' := Some (Some (projr
     (mint_token sample_crypto (\<lambda>_. None) 1000 ''u2'' ''authenticated'' [] (Some 3600)))))"


end
