(* ===== verification/Spec2Isabelle.thy ===== *)
theory Spec2Isabelle
  imports Auth Policy Postgrest_Properties Auth_Store_Properties Control_Plane Local_Store S3_Store Replica Launch Lease Durability_Properties Storage_Examples Table_Examples Write_Examples Realtime_Properties Http_Forward Http_Request_Properties Http_Router_Examples
begin

text \<open>
  A verification library for the Rust core of a serverless SQLite platform (\<open>rust-core/src\<close>).

  The program. A runtime serves projects, each one SQLite database. The object store is the truth:
  a manifest names a snapshot and a chain of WAL segments, and the database on local disk is a cache
  restored from it. A project has a single writer thread, which takes jobs from a bounded queue,
  checks its lease and WAL budget, runs a batch, and makes it durable (new WAL segment, then the
  manifest) before it answers any of them. Other runtimes may be read replicas, which refresh from
  the manifest and forward writes. Over this stand row policies, a PostgREST query language, object
  storage, users and sessions, a realtime protocol, and the HTTP routes.

  Theories and the code they model, from the bottom:

    \<^item> Vocabulary: \<open>Prelude\<close> (strings as bytes, \<open>Result\<close> as a sum, the named collections
      \<open>result_simps\<close>, \<open>string_simps\<close>), \<open>Text_Codec\<close> (decimal and hexadecimal text; locale
      \<open>seq_codec\<close>), \<open>BTree_Map\<close> (locale \<open>ordered_map\<close>), \<open>Json\<close>, \<open>Ident\<close> (errors, identifiers),
      \<open>Effects\<close> (actions with state and error; locale \<open>step_order\<close> of what every step of an action
      keeps), \<open>Sql_Db\<close> (tables, transactions, statements that may fail).
    \<^item> \<open>runtime_utils.rs\<close>: \<open>Runtime_Utils\<close>. \<open>auth.rs\<close>: \<open>Auth\<close>. \<open>policy.rs\<close>: \<open>Policy\<close>.
      \<open>postgrest.rs\<close>: \<open>Postgrest\<close>, \<open>Postgrest_Properties\<close>. \<open>auth_store.rs\<close>: \<open>Auth_Store\<close>,
      \<open>Auth_Store_Properties\<close>. \<open>control_plane.rs\<close>: \<open>Control_Plane\<close> (locale \<open>control_plane\<close>).
      \<open>realtime_protocol.rs\<close>: \<open>Realtime_Protocol\<close>, \<open>Realtime_Properties\<close> (locale \<open>json_codec\<close>).
    \<^item> \<open>object_store.rs\<close>: \<open>Object_Store\<close> (the trait and its contract, the locale
      \<open>object_store_contract\<close>), \<open>Local_Store\<close> over \<open>File_System\<close>, \<open>S3_Store\<close> over a client;
      \<open>Store_Prog\<close> has the methods that use a store as programs of single calls, which can be run as
      a whole (\<open>run_prog\<close>) or interleaved (\<open>store_step\<close>).
    \<^item> \<open>runtime.rs\<close>: \<open>Runtime_Base\<close> (options), \<open>Lease\<close> (the writer lease), \<open>Manifest\<close> (the structs and
      the specification \<open>recoverable\<close>), \<open>Project_Host\<close> (cache, disk faults, engine), \<open>Durability\<close>
      (\<open>ensure_project\<close>, restore, \<open>durabilize_wal\<close>, \<open>persist_snapshot\<close>, bookmarks, hibernation),
      \<open>Replica\<close> (\<open>replica_loop\<close>), \<open>Storage\<close> (buckets and objects), \<open>Table_Writes\<close> (schema, rows,
      events), \<open>Write_Pipeline\<close> (\<open>submit_write\<close> to \<open>execute_write_kind\<close>), \<open>Endpoint_Health\<close> (breaker
      and replica choice), \<open>Project_Service\<close> (the public methods).
    \<^item> \<open>http.rs\<close>: \<open>Http_Requests\<close> (headers, queries, digests, answers), \<open>Http_Forward\<close>
      (\<open>forward_json\<close>), \<open>Http_Auth\<close> (\<open>/auth/v1\<close>), \<open>Http_Handlers\<close>, \<open>Http_Router\<close> (\<open>app\<close>).
      \<open>main.rs\<close>: \<open>Launch\<close>.

  A struct of the code is a record with its fields, an enum a datatype, and a method a definition of
  the same name (with the name of its component in front where two have it) that returns the new
  state together with its result, so what a failing call did before it failed is kept.

  What the lemmas show:

    \<^item> Durability. \<open>Recovery\<close>, \<open>Snapshot_Safety\<close> and \<open>Durability_Properties\<close> prove the methods
      against \<open>recoverable\<close>: opening restores exactly what the manifest and its objects stand for or
      fails, and whichever call fails on the way the store goes from one recoverable database to
      another. \<open>Write_Pipeline_Properties\<close>, \<open>Write_Durability\<close> and \<open>Commit_Liveness\<close> compose this
      with the writer: answers come once and in order, after the flush; an acknowledged write is in
      what can be recovered; a repeated request under an idempotency key is not run again; and with
      a store and disk that work every job of a batch gets its answer.
    \<^item> Leases. Over all interleavings, takeovers get distinct fencing tokens; a renewal that races with
      one may repeat a token, and the manifest does not enforce it. Both are shown at concrete runs.
    \<^item> Replicas. The position moves to durable commits, forward only; writes are forwarded or refused.
    \<^item> Stores. The local store, with files and directories as they are, and the S3 store, with retries,
      pages and lost answers, keep the contract that all of the above rests on.
    \<^item> Access. The compiled policy selects what its evaluation accepts; inserts, updates and deletes are
      policed and atomic; values never become text of a statement; tokens and sessions are given
      for what proves them; objects are read and deleted by their owner; routes admit whom they are for.
    \<^item> Wire formats. Frames, query strings, digests, bookmarks and manifests are read back.

  The theories \<open>\<dots>_Examples\<close>, \<open>Memory_Store\<close> and \<open>Concrete_Packages\<close> apply the properties to concrete
  inputs and show that their hypotheses can hold together.

  Parameters. Code that is not in the repository is an argument of the definitions: the SQLite
  engine (\<open>engine\<close>, \<open>table_engine\<close> and the fields of \<open>writer\<close>), JSON text (\<open>serde\<close>), HMAC, SHA-256
  and Base64 (\<open>crypto\<close>), Argon2 (\<open>password_package\<close>), the HTTP client and URL package
  (\<open>forward_net\<close>), the AWS client (\<open>s3_client\<close>), clocks, random bytes, the process environment and
  device faults. What is asked of them is named: \<open>serde_roundtrip\<close> (what was printed is parsed),
  \<open>view_faithful\<close> (a connection shows what was committed), \<open>wal_grows\<close> (without checkpoints the WAL
  file is appended to), \<open>files_hold_tables\<close> (database and WAL, and a vacuumed copy, hold the tables of
  the connection), \<open>s3_service\<close> (the documented consistency of S3).

  Bounds and fuel. \<open>claim_rounds 4\<close> has the four rounds of the loop of \<open>claim_expired_writer_lease\<close>. \<open>wait_loop\<close> takes as fuel the rounds of the wait for a bookmark: a
  clock that advances by the sleep of 10 ms or more needs no more than a tenth of the timeout, and what is
  proved of a read holds for any fuel. \<open>s3_pages\<close> bounds the pages of a listing; \<open>list_pages_ends\<close>
  shows that one more than the number of keys is enough. Unsigned integers are natural numbers with the
  saturating and wrapping sums of the code written out, and properties that rest on sizes say so
  (\<open>state_small\<close>, \<open>manifest_small\<close>); doubles are their 64 bits.

  Not modelled: threads, channels and locks other than as the order of steps (the writer, the replica
  worker and the lease renewer are lists of steps, interleaved through the store); the asynchronous
  variants and \<open>AsyncObjectStore\<close>, which move the same calls to another thread; spans and log
  lines; path matching, extractors and the wire form of responses, which are the web framework's;
  what the SQL engine makes of the statements on the users' tables; crash injection
  (\<open>maybe_crash_after_stage\<close>), which stops the process where a failing call would stop the method;
  the programs under \<open>bin\<close>, which test and measure the library; the TypeScript client and the dashboard.
\<close>

end
